(* ===== verification/Prelude.thy ===== *)
theory Prelude
  imports Main "HOL-Library.AList" "HOL-Library.List_Lexorder" "HOL-Library.Char_ord"
begin

text \<open>
  Shared vocabulary of the development: the fact collections the component proofs use, the
  operations of Python's \<^verbatim>\<open>str\<close>, \<^verbatim>\<open>dict\<close> and \<^verbatim>\<open>sorted\<close> that the modelled code calls,
  and generic lemmas about them.

  A \<^verbatim>\<open>str\<close> is a HOL \<^verbatim>\<open>string\<close>, one \<^verbatim>\<open>char\<close> per code point: the model covers the
  strings over the code points U+0000 to U+00FF, where \<^verbatim>\<open>len\<close> is \<^verbatim>\<open>length\<close>, and the
  character classes below are those Python assigns to these code points. Literals of the source
  outside this range (enumeration values, messages) are constructors of datatypes instead.

  A \<^verbatim>\<open>dict\<close> is an association list with distinct keys in insertion order; assignment is
  \<^verbatim>\<open>AList.update\<close> (in place for a known key, at the end for a new one).
\<close>

named_theorems dict_simps \<open>lookup and key facts of dictionaries\<close>
named_theorems str_simps \<open>facts about the string operations\<close>

type_synonym 'v dict = "(string \<times> 'v) list"

section \<open>Character classes and string operations\<close>

definition char_code :: "char \<Rightarrow> nat" where
  "char_code c = of_char c"

text \<open>Whitespace of \<^verbatim>\<open>str.strip\<close> and of \<^verbatim>\<open>int\<close>/\<^verbatim>\<open>float\<close> parsing.\<close>

definition is_space :: "char \<Rightarrow> bool" where
  "is_space c = (let n = char_code c in (9 \<le> n \<and> n \<le> 13) \<or> (28 \<le> n \<and> n \<le> 32) \<or> n = 133 \<or> n = 160)"

text \<open>Decimal digits, which \<^verbatim>\<open>int\<close> accepts, and the wider class of \<^verbatim>\<open>str.isdigit\<close>, which
  also holds of the superscripts U+00B2, U+00B3 and U+00B9.\<close>

definition is_decimal :: "char \<Rightarrow> bool" where
  "is_decimal c = (let n = char_code c in 48 \<le> n \<and> n \<le> 57)"

definition is_digit_char :: "char \<Rightarrow> bool" where
  "is_digit_char c = (is_decimal c \<or> char_code c \<in> {178, 179, 185})"

definition py_isdigit :: "string \<Rightarrow> bool" where
  "py_isdigit s = (s \<noteq> [] \<and> list_all is_digit_char s)"

definition py_strip :: "string \<Rightarrow> string" where
  "py_strip s = rev (dropWhile is_space (rev (dropWhile is_space s)))"

text \<open>\<^verbatim>\<open>str.lower\<close> on U+0000 to U+00FF: the capital letters A-Z and U+00C0-U+00DE without
  the multiplication sign move up by 32.\<close>

definition lower_char :: "char \<Rightarrow> char" where
  "lower_char c = (let n = char_code c in
     if (65 \<le> n \<and> n \<le> 90) \<or> (192 \<le> n \<and> n \<le> 222 \<and> n \<noteq> 215) then char_of (n + 32) else c)"

definition py_lower :: "string \<Rightarrow> string" where
  "py_lower s = map lower_char s"

definition upper_ascii_char :: "char \<Rightarrow> char" where
  "upper_ascii_char c = (let n = char_code c in if 97 \<le> n \<and> n \<le> 122 then char_of (n - 32) else c)"

definition py_startswith :: "string \<Rightarrow> string \<Rightarrow> bool" where
  "py_startswith s p = (take (length p) s = p)"

definition py_endswith :: "string \<Rightarrow> string \<Rightarrow> bool" where
  "py_endswith s p = (length p \<le> length s \<and> drop (length s - length p) s = p)"

text \<open>\<^verbatim>\<open>sub in s\<close>.\<close>

fun py_contains :: "string \<Rightarrow> string \<Rightarrow> bool" where
  "py_contains [] sub = (sub = [])"
| "py_contains (c # s) sub = (take (length sub) (c # s) = sub \<or> py_contains s sub)"

text \<open>\<^verbatim>\<open>s.split(c)\<close> for a one-character separator: always at least one piece.\<close>

fun py_split :: "char \<Rightarrow> string \<Rightarrow> string list" where
  "py_split c [] = [[]]"
| "py_split c (x # s) =
     (if x = c then [] # py_split c s
      else case py_split c s of [] \<Rightarrow> [[x]] | p # ps \<Rightarrow> (x # p) # ps)"

text \<open>\<^verbatim>\<open>s.partition(c)\<close> without the separator: the text before and after the first \<^verbatim>\<open>c\<close>.\<close>

definition py_before :: "char \<Rightarrow> string \<Rightarrow> string" where
  "py_before c s = takeWhile (\<lambda>x. x \<noteq> c) s"

definition py_after :: "char \<Rightarrow> string \<Rightarrow> string" where
  "py_after c s = drop 1 (dropWhile (\<lambda>x. x \<noteq> c) s)"

text \<open>\<^verbatim>\<open>s.replace(p, q)\<close> for a non-empty \<^verbatim>\<open>p\<close>: left to right, without overlap.\<close>

function py_replace :: "string \<Rightarrow> string \<Rightarrow> string \<Rightarrow> string" where
  "py_replace [] p q = []"
| "py_replace (x # s) p q =
     (if p \<noteq> [] \<and> py_startswith (x # s) p then q @ py_replace (drop (length p) (x # s)) p q
      else x # py_replace s p q)"
  by pat_completeness auto
termination
proof (relation "measure (\<lambda>(s, p, q). length s)", goal_cases)
  case (2 x s p q)
  then show ?case by (cases p) auto
qed auto

text \<open>The value of a digit string; \<^verbatim>\<open>None\<close> where \<^verbatim>\<open>int\<close> raises \<^verbatim>\<open>ValueError\<close>.\<close>

fun dec_value :: "int \<Rightarrow> string \<Rightarrow> int option" where
  "dec_value acc [] = Some acc"
| "dec_value acc (c # s) =
     (if is_decimal c then dec_value (acc * 10 + (int (char_code c) - 48)) s else None)"

text \<open>\<^verbatim>\<open>str(n)\<close> of an integer; \<^verbatim>\<open>pos_str\<close> writes the digits of a non-negative one.\<close>

definition digit_char :: "int \<Rightarrow> char" where
  "digit_char d = char_of (48 + d)"

function pos_str :: "int \<Rightarrow> string" where
  "pos_str n = (if n < 10 then [digit_char n] else pos_str (n div 10) @ [digit_char (n mod 10)])"
  by pat_completeness auto
termination by (relation "measure nat") auto

declare pos_str.simps [simp del]

definition int_str :: "int \<Rightarrow> string" where
  "int_str i = (if i < 0 then CHR ''-'' # pos_str (- i) else pos_str i)"

subsection \<open>Lemmas\<close>

lemma dropWhile_eq_self: "(\<And>x xs'. xs = x # xs' \<Longrightarrow> \<not> P x) \<Longrightarrow> dropWhile P xs = xs"
  by (cases xs) auto

lemma hd_dropWhile_not: "dropWhile P xs = y # ys \<Longrightarrow> \<not> P y"
  by (metis hd_dropWhile list.distinct(1) list.sel(1))

lemma py_strip_decomp:
  "\<exists>l r. s = l @ py_strip s @ r \<and> list_all is_space l \<and> list_all is_space r"
proof -
  let ?d = "dropWhile is_space s"
  have "s = takeWhile is_space s @ ?d" by simp
  moreover have "?d = rev (dropWhile is_space (rev ?d)) @ rev (takeWhile is_space (rev ?d))"
    by (metis rev_append rev_rev_ident takeWhile_dropWhile_id)
  moreover have "list_all is_space (takeWhile is_space s)"
    and "list_all is_space (rev (takeWhile is_space (rev ?d)))"
    by (auto simp: list_all_iff dest: set_takeWhileD)
  ultimately show ?thesis unfolding py_strip_def by metis
qed

lemma py_strip_Nil [simp]: "py_strip [] = []"
  by (simp add: py_strip_def)

lemma py_strip_idem [simp]: "py_strip (py_strip s) = py_strip s"
proof -
  let ?t = "dropWhile is_space s"
  have "dropWhile is_space (rev (dropWhile is_space (rev ?t))) = rev (dropWhile is_space (rev ?t))"
  proof (cases ?t)
    case (Cons x xs)
    then have "\<not> is_space x" by (rule hd_dropWhile_not)
    with Cons show ?thesis by (auto simp: dropWhile_append)
  next
    case Nil
    show ?thesis unfolding Nil by simp
  qed
  then show ?thesis by (simp add: py_strip_def)
qed

lemma set_py_strip: "set (py_strip s) \<subseteq> set s"
  using py_strip_decomp[of s] by (metis UnCI set_append subsetI)

lemma py_contains_prefix: "py_contains (sub @ r) sub"
  by (cases "sub @ r") (simp, metis append_eq_conv_conj py_contains.simps(2))

lemma py_contains_append: "py_contains (l @ sub @ r) sub"
  by (induction l) (simp_all add: py_contains_prefix)

lemma py_contains_iff: "py_contains s sub \<longleftrightarrow> (\<exists>l r. s = l @ sub @ r)"
proof
  show "py_contains s sub \<Longrightarrow> \<exists>l r. s = l @ sub @ r"
  proof (induction s)
    case (Cons c s)
    show ?case
    proof (cases "take (length sub) (c # s) = sub")
      case True
      then have "c # s = [] @ sub @ drop (length sub) (c # s)"
        by (metis append_Nil append_take_drop_id)
      then show ?thesis by blast
    next
      case False
      with Cons obtain l r where "s = l @ sub @ r" by auto
      then have "c # s = (c # l) @ sub @ r" by simp
      then show ?thesis by blast
    qed
  qed simp
qed (use py_contains_append in blast)

lemma py_split_nonempty [simp]: "py_split c s \<noteq> []"
  by (induction s) (auto split: list.splits)

lemma py_startswith_iff: "py_startswith s p \<longleftrightarrow> (\<exists>t. s = p @ t)"
  unfolding py_startswith_def by (metis append_eq_conv_conj append_take_drop_id)

lemma py_startswith_append [simp]: "py_startswith (p @ t) p"
  by (auto simp: py_startswith_iff)

lemma py_endswith_iff: "py_endswith s p \<longleftrightarrow> (\<exists>t. s = t @ p)"
  unfolding py_endswith_def by (metis append_eq_conv_conj append_take_drop_id diff_add_inverse2
      le_add2 length_append)

lemma dec_value_append:
  "dec_value a (s @ t) = (case dec_value a s of None \<Rightarrow> None | Some b \<Rightarrow> dec_value b t)"
  by (induction s arbitrary: a) auto

lemma digit_char_code: "0 \<le> d \<Longrightarrow> d < 10 \<Longrightarrow> int (char_code (digit_char d)) = 48 + d"
proof -
  assume a: "0 \<le> d" "d < 10"
  have "int (char_code (digit_char d)) = of_char (char_of (48 + d) :: char)"
    by (simp only: char_code_def digit_char_def of_nat_of_char)
  also have "\<dots> = (48 + d) mod 256" by (simp add: of_char_of)
  finally show ?thesis using a by simp
qed

lemma digit_char_decimal: "0 \<le> d \<Longrightarrow> d < 10 \<Longrightarrow> is_decimal (digit_char d)"
  using digit_char_code[of d] by (simp add: is_decimal_def Let_def)

lemma pos_str_nonempty [simp]: "pos_str n \<noteq> []"
  by (subst pos_str.simps) simp

lemma pos_str_decimal: "0 \<le> n \<Longrightarrow> list_all is_decimal (pos_str n)"
proof (induction n rule: pos_str.induct)
  case (1 n)
  then show ?case by (subst pos_str.simps) (auto simp: digit_char_decimal)
qed

lemma dec_value_pos_str: "0 \<le> n \<Longrightarrow> dec_value 0 (pos_str n) = Some n"
proof (induction n rule: pos_str.induct)
  case (1 n)
  show ?case
  proof (cases "n < 10")
    case True
    with 1 show ?thesis
      by (subst pos_str.simps) (simp add: digit_char_decimal digit_char_code)
  next
    case False
    with 1 have "dec_value 0 (pos_str (n div 10)) = Some (n div 10)" by simp
    moreover have "n div 10 * 10 + n mod 10 = n" by simp
    ultimately show ?thesis using False
      by (subst pos_str.simps) (simp add: dec_value_append digit_char_decimal digit_char_code)
  qed
qed

lemma pos_str_isdigit: "0 \<le> n \<Longrightarrow> py_isdigit (pos_str n)"
  using pos_str_decimal[of n] by (auto simp: py_isdigit_def is_digit_char_def list_all_iff)

lemma decimal_not_space: "is_decimal c \<Longrightarrow> \<not> is_space c"
  by (auto simp: is_decimal_def is_space_def Let_def)

lemma py_strip_no_space: "list_all (\<lambda>c. \<not> is_space c) s \<Longrightarrow> py_strip s = s"
proof -
  assume a: "list_all (\<lambda>c. \<not> is_space c) s"
  then have "dropWhile is_space s = s" by (cases s) auto
  moreover have "dropWhile is_space (rev s) = rev s"
  proof (rule dropWhile_eq_self)
    fix x xs'
    assume "rev s = x # xs'"
    then have "x \<in> set s" by (metis list.set_intros(1) set_rev)
    with a show "\<not> is_space x" by (simp add: list_all_iff)
  qed
  ultimately show ?thesis by (simp add: py_strip_def)
qed

lemma py_strip_pos_str: "0 \<le> n \<Longrightarrow> py_strip (pos_str n) = pos_str n"
  using pos_str_decimal[of n] by (intro py_strip_no_space) (auto simp: list_all_iff decimal_not_space)

section \<open>Dictionaries\<close>

definition dict_update :: "'v dict \<Rightarrow> 'v dict \<Rightarrow> 'v dict" where
  "dict_update d e = fold (\<lambda>(k, v). AList.update k v) e d"

abbreviation keys :: "('k \<times> 'v) list \<Rightarrow> 'k list" where
  "keys d \<equiv> map fst d"

lemma map_of_update [dict_simps]: "map_of (AList.update k v d) = (map_of d)(k \<mapsto> v)"
  by (simp add: update_conv')

lemma keys_update: "keys (AList.update k v d) = (if k \<in> set (keys d) then keys d else keys d @ [k])"
  by (induction d) auto

lemma distinct_keys_update [dict_simps]:
  "distinct (keys d) \<Longrightarrow> distinct (keys (AList.update k v d))"
  by (auto simp: keys_update)

lemma set_keys_update [dict_simps]: "fst ` set (AList.update k v d) = insert k (fst ` set d)"
  using keys_update[of k v d] by (metis Un_insert_right insert_absorb list.set(1) list.simps(15)
      set_append set_map sup_bot_right)

lemma dict_update_Nil [simp]: "dict_update d [] = d"
  by (simp add: dict_update_def)

lemma dict_update_Cons [simp]: "dict_update d ((k, v) # e) = dict_update (AList.update k v d) e"
  by (simp add: dict_update_def)

lemma dict_update_append: "dict_update d (e @ f) = dict_update (dict_update d e) f"
  by (simp add: dict_update_def)

lemma distinct_keys_dict_update [dict_simps]:
  "distinct (keys d) \<Longrightarrow> distinct (keys (dict_update d e))"
  by (induction e arbitrary: d) (auto simp: distinct_keys_update)

lemma set_keys_dict_update [dict_simps]: "fst ` set (dict_update d e) = fst ` set d \<union> fst ` set e"
proof (induction e arbitrary: d)
  case (Cons kv e)
  then show ?case by (cases kv) (simp add: set_keys_update)
qed simp

lemma map_of_dict_update [dict_simps]: "map_of (dict_update d e) = map_of d ++ map_of (rev e)"
proof (induction e arbitrary: d)
  case (Cons kv e)
  then show ?case by (cases kv) (auto simp: map_of_update map_add_upd_left fun_eq_iff map_add_def
        split: option.splits)
qed simp

section \<open>Sorting and results\<close>

text \<open>\<^verbatim>\<open>sorted\<close> with a key is stable, as is \<^verbatim>\<open>sort_key\<close>.\<close>

lemma sort_key_same: "sorted (map f xs) \<Longrightarrow> sort_key f xs = xs"
  by (rule sort_key_id_if_sorted) simp

lemma find_append: "find P (xs @ ys) = (case find P xs of Some x \<Rightarrow> Some x | None \<Rightarrow> find P ys)"
  by (induction xs) auto

text \<open>A list of optional results: all of them or none.\<close>

fun all_some :: "'a option list \<Rightarrow> 'a list option" where
  "all_some [] = Some []"
| "all_some (x # xs) =
     (case x of None \<Rightarrow> None | Some y \<Rightarrow> map_option ((#) y) (all_some xs))"

end
