(* ===== verification/PyFloat.thy ===== *)
theory PyFloat
  imports Complex_Main Prelude "HOL-Library.Log_Nat"
begin

text \<open>
  Python's \<^verbatim>\<open>float\<close>: IEEE 754 binary64 with round-half-even, as far as the modelled code uses
  it (construction from \<^verbatim>\<open>int\<close> and from text, the four operations, comparison,
  \<^verbatim>\<open>is_integer\<close>, \<^verbatim>\<open>repr\<close>). A finite value is the exact rational it denotes;
  \<^verbatim>\<open>round_double\<close> is the correctly rounded conversion every operation ends with, so an
  operation is: compute on rationals, round.
\<close>

datatype pyfloat = FFin rat | FNegZero | FInf | FNegInf | FNaN

section \<open>Rounding\<close>

definition pow2 :: "int \<Rightarrow> rat" where
  "pow2 e = (if 0 \<le> e then 2 ^ nat e else 1 / 2 ^ nat (- e))"

definition pow10 :: "int \<Rightarrow> rat" where
  "pow10 e = (if 0 \<le> e then 10 ^ nat e else 1 / 10 ^ nat (- e))"

definition round_half_even :: "rat \<Rightarrow> int" where
  "round_half_even x = (let f = \<lfloor>x\<rfloor>; r = x - of_int f in
     if r < 1 / 2 then f else if r > 1 / 2 then f + 1 else if even f then f else f + 1)"

text \<open>The binary exponent of a positive rational: \<^verbatim>\<open>2 ^ e \<le> q < 2 ^ (e + 1)\<close>.\<close>

definition exponent2 :: "rat \<Rightarrow> int" where
  "exponent2 q = (let (n, d) = quotient_of q; e = bitlen n - bitlen d
     in if pow2 e \<le> q then e else e - 1)"

definition round_positive :: "rat \<Rightarrow> pyfloat" where
  "round_positive q =
     (let t = max (exponent2 q - 52) (- 1074);
          v = of_int (round_half_even (q / pow2 t)) * pow2 t
      in if pow2 1024 \<le> v then FInf else FFin v)"

definition f_neg :: "pyfloat \<Rightarrow> pyfloat" where
  "f_neg f = (case f of FFin q \<Rightarrow> if q = 0 then FNegZero else FFin (- q)
     | FNegZero \<Rightarrow> FFin 0 | FInf \<Rightarrow> FNegInf | FNegInf \<Rightarrow> FInf | FNaN \<Rightarrow> FNaN)"

definition round_double :: "rat \<Rightarrow> pyfloat" where
  "round_double q =
     (if q = 0 then FFin 0 else if 0 < q then round_positive q else f_neg (round_positive (- q)))"

section \<open>Observers\<close>

definition f_value :: "pyfloat \<Rightarrow> rat option" where
  "f_value f = (case f of FFin q \<Rightarrow> Some q | FNegZero \<Rightarrow> Some 0 | _ \<Rightarrow> None)"

definition f_negative :: "pyfloat \<Rightarrow> bool" where
  "f_negative f = (case f of FFin q \<Rightarrow> q < 0 | FNegZero \<Rightarrow> True | FNegInf \<Rightarrow> True | _ \<Rightarrow> False)"

definition f_is_zero :: "pyfloat \<Rightarrow> bool" where
  "f_is_zero f = (f_value f = Some 0)"

text \<open>\<^verbatim>\<open>f.is_integer()\<close>: false of infinities and NaN.\<close>

definition f_is_integer :: "pyfloat \<Rightarrow> bool" where
  "f_is_integer f = (case f_value f of None \<Rightarrow> False | Some q \<Rightarrow> snd (quotient_of q) = 1)"

text \<open>\<^verbatim>\<open>int(f)\<close> truncates; it is only used where \<^verbatim>\<open>is_integer\<close> holds or on a finite
  value, \<^verbatim>\<open>None\<close> stands for \<^verbatim>\<open>OverflowError\<close> and \<^verbatim>\<open>ValueError\<close>.\<close>

definition f_to_int :: "pyfloat \<Rightarrow> int option" where
  "f_to_int f = map_option (\<lambda>q. if 0 \<le> q then \<lfloor>q\<rfloor> else - \<lfloor>- q\<rfloor>) (f_value f)"

definition f_eq :: "pyfloat \<Rightarrow> pyfloat \<Rightarrow> bool" where
  "f_eq f g = (case (f_value f, f_value g) of
     (Some p, Some q) \<Rightarrow> p = q | _ \<Rightarrow> f = g \<and> f \<noteq> FNaN)"

definition f_less :: "pyfloat \<Rightarrow> pyfloat \<Rightarrow> bool" where
  "f_less f g = (case (f_value f, f_value g) of
     (Some p, Some q) \<Rightarrow> p < q
   | _ \<Rightarrow> f \<noteq> FNaN \<and> g \<noteq> FNaN \<and> f \<noteq> g \<and> (f = FNegInf \<or> g = FInf))"

section \<open>Arithmetic\<close>

text \<open>\<^verbatim>\<open>float(n)\<close>: \<^verbatim>\<open>None\<close> where it raises \<^verbatim>\<open>OverflowError\<close>.\<close>

definition f_of_int :: "int \<Rightarrow> pyfloat option" where
  "f_of_int n = (case round_double (of_int n) of FFin q \<Rightarrow> Some (FFin q) | _ \<Rightarrow> None)"

definition signed_zero :: "bool \<Rightarrow> pyfloat" where
  "signed_zero neg = (if neg then FNegZero else FFin 0)"

definition f_add :: "pyfloat \<Rightarrow> pyfloat \<Rightarrow> pyfloat" where
  "f_add f g = (case (f_value f, f_value g) of
     (Some p, Some q) \<Rightarrow>
        if p + q = 0 then signed_zero (f_negative f \<and> f_negative g) else round_double (p + q)
   | (Some _, None) \<Rightarrow> g
   | (None, Some _) \<Rightarrow> f
   | (None, None) \<Rightarrow> if f = g then f else FNaN)"

definition f_sub :: "pyfloat \<Rightarrow> pyfloat \<Rightarrow> pyfloat" where
  "f_sub f g = f_add f (f_neg g)"

definition signed_inf :: "bool \<Rightarrow> pyfloat" where
  "signed_inf neg = (if neg then FNegInf else FInf)"

definition f_mul :: "pyfloat \<Rightarrow> pyfloat \<Rightarrow> pyfloat" where
  "f_mul f g = (let neg = (f_negative f \<noteq> f_negative g) in
     case (f_value f, f_value g) of
       (Some p, Some q) \<Rightarrow> if p * q = 0 then signed_zero neg else round_double (p * q)
     | _ \<Rightarrow> if f = FNaN \<or> g = FNaN \<or> f_is_zero f \<or> f_is_zero g then FNaN else signed_inf neg)"

text \<open>Division; the code checks for a zero divisor first.\<close>

definition f_div :: "pyfloat \<Rightarrow> pyfloat \<Rightarrow> pyfloat" where
  "f_div f g = (let neg = (f_negative f \<noteq> f_negative g) in
     case (f_value f, f_value g) of
       (Some p, Some q) \<Rightarrow> if p = 0 then signed_zero neg else round_double (p / q)
     | (Some _, None) \<Rightarrow> if g = FNaN then FNaN else signed_zero neg
     | (None, Some _) \<Rightarrow> if f = FNaN then FNaN else signed_inf neg
     | (None, None) \<Rightarrow> FNaN)"

section \<open>Text to float\<close>

text \<open>Underscores are allowed between two digits; \<^verbatim>\<open>None\<close> where one stands elsewhere.\<close>

fun drop_underscores :: "bool \<Rightarrow> string \<Rightarrow> string option" where
  "drop_underscores after [] = Some []"
| "drop_underscores after (c # s) =
     (if c = CHR ''_''
      then (case s of d # _ \<Rightarrow> if after \<and> is_decimal d then drop_underscores False s else None
            | [] \<Rightarrow> None)
      else map_option ((#) c) (drop_underscores (is_decimal c) s))"

definition split_sign :: "string \<Rightarrow> bool \<times> string" where
  "split_sign s = (case s of c # t \<Rightarrow>
       if c = CHR ''-'' then (True, t) else if c = CHR ''+'' then (False, t) else (False, s)
     | [] \<Rightarrow> (False, s))"

text \<open>The exponent part: nothing, or e followed by an optional sign and digits.\<close>

definition parse_exponent :: "string \<Rightarrow> int option" where
  "parse_exponent s = (case s of [] \<Rightarrow> Some 0
     | c # t \<Rightarrow> if c = CHR ''e'' \<or> c = CHR ''E''
         then (case split_sign t of (neg, u) \<Rightarrow>
                 if u = [] then None else map_option (\<lambda>n. if neg then - n else n) (dec_value 0 u))
         else None)"

definition parse_decimal :: "string \<Rightarrow> rat option" where
  "parse_decimal s =
     (let ip = takeWhile is_decimal s; r = dropWhile is_decimal s;
          (fp, r') = (case r of c # t \<Rightarrow> if c = CHR ''.'' then (takeWhile is_decimal t, dropWhile is_decimal t)
                                        else ([], r)
                      | [] \<Rightarrow> ([], []))
      in if ip @ fp = [] then None
         else case (dec_value 0 (ip @ fp), parse_exponent r') of
                (Some n, Some e) \<Rightarrow> Some (of_int n * pow10 (e - int (length fp)))
              | _ \<Rightarrow> None)"

text \<open>\<^verbatim>\<open>float(s)\<close>; \<^verbatim>\<open>None\<close> where it raises \<^verbatim>\<open>ValueError\<close>.\<close>

definition parse_float :: "string \<Rightarrow> pyfloat option" where
  "parse_float s =
     (case drop_underscores False (py_strip s) of None \<Rightarrow> None
      | Some t \<Rightarrow> (case split_sign t of (neg, u) \<Rightarrow>
          (let sgn = (\<lambda>f. if neg then f_neg f else f) in
           if py_lower u \<in> {''inf'', ''infinity''} then Some (sgn FInf)
           else if py_lower u = ''nan'' then Some FNaN
           else map_option (\<lambda>q. sgn (round_double q)) (parse_decimal u))))"

section \<open>Float to text\<close>

text \<open>The decimal exponent of a positive rational.\<close>

definition exponent10 :: "rat \<Rightarrow> int" where
  "exponent10 q = (let (n, d) = quotient_of q;
       e = int (length (pos_str n)) - int (length (pos_str d))
     in if pow10 e \<le> q then e else e - 1)"

text \<open>
  The shortest decimal that rounds to the value, nearest to it among the shortest: with
  \<^verbatim>\<open>k\<close> digits only the two neighbours of the value can be candidates. At 17 digits one
  always exists.
\<close>

definition decimal_candidates :: "rat \<Rightarrow> nat \<Rightarrow> (int \<times> int) list" where
  "decimal_candidates q k =
     (let p = exponent10 q - int k + 1; m = \<lfloor>q / pow10 p\<rfloor>;
          lo = (m, p); hi = (m + 1, p);
          near = (if q / pow10 p - of_int m \<le> 1 / 2 then [lo, hi] else [hi, lo])
      in filter (\<lambda>(m, p). round_double (of_int m * pow10 p) = FFin q) near)"

fun shortest_decimal :: "rat \<Rightarrow> nat \<Rightarrow> nat list \<Rightarrow> int \<times> int" where
  "shortest_decimal q k [] = (let p = exponent10 q - 16 in (round_half_even (q / pow10 p), p))"
| "shortest_decimal q k (x # xs) =
     (case decimal_candidates q k of [] \<Rightarrow> shortest_decimal q (Suc k) xs | c # _ \<Rightarrow> c)"

definition strip_zeros :: "string \<Rightarrow> string" where
  "strip_zeros ds = rev (dropWhile (\<lambda>c. c = CHR ''0'') (rev ds))"

text \<open>The layout of \<^verbatim>\<open>repr\<close>: scientific below 1e-4 and from 1e16.\<close>

definition layout_decimal :: "string \<Rightarrow> int \<Rightarrow> string" where
  "layout_decimal ds decpt =
     (if - 4 < decpt \<and> decpt \<le> 16 then
        (if decpt \<le> 0 then ''0.'' @ replicate (nat (- decpt)) (CHR ''0'') @ ds
         else if int (length ds) \<le> decpt
              then ds @ replicate (nat decpt - length ds) (CHR ''0'') @ ''.0''
         else take (nat decpt) ds @ ''.'' @ drop (nat decpt) ds)
      else
        (let e = decpt - 1; es = pos_str \<bar>e\<bar> in
           take 1 ds @ (if length ds = 1 then [] else ''.'' @ drop 1 ds)
           @ ''e'' @ (if e < 0 then ''-'' else ''+'')
           @ (if length es < 2 then ''0'' else []) @ es))"

definition positive_repr :: "rat \<Rightarrow> string" where
  "positive_repr q = (case shortest_decimal q 1 [1..<18] of (m, p) \<Rightarrow>
     (let ds = pos_str m in layout_decimal (strip_zeros ds) (int (length ds) + p)))"

definition float_repr :: "pyfloat \<Rightarrow> string" where
  "float_repr f = (case f of
     FInf \<Rightarrow> ''inf'' | FNegInf \<Rightarrow> ''-inf'' | FNaN \<Rightarrow> ''nan'' | FNegZero \<Rightarrow> ''-0.0''
   | FFin q \<Rightarrow> if q = 0 then ''0.0'' else if 0 < q then positive_repr q
               else CHR ''-'' # positive_repr (- q))"

section \<open>Facts\<close>

lemma f_eq_refl: "f \<noteq> FNaN \<Longrightarrow> f_eq f f"
  by (auto simp: f_eq_def split: option.splits)

lemma f_eq_sym: "f_eq f g = f_eq g f"
  by (auto simp: f_eq_def split: option.splits)

lemma f_nan [simp]: "\<not> f_eq FNaN g" "\<not> f_eq f FNaN" "\<not> f_less FNaN g" "\<not> f_less f FNaN"
  by (auto simp: f_eq_def f_less_def f_value_def split: option.splits pyfloat.splits)

text \<open>Trichotomy away from NaN.\<close>

lemma f_trichotomy: "f \<noteq> FNaN \<Longrightarrow> g \<noteq> FNaN \<Longrightarrow> f_less f g \<or> f_eq f g \<or> f_less g f"
  by (cases f; cases g) (auto simp: f_less_def f_eq_def f_value_def)

lemma f_less_irrefl [simp]: "\<not> f_less f f"
  by (auto simp: f_less_def split: option.splits)

lemma f_less_trans: "f_less f g \<Longrightarrow> f_less g h \<Longrightarrow> f_less f h"
  by (cases f; cases g; cases h) (auto simp: f_less_def f_value_def)

lemma f_less_not_eq: "f_less f g \<Longrightarrow> \<not> f_eq f g"
  by (cases f; cases g) (auto simp: f_less_def f_eq_def f_value_def)

lemma pow2_pos [simp]: "0 < pow2 e"
  by (simp add: pow2_def)

lemma round_half_even_int [simp]: "round_half_even (of_int n) = n"
  by (simp add: round_half_even_def Let_def)

lemma round_half_even_error: "\<bar>of_int (round_half_even x) - x\<bar> \<le> 1 / 2"
proof -
  have "of_int \<lfloor>x\<rfloor> \<le> x" and "x < of_int \<lfloor>x\<rfloor> + 1"
    using floor_correct[of x] by simp_all
  then show ?thesis by (auto simp: round_half_even_def Let_def abs_le_iff)
qed

text \<open>Integers below 2 ^ 53 are represented exactly.\<close>

lemma pow2_neg: "t \<le> 0 \<Longrightarrow> pow2 t = 1 / 2 ^ nat (- t)"
  by (cases "t = 0") (simp_all add: pow2_def)

lemma exponent2_int:
  assumes "0 < n" "n < 2 ^ 53"
  shows "exponent2 (of_int n) \<le> 52"
proof -
  have "(2::int) ^ nat (bitlen n - 1) \<le> n" using bitlen_bounds[of n] assms(1) by simp
  with assms(2) have "(2::int) ^ nat (bitlen n - 1) < 2 ^ 53" by linarith
  then have "nat (bitlen n - 1) < 53" by (rule power_less_imp_less_exp[rotated]) simp
  then have "bitlen n - 1 \<le> 52" by arith
  moreover have "bitlen (1::int) = 1" by code_simp
  ultimately have "bitlen n - bitlen 1 \<le> 52" by simp
  then show ?thesis by (simp add: exponent2_def Let_def)
qed

lemma round_positive_int:
  assumes "0 < n" "n < 2 ^ 53"
  shows "round_positive (of_int n) = FFin (of_int n)"
proof -
  let ?t = "max (exponent2 (of_int n) - 52) (- 1074)"
  have t: "?t \<le> 0" using exponent2_int[OF assms] by simp
  have "of_int n / pow2 ?t = (of_int (n * 2 ^ nat (- ?t)) :: rat)" using t by (simp add: pow2_neg)
  then have r: "round_half_even (of_int n / pow2 ?t) = n * 2 ^ nat (- ?t)" by (simp only: round_half_even_int)
  have v: "of_int (round_half_even (of_int n / pow2 ?t)) * pow2 ?t = (of_int n :: rat)"
    unfolding r using t by (simp add: pow2_neg)
  have "(of_int n :: rat) < of_int (2 ^ 53)" using assms(2) by (simp only: of_int_less_iff)
  also have "(of_int (2 ^ 53) :: rat) \<le> pow2 1024" by (simp add: pow2_def)
  finally have "\<not> pow2 1024 \<le> (of_int n :: rat)" by simp
  then show ?thesis by (simp add: round_positive_def Let_def v)
qed

lemma round_double_int: "\<bar>n\<bar> < 2 ^ 53 \<Longrightarrow> round_double (of_int n) = FFin (of_int n)"
proof -
  assume a: "\<bar>n\<bar> < 2 ^ 53"
  consider "n = 0" | "0 < n" | "n < 0" by linarith
  then show ?thesis
  proof cases
    case 2
    with a show ?thesis by (simp add: round_double_def round_positive_int)
  next
    case 3
    have "round_positive (of_int (- n)) = FFin (of_int (- n))" using a 3 by (intro round_positive_int) auto
    with 3 show ?thesis by (simp add: round_double_def f_neg_def)
  qed (simp add: round_double_def)
qed

lemma round_double_one: "round_double 1 = FFin 1" "round_double 0 = FFin 0"
  using round_double_int[of 1] round_double_int[of 0] by simp_all

end
