(* ===== verification/PyValue.thy ===== *)
theory PyValue
  imports PyFloat
begin

text \<open>
  The Python values that flow through variables, requests, responses and assertions: the values of
  JSON. Dictionaries have string keys. Here are Python's equality (which identifies \<^verbatim>\<open>True\<close>
  with 1 and integers with equal floats), truth value, \<^verbatim>\<open>len\<close>, \<^verbatim>\<open>str\<close> and \<^verbatim>\<open>repr\<close>.
\<close>

datatype pyval =
    PNone
  | PBool bool
  | PInt int
  | PFloat pyfloat
  | PStr string
  | PList "pyval list"
  | PDict "(string \<times> pyval) list"

section \<open>Numbers\<close>

datatype pynum = NInt int | NFloat pyfloat

definition num_eq :: "pynum \<Rightarrow> pynum \<Rightarrow> bool" where
  "num_eq a b = (case (a, b) of
     (NInt i, NInt j) \<Rightarrow> i = j
   | (NInt i, NFloat f) \<Rightarrow> f_value f = Some (of_int i)
   | (NFloat f, NInt i) \<Rightarrow> f_value f = Some (of_int i)
   | (NFloat f, NFloat g) \<Rightarrow> f_eq f g)"

text \<open>Comparison of an \<^verbatim>\<open>int\<close> with a \<^verbatim>\<open>float\<close> is exact in Python.\<close>

definition num_less :: "pynum \<Rightarrow> pynum \<Rightarrow> bool" where
  "num_less a b = (case (a, b) of
     (NInt i, NInt j) \<Rightarrow> i < j
   | (NInt i, NFloat f) \<Rightarrow> (case f_value f of Some q \<Rightarrow> of_int i < q | None \<Rightarrow> f = FInf)
   | (NFloat f, NInt i) \<Rightarrow> (case f_value f of Some q \<Rightarrow> q < of_int i | None \<Rightarrow> f = FNegInf)
   | (NFloat f, NFloat g) \<Rightarrow> f_less f g)"

text \<open>\<^verbatim>\<open>isinstance(v, (int, float))\<close>, of which \<^verbatim>\<open>bool\<close> is a subclass.\<close>

definition num_of :: "pyval \<Rightarrow> pynum option" where
  "num_of v = (case v of PBool b \<Rightarrow> Some (NInt (if b then 1 else 0))
     | PInt i \<Rightarrow> Some (NInt i) | PFloat f \<Rightarrow> Some (NFloat f) | _ \<Rightarrow> None)"

section \<open>Equality\<close>

function py_eq :: "pyval \<Rightarrow> pyval \<Rightarrow> bool" where
  "py_eq v w =
     (case (v, w) of
        (PNone, PNone) \<Rightarrow> True
      | (PStr s, PStr t) \<Rightarrow> s = t
      | (PList xs, PList ys) \<Rightarrow>
          length xs = length ys \<and> list_all (\<lambda>(x, y). py_eq x y) (zip xs ys)
      | (PDict d, PDict e) \<Rightarrow>
          length d = length e \<and>
          list_all (\<lambda>(k, x). case map_of e k of None \<Rightarrow> False | Some y \<Rightarrow> py_eq x y) d
      | _ \<Rightarrow> (case (num_of v, num_of w) of (Some a, Some b) \<Rightarrow> num_eq a b | _ \<Rightarrow> False))"
  by pat_completeness auto
termination
proof (relation "measure (\<lambda>(v, w). size v)", goal_cases)
  case (2 v w a b xs ys z x y)
  then show ?case
    by (auto dest!: set_zip_leftD simp: less_Suc_eq_le size_list_estimation')
next
  case (3 v w a b d e z k x y)
  then have "(k, x) \<in> set d" by auto
  then have "size x < size_list (size_prod (\<lambda>_. 0) size) d"
    by (induction d) auto
  with 3 show ?case by auto
qed auto

declare py_eq.simps [simp del]

lemma py_eq_simps [simp]:
  "py_eq PNone PNone" "py_eq (PStr s) (PStr t) = (s = t)"
  "py_eq (PInt i) (PInt j) = (i = j)" "py_eq (PBool b) (PBool c) = (b = c)"
  "py_eq (PFloat f) (PFloat g) = f_eq f g"
  "\<not> py_eq PNone (PStr s)" "\<not> py_eq (PStr s) PNone" "\<not> py_eq PNone (PInt i)" "\<not> py_eq (PInt i) PNone"
  "\<not> py_eq PNone (PBool b)" "\<not> py_eq (PBool b) PNone" "\<not> py_eq PNone (PFloat f)" "\<not> py_eq (PFloat f) PNone"
  "\<not> py_eq (PStr s) (PInt i)" "\<not> py_eq (PInt i) (PStr s)" "\<not> py_eq (PStr s) (PBool b)"
  "\<not> py_eq (PBool b) (PStr s)" "\<not> py_eq (PStr s) (PFloat f)" "\<not> py_eq (PFloat f) (PStr s)"
  "py_eq (PInt i) (PFloat f) = (f_value f = Some (of_int i))"
  "py_eq (PFloat f) (PInt i) = (f_value f = Some (of_int i))"
  by (auto simp: py_eq.simps num_of_def num_eq_def)

section \<open>Truth value, length and type tests\<close>

definition py_truthy :: "pyval \<Rightarrow> bool" where
  "py_truthy v = (case v of PNone \<Rightarrow> False | PBool b \<Rightarrow> b | PInt i \<Rightarrow> i \<noteq> 0
     | PFloat f \<Rightarrow> \<not> f_is_zero f | PStr s \<Rightarrow> s \<noteq> [] | PList xs \<Rightarrow> xs \<noteq> [] | PDict d \<Rightarrow> d \<noteq> [])"

text \<open>\<^verbatim>\<open>len(v)\<close>; \<^verbatim>\<open>None\<close> where it raises \<^verbatim>\<open>TypeError\<close>.\<close>

definition py_len :: "pyval \<Rightarrow> nat option" where
  "py_len v = (case v of PStr s \<Rightarrow> Some (length s) | PList xs \<Rightarrow> Some (length xs)
     | PDict d \<Rightarrow> Some (length d) | _ \<Rightarrow> None)"

definition is_bool :: "pyval \<Rightarrow> bool" where
  "is_bool v = (case v of PBool _ \<Rightarrow> True | _ \<Rightarrow> False)"

text \<open>\<^verbatim>\<open>isinstance(v, (int, float)) and not isinstance(v, bool)\<close>.\<close>

definition is_number :: "pyval \<Rightarrow> bool" where
  "is_number v = (case v of PInt _ \<Rightarrow> True | PFloat _ \<Rightarrow> True | _ \<Rightarrow> False)"

section \<open>Text\<close>

definition hex_digit :: "nat \<Rightarrow> char" where
  "hex_digit d = (if d < 10 then char_of (48 + d) else char_of (87 + d))"

definition printable :: "char \<Rightarrow> bool" where
  "printable c = (let n = char_code c in (32 \<le> n \<and> n \<le> 126) \<or> (161 \<le> n \<and> n \<noteq> 173))"

definition repr_char :: "char \<Rightarrow> char \<Rightarrow> string" where
  "repr_char q c = (let n = char_code c in
     if c = q \<or> n = 92 then [char_of (92 :: nat), c]
     else if n = 9 then [char_of (92 :: nat), CHR ''t'']
     else if n = 10 then [char_of (92 :: nat), CHR ''n'']
     else if n = 13 then [char_of (92 :: nat), CHR ''r'']
     else if \<not> printable c then [char_of (92 :: nat), CHR ''x'', hex_digit (n div 16), hex_digit (n mod 16)]
     else [c])"

definition apostrophe :: char where "apostrophe = char_of (39 :: nat)"
definition double_quote :: char where "double_quote = char_of (34 :: nat)"

definition str_repr :: "string \<Rightarrow> string" where
  "str_repr s =
     (let q = (if apostrophe \<in> set s \<and> double_quote \<notin> set s then double_quote else apostrophe)
      in [q] @ concat (map (repr_char q) s) @ [q])"

fun join :: "string \<Rightarrow> string list \<Rightarrow> string" where
  "join sep [] = []"
| "join sep [x] = x"
| "join sep (x # y # xs) = x @ sep @ join sep (y # xs)"

fun py_repr :: "pyval \<Rightarrow> string" where
  "py_repr PNone = ''None''"
| "py_repr (PBool b) = (if b then ''True'' else ''False'')"
| "py_repr (PInt i) = int_str i"
| "py_repr (PFloat f) = float_repr f"
| "py_repr (PStr s) = str_repr s"
| "py_repr (PList xs) = ''['' @ join '', '' (map py_repr xs) @ '']''"
| "py_repr (PDict d) = ''{'' @ join '', '' (map (\<lambda>(k, v). str_repr k @ '': '' @ py_repr v) d) @ ''}''"

definition py_str :: "pyval \<Rightarrow> string" where
  "py_str v = (case v of PStr s \<Rightarrow> s | _ \<Rightarrow> py_repr v)"

end
