(* ===== verification/AssertCompare.thy ===== *)
theory AssertCompare
  imports PyValue
begin

text \<open>
  \<^verbatim>\<open>exchange/assert_compare.py\<close>: the sixteen comparison operators shared by assertions,
  branch conditions and condition loops. An exception is a value \<^verbatim>\<open>Inl e\<close>; the public entry
  \<^verbatim>\<open>compare_assertion\<close> turns every one into a \<^verbatim>\<open>ValueError\<close>, as the code does.
  \<^verbatim>\<open>json.loads\<close> is the argument \<^verbatim>\<open>loads\<close> (\<^verbatim>\<open>None\<close>: it raises).
\<close>

text \<open>\<^verbatim>\<open>AutoTestAssertionOperation\<close>; the stored texts are Chinese.\<close>

datatype assert_op =
    OP_EQUAL | OP_NOT_EQUAL | OP_GREATER_THAN | OP_GREATER_OR_EQUAL | OP_LESS_THAN | OP_LESS_OR_EQUAL
  | OP_LENGTH_EQUAL | OP_ARRAY_LENGTH_EQUAL | OP_CONTAINS | OP_NOT_CONTAINS | OP_IN_SET | OP_NOT_IN_SET
  | OP_STARTS_WITH | OP_ENDS_WITH | OP_NOT_EMPTY | OP_IS_EMPTY

datatype py_exc = ValueError | TypeError | OverflowError

datatype cmp_error = UnknownOperation | CompareFailed py_exc

section \<open>Normalisation\<close>

definition is_leading_zero_digit_string :: "string \<Rightarrow> bool" where
  "is_leading_zero_digit_string value =
     (if value = [] then False
      else if py_startswith value ''-'' \<and> length value > 1
           then (let body = drop 1 value in
                   py_isdigit body \<and> length body > 1 \<and> py_startswith body ''0'')
      else py_isdigit value \<and> length value > 1 \<and> py_startswith value ''0'')"

text \<open>\<^verbatim>\<open>int(s)\<close> on a text whose characters all satisfy \<^verbatim>\<open>isdigit\<close>, with an optional
  minus sign: it still raises when one of them is a superscript.\<close>

definition int_of_digits :: "string \<Rightarrow> py_exc + int" where
  "int_of_digits s =
     (case split_sign s of (neg, u) \<Rightarrow>
        (case dec_value 0 u of None \<Rightarrow> Inl ValueError
         | Some n \<Rightarrow> Inr (if neg then - n else n)))"

definition looks_integral :: "string \<Rightarrow> bool" where
  "looks_integral s =
     (py_isdigit s \<or> (py_startswith s ''-'' \<and> length s > 1 \<and> py_isdigit (drop 1 s)))"

definition normalize_str :: "string \<Rightarrow> py_exc + pyval" where
  "normalize_str value =
     (if is_leading_zero_digit_string value then Inr (PStr value)
      else if looks_integral value then map_sum id PInt (int_of_digits value)
      else case (if CHR ''.'' \<in> set value then parse_float value else None) of
             Some f \<Rightarrow> Inr (PFloat f)
           | None \<Rightarrow>
               (let lowered = py_lower value in
                if lowered = ''true'' then Inr (PBool True)
                else if lowered = ''false'' then Inr (PBool False)
                else if lowered = ''null'' then Inr PNone
                else Inr (PStr value)))"

definition normalize_value :: "pyval \<Rightarrow> py_exc + pyval" where
  "normalize_value value = (case value of PStr s \<Rightarrow> normalize_str s | _ \<Rightarrow> Inr value)"

definition coerce_number_for_ordering :: "pyval \<Rightarrow> py_exc + pyval" where
  "coerce_number_for_ordering value =
     (case value of
        PStr s \<Rightarrow>
          (let text = py_strip s in
           if text = [] then Inr value
           else if looks_integral text then map_sum id PInt (int_of_digits text)
           else case (if CHR ''.'' \<in> set text then parse_float text else None) of
                  Some f \<Rightarrow> Inr (PFloat f) | None \<Rightarrow> Inr value)
      | _ \<Rightarrow> Inr value)"

section \<open>Equality and ordering\<close>

definition is_bool_vs_number :: "pyval \<Rightarrow> pyval \<Rightarrow> bool" where
  "is_bool_vs_number left right =
     ((is_bool left \<and> is_number right) \<or> (is_bool right \<and> is_number left))"

definition type_aware_equals :: "pyval \<Rightarrow> pyval \<Rightarrow> py_exc + bool" where
  "type_aware_equals actual expected =
     (if is_bool_vs_number actual expected then Inr False
      else if py_eq actual expected then Inr True
      else case normalize_value actual of Inl e \<Rightarrow> Inl e
           | Inr na \<Rightarrow> (case normalize_value expected of Inl e \<Rightarrow> Inl e
             | Inr ne \<Rightarrow> if is_bool_vs_number na ne then Inr False else Inr (py_eq na ne)))"

datatype comparator = CGt | CGe | CLt | CLe

fun compare_nums :: "comparator \<Rightarrow> pynum \<Rightarrow> pynum \<Rightarrow> bool" where
  "compare_nums CGt a b = num_less b a"
| "compare_nums CGe a b = (num_less b a \<or> num_eq a b)"
| "compare_nums CLt a b = num_less a b"
| "compare_nums CLe a b = (num_less a b \<or> num_eq a b)"

fun compare_strs :: "comparator \<Rightarrow> string \<Rightarrow> string \<Rightarrow> bool" where
  "compare_strs CGt s t = (t < s)"
| "compare_strs CGe s t = (t \<le> s)"
| "compare_strs CLt s t = (s < t)"
| "compare_strs CLe s t = (s \<le> t)"

definition type_aware_compare :: "pyval \<Rightarrow> pyval \<Rightarrow> comparator \<Rightarrow> py_exc + bool" where
  "type_aware_compare actual expected comparator =
     (case coerce_number_for_ordering actual of Inl e \<Rightarrow> Inl e
      | Inr na \<Rightarrow> (case coerce_number_for_ordering expected of Inl e \<Rightarrow> Inl e
        | Inr ne \<Rightarrow>
            (if is_number na \<and> is_number ne
             then Inr (compare_nums comparator (the (num_of na)) (the (num_of ne)))
             else Inr (compare_strs comparator (py_str actual) (py_str expected)))))"

section \<open>Lengths and emptiness\<close>

text \<open>\<^verbatim>\<open>int(v)\<close>.\<close>

definition parse_int :: "string \<Rightarrow> py_exc + int" where
  "parse_int s = (case drop_underscores False (py_strip s) of None \<Rightarrow> Inl ValueError
     | Some t \<Rightarrow> if snd (split_sign t) = [] then Inl ValueError else int_of_digits t)"

definition py_int :: "pyval \<Rightarrow> py_exc + int" where
  "py_int v = (case v of
     PBool b \<Rightarrow> Inr (if b then 1 else 0)
   | PInt i \<Rightarrow> Inr i
   | PFloat f \<Rightarrow> (case f_to_int f of Some i \<Rightarrow> Inr i
                  | None \<Rightarrow> if f = FNaN then Inl ValueError else Inl OverflowError)
   | PStr s \<Rightarrow> parse_int s
   | _ \<Rightarrow> Inl TypeError)"

definition assertion_length_equal :: "pyval \<Rightarrow> pyval \<Rightarrow> py_exc + bool" where
  "assertion_length_equal actual expected =
     (case normalize_value expected of Inl e \<Rightarrow> Inl e
      | Inr nb \<Rightarrow>
          if nb = PNone \<or> actual = PNone then Inr False
          else (let actual_len = (case py_len actual of Some n \<Rightarrow> n
                                  | None \<Rightarrow> length (py_str actual))
                in map_sum id (\<lambda>n. int actual_len = n) (py_int nb)))"

definition assertion_array_length_equal :: "pyval \<Rightarrow> pyval \<Rightarrow> py_exc + bool" where
  "assertion_array_length_equal actual expected =
     (case actual of
        PList xs \<Rightarrow>
          (case normalize_value expected of Inl e \<Rightarrow> Inl e
           | Inr nb \<Rightarrow>
               if nb = PNone then Inr False
               else (case py_int nb of
                       Inr n \<Rightarrow> Inr (int (length xs) = n)
                     | Inl OverflowError \<Rightarrow> Inl OverflowError
                     | Inl _ \<Rightarrow> Inr False))
      | _ \<Rightarrow> Inr False)"

definition assertion_is_empty :: "pyval \<Rightarrow> bool" where
  "assertion_is_empty actual = (case actual of PNone \<Rightarrow> True | PStr s \<Rightarrow> s = []
     | PList xs \<Rightarrow> length xs = 0 | PDict d \<Rightarrow> length d = 0 | _ \<Rightarrow> False)"

section \<open>Membership in a set literal\<close>

text \<open>The pieces between commas (the full-width comma the code also accepts is outside the modelled
  code points), without one level of matching quotes.\<close>

definition unquote_token :: "string \<Rightarrow> string" where
  "unquote_token token =
     (if 2 \<le> length token \<and> hd token = last token \<and> hd token \<in> {double_quote, apostrophe}
      then butlast (tl token) else token)"

fun collect_tokens :: "string list \<Rightarrow> py_exc + pyval list" where
  "collect_tokens [] = Inr []"
| "collect_tokens (part # parts) =
     (let token = py_strip part in
      if token = [] then collect_tokens parts
      else case normalize_value (PStr (unquote_token token)) of Inl e \<Rightarrow> Inl e
           | Inr v \<Rightarrow> map_sum id ((#) v) (collect_tokens parts))"

definition parse_set_literal :: "string \<Rightarrow> py_exc + pyval list" where
  "parse_set_literal text = collect_tokens (py_split (CHR '','') text)"

definition closer_of :: "char \<Rightarrow> char option" where
  "closer_of c = (if c = CHR ''['' then Some (CHR '']'')
     else if c = CHR ''{'' then Some (CHR ''}'')
     else if c = CHR ''('' then Some (CHR '')'') else None)"

definition coerce_to_collection :: "(string \<Rightarrow> pyval option) \<Rightarrow> pyval \<Rightarrow> py_exc + pyval list" where
  "coerce_to_collection loads expected =
     (case expected of
        PList xs \<Rightarrow> Inr xs
      | PStr s \<Rightarrow>
          (let text = py_strip s in
           if text = [] then Inl ValueError
           else (let opener = hd text in
             case closer_of opener of
               None \<Rightarrow> Inl ValueError
             | Some closer \<Rightarrow>
                 if length text < 2 \<or> last text \<noteq> closer then Inl ValueError
                 else (let inner = butlast (tl text) in
                   if opener = CHR ''['' then
                     (case loads text of Some (PList xs) \<Rightarrow> Inr xs | _ \<Rightarrow> parse_set_literal inner)
                   else if opener = CHR ''{'' then
                     (case loads text of Some (PDict d) \<Rightarrow> Inl ValueError | _ \<Rightarrow> parse_set_literal inner)
                   else parse_set_literal inner)))
      | _ \<Rightarrow> Inl ValueError)"

fun any_equals :: "pyval \<Rightarrow> pyval list \<Rightarrow> py_exc + bool" where
  "any_equals actual [] = Inr False"
| "any_equals actual (x # xs) =
     (case type_aware_equals actual x of Inl e \<Rightarrow> Inl e
      | Inr b \<Rightarrow> if b then Inr True else any_equals actual xs)"

definition assertion_in_set :: "(string \<Rightarrow> pyval option) \<Rightarrow> pyval \<Rightarrow> pyval \<Rightarrow> py_exc + bool" where
  "assertion_in_set loads actual expected =
     (case coerce_to_collection loads expected of Inl e \<Rightarrow> Inl e
      | Inr items \<Rightarrow> any_equals actual items)"

section \<open>Dispatch\<close>

definition run_comparator ::
    "(string \<Rightarrow> pyval option) \<Rightarrow> assert_op \<Rightarrow> pyval \<Rightarrow> pyval \<Rightarrow> py_exc + bool" where
  "run_comparator loads op a e = (case op of
     OP_EQUAL \<Rightarrow> type_aware_equals a e
   | OP_NOT_EQUAL \<Rightarrow> map_sum id Not (type_aware_equals a e)
   | OP_GREATER_THAN \<Rightarrow> type_aware_compare a e CGt
   | OP_GREATER_OR_EQUAL \<Rightarrow> type_aware_compare a e CGe
   | OP_LESS_THAN \<Rightarrow> type_aware_compare a e CLt
   | OP_LESS_OR_EQUAL \<Rightarrow> type_aware_compare a e CLe
   | OP_LENGTH_EQUAL \<Rightarrow> assertion_length_equal a e
   | OP_ARRAY_LENGTH_EQUAL \<Rightarrow> assertion_array_length_equal a e
   | OP_CONTAINS \<Rightarrow> Inr (py_contains (py_str a) (py_str e))
   | OP_NOT_CONTAINS \<Rightarrow> Inr (\<not> py_contains (py_str a) (py_str e))
   | OP_IN_SET \<Rightarrow> assertion_in_set loads a e
   | OP_NOT_IN_SET \<Rightarrow> map_sum id Not (assertion_in_set loads a e)
   | OP_STARTS_WITH \<Rightarrow> Inr (py_startswith (py_str a) (py_str e))
   | OP_ENDS_WITH \<Rightarrow> Inr (py_endswith (py_str a) (py_str e))
   | OP_NOT_EMPTY \<Rightarrow> Inr (\<not> assertion_is_empty a)
   | OP_IS_EMPTY \<Rightarrow> Inr (assertion_is_empty a))"

text \<open>\<^verbatim>\<open>operation\<close> is \<^verbatim>\<open>None\<close> for a text that names no operator.\<close>

definition compare_assertion ::
    "(string \<Rightarrow> pyval option) \<Rightarrow> pyval \<Rightarrow> assert_op option \<Rightarrow> pyval \<Rightarrow> cmp_error + bool" where
  "compare_assertion loads actual operation expected =
     (case operation of None \<Rightarrow> Inl UnknownOperation
      | Some op \<Rightarrow> map_sum CompareFailed id (run_comparator loads op actual expected))"

section \<open>Properties\<close>

lemma pos_str_head: "0 \<le> n \<Longrightarrow> is_decimal (hd (pos_str n))"
  using pos_str_decimal[of n] by (cases "pos_str n") auto

lemma pos_str_no_zero: "0 \<le> n \<Longrightarrow> py_startswith (pos_str n) ''0'' \<Longrightarrow> length (pos_str n) = 1"
proof (induction n rule: pos_str.induct)
  case (1 n)
  show ?case
  proof (cases "n < 10")
    case True
    then show ?thesis by (subst pos_str.simps) simp
  next
    case False
    let ?p = "pos_str (n div 10)"
    have s: "pos_str n = ?p @ [digit_char (n mod 10)]" using False by (subst pos_str.simps) simp
    have "py_startswith ?p ''0''" using 1(3) s by (cases ?p) (auto simp: py_startswith_def)
    with 1 False have l: "length ?p = 1" by simp
    have "dec_value 0 ?p = Some (n div 10)" using False by (simp add: dec_value_pos_str)
    with l \<open>py_startswith ?p ''0''\<close> have "n div 10 = 0"
      by (cases ?p) (auto simp: py_startswith_def is_decimal_def char_code_def)
    with False show ?thesis by simp
  qed
qed

lemma int_text_normal: "normalize_value (PStr (int_str i)) = Inr (PInt i)"
proof -
  have d: "py_isdigit (pos_str (abs i))" "dec_value 0 (pos_str (abs i)) = Some (abs i)"
    by (simp_all add: pos_str_isdigit dec_value_pos_str)
  have z: "py_startswith (pos_str (abs i)) ''0'' \<Longrightarrow> length (pos_str (abs i)) = 1" by (rule pos_str_no_zero) simp
  have h: "\<not> py_startswith (pos_str (abs i)) ''-''"
    using pos_str_head[of "abs i"] by (cases "pos_str (abs i)") (auto simp: py_startswith_def is_decimal_def char_code_def)
  show ?thesis
  proof (cases "i < 0")
    case True
    then have s: "int_str i = CHR ''-'' # pos_str (abs i)" by (simp add: int_str_def)
    have "\<not> is_leading_zero_digit_string (int_str i)"
      using z by (auto simp: s is_leading_zero_digit_string_def py_startswith_def Let_def)
    moreover have "looks_integral (int_str i)" using d by (simp add: s looks_integral_def py_startswith_def)
    moreover have "int_of_digits (int_str i) = Inr i" using d True by (simp add: s int_of_digits_def split_sign_def)
    ultimately show ?thesis by (simp add: normalize_value_def normalize_str_def)
  next
    case False
    then have s: "int_str i = pos_str (abs i)" by (simp add: int_str_def)
    have "\<not> is_leading_zero_digit_string (int_str i)"
      using z h by (auto simp: s is_leading_zero_digit_string_def)
    moreover have "looks_integral (int_str i)" using d by (simp add: s looks_integral_def)
    moreover have "int_of_digits (int_str i) = Inr i"
      using d False h pos_str_head[of "abs i"]
      by (cases "pos_str (abs i)")
         (auto simp: s int_of_digits_def split_sign_def py_startswith_def is_decimal_def char_code_def)
    ultimately show ?thesis by (simp add: normalize_value_def normalize_str_def)
  qed
qed

lemma leading_zero_normal: "is_leading_zero_digit_string s \<Longrightarrow> normalize_value (PStr s) = Inr (PStr s)"
  by (simp add: normalize_value_def normalize_str_def)

lemma any_equals_iff: "any_equals a xs = Inr b \<Longrightarrow> b = (\<exists>x \<in> set xs. type_aware_equals a x = Inr True)"
  by (induction xs) (auto split: sum.splits if_splits)

lemma num_trichotomy:
  assumes "a \<noteq> NFloat FNaN" "b \<noteq> NFloat FNaN"
  shows "num_less b a \<longleftrightarrow> \<not> (num_less a b \<or> num_eq a b)"
proof -
  have f: "f \<noteq> FNaN \<Longrightarrow> g \<noteq> FNaN \<Longrightarrow> f_less g f \<longleftrightarrow> \<not> (f_less f g \<or> f_eq f g)" for f g
    by (cases f; cases g) (auto simp: f_less_def f_eq_def f_value_def)
  show ?thesis
  proof (cases a)
    case (NInt i)
    then show ?thesis using assms(2) by (cases b) (auto simp: num_less_def num_eq_def f_value_def split: pyfloat.splits)
  next
    case (NFloat g)
    show ?thesis
    proof (cases b)
      case (NInt i)
      with NFloat NFloat assms(1) show ?thesis
        by (auto simp: num_less_def num_eq_def f_value_def split: pyfloat.splits)
    next
      case n: (NFloat h)
      have "num_less b a = f_less h g" "num_less a b = f_less g h" "num_eq a b = f_eq g h"
        by (simp_all add: NFloat n num_less_def num_eq_def)
      moreover have "f_less h g \<longleftrightarrow> \<not> (f_less g h \<or> f_eq g h)" using assms NFloat n by (intro f) auto
      ultimately show ?thesis by blast
    qed
  qed
qed

text \<open>
  An integer equals its decimal text, in both directions: the text of a number in a response and the
  number typed in an assertion agree.
\<close>

theorem integer_equals_its_text:
  "compare_assertion loads (PInt i) (Some OP_EQUAL) (PStr (int_str i)) = Inr True \<and>
   compare_assertion loads (PStr (int_str i)) (Some OP_EQUAL) (PInt i) = Inr True"
  by (simp add: compare_assertion_def run_comparator_def type_aware_equals_def int_text_normal is_bool_vs_number_def
      is_bool_def is_number_def normalize_value_def[of "PInt i"])

text \<open>
  A truth value never equals a number, in either order, although Python's own comparison says that
  \<^verbatim>\<open>True == 1\<close>.
\<close>

theorem bool_never_equals_number:
  assumes "is_bool a" "is_number b"
  shows "compare_assertion loads a (Some OP_EQUAL) b = Inr False \<and> compare_assertion loads b (Some OP_EQUAL) a = Inr False"
  using assms by (simp add: compare_assertion_def run_comparator_def type_aware_equals_def is_bool_vs_number_def)

theorem bool_never_equals_number_witness:
  "compare_assertion (\<lambda>_. None) (PBool True) (Some OP_EQUAL) (PInt 1) = Inr False"
  using bool_never_equals_number[of "PBool True" "PInt 1" "\<lambda>_. None"] by (simp add: is_bool_def is_number_def)

text \<open>
  A text of digits with a redundant leading zero is kept as a text: it equals no integer, and another
  such text only when they are the same.
\<close>

theorem leading_zeros_are_kept:
  assumes "is_leading_zero_digit_string s"
  shows "compare_assertion loads (PStr s) (Some OP_EQUAL) (PInt i) = Inr False \<and>
    (is_leading_zero_digit_string t \<longrightarrow> compare_assertion loads (PStr s) (Some OP_EQUAL) (PStr t) = Inr (s = t))"
  using assms by (auto simp: compare_assertion_def run_comparator_def type_aware_equals_def leading_zero_normal
      is_bool_vs_number_def is_bool_def is_number_def normalize_value_def[of "PInt i"])

theorem leading_zeros_are_kept_witness:
  "compare_assertion (\<lambda>_. None) (PStr ''007'') (Some OP_EQUAL) (PInt 7) = Inr False"
proof -
  have "is_leading_zero_digit_string ''007''" by code_simp
  from leading_zeros_are_kept[OF this, of "\<lambda>_. None" 7 "''00''"] show ?thesis by simp
qed

text \<open>
  Membership in a list is equality with one of its items, and its negation the opposite.
\<close>

theorem in_set_is_some_equal:
  assumes "compare_assertion loads a (Some OP_IN_SET) (PList xs) = Inr b"
  shows "b = (\<exists>x \<in> set xs. compare_assertion loads a (Some OP_EQUAL) x = Inr True) \<and>
    compare_assertion loads a (Some OP_NOT_IN_SET) (PList xs) = Inr (\<not> b)"
proof -
  have e: "compare_assertion loads a (Some OP_EQUAL) x = Inr True \<longleftrightarrow> type_aware_equals a x = Inr True" for x
    by (cases "type_aware_equals a x") (simp_all add: compare_assertion_def run_comparator_def)
  from assms have "any_equals a xs = Inr b"
    by (cases "any_equals a xs") (simp_all add: compare_assertion_def run_comparator_def assertion_in_set_def coerce_to_collection_def)
  with any_equals_iff[OF this] show ?thesis
    by (simp add: e) (simp add: compare_assertion_def run_comparator_def assertion_in_set_def coerce_to_collection_def)
qed

theorem in_set_is_some_equal_witness:
  "True = (\<exists>x \<in> set [PStr ''b'', PInt 2]. compare_assertion (\<lambda>_. None) (PStr ''2'') (Some OP_EQUAL) x = Inr True) \<and>
   compare_assertion (\<lambda>_. None) (PStr ''2'') (Some OP_NOT_IN_SET) (PList [PStr ''b'', PInt 2]) = Inr (\<not> True)"
  by (rule in_set_is_some_equal) code_simp

text \<open>
  Between values that read as numbers, none of them NaN, exactly one of \<^verbatim>\<open>greater than\<close> and
  \<^verbatim>\<open>less or equal\<close> holds.
\<close>

theorem order_is_total:
  assumes "coerce_number_for_ordering a = Inr x" "coerce_number_for_ordering b = Inr y"
    and "is_number x" "is_number y" "x \<noteq> PFloat FNaN" "y \<noteq> PFloat FNaN"
  shows "\<exists>g. compare_assertion loads a (Some OP_GREATER_THAN) b = Inr g \<and>
    compare_assertion loads a (Some OP_LESS_OR_EQUAL) b = Inr (\<not> g)"
proof -
  obtain m where m: "num_of x = Some m" "m \<noteq> NFloat FNaN" using assms(3,5) by (cases x) (auto simp: num_of_def is_number_def)
  obtain k where k: "num_of y = Some k" "k \<noteq> NFloat FNaN" using assms(4,6) by (cases y) (auto simp: num_of_def is_number_def)
  from num_trichotomy[OF m(2) k(2)] m(1) k(1) assms(1-4) show ?thesis
    by (simp add: compare_assertion_def run_comparator_def type_aware_compare_def)
qed

theorem order_is_total_witness:
  "\<exists>g. compare_assertion (\<lambda>_. None) (PStr ''10'') (Some OP_GREATER_THAN) (PInt 9) = Inr g \<and>
     compare_assertion (\<lambda>_. None) (PStr ''10'') (Some OP_LESS_OR_EQUAL) (PInt 9) = Inr (\<not> g)"
proof -
  have "coerce_number_for_ordering (PStr ''10'') = Inr (PInt 10)" by code_simp
  then show ?thesis
    by (rule order_is_total[where y = "PInt 9"]) (simp_all add: coerce_number_for_ordering_def is_number_def)
qed

text \<open>
  A superscript digit passes the digit test but is no number: comparing such a text with any other
  value for equality is an error, not a mismatch.
\<close>

theorem superscript_is_an_error:
  assumes "\<not> py_eq (PStr [char_of (178 :: nat)]) v"
  shows "compare_assertion loads (PStr [char_of (178 :: nat)]) (Some OP_EQUAL) v = Inl (CompareFailed ValueError)"
proof -
  have "normalize_value (PStr [char_of (178 :: nat)]) = Inl ValueError" by code_simp
  with assms show ?thesis
    by (simp add: compare_assertion_def run_comparator_def type_aware_equals_def is_bool_vs_number_def is_bool_def is_number_def)
qed

theorem superscript_is_an_error_witness:
  "compare_assertion (\<lambda>_. None) (PStr [char_of (178 :: nat)]) (Some OP_EQUAL) (PStr ''two'') = Inl (CompareFailed ValueError)"
  by (rule superscript_is_an_error) (simp add: char_of_def)

end
