(* ===== verification/VarPool.thy ===== *)
theory VarPool
  imports PyValue
begin

text \<open>
  Variable pools: \<^verbatim>\<open>StepVariablesBase\<close>, the list helpers of \<^verbatim>\<open>autotest_runtime/util_kv.py\<close>,
  \<^verbatim>\<open>update_variables\<close> and \<^verbatim>\<open>get_variable\<close> of the execution context, the key-wise merges of
  pools, and the built-in variables of \<^verbatim>\<open>autotest_runtime/builtin_variables.py\<close>.

  A pool is a list. \<^verbatim>\<open>update_variables\<close> rewrites the first entry of a key while lookups read
  the last one, so the two agree only on pools whose keys are distinct; the invariant
  \<^verbatim>\<open>distinct_keys\<close> is what the rest of the development maintains. The locale
  \<^verbatim>\<open>variable_store\<close> states what the clients of a pool rely on, and is interpreted on the
  pools with distinct keys.
\<close>

record step_var =
  var_key :: string
  var_value :: pyval
  var_desc :: "string option"

definition mk_var :: "string \<Rightarrow> pyval \<Rightarrow> step_var" where
  "mk_var k v = \<lparr>var_key = k, var_value = v, var_desc = Some []\<rparr>"

text \<open>\<^verbatim>\<open>key and key.strip()\<close>.\<close>

definition usable_key :: "string \<Rightarrow> bool" where
  "usable_key k = (k \<noteq> [] \<and> py_strip k \<noteq> [])"

section \<open>util\_kv.py\<close>

definition list_to_dict :: "step_var list \<Rightarrow> pyval dict" where
  "list_to_dict vs = fold (\<lambda>v d. if usable_key (var_key v)
      then AList.update (var_key v) (var_value v) d else d) vs []"

fun merge_mapping_dicts :: "pyval dict option list \<Rightarrow> pyval dict \<Rightarrow> pyval dict option" where
  "merge_mapping_dicts [] merged = (if merged = [] then None else Some merged)"
| "merge_mapping_dicts (part # parts) merged =
     merge_mapping_dicts parts (case part of None \<Rightarrow> merged
       | Some p \<Rightarrow> if p = [] then merged else dict_update merged p)"

definition get_item_from_list :: "step_var list \<Rightarrow> string \<Rightarrow> step_var option" where
  "get_item_from_list vs name = find (\<lambda>v. var_key v \<noteq> [] \<and> var_key v = name) (rev vs)"

definition build_session_lookup :: "step_var list \<Rightarrow> step_var list \<Rightarrow> pyval dict" where
  "build_session_lookup defined session = dict_update (list_to_dict defined) (list_to_dict session)"

text \<open>\<^verbatim>\<open>parse_cookie_header\<close>: a part without \<^verbatim>\<open>=\<close> or without a name is dropped.\<close>

fun cookie_parts :: "string list \<Rightarrow> string dict \<Rightarrow> string dict" where
  "cookie_parts [] parsed = parsed"
| "cookie_parts (p # ps) parsed =
     (let part = py_strip p in
      if part = [] \<or> CHR ''='' \<notin> set part then cookie_parts ps parsed
      else (let name = py_strip (py_before (CHR ''='') part);
                value = py_strip (py_after (CHR ''='') part) in
            cookie_parts ps (if name = [] then parsed else AList.update name value parsed)))"

definition parse_cookie_header :: "pyval dict option \<Rightarrow> string dict" where
  "parse_cookie_header headers = (case headers of None \<Rightarrow> []
     | Some hs \<Rightarrow> (case find (\<lambda>(k, v). py_lower k = ''cookie'') hs of
         None \<Rightarrow> []
       | Some (k, cookie_raw) \<Rightarrow> (case cookie_raw of
           PNone \<Rightarrow> []
         | PDict d \<Rightarrow> map (\<lambda>(k, v). (k, case v of PNone \<Rightarrow> [] | _ \<Rightarrow> py_str v)) d
         | _ \<Rightarrow> (let cookie_text = py_strip (py_str cookie_raw) in
                 if cookie_text = [] then [] else cookie_parts (py_split (CHR '';'') cookie_text) []))))"

section \<open>Pool operations of the execution context\<close>

fun put_var :: "step_var \<Rightarrow> step_var list \<Rightarrow> step_var list" where
  "put_var v [] = [v]"
| "put_var v (w # ws) = (if var_key w = var_key v then v # ws else w # put_var v ws)"

definition update_pool :: "step_var list \<Rightarrow> step_var list \<Rightarrow> step_var list" where
  "update_pool pool vars = fold (\<lambda>v p. if usable_key (var_key v) then put_var v p else p) vars pool"

datatype var_exn = InvalidName | UndefinedVariable string

text \<open>\<^verbatim>\<open>get_variable\<close>: the step's own variables shadow the session's. \<^verbatim>\<open>InvalidName\<close> is the
  \<^verbatim>\<open>StepExecutionError\<close> of an empty name, \<^verbatim>\<open>UndefinedVariable\<close> the \<^verbatim>\<open>KeyError\<close>.\<close>

definition get_variable :: "step_var list \<Rightarrow> step_var list \<Rightarrow> string \<Rightarrow> var_exn + pyval" where
  "get_variable defined session name =
     (if name = [] then Inl InvalidName
      else case get_item_from_list defined name of Some v \<Rightarrow> Inr (var_value v)
           | None \<Rightarrow> (case get_item_from_list session name of Some v \<Rightarrow> Inr (var_value v)
             | None \<Rightarrow> Inl (UndefinedVariable name)))"

text \<open>Merging by key: a \<^verbatim>\<open>dict\<close> from key to variable, whose values are the new pool.\<close>

definition merge_by_key :: "step_var list \<Rightarrow> step_var list" where
  "merge_by_key vs = map snd (fold (\<lambda>v d. if var_key v \<noteq> [] then AList.update (var_key v) v d else d) vs [])"

definition build_quote_session_pool :: "step_var list \<Rightarrow> step_var list \<Rightarrow> step_var list" where
  "build_quote_session_pool stored collected = merge_by_key (stored @ collected)"

definition merge_back_session_pool :: "step_var list \<Rightarrow> step_var list \<Rightarrow> step_var list" where
  "merge_back_session_pool host_pool quote_pool = merge_by_key (host_pool @ quote_pool)"

definition merge_session_variables :: "step_var list list \<Rightarrow> step_var list" where
  "merge_session_variables parts = merge_by_key (concat parts)"

section \<open>Built-in variables\<close>

definition strip_host_scheme :: "string option \<Rightarrow> string option" where
  "strip_host_scheme host = map_option
     (\<lambda>h. py_replace (py_replace (py_strip h) ''http://'' []) ''https://'' []) host"

text \<open>\<^verbatim>\<open>server\<close> holds the two settings of \<^verbatim>\<open>PROJECT_CONFIG\<close>.\<close>

record server_config =
  server_host :: string
  server_port :: string

definition builtin_variable_entries ::
    "server_config \<Rightarrow> string option \<Rightarrow> string option \<Rightarrow> string option \<Rightarrow> (string \<times> string option) list" where
  "builtin_variable_entries cfg target_host target_port target_path =
     [(''SERVER_HOST'', Some (server_host cfg)),
      (''SERVER_PORT'', Some (server_port cfg)),
      (''TARGET_HOST'', strip_host_scheme target_host),
      (''TARGET_PORT'', map_option py_strip target_port),
      (''TARGET_PATH'', target_path)]"

definition collect_builtin_step_variables ::
    "server_config \<Rightarrow> string option \<Rightarrow> string option \<Rightarrow> string option \<Rightarrow> string set \<Rightarrow> step_var list" where
  "collect_builtin_step_variables cfg target_host target_port target_path existing =
     List.map_filter (\<lambda>(name, value).
         if name \<in> existing then None
         else map_option (\<lambda>v. \<lparr>var_key = name, var_value = PStr v, var_desc = Some ''builtin''\<rparr>) value)
       (builtin_variable_entries cfg target_host target_port target_path)"

section \<open>The store interface\<close>

abbreviation distinct_keys :: "step_var list \<Rightarrow> bool" where
  "distinct_keys pool \<equiv> distinct (map var_key pool)"

locale variable_store =
  fixes put :: "'v \<Rightarrow> 's \<Rightarrow> 's"
    and get :: "'s \<Rightarrow> string \<Rightarrow> 'v option"
    and key :: "'v \<Rightarrow> string"
    and valid :: "'s \<Rightarrow> bool"
  assumes get_put: "valid s \<Longrightarrow> key v \<noteq> [] \<Longrightarrow> get (put v s) = (get s)(key v \<mapsto> v)"
    and valid_put: "valid s \<Longrightarrow> valid (put v s)"
begin

definition put_all :: "'v list \<Rightarrow> 's \<Rightarrow> 's" where
  "put_all vs s = fold put vs s"

lemma valid_put_all: "valid s \<Longrightarrow> valid (put_all vs s)"
  by (induction vs arbitrary: s) (auto simp: put_all_def valid_put)

lemma get_put_same: "valid s \<Longrightarrow> key v \<noteq> [] \<Longrightarrow> get (put v s) (key v) = Some v"
  by (simp add: get_put)

lemma get_put_other: "valid s \<Longrightarrow> key v \<noteq> [] \<Longrightarrow> k \<noteq> key v \<Longrightarrow> get (put v s) k = get s k"
  by (simp add: get_put)

text \<open>After a batch of writes a key holds its last written entry, and unwritten keys are as before.\<close>

lemma get_put_all:
  "valid s \<Longrightarrow> (\<forall>v \<in> set vs. key v \<noteq> []) \<Longrightarrow>
   get (put_all vs s) k = (case find (\<lambda>v. key v = k) (rev vs) of Some v \<Rightarrow> Some v | None \<Rightarrow> get s k)"
proof (induction vs arbitrary: s rule: rev_induct)
  case (snoc v vs)
  then show ?case using valid_put_all[of s vs] by (simp add: put_all_def get_put)
qed (simp add: put_all_def)

end

section \<open>Pools with distinct keys implement the interface\<close>

lemma put_var_keys:
  "map var_key (put_var v p) = (if var_key v \<in> var_key ` set p then map var_key p else map var_key p @ [var_key v])"
  by (induction p) auto

lemma put_var_key_set: "var_key ` set (put_var v p) = insert (var_key v) (var_key ` set p)"
  by (induction p) auto

lemma distinct_put_var: "distinct_keys p \<Longrightarrow> distinct_keys (put_var v p)"
  by (auto simp: put_var_keys)

lemma find_rev_distinct:
  "distinct_keys p \<Longrightarrow> find (\<lambda>v. var_key v \<noteq> [] \<and> var_key v = k) (rev p) = find (\<lambda>v. var_key v \<noteq> [] \<and> var_key v = k) p"
proof (induction p)
  case (Cons w p)
  show ?case
  proof (cases "var_key w = k \<and> k \<noteq> []")
    case True
    with Cons.prems have "\<forall>x \<in> set p. var_key x \<noteq> k" by (metis distinct.simps(2) imageI
          list.simps(9) list.set_map)
    then have "find (\<lambda>v. var_key v \<noteq> [] \<and> var_key v = k) (rev p) = None"
      by (simp add: find_None_iff)
    with True show ?thesis by (auto simp: find_append)
  next
    case False
    with Cons show ?thesis by (auto simp: find_append split: option.splits)
  qed
qed simp

lemma get_item_first:
  "distinct_keys p \<Longrightarrow> get_item_from_list p k = find (\<lambda>v. var_key v \<noteq> [] \<and> var_key v = k) p"
  by (simp add: get_item_from_list_def find_rev_distinct)

lemma find_put_var:
  "var_key v \<noteq> [] \<Longrightarrow> find (\<lambda>w. var_key w \<noteq> [] \<and> var_key w = k) (put_var v p) =
   (if k = var_key v then Some v else find (\<lambda>w. var_key w \<noteq> [] \<and> var_key w = k) p)"
  by (induction p) auto

interpretation pool: variable_store put_var get_item_from_list var_key distinct_keys
proof
  fix s :: "step_var list" and v :: step_var
  assume "distinct_keys s" "var_key v \<noteq> []"
  then show "get_item_from_list (put_var v s) = (get_item_from_list s)(var_key v \<mapsto> v)"
    by (auto simp: get_item_first distinct_put_var find_put_var fun_eq_iff)
qed (rule distinct_put_var)

lemma usable_key_nonempty: "usable_key k \<Longrightarrow> k \<noteq> []"
  by (simp add: usable_key_def)

lemma update_pool_put_all: "update_pool p vs = pool.put_all (filter (\<lambda>v. usable_key (var_key v)) vs) p"
  by (induction vs arbitrary: p) (auto simp: update_pool_def pool.put_all_def)

lemma distinct_update_pool: "distinct_keys p \<Longrightarrow> distinct_keys (update_pool p vs)"
  by (simp add: update_pool_put_all pool.valid_put_all)

lemma update_pool_key_set:
  "var_key ` set (update_pool p vs) = var_key ` set p \<union> {k \<in> var_key ` set vs. usable_key k}"
proof (induction vs arbitrary: p)
  case (Cons v vs)
  then show ?case by (auto simp: update_pool_def put_var_key_set)
qed (simp add: update_pool_def)

lemma get_update_pool:
  "distinct_keys p \<Longrightarrow>
   get_item_from_list (update_pool p vs) k =
     (case find (\<lambda>v. usable_key (var_key v) \<and> var_key v = k) (rev vs) of
        Some v \<Rightarrow> Some v | None \<Rightarrow> get_item_from_list p k)"
proof -
  assume d: "distinct_keys p"
  let ?f = "filter (\<lambda>v. usable_key (var_key v)) vs"
  have "find (\<lambda>v. var_key v = k) (rev ?f) = find (\<lambda>v. usable_key (var_key v) \<and> var_key v = k) (rev vs)"
    by (induction vs) (auto simp: find_append split: option.splits)
  moreover have "\<forall>v \<in> set ?f. var_key v \<noteq> []" by (auto simp: usable_key_nonempty)
  ultimately show ?thesis using pool.get_put_all[OF d, of ?f k] by (simp add: update_pool_put_all)
qed

section \<open>Merging pools\<close>

lemma distinct_fold_keyed:
  "distinct (map fst d) \<Longrightarrow> list_all (\<lambda>(k, v). var_key v = k) d \<Longrightarrow>
   (let d' = fold (\<lambda>v d. if var_key v \<noteq> [] then AList.update (var_key v) v d else d) vs d
    in distinct (map fst d') \<and> list_all (\<lambda>(k, v). var_key v = k) d')"
proof (induction vs arbitrary: d)
  case (Cons v vs)
  have "list_all (\<lambda>(k, w). var_key w = k) (AList.update (var_key v) v d)"
    using Cons.prems(2) by (induction d) auto
  with Cons show ?case by (auto simp: distinct_keys_update)
qed simp

lemma distinct_merge_by_key: "distinct_keys (merge_by_key vs)"
proof -
  let ?d = "fold (\<lambda>v d. if var_key v \<noteq> [] then AList.update (var_key v) v d else d) vs []"
  have a: "distinct (map fst ?d)" "list_all (\<lambda>(k, v). var_key v = k) ?d"
    using distinct_fold_keyed[of "[]" vs] by (auto simp: Let_def)
  have "map var_key (map snd d) = map fst d" if "list_all (\<lambda>(k, v). var_key v = k) d" for d :: "(string \<times> step_var) list"
    using that by (induction d) auto
  from this[OF a(2)] a(1) show ?thesis unfolding merge_by_key_def by (simp only:)
qed

abbreviation keyed :: "(string \<times> step_var) list \<Rightarrow> bool" where
  "keyed d \<equiv> list_all (\<lambda>(k, v). var_key v = k \<and> k \<noteq> []) d"

lemma keyed_update: "keyed d \<Longrightarrow> var_key v \<noteq> [] \<Longrightarrow> keyed (AList.update (var_key v) v d)"
  by (induction d) auto

lemma get_keyed: "keyed d \<Longrightarrow> find (\<lambda>v. var_key v \<noteq> [] \<and> var_key v = k) (map snd d) = map_of d k"
  by (induction d) auto

lemma fold_keyed:
  "keyed d \<Longrightarrow> keyed (fold (\<lambda>v d. if var_key v \<noteq> [] then AList.update (var_key v) v d else d) vs d) \<and>
   map_of (fold (\<lambda>v d. if var_key v \<noteq> [] then AList.update (var_key v) v d else d) vs d) k =
     (case get_item_from_list vs k of Some v \<Rightarrow> Some v | None \<Rightarrow> map_of d k)"
proof (induction vs arbitrary: d)
  case (Cons v vs)
  have "get_item_from_list (v # vs) k = (case get_item_from_list vs k of Some w \<Rightarrow> Some w
      | None \<Rightarrow> if var_key v \<noteq> [] \<and> var_key v = k then Some v else None)"
    by (auto simp: get_item_from_list_def find_append split: option.splits)
  with Cons.IH[of d] Cons.IH[of "AList.update (var_key v) v d"] Cons.prems show ?case
    by (auto simp: keyed_update map_of_update split: option.splits)
qed (simp add: get_item_from_list_def)

text \<open>Merging by key changes no lookup: the last entry of a key is the one that is read.\<close>

lemma get_merge_by_key: "get_item_from_list (merge_by_key vs) k = get_item_from_list vs k"
proof -
  let ?d = "fold (\<lambda>v d. if var_key v \<noteq> [] then AList.update (var_key v) v d else d) vs []"
  have d: "keyed ?d" "map_of ?d k = get_item_from_list vs k"
    using fold_keyed[of "[]" vs k] by (auto split: option.splits)
  have "get_item_from_list (merge_by_key vs) k = find (\<lambda>v. var_key v \<noteq> [] \<and> var_key v = k) (merge_by_key vs)"
    by (rule get_item_first[OF distinct_merge_by_key])
  with d show ?thesis by (simp add: merge_by_key_def get_keyed)
qed

lemma get_append: "get_item_from_list (xs @ ys) k =
    (case get_item_from_list ys k of Some v \<Rightarrow> Some v | None \<Rightarrow> get_item_from_list xs k)"
  by (auto simp: get_item_from_list_def find_append split: option.splits)

section \<open>Properties\<close>

text \<open>
  On a pool with distinct keys, a lookup after \<^verbatim>\<open>update_variables\<close> returns the last
  written variable of that key, and what it returned before for a key that was not written.
\<close>

theorem lookup_after_update:
  assumes "distinct_keys pool"
  shows "distinct_keys (update_pool pool vars) \<and> get_item_from_list (update_pool pool vars) k =
    (case find (\<lambda>v. usable_key (var_key v) \<and> var_key v = k) (rev vars) of
       Some v \<Rightarrow> Some v | None \<Rightarrow> get_item_from_list pool k)"
  using assms by (simp add: distinct_update_pool get_update_pool)

theorem lookup_after_update_witness:
  "get_item_from_list (update_pool [mk_var ''a'' (PInt 1)] [mk_var ''b'' (PInt 2), mk_var ''b'' (PInt 3)]) ''b''
     = Some (mk_var ''b'' (PInt 3))"
proof -
  have "distinct_keys [mk_var ''a'' (PInt 1)]" by simp
  from lookup_after_update[OF this, of "[mk_var ''b'' (PInt 2), mk_var ''b'' (PInt 3)]" "''b''"]
  show ?thesis by (simp add: mk_var_def usable_key_def py_strip_def is_space_def char_code_def)
qed

lemma get_concat:
  "get_item_from_list (concat parts) k = (case find (\<lambda>p. get_item_from_list p k \<noteq> None) (rev parts) of
     Some p \<Rightarrow> get_item_from_list p k | None \<Rightarrow> None)"
proof (induction parts rule: rev_induct)
  case Nil
  show ?case by (simp add: get_item_from_list_def)
next
  case (snoc p parts)
  then show ?case by (cases "get_item_from_list p k") (simp_all add: get_append)
qed

text \<open>
  C34. The three merges of pools by key give pools with distinct keys and keep every lookup by precedence. In the
  initial variables of a case the last part that has a key decides; in the pool of a quoted script what the steps
  of the script declare wins over what its case has stored; and in what is given back, the pool of the script wins
  over the variables of the host. A key that no side has stays undefined.
\<close>

theorem merge_keeps_lookups:
  "distinct_keys (merge_session_variables parts) \<and> distinct_keys (build_quote_session_pool stored collected) \<and>
   distinct_keys (merge_back_session_pool host quote) \<and>
   get_item_from_list (merge_session_variables parts) k =
     (case find (\<lambda>p. get_item_from_list p k \<noteq> None) (rev parts) of Some p \<Rightarrow> get_item_from_list p k | None \<Rightarrow> None) \<and>
   get_item_from_list (build_quote_session_pool stored collected) k =
     (case get_item_from_list collected k of Some v \<Rightarrow> Some v | None \<Rightarrow> get_item_from_list stored k) \<and>
   get_item_from_list (merge_back_session_pool host quote) k =
     (case get_item_from_list quote k of Some v \<Rightarrow> Some v | None \<Rightarrow> get_item_from_list host k)"
  by (simp add: merge_session_variables_def build_quote_session_pool_def merge_back_session_pool_def
      distinct_merge_by_key get_merge_by_key get_append get_concat)

text \<open>
  Lookups read the later of two entries with the same key.
\<close>

theorem later_entry_wins:
  "get_item_from_list (xs @ ys) k =
     (case get_item_from_list ys k of Some v \<Rightarrow> Some v | None \<Rightarrow> get_item_from_list xs k)"
  by (rule get_append)

end
