(* ===== verification/Placeholder.thy ===== *)
theory Placeholder
  imports VarPool
begin

text \<open>
  \<^verbatim>\<open>autotest_runtime/placeholders\<close>: the resolution of \<^verbatim>\<open>${...}\<close> in strings, dictionaries,
  lists and variable lists, with the arithmetic path, for both variable sources (the engine context
  and a plain variable list).

  Not in the repository or not deterministic, hence arguments: the helper functions called as
  \<^verbatim>\<open>${name(k=v)}\<close> (\<^verbatim>\<open>ph_func\<close>, indexed by a call counter because most of them are random
  or read the clock; \<^verbatim>\<open>None\<close> is the \<^verbatim>\<open>AttributeError\<close> of a failed call), and orjson's
  \<^verbatim>\<open>loads\<close> and \<^verbatim>\<open>dumps\<close> (\<^verbatim>\<open>None\<close>: it raises). Log lines are not modelled. Python's
  limits on nesting and recursion depth are not modelled.
\<close>

record ph_env =
  ph_func :: "nat \<Rightarrow> string \<Rightarrow> pyval option"
  ph_loads :: "string \<Rightarrow> pyval option"
  ph_dumps :: "pyval \<Rightarrow> string option"

datatype var_source = NoSource | EngineContext "step_var list" "step_var list" | VariableList "step_var list"

section \<open>Finding placeholders\<close>

text \<open>
  \<^verbatim>\<open>RE_PLACEHOLDER.finditer\<close> for the pattern dollar, brace, one or more characters other than
  the closing brace, closing brace: the matches, each with the text before it, and the text after
  the last one.
\<close>

definition push_char :: "char \<Rightarrow> (string \<times> string) list \<times> string \<Rightarrow> (string \<times> string) list \<times> string" where
  "push_char c r = (case r of ([], tail) \<Rightarrow> ([], c # tail) | ((p, i) # ps, tail) \<Rightarrow> ((c # p, i) # ps, tail))"

definition hole_at :: "string \<Rightarrow> (string \<times> string) option" where
  "hole_at s =
     (if py_startswith s ''${'' then
        (let t = drop 2 s; inner = takeWhile (\<lambda>c. c \<noteq> CHR ''}'') t; rest = dropWhile (\<lambda>c. c \<noteq> CHR ''}'') t
         in if inner = [] \<or> rest = [] then None else Some (inner, tl rest))
      else None)"

lemma hole_at_shorter: "hole_at s = Some (i, rest) \<Longrightarrow> length rest < length s"
proof -
  assume "hole_at s = Some (i, rest)"
  then have s: "py_startswith s ''${''" and r: "rest = tl (dropWhile (\<lambda>c. c \<noteq> CHR ''}'') (drop 2 s))"
    by (auto simp: hole_at_def Let_def split: if_splits)
  from s have "2 \<le> length s" by (auto simp: py_startswith_iff)
  moreover have "length rest \<le> length (drop 2 s)"
    by (simp add: r) (metis diff_le_mono2 diff_zero le_trans length_dropWhile_le length_drop diff_le_self)
  ultimately show ?thesis by simp
qed

function scan :: "string \<Rightarrow> (string \<times> string) list \<times> string" where
  "scan s = (case s of [] \<Rightarrow> ([], [])
     | c # s' \<Rightarrow> (case hole_at s of
         Some (inner, rest) \<Rightarrow> (case scan rest of (ps, tail) \<Rightarrow> (([], inner) # ps, tail))
       | None \<Rightarrow> push_char c (scan s')))"
  by pat_completeness auto
termination
  by (relation "measure length") (auto dest: hole_at_shorter)

declare scan.simps [simp del]

section \<open>Resolving one placeholder\<close>

definition lookup_source :: "var_source \<Rightarrow> string \<Rightarrow> pyval option" where
  "lookup_source src name = (case src of
     NoSource \<Rightarrow> None
   | EngineContext defined session \<Rightarrow>
       (case get_variable defined session name of Inr v \<Rightarrow> Some v | Inl _ \<Rightarrow> None)
   | VariableList vs \<Rightarrow> map_option var_value (get_item_from_list vs name))"

text \<open>\<^verbatim>\<open>None\<close>: the \<^verbatim>\<open>KeyError\<close> or \<^verbatim>\<open>AttributeError\<close> that keeps the placeholder as it is.
  A text with both parentheses is a function call.\<close>

definition resolve_placeholder_inner :: "ph_env \<Rightarrow> var_source \<Rightarrow> nat \<Rightarrow> string \<Rightarrow> pyval option \<times> nat" where
  "resolve_placeholder_inner env src n inner0 =
     (let inner = py_strip inner0 in
      if CHR ''('' \<in> set inner \<and> CHR '')'' \<in> set inner then (ph_func env n inner, Suc n)
      else (lookup_source src inner, n))"

fun resolve_slots :: "ph_env \<Rightarrow> var_source \<Rightarrow> nat \<Rightarrow> (string \<times> string) list \<Rightarrow> (string \<times> string \<times> pyval option) list \<times> nat" where
  "resolve_slots env src n [] = ([], n)"
| "resolve_slots env src n ((pre, inner0) # ms) =
     (let inner = py_strip inner0;
          (v, n') = (if inner = [] then (None, n) else resolve_placeholder_inner env src n inner);
          (slots, n'') = resolve_slots env src n' ms
      in ((pre, inner0, v) # slots, n''))"

section \<open>Arithmetic\<close>

text \<open>\<^verbatim>\<open>_is_calculated_numeric\<close>: the outer option is the \<^verbatim>\<open>OverflowError\<close> of a huge
  integer.\<close>

definition is_calculated_numeric :: "pyval \<Rightarrow> pyfloat option option" where
  "is_calculated_numeric v = (case v of
     PInt i \<Rightarrow> (case f_of_int i of None \<Rightarrow> None | Some f \<Rightarrow> Some (Some f))
   | PFloat f \<Rightarrow> Some (Some f)
   | PStr s \<Rightarrow> (let t = py_strip s in if t = [] then Some None else Some (parse_float t))
   | _ \<Rightarrow> Some None)"

text \<open>\<^verbatim>\<open>float(v)\<close>: \<^verbatim>\<open>TypeError\<close> and \<^verbatim>\<open>OverflowError\<close> escape, \<^verbatim>\<open>ValueError\<close> is
  the second kind of failure.\<close>

definition py_float :: "pyval \<Rightarrow> pyfloat option option" where
  "py_float v = (case v of
     PBool b \<Rightarrow> Some (Some (FFin (if b then 1 else 0)))
   | PInt i \<Rightarrow> (case f_of_int i of None \<Rightarrow> None | Some f \<Rightarrow> Some (Some f))
   | PFloat f \<Rightarrow> Some (Some f)
   | PStr s \<Rightarrow> Some (parse_float s)
   | _ \<Rightarrow> None)"

definition is_arith_char :: "char \<Rightarrow> bool" where
  "is_arith_char c = (is_decimal c \<or> is_space c \<or> c \<in> set ''+-*/().'')"

definition arithmetic_only :: "string \<Rightarrow> bool" where
  "arithmetic_only s = (s \<noteq> [] \<and> list_all is_arith_char s)"

text \<open>\<^verbatim>\<open>_is_calculate_placeholder_expr\<close>; \<^verbatim>\<open>None\<close> is an escaping exception.\<close>

definition is_calculate_placeholder_expr :: "(string \<times> string \<times> pyval option) list \<Rightarrow> string \<Rightarrow> bool option" where
  "is_calculate_placeholder_expr slots tail =
     (case slots of
        [(pre, inner, value)] \<Rightarrow>
          (let skeleton = py_strip (pre @ tail) in
           if skeleton = [] \<or> \<not> list_ex (\<lambda>c. c \<in> set ''+-*/'') skeleton then Some False
           else (case value of None \<Rightarrow> Some False | Some PNone \<Rightarrow> Some False
                 | Some v \<Rightarrow> map_option (\<lambda>r. r \<noteq> None) (py_float v)))
      | _ \<Rightarrow> (let skeleton = py_strip (concat (map fst slots) @ tail)
              in Some (skeleton \<noteq> [] \<and> arithmetic_only skeleton)))"

definition normalize_float :: "pyfloat \<Rightarrow> string" where
  "normalize_float f = (if f_is_integer f then int_str (the (f_to_int f)) else float_repr f)"

datatype arith_result = RInt int | RFloat pyfloat

definition formatter_calculated_result :: "arith_result \<Rightarrow> string" where
  "formatter_calculated_result r = (case r of
     RFloat f \<Rightarrow> if f_is_integer f then int_str (the (f_to_int f)) else float_repr f
   | RInt i \<Rightarrow> int_str i)"

definition formatter_resolved_placeholders :: "ph_env \<Rightarrow> pyval \<Rightarrow> string option" where
  "formatter_resolved_placeholders env v = (case v of
     PNone \<Rightarrow> Some [] | PDict _ \<Rightarrow> ph_dumps env v | PList _ \<Rightarrow> ph_dumps env v | _ \<Rightarrow> Some (py_str v))"

definition hole_text :: "string \<Rightarrow> string" where
  "hole_text inner = ''${'' @ inner @ ''}''"

text \<open>\<^verbatim>\<open>_split_placeholders\<close>: a failed slot keeps its original text.\<close>

fun split_placeholders :: "(pyval \<Rightarrow> string option) \<Rightarrow> (string \<times> string \<times> pyval option) list \<Rightarrow> string \<Rightarrow> string option" where
  "split_placeholders to_string [] tail = Some tail"
| "split_placeholders to_string ((pre, inner, v) # slots) tail =
     (case (case v of None \<Rightarrow> Some (hole_text inner) | Some x \<Rightarrow> to_string x) of
        None \<Rightarrow> None
      | Some t \<Rightarrow> map_option (\<lambda>r. pre @ t @ r) (split_placeholders to_string slots tail))"

definition build_numeric_merged_expr :: "(string \<times> pyfloat) list \<Rightarrow> string \<Rightarrow> string" where
  "build_numeric_merged_expr ms tail = concat (map (\<lambda>(pre, f). pre @ normalize_float f) ms) @ tail"

subsection \<open>Evaluation of an arithmetic text\<close>

text \<open>
  \<^verbatim>\<open>_safe_calculation_expr\<close> parses with Python's \<^verbatim>\<open>ast\<close> and evaluates sums, products,
  signs and numbers over \<^verbatim>\<open>float\<close>; everything else raises, and its caller treats every
  exception alike, so the model returns \<^verbatim>\<open>None\<close> for all of them. The tokens of an arithmetic
  text are numbers, operators (the doubled ones are tokens of their own, which no rule accepts) and
  parentheses; a line break is a token separator only inside parentheses.
\<close>

datatype token = TNum pyfloat | TOp char | TPow | TFloorDiv | TOpen | TClose

text \<open>A number literal: an integer has no redundant leading zero; a float has a point. An integer
  too large for \<^verbatim>\<open>float\<close> raises.\<close>

definition number_value :: "string \<Rightarrow> bool \<Rightarrow> pyfloat option" where
  "number_value lit has_point =
     (if has_point then map_option round_double (parse_decimal lit)
      else if length lit > 1 \<and> hd lit = CHR ''0'' \<and> \<not> list_all (\<lambda>c. c = CHR ''0'') lit then None
      else Option.bind (dec_value 0 lit) f_of_int)"

text \<open>The number at the start of a text, with what follows it.\<close>

definition read_number :: "string \<Rightarrow> (pyfloat option \<times> string)" where
  "read_number s =
     (let ip = takeWhile is_decimal s; r = dropWhile is_decimal s in
      case r of
        c # t \<Rightarrow> if c = CHR ''.''
          then (let fp = takeWhile is_decimal t in
                (if ip @ fp = [] then None else number_value (ip @ ''.'' @ fp) True, dropWhile is_decimal t))
          else (number_value ip False, r)
      | [] \<Rightarrow> (number_value ip False, []))"

function tokenize :: "nat \<Rightarrow> string \<Rightarrow> token list option" where
  "tokenize depth s = (case s of [] \<Rightarrow> Some []
     | c # t \<Rightarrow>
         if is_decimal c \<or> c = CHR ''.'' then
           (case read_number s of (None, _) \<Rightarrow> None
            | (Some f, r) \<Rightarrow> if length r < length s then map_option ((#) (TNum f)) (tokenize depth r) else None)
         else if c = CHR ''('' then map_option ((#) TOpen) (tokenize (Suc depth) t)
         else if c = CHR '')'' then
           (if depth = 0 then None else map_option ((#) TClose) (tokenize (depth - 1) t))
         else if c = CHR ''*'' \<and> py_startswith t ''*'' then map_option ((#) TPow) (tokenize depth (drop 1 t))
         else if c = CHR ''/'' \<and> py_startswith t ''/'' then map_option ((#) TFloorDiv) (tokenize depth (drop 1 t))
         else if c \<in> set ''+-*/'' then map_option ((#) (TOp c)) (tokenize depth t)
         else if char_code c \<in> {9, 12, 32} \<or> (char_code c \<in> {10, 13} \<and> 0 < depth) then tokenize depth t
         else None)"
  by pat_completeness auto
termination by (relation "measure (\<lambda>(d, s). length s)") auto

declare tokenize.simps [simp del]

datatype arith = ANum pyfloat | ASign char arith | ABin char arith arith

text \<open>Recursive descent with a step budget: each call spends one unit.\<close>

function parse_sum :: "nat \<Rightarrow> token list \<Rightarrow> (arith \<times> token list) option"
  and parse_sum_rest :: "nat \<Rightarrow> arith \<Rightarrow> token list \<Rightarrow> (arith \<times> token list) option"
  and parse_term :: "nat \<Rightarrow> token list \<Rightarrow> (arith \<times> token list) option"
  and parse_term_rest :: "nat \<Rightarrow> arith \<Rightarrow> token list \<Rightarrow> (arith \<times> token list) option"
  and parse_factor :: "nat \<Rightarrow> token list \<Rightarrow> (arith \<times> token list) option" where
  "parse_sum k ts = (case k of 0 \<Rightarrow> None
     | Suc n \<Rightarrow> Option.bind (parse_term n ts) (\<lambda>(a, r). parse_sum_rest n a r))"
| "parse_sum_rest k a ts = (case k of 0 \<Rightarrow> None
     | Suc n \<Rightarrow> (case ts of
          TOp c # r \<Rightarrow> if c = CHR ''+'' \<or> c = CHR ''-''
             then Option.bind (parse_term n r) (\<lambda>(b, r'). parse_sum_rest n (ABin c a b) r')
             else Some (a, ts)
        | _ \<Rightarrow> Some (a, ts)))"
| "parse_term k ts = (case k of 0 \<Rightarrow> None
     | Suc n \<Rightarrow> Option.bind (parse_factor n ts) (\<lambda>(a, r). parse_term_rest n a r))"
| "parse_term_rest k a ts = (case k of 0 \<Rightarrow> None
     | Suc n \<Rightarrow> (case ts of
          TOp c # r \<Rightarrow> if c = CHR ''*'' \<or> c = CHR ''/''
             then Option.bind (parse_factor n r) (\<lambda>(b, r'). parse_term_rest n (ABin c a b) r')
             else Some (a, ts)
        | _ \<Rightarrow> Some (a, ts)))"
| "parse_factor k ts = (case k of 0 \<Rightarrow> None
     | Suc n \<Rightarrow> (case ts of
          TNum f # r \<Rightarrow> Some (ANum f, r)
        | TOp c # r \<Rightarrow> if c = CHR ''+'' \<or> c = CHR ''-''
             then map_option (\<lambda>(a, r'). (ASign c a, r')) (parse_factor n r) else None
        | TOpen # r \<Rightarrow> (case parse_sum n r of Some (a, TClose # r') \<Rightarrow> Some (a, r') | _ \<Rightarrow> None)
        | _ \<Rightarrow> None))"
  by pat_completeness auto
termination
  by (relation "measure (\<lambda>x. case x of Inl (Inl p) \<Rightarrow> fst p | Inl (Inr q) \<Rightarrow> fst q
        | Inr (Inl p) \<Rightarrow> fst p | Inr (Inr (Inl q)) \<Rightarrow> fst q | Inr (Inr (Inr p)) \<Rightarrow> fst p)") auto

declare parse_sum.simps [simp del] parse_sum_rest.simps [simp del] parse_term.simps [simp del]
  parse_term_rest.simps [simp del] parse_factor.simps [simp del]

text \<open>\<^verbatim>\<open>eval_node\<close>; \<^verbatim>\<open>None\<close> is the division by zero.\<close>

fun eval_node :: "arith \<Rightarrow> pyfloat option" where
  "eval_node (ANum f) = Some f"
| "eval_node (ASign c a) = map_option (\<lambda>f. if c = CHR ''-'' then f_neg f else f) (eval_node a)"
| "eval_node (ABin c a b) =
     Option.bind (eval_node a) (\<lambda>left. Option.bind (eval_node b) (\<lambda>right.
       if c = CHR ''+'' then Some (f_add left right)
       else if c = CHR ''-'' then Some (f_sub left right)
       else if c = CHR ''*'' then Some (f_mul left right)
       else if f_is_zero right then None else Some (f_div left right)))"

definition max_arith_expr_chars :: nat where "max_arith_expr_chars = 8192"

definition parse_arith :: "string \<Rightarrow> arith option" where
  "parse_arith expr = (case tokenize 0 expr of None \<Rightarrow> None
     | Some ts \<Rightarrow> (case parse_sum (4 * length ts + 4) ts of Some (a, []) \<Rightarrow> Some a | _ \<Rightarrow> None))"

definition safe_calculation_expr :: "string \<Rightarrow> arith_result option" where
  "safe_calculation_expr expr0 =
     (let expr = py_strip expr0 in
      if expr = [] \<or> length expr > max_arith_expr_chars then None
      else Option.bind (parse_arith expr) (\<lambda>a. Option.bind (eval_node a) (\<lambda>raw.
        if f_is_integer raw then Some (RInt (the (f_to_int raw))) else Some (RFloat raw))))"

section \<open>Strings and values\<close>

text \<open>\<^verbatim>\<open>_resolve_string_placeholders\<close>; \<^verbatim>\<open>None\<close> is an escaping \<^verbatim>\<open>TypeError\<close> or
  \<^verbatim>\<open>OverflowError\<close>.\<close>

definition resolve_string_placeholders :: "ph_env \<Rightarrow> var_source \<Rightarrow> nat \<Rightarrow> string \<Rightarrow> string option \<times> nat" where
  "resolve_string_placeholders env src n content =
     (case scan content of
        ([], _) \<Rightarrow> (Some content, n)
      | (ms, tail) \<Rightarrow>
          (case resolve_slots env src n ms of (slots, n') \<Rightarrow>
            (let spliced = split_placeholders (formatter_resolved_placeholders env) slots tail in
             if list_ex (\<lambda>(p, i, v). v = None) slots then (spliced, n')
             else case is_calculate_placeholder_expr slots tail of
               None \<Rightarrow> (None, n')
             | Some False \<Rightarrow> (spliced, n')
             | Some True \<Rightarrow>
                 (case all_some (map (\<lambda>(p, i, v). is_calculated_numeric (the v)) slots) of
                    None \<Rightarrow> (None, n')
                  | Some nums \<Rightarrow>
                      (case all_some nums of
                         None \<Rightarrow> (spliced, n')
                       | Some fs \<Rightarrow>
                           (let merged = py_strip (build_numeric_merged_expr (zip (map fst slots) fs) tail) in
                            if merged \<noteq> [] \<and> length merged \<le> max_arith_expr_chars \<and> arithmetic_only merged
                            then (case safe_calculation_expr merged of
                                    Some r \<Rightarrow> (Some (formatter_calculated_result r), n')
                                  | None \<Rightarrow> (spliced, n'))
                            else (spliced, n')))))))"

text \<open>The inner walk over a string that holds a JSON object or array (\<^verbatim>\<open>_treatment\<close>).\<close>

fun treat_json :: "ph_env \<Rightarrow> var_source \<Rightarrow> nat \<Rightarrow> pyval \<Rightarrow> pyval option \<times> nat"
  and treat_json_list :: "ph_env \<Rightarrow> var_source \<Rightarrow> nat \<Rightarrow> pyval list \<Rightarrow> pyval list option \<times> nat"
  and treat_json_dict :: "ph_env \<Rightarrow> var_source \<Rightarrow> nat \<Rightarrow> (string \<times> pyval) list \<Rightarrow> (string \<times> pyval) list option \<times> nat" where
  "treat_json env src n (PDict d) = (case treat_json_dict env src n d of (r, n') \<Rightarrow> (map_option PDict r, n'))"
| "treat_json env src n (PList xs) = (case treat_json_list env src n xs of (r, n') \<Rightarrow> (map_option PList r, n'))"
| "treat_json env src n (PStr s) =
     (if py_contains s ''${''
      then (case resolve_string_placeholders env src n s of (r, n') \<Rightarrow> (map_option PStr r, n'))
      else (Some (PStr s), n))"
| "treat_json env src n v = (Some v, n)"
| "treat_json_list env src n [] = (Some [], n)"
| "treat_json_list env src n (x # xs) =
     (case treat_json env src n x of
        (None, n') \<Rightarrow> (None, n')
      | (Some y, n') \<Rightarrow> (case treat_json_list env src n' xs of (r, n'') \<Rightarrow> (map_option ((#) y) r, n'')))"
| "treat_json_dict env src n [] = (Some [], n)"
| "treat_json_dict env src n ((k, x) # xs) =
     (case treat_json env src n x of
        (None, n') \<Rightarrow> (None, n')
      | (Some y, n') \<Rightarrow> (case treat_json_dict env src n' xs of (r, n'') \<Rightarrow> (map_option ((#) (k, y)) r, n'')))"

definition resolve_text :: "ph_env \<Rightarrow> var_source \<Rightarrow> nat \<Rightarrow> string \<Rightarrow> string option \<times> nat" where
  "resolve_text env src n s =
     (if py_contains s ''${'' \<and> (py_startswith s ''{'' \<or> py_startswith s ''['') then
        (case ph_loads env s of
           None \<Rightarrow> (Some s, n)
         | Some v \<Rightarrow>
             (case v of
                PDict _ \<Rightarrow> (case treat_json env src n v of (r, n') \<Rightarrow> (Option.bind r (ph_dumps env), n'))
              | PList _ \<Rightarrow> (case treat_json env src n v of (r, n') \<Rightarrow> (Option.bind r (ph_dumps env), n'))
              | _ \<Rightarrow> (Some s, n)))
      else resolve_string_placeholders env src n s)"

text \<open>\<^verbatim>\<open>resolve_placeholders\<close>: any exception below one value gives that value back.\<close>

fun resolve_placeholders :: "ph_env \<Rightarrow> var_source \<Rightarrow> nat \<Rightarrow> pyval \<Rightarrow> pyval \<times> nat"
  and resolve_list :: "ph_env \<Rightarrow> var_source \<Rightarrow> nat \<Rightarrow> pyval list \<Rightarrow> pyval list \<times> nat"
  and resolve_dict :: "ph_env \<Rightarrow> var_source \<Rightarrow> nat \<Rightarrow> (string \<times> pyval) list \<Rightarrow> (string \<times> pyval) list \<times> nat" where
  "resolve_placeholders env src n (PStr s) =
     (case resolve_text env src n s of (Some t, n') \<Rightarrow> (PStr t, n') | (None, n') \<Rightarrow> (PStr s, n'))"
| "resolve_placeholders env src n (PDict d) = (case resolve_dict env src n d of (r, n') \<Rightarrow> (PDict r, n'))"
| "resolve_placeholders env src n (PList xs) = (case resolve_list env src n xs of (r, n') \<Rightarrow> (PList r, n'))"
| "resolve_placeholders env src n v = (v, n)"
| "resolve_list env src n [] = ([], n)"
| "resolve_list env src n (x # xs) =
     (case resolve_placeholders env src n x of (y, n') \<Rightarrow>
        (case resolve_list env src n' xs of (ys, n'') \<Rightarrow> (y # ys, n'')))"
| "resolve_dict env src n [] = ([], n)"
| "resolve_dict env src n ((k, x) # xs) =
     (case resolve_placeholders env src n x of (y, n') \<Rightarrow>
        (case resolve_dict env src n' xs of (ys, n'') \<Rightarrow> ((k, y) # ys, n'')))"

text \<open>The list branch for \<^verbatim>\<open>StepVariablesBase\<close> items: only the value is replaced.\<close>

fun resolve_vars :: "ph_env \<Rightarrow> var_source \<Rightarrow> nat \<Rightarrow> step_var list \<Rightarrow> step_var list \<times> nat" where
  "resolve_vars env src n [] = ([], n)"
| "resolve_vars env src n (v # vs) =
     (case resolve_placeholders env src n (var_value v) of (y, n') \<Rightarrow>
        (case resolve_vars env src n' vs of (ws, n'') \<Rightarrow> (v\<lparr>var_value := y\<rparr> # ws, n'')))"

section \<open>Properties\<close>

definition render :: "(string \<times> string) list \<times> string \<Rightarrow> string" where
  "render r = concat (map (\<lambda>(pre, inner). pre @ hole_text inner) (fst r)) @ snd r"

lemma render_push: "render (push_char c r) = c # render r"
  by (auto simp: render_def push_char_def split: prod.splits list.splits)

lemma hole_at_text: "hole_at s = Some (inner, rest) \<Longrightarrow> s = hole_text inner @ rest \<and> inner \<noteq> [] \<and> CHR ''}'' \<notin> set inner"
proof -
  assume a: "hole_at s = Some (inner, rest)"
  let ?P = "\<lambda>c. c \<noteq> CHR ''}''"
  from a have st: "py_startswith s ''${''" and i: "inner = takeWhile ?P (drop 2 s)" "inner \<noteq> []"
    and r: "dropWhile ?P (drop 2 s) \<noteq> []" "rest = tl (dropWhile ?P (drop 2 s))"
    by (auto simp: hole_at_def Let_def split: if_splits)
  from st obtain t where t: "s = ''${'' @ t" by (auto simp: py_startswith_iff)
  have "t = inner @ dropWhile ?P t" using i t by (simp add: takeWhile_dropWhile_id)
  moreover have "dropWhile ?P t = CHR ''}'' # rest"
    using r t hd_dropWhile[of ?P t] by (cases "dropWhile ?P t") auto
  moreover have "CHR ''}'' \<notin> set inner" using i by (auto dest: set_takeWhileD)
  ultimately show ?thesis using t i by (simp add: hole_text_def)
qed

text \<open>Scanning loses nothing: the pieces put together again are the text.\<close>

lemma render_scan: "render (scan s) = s"
proof (induction s rule: scan.induct)
  case (1 s)
  show ?case
  proof (cases s)
    case (Cons c t)
    show ?thesis
    proof (cases "hole_at s")
      case None
      with 1(1)[OF Cons None] show ?thesis by (subst scan.simps) (simp add: Cons render_push)
    next
      case (Some ir)
      obtain inner rest where ir: "ir = (inner, rest)" by fastforce
      from 1(2)[OF Cons Some, of inner rest] ir have "render (scan rest) = rest" by simp
      moreover have "scan s = (case scan rest of (ps, tail) \<Rightarrow> (([], inner) # ps, tail))"
        using Some Cons ir by (subst scan.simps) simp
      moreover have "s = hole_text inner @ rest" using hole_at_text Some ir by blast
      ultimately show ?thesis by (auto simp: render_def split: prod.splits)
    qed
  qed (subst scan.simps, simp add: render_def)
qed

lemma scan_without_hole: "\<not> py_contains s ''${'' \<Longrightarrow> scan s = ([], s)"
proof (induction s)
  case (Cons c s)
  then have "hole_at (c # s) = None" by (auto simp: hole_at_def py_startswith_def)
  with Cons show ?case by (subst scan.simps) (auto simp: push_char_def split: if_splits)
qed (subst scan.simps, simp)

lemma slots_undefined:
  "\<forall>(p, i) \<in> set ms. CHR ''('' \<notin> set i \<and> lookup_source src (py_strip i) = None \<Longrightarrow>
   resolve_slots env src n ms = (map (\<lambda>(p, i). (p, i, None)) ms, n)"
proof (induction ms arbitrary: n)
  case (Cons m ms)
  obtain p i where m: "m = (p, i)" by fastforce
  have "py_strip (py_strip i) = py_strip i" by (rule py_strip_idem)
  moreover have "CHR ''('' \<notin> set (py_strip i)" using Cons.prems m set_py_strip[of i] by auto
  ultimately show ?case using Cons m by (simp add: resolve_placeholder_inner_def Let_def)
qed simp

lemma split_undefined: "split_placeholders f (map (\<lambda>(p, i). (p, i, None)) ms) tail = Some (render (ms, tail))"
  by (induction ms) (auto simp: render_def)

text \<open>
  A text without \<^verbatim>\<open>${\<close> is left as it is, and no helper function is called for it.
\<close>

theorem plain_text_unchanged:
  assumes "\<not> py_contains s ''${''"
  shows "resolve_placeholders env src n (PStr s) = (PStr s, n)"
  using scan_without_hole[OF assms] assms by (simp add: resolve_text_def resolve_string_placeholders_def)

theorem plain_text_unchanged_witness:
  "resolve_placeholders \<lparr>ph_func = \<lambda>_ _. None, ph_loads = \<lambda>_. None, ph_dumps = \<lambda>_. None\<rparr> NoSource 0 (PStr ''a$b'') = (PStr ''a$b'', 0)"
  by (rule plain_text_unchanged) code_simp

text \<open>
  C35. When no placeholder of a text is a function call, that is, has an opening parenthesis, and none of the
  variables it refers to is defined, the text is left as it is: an unresolved placeholder is never dropped or
  altered, and the text around it neither.
\<close>

theorem undefined_placeholders_kept:
  assumes "\<forall>(p, i) \<in> set (fst (scan s)). CHR ''('' \<notin> set i \<and> lookup_source src (py_strip i) = None"
  shows "resolve_string_placeholders env src n s = (Some s, n)"
proof -
  obtain ms tail where sc: "scan s = (ms, tail)" by fastforce
  with render_scan[of s] have r: "render (ms, tail) = s" by simp
  show ?thesis
  proof (cases ms)
    case Nil
    with sc show ?thesis by (simp add: resolve_string_placeholders_def)
  next
    case (Cons m ms')
    have "resolve_slots env src n ms = (map (\<lambda>(p, i). (p, i, None)) ms, n)"
      using assms sc by (intro slots_undefined) simp
    moreover have "list_ex (\<lambda>(p, i, v). v = None) (map (\<lambda>(p, i). (p, i, None)) ms)"
      by (simp add: Cons split_beta)
    moreover have "split_placeholders f (map (\<lambda>(p, i). (p, i, None)) ms) tail = Some s" for f
      using split_undefined[of f ms tail] r by simp
    ultimately show ?thesis using sc Cons
      by (simp add: resolve_string_placeholders_def Let_def split_beta)
  qed
qed

theorem undefined_placeholders_kept_witness:
  "resolve_string_placeholders \<lparr>ph_func = \<lambda>_ _. None, ph_loads = \<lambda>_. None, ph_dumps = \<lambda>_. None\<rparr>
     (EngineContext [] []) 0 ''id=${ x }!'' = (Some ''id=${ x }!'', 0)"
  by (rule undefined_placeholders_kept) code_simp

fun shape :: "pyval \<Rightarrow> pyval" where
  "shape (PStr s) = PStr []"
| "shape (PList xs) = PList (map shape xs)"
| "shape (PDict d) = PDict (map (\<lambda>(k, v). (k, shape v)) d)"
| "shape v = v"

lemma resolve_shapes:
  "shape (fst (resolve_placeholders env src n v)) = shape v"
  "map shape (fst (resolve_list env src n xs)) = map shape xs"
  "map (\<lambda>(k, v). (k, shape v)) (fst (resolve_dict env src n d)) = map (\<lambda>(k, v). (k, shape v)) d"
  by (induction env src n v and env src n xs and env src n d
      rule: resolve_placeholders_resolve_list_resolve_dict.induct)
     (auto split: prod.splits option.splits)

text \<open>
  C36. Resolution keeps the structure of a value: numbers, truth values and \<^verbatim>\<open>None\<close> as they are,
  lists of the same length, dictionaries with the same keys in the same order, and texts as texts.
\<close>

theorem resolution_keeps_structure: "shape (fst (resolve_placeholders env src n v)) = shape v"
  by (rule resolve_shapes)

lemma hole_at_hole: "name \<noteq> [] \<Longrightarrow> CHR ''}'' \<notin> set name \<Longrightarrow> hole_at (hole_text name) = Some (name, [])"
proof -
  assume a: "name \<noteq> []" "CHR ''}'' \<notin> set name"
  have "takeWhile (\<lambda>c. c \<noteq> CHR ''}'') (name @ ''}'') = name" "dropWhile (\<lambda>c. c \<noteq> CHR ''}'') (name @ ''}'') = ''}''"
    using a(2) by (induction name) auto
  with a show ?thesis by (simp add: hole_at_def hole_text_def py_startswith_def)
qed

text \<open>
  A text that is one placeholder of a defined variable becomes the text of the variable's value: the
  result is a text whatever the type of the value.
\<close>

theorem lone_placeholder_becomes_text:
  assumes "name \<noteq> []" "py_strip name = name" "CHR ''}'' \<notin> set name" "CHR ''('' \<notin> set name"
    and "lookup_source src name = Some v"
  shows "resolve_string_placeholders env src n (hole_text name) = (formatter_resolved_placeholders env v, n)"
proof -
  have "scan (hole_text name) = ([([], name)], [])"
  proof (cases "hole_text name")
    case (Cons c t)
    then show ?thesis using hole_at_hole[OF assms(1,3)]
      by (subst scan.simps) (simp add: scan.simps[of "[]"])
  qed (simp add: hole_text_def)
  with assms show ?thesis
    by (simp add: resolve_string_placeholders_def resolve_placeholder_inner_def Let_def
        is_calculate_placeholder_expr_def split: option.splits)
qed

theorem lone_placeholder_becomes_text_witness:
  "resolve_string_placeholders \<lparr>ph_func = \<lambda>_ _. None, ph_loads = \<lambda>_. None, ph_dumps = \<lambda>_. None\<rparr>
     (EngineContext [] [mk_var ''n'' (PInt 42)]) 0 (hole_text ''n'') = (Some ''42'', 0)"
proof -
  have "py_strip ''n'' = ''n''" "formatter_resolved_placeholders \<lparr>ph_func = \<lambda>_ _. None, ph_loads = \<lambda>_. None,
      ph_dumps = \<lambda>_. None\<rparr> (PInt 42) = Some ''42''" by code_simp+
  then show ?thesis
    using lone_placeholder_becomes_text[of "''n''" "EngineContext [] [mk_var ''n'' (PInt 42)]" "PInt 42"]
    by (simp add: lookup_source_def get_variable_def get_item_from_list_def mk_var_def)
qed

text \<open>
  Two numeric variables joined by a point are taken for a number and rewritten: a version put together
  from 1 and 0 becomes 1, no longer 1.0.
\<close>

theorem dotted_numbers_are_rewritten:
  "fst (resolve_string_placeholders env
     (EngineContext [] [mk_var ''a'' (PStr ''1''), mk_var ''b'' (PStr ''0'')]) n ''${a}.${b}'') = Some ''1''"
proof -
  have sc: "scan ''${a}.${b}'' = ([([], ''a''), (''.'', ''b'')], [])" by code_simp
  have st: "py_strip ''a'' = ''a''" "py_strip ''b'' = ''b''" "py_strip ''1'' = ''1''" "py_strip ''0'' = ''0''"
    "py_strip ''1.0'' = ''1.0''" "py_strip ''.'' = ''.''" by code_simp+
  have one: "parse_float ''1'' = Some (FFin 1)"
  proof -
    have "drop_underscores False ''1'' = Some ''1''" "split_sign ''1'' = (False, ''1'')" "py_lower ''1'' = ''1''"
      "parse_decimal ''1'' = Some 1" by code_simp+
    then show ?thesis by (simp add: parse_float_def st round_double_one)
  qed
  have zero: "parse_float ''0'' = Some (FFin 0)"
  proof -
    have "drop_underscores False ''0'' = Some ''0''" "split_sign ''0'' = (False, ''0'')" "py_lower ''0'' = ''0''"
      "parse_decimal ''0'' = Some 0" by code_simp+
    then show ?thesis by (simp add: parse_float_def st round_double_one)
  qed
  have merged: "build_numeric_merged_expr [([], FFin 1), (''.'', FFin 0)] [] = ''1.0''"
    "arithmetic_only ''1.0''" "arithmetic_only ''.''" by code_simp+
  have "parse_decimal ''1.0'' = Some 1" by code_simp
  then have "read_number ''1.0'' = (Some (FFin 1), [])"
    by (simp add: read_number_def number_value_def is_decimal_def char_code_def round_double_one)
  then have "tokenize 0 ''1.0'' = Some [TNum (FFin 1)]"
    by (subst tokenize.simps) (simp add: is_decimal_def char_code_def tokenize.simps[of 0 "[]"])
  moreover have "parse_sum (4 * length [TNum (FFin 1)] + 4) [TNum (FFin 1)] = Some (ANum (FFin 1), [])" by code_simp
  moreover have "f_is_integer (FFin 1)" "f_to_int (FFin 1) = Some 1" "int_str 1 = ''1''" by code_simp+
  ultimately have "safe_calculation_expr ''1.0'' = Some (RInt 1)" "formatter_calculated_result (RInt 1) = ''1''"
    by (simp_all add: safe_calculation_expr_def st parse_arith_def max_arith_expr_chars_def formatter_calculated_result_def)
  then show ?thesis
    by (simp add: resolve_string_placeholders_def sc resolve_placeholder_inner_def Let_def st lookup_source_def
        get_variable_def get_item_from_list_def mk_var_def is_calculate_placeholder_expr_def merged
        is_calculated_numeric_def one zero max_arith_expr_chars_def)
qed

text \<open>
  A list next to an operator sign leaves the whole text unresolved: the number test raises and the
  other placeholders of the text are given up too.
\<close>

theorem list_beside_sign_is_unresolved:
  assumes "ph_dumps env (PList []) = Some ''[]''"
  shows "resolve_placeholders env (EngineContext [] [mk_var ''xs'' (PList [])]) n (PStr ''${xs}-1'') = (PStr ''${xs}-1'', n) \<and>
    resolve_placeholders env (EngineContext [] [mk_var ''xs'' (PList [])]) n (PStr ''${xs}_1'') = (PStr ''[]_1'', n)"
proof -
  have "scan ''${xs}-1'' = ([([], ''xs'')], ''-1'')" "scan ''${xs}_1'' = ([([], ''xs'')], ''_1'')" by code_simp+
  moreover have "py_strip ''xs'' = ''xs''" "py_strip ''-1'' = ''-1''" "py_strip ''_1'' = ''_1''" by code_simp+
  ultimately show ?thesis using assms
    by (simp add: resolve_text_def resolve_string_placeholders_def resolve_placeholder_inner_def Let_def
        is_calculate_placeholder_expr_def py_float_def lookup_source_def get_variable_def get_item_from_list_def
        mk_var_def py_startswith_def formatter_resolved_placeholders_def)
qed

theorem list_beside_sign_is_unresolved_witness:
  "resolve_placeholders \<lparr>ph_func = \<lambda>_ _. None, ph_loads = \<lambda>_. None, ph_dumps = \<lambda>_. Some ''[]''\<rparr>
     (EngineContext [] [mk_var ''xs'' (PList [])]) 0 (PStr ''${xs}-1'') = (PStr ''${xs}-1'', 0)"
  using list_beside_sign_is_unresolved[of "\<lparr>ph_func = \<lambda>_ _. None, ph_loads = \<lambda>_. None, ph_dumps = \<lambda>_. Some ''[]''\<rparr>" 0] by simp

end
