(* ===== verification/StepTree.thy ===== *)
theory StepTree
  imports AssertCompare Placeholder
begin

text \<open>
  The step tree of \<^verbatim>\<open>schemas/autotest_step_schema.py\<close> and \<^verbatim>\<open>enums/autotest_enum.py\<close>, its
  preparation for execution, and the structural and variable-flow checks of
  \<^verbatim>\<open>autotest_runtime/validation\<close>.

  A step is its own data with the child steps, the quoted steps and the branches below it. Where
  the schema has an optional list, \<^verbatim>\<open>None\<close> and the empty list are the same value here: every
  use tests the list for truth only.
\<close>

section \<open>Enumerations\<close>

datatype step_type =
    USER_VARIABLES | COND_BRANCH | WAIT | LOOP | TCP | HTTP | PYTHON | DATABASE | REDIS
  | QUOTE_PUBLIC_SCRIPT | QUOTE_PUBLIC_API | DIFF | ASSERT | EXTRACT

datatype loop_mode = LM_COUNT | LM_LIST | LM_DICT | LM_CONDITION
datatype loop_strategy = LS_BREAK | LS_STOP | LS_CONTINUE
datatype branch_type = BR_IF | BR_ELIF | BR_ELSE
datatype case_type = PUBLIC_API | PUBLIC_SCRIPT | PRIVATE_SCRIPT
datatype args_type = ArgRaw | ArgNone | ArgJson | ArgXml | ArgParams | ArgFormData | ArgUrlencoded

text \<open>The choices for the frame of a TCP step.\<close>

datatype tcp_radix = RadixUnused | RadixDecimal | RadixHex
datatype tcp_datagram_length = IncludesLength | ExcludesLength
datatype tcp_connect_type = LongConnection | ShortConnection | SendOnly
datatype tcp_end_symbol = EndUnused | EndCRLF | EndCR | EndLF

section \<open>Records of a step\<close>

record operate =
  op_name :: string
  op_expr :: string
  op_project_id :: "int option"
  op_project_name :: string
  op_variable_name :: string
  op_config_name :: string
  op_database_name :: string

text \<open>\<^verbatim>\<open>DatagramFieldCompareItem\<close>: the two messages of one comparison.\<close>

record compare_item =
  ci_left :: pyval
  ci_right :: pyval
  ci_ordered :: "int option"

record condition =
  condition_expr :: "string option"
  condition_compare :: "assert_op option"
  condition_value :: pyval

record extract_item =
  ex_name :: string
  ex_source :: string
  ex_expr :: "string option"
  ex_scope :: "string option"
  ex_index :: "int option"

record assert_item =
  as_name :: string
  as_source :: string
  as_expr :: string
  as_operation :: assert_op
  as_value :: pyval

record step_data =
  step_id :: "int option"
  step_no :: "int option"
  step_code :: "string option"
  step_name :: "string option"
  step_type :: "step_type option"
  case_id :: "int option"
  quote_case_id :: "int option"
  parent_step_id :: "int option"
  step_is_skipped :: bool
  request_url :: "string option"
  request_port :: "string option"
  request_method :: "string option"
  request_text :: "string option"
  args_type :: "args_type option"
  tcp_radix :: "tcp_radix option"
  tcp_radix_length :: "int option"
  tcp_datagram_length :: "tcp_datagram_length option"
  tcp_request_end :: "tcp_end_symbol option"
  tcp_response_end :: "string option"
  tcp_connect :: "tcp_connect_type option"
  tcp_encoding :: "string option"
  tcp_hex_string :: bool
  request_body :: pyval
  request_header :: pyval
  request_params :: pyval
  request_form_data :: pyval
  request_form_urlencoded :: pyval
  request_form_file :: pyval
  request_project_id :: "int option"
  request_config_name :: "string option"
  database_operates :: "operate list"
  redis_operates :: "operate list"
  database_searched :: bool
  redis_searched :: bool
  compare_items :: "compare_item list"
  code_text :: "string option"
  wait_seconds :: "rat option"
  loop_mode_of :: "loop_mode option"
  loop_maximums :: "string option"
  loop_interval :: "rat option"
  loop_iterable :: "string option"
  loop_on_error :: "loop_strategy option"
  loop_timeout :: "rat option"
  loop_conditions :: "condition option"
  loop_index :: "string option"
  loop_key :: "string option"
  loop_value :: "string option"
  data_source_id :: "int option"
  session_vars :: "step_var list"
  defined_vars :: "step_var list"
  extract_rules :: "extract_item list"
  assert_rules :: "assert_item list"
  case_info :: pyval
  quote_case_info :: pyval

datatype step = Step (sdata: step_data) (children: "step list") (quote_steps: "step list")
    (branch_items: "branch list")
  and branch = Branch (br_type: branch_type) (br_conditions: "condition option")
    (br_desc: "string option") (br_children: "step list")

text \<open>\<^verbatim>\<open>item.step_no or 0\<close>.\<close>

definition step_order :: "step \<Rightarrow> int" where
  "step_order s = (case step_no (sdata s) of None \<Rightarrow> 0 | Some n \<Rightarrow> n)"

definition sort_steps :: "step list \<Rightarrow> step list" where
  "sort_steps ss = sort_key step_order ss"

text \<open>\<^verbatim>\<open>BaseStepExecutor.children\<close>.\<close>

definition executor_children :: "step \<Rightarrow> step list" where
  "executor_children s = sort_steps (children s @ quote_steps s)"

primrec prepare_step :: "step \<Rightarrow> step" and prepare_branch :: "branch \<Rightarrow> branch" where
  "prepare_step (Step d cs qs bs) =
     Step (d\<lparr>case_info := PNone, quote_case_info := PNone\<rparr>)
       (map prepare_step cs) (map prepare_step qs) (map prepare_branch bs)"
| "prepare_branch (Branch t c desc cs) = Branch t c desc (map prepare_step cs)"

text \<open>Truth of an optional identifier or text.\<close>

definition truthy_id :: "int option \<Rightarrow> bool" where
  "truthy_id i = (i \<noteq> None \<and> i \<noteq> Some 0)"

definition truthy_text :: "string option \<Rightarrow> bool" where
  "truthy_text s = (s \<noteq> None \<and> s \<noteq> Some [])"

section \<open>step\_tree.py: structure\<close>

datatype tree_error =
    RepeatedId "int option" "string option"
  | RepeatedCode "string option"
  | ChildrenNotAllowed "int option" "string option" "step_type option"
  | BranchesNotAllowed "int option" "string option" "step_type option"

text \<open>The first error among a list of checks, left to right.\<close>

fun first_error :: "'e option list \<Rightarrow> 'e option" where
  "first_error [] = None"
| "first_error (x # xs) = (case x of None \<Rightarrow> first_error xs | Some e \<Rightarrow> Some e)"

primrec check_step_recursive :: "step \<Rightarrow> int list \<Rightarrow> string list \<Rightarrow> tree_error option"
  and check_branch :: "branch \<Rightarrow> int list \<Rightarrow> string list \<Rightarrow> tree_error option" where
  "check_step_recursive (Step d cs qs bs) visited path =
     (let sid = step_id d; code = step_code d in
      if truthy_id sid \<and> the sid \<in> set visited then Some (RepeatedId sid code)
      else if truthy_text code \<and> the code \<in> set path then Some (RepeatedCode code)
      else
        (let visited' = (if truthy_id sid then the sid # visited else visited);
             path' = (if truthy_text code then path @ [the code] else path) in
         if cs \<noteq> [] \<and> step_type d \<notin> {Some LOOP, Some COND_BRANCH}
         then Some (ChildrenNotAllowed sid code (step_type d))
         else case first_error (map (\<lambda>f. f visited' path') (map check_step_recursive cs)) of
           Some e \<Rightarrow> Some e
         | None \<Rightarrow>
             if bs = [] then None
             else if step_type d \<noteq> Some COND_BRANCH then Some (BranchesNotAllowed sid code (step_type d))
             else first_error (map (\<lambda>f. f visited' path') (map check_branch bs))))"
| "check_branch (Branch t c desc cs) visited path =
     first_error (map (\<lambda>f. f visited path) (map check_step_recursive cs))"

definition validate_step_tree_structure :: "step list \<Rightarrow> tree_error option" where
  "validate_step_tree_structure steps = first_error (map (\<lambda>s. check_step_recursive s [] []) steps)"

section \<open>variable\_flow.py\<close>

text \<open>\<^verbatim>\<open>collect_session_variables\<close> walks children and quoted steps only.\<close>

primrec collect_step_vars :: "step \<Rightarrow> step_var list" where
  "collect_step_vars (Step d cs qs bs) =
     session_vars d @ concat (map collect_step_vars cs) @ concat (map collect_step_vars qs)"

definition collect_session_variables :: "step list \<Rightarrow> step_var list" where
  "collect_session_variables steps = concat (map collect_step_vars steps)"

definition count_suffix :: "string \<Rightarrow> string" where
  "count_suffix v = v @ ''_count''"

definition own_produced :: "step_data \<Rightarrow> string list" where
  "own_produced d =
     filter (\<lambda>k. k \<noteq> []) (List.map_filter id [loop_index d, loop_key d, loop_value d])
     @ filter (\<lambda>k. k \<noteq> []) (map var_key (session_vars d) @ map var_key (defined_vars d) @ map ex_name (extract_rules d))
     @ concat (map (\<lambda>op. if op_variable_name op = [] then []
           else [op_variable_name op, count_suffix (op_variable_name op)]) (database_operates d @ redis_operates d))"

primrec collect_produced :: "step \<Rightarrow> string list" and branch_produced :: "branch \<Rightarrow> string list" where
  "collect_produced (Step d cs qs bs) =
     own_produced d @ concat (map collect_produced cs) @ concat (map branch_produced bs)
     @ concat (map collect_produced qs)"
| "branch_produced (Branch t c desc cs) = concat (map collect_produced cs)"

text \<open>
  The field values the reference walk receives. It descends into texts, dictionaries and lists;
  the schema objects (conditions, variables, rules, operations) are none of these.
\<close>

datatype field_value = FVal pyval | FObject | FObjects nat

definition refs_in_text :: "string \<Rightarrow> string list" where
  "refs_in_text s = filter (\<lambda>inner. \<not> (CHR ''('' \<in> set inner \<and> py_endswith inner '')''))
     (map (\<lambda>(pre, inner). py_strip inner) (fst (scan s)))"

fun refs_in_value :: "pyval \<Rightarrow> string list" where
  "refs_in_value (PStr s) = refs_in_text s"
| "refs_in_value (PDict d) = concat (map (\<lambda>(k, v). refs_in_value v) d)"
| "refs_in_value (PList xs) = concat (map refs_in_value xs)"
| "refs_in_value v = []"

definition collect_refs_in_value :: "field_value \<Rightarrow> string list" where
  "collect_refs_in_value f = (case f of FVal v \<Rightarrow> refs_in_value v | FObject \<Rightarrow> [] | FObjects n \<Rightarrow> [])"

definition text_field :: "string \<Rightarrow> string option \<Rightarrow> (string \<times> field_value) list" where
  "text_field name v = (case v of None \<Rightarrow> [] | Some s \<Rightarrow> [(name, FVal (PStr s))])"

definition json_field :: "string \<Rightarrow> pyval \<Rightarrow> (string \<times> field_value) list" where
  "json_field name v = (if v = PNone then [] else [(name, FVal v)])"

definition objects_field :: "string \<Rightarrow> 'a list \<Rightarrow> (string \<times> field_value) list" where
  "objects_field name xs = (if xs = [] then [] else [(name, FObjects (length xs))])"

definition branch_fields :: "branch list \<Rightarrow> (string \<times> field_value) list" where
  "branch_fields bs = concat (map (\<lambda>(i, b). if br_conditions b = None then []
     else [(''branch_items['' @ int_str (int i) @ ''].branch_conditions'', FObject)]) (enumerate 0 bs))"

definition step_ref_fields :: "step \<Rightarrow> (string \<times> field_value) list" where
  "step_ref_fields s = (let d = sdata s in
     text_field ''request_url'' (request_url d) @ text_field ''request_port'' (request_port d)
     @ text_field ''request_text'' (request_text d) @ json_field ''request_body'' (request_body d)
     @ json_field ''request_header'' (request_header d) @ json_field ''request_params'' (request_params d)
     @ json_field ''request_form_data'' (request_form_data d)
     @ json_field ''request_form_urlencoded'' (request_form_urlencoded d)
     @ json_field ''request_form_file'' (request_form_file d)
     @ text_field ''code'' (code_text d) @ text_field ''loop_iterable'' (loop_iterable d)
     @ text_field ''loop_maximums'' (loop_maximums d)
     @ (if wait_seconds d = None then [] else [(''wait'', FObject)])
     @ (if loop_conditions d = None then [] else [(''loop_conditions'', FObject)])
     @ branch_fields (branch_items s)
     @ objects_field ''session_variables'' (session_vars d)
     @ objects_field ''defined_variables'' (defined_vars d)
     @ objects_field ''extract_variables'' (extract_rules d)
     @ objects_field ''assert_validators'' (assert_rules d)
     @ objects_field ''database_operates'' (database_operates d)
     @ objects_field ''redis_operates'' (redis_operates d))"

record flow_error =
  fe_code :: "string option"
  fe_field :: string
  fe_variable :: string

definition own_flow_errors :: "string set \<Rightarrow> step \<Rightarrow> flow_error list" where
  "own_flow_errors produced s =
     concat (map (\<lambda>(name, value).
         map (\<lambda>r. \<lparr>fe_code = step_code (sdata s), fe_field = name, fe_variable = r\<rparr>)
           (filter (\<lambda>r. r \<notin> produced) (collect_refs_in_value value)))
       (step_ref_fields s))"

primrec check_refs :: "step \<Rightarrow> string set \<Rightarrow> flow_error list"
  and check_branch_refs :: "branch \<Rightarrow> string set \<Rightarrow> flow_error list" where
  "check_refs (Step d cs qs bs) produced =
     own_flow_errors produced (Step d cs qs bs)
     @ concat (map (\<lambda>f. f produced) (map check_refs cs))
     @ concat (map (\<lambda>f. f produced) (map check_branch_refs bs))
     @ concat (map (\<lambda>f. f produced) (map check_refs qs))"
| "check_branch_refs (Branch t c desc cs) produced = concat (map (\<lambda>f. f produced) (map check_refs cs))"

definition produced_names :: "step list \<Rightarrow> string set" where
  "produced_names steps =
     set ([''loop_index'', ''loop_value'', ''loop_key''] @ concat (map collect_produced steps))"

definition validate_variable_flow :: "step list \<Rightarrow> flow_error list" where
  "validate_variable_flow steps = concat (map (\<lambda>s. check_refs s (produced_names steps)) steps)"

section \<open>Properties\<close>

text \<open>A path of the tree: from a step down to a step below it, through children and branches.\<close>

inductive tree_path :: "step \<Rightarrow> step list \<Rightarrow> bool" where
  path_here: "tree_path s [s]"
| path_child: "c \<in> set (children s) \<Longrightarrow> tree_path c p \<Longrightarrow> tree_path s (s # p)"
| path_branch: "b \<in> set (branch_items s) \<Longrightarrow> c \<in> set (br_children b) \<Longrightarrow> tree_path c p \<Longrightarrow> tree_path s (s # p)"

inductive_cases path_cases: "tree_path s p"

definition ids_of :: "step list \<Rightarrow> int list" where
  "ids_of p = map (\<lambda>s. the (step_id (sdata s))) (filter (\<lambda>s. truthy_id (step_id (sdata s))) p)"

definition codes_on :: "step list \<Rightarrow> string list" where
  "codes_on p = map (\<lambda>s. the (step_code (sdata s))) (filter (\<lambda>s. truthy_text (step_code (sdata s))) p)"

definition container_ok :: "step \<Rightarrow> bool" where
  "container_ok s = ((children s \<noteq> [] \<longrightarrow> step_type (sdata s) \<in> {Some LOOP, Some COND_BRANCH}) \<and>
     (branch_items s \<noteq> [] \<longrightarrow> step_type (sdata s) = Some COND_BRANCH))"

definition path_ok :: "int list \<Rightarrow> string list \<Rightarrow> step list \<Rightarrow> bool" where
  "path_ok visited codes p = (distinct (ids_of p) \<and> set (ids_of p) \<inter> set visited = {} \<and>
     distinct (codes_on p) \<and> set (codes_on p) \<inter> set codes = {} \<and> list_all container_ok p)"

lemma first_error_None: "first_error xs = None \<longleftrightarrow> (\<forall>x \<in> set xs. x = None)"
  by (induction xs) (auto split: option.splits)

definition seen_ids :: "step \<Rightarrow> int list \<Rightarrow> int list" where
  "seen_ids s visited = (if truthy_id (step_id (sdata s)) then the (step_id (sdata s)) # visited else visited)"

definition seen_codes :: "step \<Rightarrow> string list \<Rightarrow> string list" where
  "seen_codes s codes = (if truthy_text (step_code (sdata s)) then codes @ [the (step_code (sdata s))] else codes)"

lemma path_ok_Cons:
  "path_ok visited codes (s # p) \<longleftrightarrow>
     \<not> (truthy_id (step_id (sdata s)) \<and> the (step_id (sdata s)) \<in> set visited) \<and>
     \<not> (truthy_text (step_code (sdata s)) \<and> the (step_code (sdata s)) \<in> set codes) \<and>
     container_ok s \<and> path_ok (seen_ids s visited) (seen_codes s codes) p"
  by (auto simp: path_ok_def ids_of_def codes_on_def seen_ids_def seen_codes_def)

lemma path_ok_Nil [simp]: "path_ok visited codes []"
  by (simp add: path_ok_def ids_of_def codes_on_def)

lemma check_step_here:
  "check_step_recursive s visited codes = None \<longleftrightarrow>
     \<not> (truthy_id (step_id (sdata s)) \<and> the (step_id (sdata s)) \<in> set visited) \<and>
     \<not> (truthy_text (step_code (sdata s)) \<and> the (step_code (sdata s)) \<in> set codes) \<and> container_ok s \<and>
     (\<forall>c \<in> set (children s). check_step_recursive c (seen_ids s visited) (seen_codes s codes) = None) \<and>
     (\<forall>b \<in> set (branch_items s). \<forall>c \<in> set (br_children b).
        check_step_recursive c (seen_ids s visited) (seen_codes s codes) = None)"
proof (cases s)
  case (Step d cs qs bs)
  have b: "check_branch b v q = None \<longleftrightarrow> (\<forall>c \<in> set (br_children b). check_step_recursive c v q = None)" for b v q
    by (cases b) (auto simp: first_error_None)
  let ?rep = "truthy_id (step_id d) \<and> the (step_id d) \<in> set visited"
  let ?rec = "truthy_text (step_code d) \<and> the (step_code d) \<in> set codes"
  let ?v = "seen_ids s visited" and ?q = "seen_codes s codes"
  have e: "check_step_recursive s visited codes =
      (if ?rep then Some (RepeatedId (step_id d) (step_code d))
       else if ?rec then Some (RepeatedCode (step_code d))
       else if cs \<noteq> [] \<and> step_type d \<notin> {Some LOOP, Some COND_BRANCH}
       then Some (ChildrenNotAllowed (step_id d) (step_code d) (step_type d))
       else case first_error (map (\<lambda>f. f ?v ?q) (map check_step_recursive cs)) of
           Some e \<Rightarrow> Some e
         | None \<Rightarrow> if bs = [] then None
             else if step_type d \<noteq> Some COND_BRANCH then Some (BranchesNotAllowed (step_id d) (step_code d) (step_type d))
             else first_error (map (\<lambda>f. f ?v ?q) (map check_branch bs)))"
    by (simp only: Step check_step_recursive.simps seen_ids_def seen_codes_def step.sel Let_def)
  have f: "first_error (map (\<lambda>f. f ?v ?q) (map check_step_recursive cs)) = None \<longleftrightarrow>
      (\<forall>c \<in> set cs. check_step_recursive c ?v ?q = None)"
    "first_error (map (\<lambda>f. f ?v ?q) (map check_branch bs)) = None \<longleftrightarrow>
      (\<forall>b \<in> set bs. \<forall>c \<in> set (br_children b). check_step_recursive c ?v ?q = None)"
    by (simp_all add: first_error_None b)
  have sel: "sdata s = d" "children s = cs" "branch_items s = bs" by (simp_all add: Step)
  show ?thesis
  proof (cases "?rep \<or> ?rec \<or> cs \<noteq> [] \<and> step_type d \<notin> {Some LOOP, Some COND_BRANCH}")
    case True
    then show ?thesis by (auto simp: e sel container_ok_def)
  next
    case False
    then show ?thesis
      by (cases "first_error (map (\<lambda>f. f ?v ?q) (map check_step_recursive cs))")
         (auto simp: e sel container_ok_def f[symmetric] simp del: map_map)
  qed
qed

lemma path_below:
  "(\<forall>p. tree_path s p \<longrightarrow> P p) \<longleftrightarrow> P [s] \<and> (\<forall>c \<in> set (children s). \<forall>p. tree_path c p \<longrightarrow> P (s # p)) \<and>
     (\<forall>b \<in> set (branch_items s). \<forall>c \<in> set (br_children b). \<forall>p. tree_path c p \<longrightarrow> P (s # p))"
  by (blast elim: path_cases intro: tree_path.intros)

lemma check_step_paths:
  "check_step_recursive s visited codes = None \<longleftrightarrow> (\<forall>p. tree_path s p \<longrightarrow> path_ok visited codes p)"
proof (induction "size s" arbitrary: s visited codes rule: less_induct)
  case less
  have c: "size x < size s" if "x \<in> set (children s)" for x
    using that by (cases s) (auto simp: less_Suc_eq_le intro: size_list_estimation' trans_le_add1 trans_le_add2)
  have b: "size x < size s" if "y \<in> set (branch_items s)" "x \<in> set (br_children y)" for x y
  proof -
    have "size x < size y" using that(2) by (cases y) (auto simp: less_Suc_eq_le intro: size_list_estimation')
    also have "size y < size s"
      using that(1) by (cases s) (auto simp: less_Suc_eq_le intro: size_list_estimation' trans_le_add2)
    finally show ?thesis .
  qed
  have "(\<forall>p. tree_path s p \<longrightarrow> path_ok visited codes p) \<longleftrightarrow> path_ok visited codes [s] \<and>
      (\<forall>c \<in> set (children s). \<forall>p. tree_path c p \<longrightarrow> path_ok visited codes (s # p)) \<and>
      (\<forall>b \<in> set (branch_items s). \<forall>c \<in> set (br_children b). \<forall>p. tree_path c p \<longrightarrow> path_ok visited codes (s # p))"
    by (rule path_below)
  also have "\<dots> \<longleftrightarrow> check_step_recursive s visited codes = None"
    unfolding check_step_here[of s]
    using less[OF c, of _ "seen_ids s visited" "seen_codes s codes"]
      less[OF b, of _ _ "seen_ids s visited" "seen_codes s codes"]
    by (simp add: path_ok_Cons) blast
  finally show ?case by blast
qed

definition step_data_of :: "step_type \<Rightarrow> string option \<Rightarrow> step_data" where
  "step_data_of t code = \<lparr>step_id = None, step_no = None, step_code = code, step_name = None, step_type = Some t,
     case_id = Some 1, quote_case_id = None, parent_step_id = None, step_is_skipped = False,
     request_url = None, request_port = None, request_method = None, request_text = None, args_type = None, tcp_radix = None, tcp_radix_length = None,
     tcp_datagram_length = None, tcp_request_end = None, tcp_response_end = None, tcp_connect = None, tcp_encoding = None,
     tcp_hex_string = False,
     request_body = PNone, request_header = PNone, request_params = PNone, request_form_data = PNone,
     request_form_urlencoded = PNone, request_form_file = PNone, request_project_id = None,
     request_config_name = None, database_operates = [], redis_operates = [], database_searched = False, redis_searched = False,
     compare_items = [], code_text = None,
     wait_seconds = None, loop_mode_of = None, loop_maximums = None, loop_interval = None,
     loop_iterable = None, loop_on_error = None, loop_timeout = None, loop_conditions = None,
     loop_index = None, loop_key = None, loop_value = None, data_source_id = None, session_vars = [],
     defined_vars = [], extract_rules = [], assert_rules = [], case_info = PNone, quote_case_info = PNone\<rparr>"

text \<open>
  C37. The structure check accepts a tree exactly when on every path down the tree no identifier and no
  step code occurs twice, only loops and conditions have children, and only conditions have branches.
\<close>

theorem structure_check_is_exact:
  "validate_step_tree_structure steps = None \<longleftrightarrow>
     (\<forall>s \<in> set steps. \<forall>p. tree_path s p \<longrightarrow>
        distinct (ids_of p) \<and> distinct (codes_on p) \<and> list_all container_ok p)"
  by (auto simp: validate_step_tree_structure_def first_error_None check_step_paths path_ok_def)

theorem structure_check_is_exact_witness:
  "distinct (codes_on [Step (step_data_of LOOP (Some ''l'')) [Step (step_data_of WAIT (Some ''w'')) [] [] []] [] [],
     Step (step_data_of WAIT (Some ''w'')) [] [] []])"
proof -
  let ?c = "Step (step_data_of WAIT (Some ''w'')) [] [] []"
  let ?s = "Step (step_data_of LOOP (Some ''l'')) [?c] [] []"
  have "validate_step_tree_structure [?s] = None" by code_simp
  moreover have "tree_path ?s [?s, ?c]" by (rule path_child[OF _ path_here]) simp
  ultimately show ?thesis using structure_check_is_exact[of "[?s]"] by auto
qed

text \<open>
  The collection of session variables of a tree leaves out the steps inside branches: a condition step
  contributes its own variables only.
\<close>

theorem branch_variables_not_collected:
  "collect_session_variables [Step d [] [] bs] = session_vars d"
  by (simp add: collect_session_variables_def)

text \<open>
  The check of variable references does not look into the variables, rules, conditions and operations
  of a step: whatever these refer to, it reports nothing for them.
\<close>

theorem references_in_objects_unchecked:
  "own_flow_errors produced (Step (d\<lparr>session_vars := vs, defined_vars := ws, extract_rules := xs, assert_rules := rs,
       loop_conditions := cond, database_operates := os, redis_operates := ps\<rparr>) cs qs bs) =
   own_flow_errors produced (Step (d\<lparr>session_vars := [], defined_vars := [], extract_rules := [], assert_rules := [],
       loop_conditions := None, database_operates := [], redis_operates := []\<rparr>) cs qs bs)"
  by (simp add: own_flow_errors_def step_ref_fields_def Let_def text_field_def json_field_def objects_field_def
      collect_refs_in_value_def)

end
