(* ===== verification/ExecFields.thy ===== *)
theory ExecFields
  imports StepTree
begin

text \<open>
  \<^verbatim>\<open>validation/executor_fields.py\<close>: the required fields of each step type. An error is the
  step's code, name and type with the labels of what is missing; a step without a type stops the
  walk below it.
\<close>

record field_error =
  er_code :: "string option"
  er_name :: "string option"
  er_type :: "step_type option"
  er_missing :: "string list"

definition need :: "bool \<Rightarrow> string \<Rightarrow> string list" where
  "need present label = (if present then [] else [label])"

definition indexed :: "string \<Rightarrow> nat \<Rightarrow> string" where
  "indexed name i = name @ ''['' @ int_str (int i) @ '']''"

definition missing_of_operate :: "string \<Rightarrow> nat \<times> operate \<Rightarrow> string list" where
  "missing_of_operate name x = (case x of (idx, op) \<Rightarrow>
     (let op_label = indexed name idx in
      need (op_expr op \<noteq> []) (op_label @ ''.expr'')
      @ need (op_variable_name op \<noteq> []) (op_label @ ''.variable_name'')
      @ need (op_config_name op \<noteq> []) (op_label @ ''.config_name'')
      @ need (op_database_name op \<noteq> []) (op_label @ ''.database_name'')
      @ need (op_project_name op \<noteq> [] \<or> truthy_id (op_project_id op)) (op_label @ ''.project_name|project_id'')))"

definition missing_of_operates :: "string \<Rightarrow> operate list \<Rightarrow> string list" where
  "missing_of_operates name ops =
     (if ops = [] then [name] else concat (map (missing_of_operate name) (enumerate 0 ops)))"

definition missing_of_loop :: "step_data \<Rightarrow> string list" where
  "missing_of_loop d =
     need (loop_mode_of d \<noteq> None) ''loop_mode'' @ need (loop_on_error d \<noteq> None) ''loop_on_error''
     @ (case loop_mode_of d of
          None \<Rightarrow> []
        | Some LM_COUNT \<Rightarrow> need (truthy_text (loop_maximums d)) ''loop_maximums''
        | Some LM_LIST \<Rightarrow> need (truthy_text (loop_iterable d)) ''loop_iterable''
        | Some LM_DICT \<Rightarrow> need (truthy_text (loop_iterable d)) ''loop_iterable''
        | Some LM_CONDITION \<Rightarrow> need (loop_conditions d \<noteq> None) ''loop_conditions'')"

definition missing_of_branch :: "nat \<times> branch \<Rightarrow> string list" where
  "missing_of_branch x = (case x of (bi, b) \<Rightarrow>
     (let label = indexed ''branch_items'' bi @ ''.branch_conditions'' in
      if br_type b \<in> {BR_IF, BR_ELIF} then
        (case br_conditions b of
           None \<Rightarrow> [label]
         | Some cond \<Rightarrow> need (truthy_text (condition_expr cond)) (label @ ''.condition_expr'')
             @ need (condition_compare cond \<noteq> None) (label @ ''.condition_compare''))
      else []))"

definition missing_of_assert :: "nat \<times> assert_item \<Rightarrow> string list" where
  "missing_of_assert x = (case x of (idx, item) \<Rightarrow>
     (let op_label = indexed ''assert_validators'' idx in
      need (as_name item \<noteq> []) (op_label @ ''.name'')
      @ need (as_source item \<noteq> []) (op_label @ ''.source'')
      @ need (as_expr item \<noteq> []) (op_label @ ''.expr'')))"

text \<open>\<^verbatim>\<open>str(scope or '').strip().upper()\<close> compared with ALL.\<close>

definition scope_is_all :: "string option \<Rightarrow> bool" where
  "scope_is_all scope = (case scope of None \<Rightarrow> False
     | Some s \<Rightarrow> map upper_ascii_char (py_strip s) = ''ALL'')"

definition missing_of_extract :: "nat \<times> extract_item \<Rightarrow> string list" where
  "missing_of_extract x = (case x of (idx, item) \<Rightarrow>
     (let op_label = indexed ''extract_variables'' idx in
      need (ex_name item \<noteq> []) (op_label @ ''.name'')
      @ need (ex_source item \<noteq> []) (op_label @ ''.source'')
      @ need (scope_is_all (ex_scope item) \<or> truthy_text (ex_expr item)) (op_label @ ''.expr'')))"

definition missing_fields :: "step_type \<Rightarrow> step_data \<Rightarrow> branch list \<Rightarrow> string list" where
  "missing_fields t d bs = (case t of
     HTTP \<Rightarrow> need (truthy_text (request_url d)) ''request_url''
       @ need (truthy_text (request_method d)) ''request_method''
       @ need (truthy_id (request_project_id d)) ''request_project_id''
       @ need (truthy_text (request_config_name d)) ''request_config_name''
   | TCP \<Rightarrow> need (truthy_text (request_url d)) ''request_url''
       @ need (truthy_text (request_port d)) ''request_port''
       @ need (truthy_id (request_project_id d)) ''request_project_id''
       @ need (truthy_text (request_config_name d)) ''request_config_name''
       @ need (truthy_text (request_text d) \<or> py_truthy (request_body d)) ''request_text|request_body''
   | DATABASE \<Rightarrow> missing_of_operates ''database_operates'' (database_operates d)
   | REDIS \<Rightarrow> missing_of_operates ''redis_operates'' (redis_operates d)
   | PYTHON \<Rightarrow> need (truthy_text (code_text d)) ''code''
   | LOOP \<Rightarrow> missing_of_loop d
   | COND_BRANCH \<Rightarrow> (if bs = [] then [''branch_items'']
       else concat (map missing_of_branch (enumerate 0 bs)))
   | WAIT \<Rightarrow> need (wait_seconds d \<noteq> None) ''wait''
   | QUOTE_PUBLIC_SCRIPT \<Rightarrow> need (truthy_id (quote_case_id d)) ''quote_case_id''
   | QUOTE_PUBLIC_API \<Rightarrow> need (truthy_id (quote_case_id d)) ''quote_case_id''
   | USER_VARIABLES \<Rightarrow> need (session_vars d \<noteq> []) ''session_variables''
   | ASSERT \<Rightarrow> (if assert_rules d = [] then [''assert_validators'']
       else concat (map missing_of_assert (enumerate 0 (assert_rules d))))
   | EXTRACT \<Rightarrow> (if extract_rules d = [] then [''extract_variables'']
       else concat (map missing_of_extract (enumerate 0 (extract_rules d))))
   | DIFF \<Rightarrow> [])"

definition field_error_of :: "step_data \<Rightarrow> string list \<Rightarrow> field_error" where
  "field_error_of d missing =
     \<lparr>er_code = step_code d, er_name = step_name d, er_type = step_type d, er_missing = missing\<rparr>"

primrec check_fields :: "step \<Rightarrow> field_error list" and check_branch_fields :: "branch \<Rightarrow> field_error list" where
  "check_fields (Step d cs qs bs) =
     (case step_type d of
        None \<Rightarrow> [field_error_of d []]
      | Some t \<Rightarrow>
          (let missing = missing_fields t d bs in
           (if missing = [] then [] else [field_error_of d missing])
           @ concat (map check_fields cs) @ concat (map check_branch_fields bs)
           @ concat (map check_fields qs)))"
| "check_branch_fields (Branch t c desc cs) = concat (map check_fields cs)"

definition validate_executor_fields :: "step list \<Rightarrow> field_error list" where
  "validate_executor_fields steps = concat (map check_fields steps)"

end
