(* ===== verification/XmlTree.thy ===== *)
theory XmlTree
  imports Prelude
begin

text \<open>
  \<^verbatim>\<open>common/xml_utils.py\<close> and \<^verbatim>\<open>common/xpath_utils.py\<close>: XML documents with their declaration and
  namespaces, and queries and changes by XPath.

  An element is a tree, and an element within a document is the path of child indices that leads to it. The
  library \<^verbatim>\<open>ElementTree\<close> is a parameter (\<^verbatim>\<open>xml_lib\<close>): parsing of a document without declaration, the
  namespace events of a document, printing with a list of registered prefixes, and
  \<^verbatim>\<open>findall\<close>, \<^verbatim>\<open>None\<close> where it rejects the path.
\<close>

section \<open>Documents\<close>

datatype xml_name = XTag string | XComment | XInstruction

datatype xml = Elem (xml_tag: xml_name) (xml_text: "string option") (xml_attrib: "string dict")
    (xml_kids: "xml list") (xml_tail: "string option")

type_synonym xpath = "nat list"

record xml_lib =
  xl_tree :: "string \<Rightarrow> xml option"
  xl_spaces :: "string \<Rightarrow> (string \<times> string) list"
  xl_print :: "(string \<times> string) list \<Rightarrow> xml \<Rightarrow> string option"
  xl_findall :: "string \<Rightarrow> xml \<Rightarrow> xpath list option"

record document =
  doc_root :: xml
  doc_spaces :: "(string \<times> string) list"
  doc_declaration :: "string option"

text \<open>The declaration, with the spaces around it, and the rest.\<close>

definition split_declaration :: "string \<Rightarrow> string option \<times> string" where
  "split_declaration s =
     (let t = dropWhile is_space s; d = py_before CHR ''>'' t; r = dropWhile (\<lambda>c. c \<noteq> CHR ''>'') t in
      if py_lower (take 5 t) = ''<?xml'' \<and> r \<noteq> [] \<and> 5 < length d \<and> last d = CHR ''?''
      then (Some (d @ ''>''), dropWhile is_space (tl r)) else (None, s))"

definition parse_document :: "xml_lib \<Rightarrow> string \<Rightarrow> document option" where
  "parse_document lib s = (case split_declaration s of (declaration, body) \<Rightarrow>
     if py_strip body = [] then None
     else (case xl_tree lib body of None \<Rightarrow> None
       | Some t \<Rightarrow> Some \<lparr>doc_root = t, doc_spaces = xl_spaces lib body, doc_declaration = declaration\<rparr>))"

section \<open>Printing with the original prefixes\<close>

definition is_reserved_prefix :: "string \<Rightarrow> bool" where
  "is_reserved_prefix p = (py_lower (take 2 p) = ''ns'' \<and> drop 2 p \<noteq> [] \<and> list_all is_decimal (drop 2 p))"

definition root_uri :: "xml \<Rightarrow> string option" where
  "root_uri t = (case xml_tag t of
     XTag (c # s) \<Rightarrow> if c = CHR ''{'' \<and> py_before CHR ''}'' s \<noteq> [] then Some (py_before CHR ''}'' s) else None
   | _ \<Rightarrow> None)"

definition preferred_prefix :: "string \<Rightarrow> (string \<times> string) list \<Rightarrow> string" where
  "preferred_prefix uri spaces = (case List.find (\<lambda>(p, u). u = uri) spaces of
     None \<Rightarrow> [] | Some (p, u) \<Rightarrow> if is_reserved_prefix p then [] else p)"

text \<open>The prefixes to register, in the order of the document: one for each namespace, the first that is
  free, and the default prefix for the namespace of the root only.\<close>

definition register_space :: "string option \<Rightarrow> string \<Rightarrow> (string \<times> string) list \<Rightarrow> string \<times> string \<Rightarrow> (string \<times> string) list" where
  "register_space uri preferred used s = (case s of (p, u) \<Rightarrow>
     (let q = (if Some u = uri then preferred else p) in
      if u = [] \<or> p = ''xml'' \<or> (q = [] \<and> Some u \<noteq> uri) \<or> is_reserved_prefix q
         \<or> u \<in> snd ` set used \<or> q \<in> fst ` set used
      then used else used @ [(q, u)]))"

definition registered_spaces :: "xml \<Rightarrow> (string \<times> string) list \<Rightarrow> (string \<times> string) list" where
  "registered_spaces t spaces = (case root_uri t of
     None \<Rightarrow> foldl (register_space None []) [] spaces
   | Some uri \<Rightarrow>
       (let preferred = preferred_prefix uri spaces; used = foldl (register_space (Some uri) preferred) [] spaces in
        if uri \<in> snd ` set used then used else used @ [(preferred, uri)]))"

definition serialize :: "xml_lib \<Rightarrow> document \<Rightarrow> string option" where
  "serialize lib doc = (case xl_print lib (registered_spaces (doc_root doc) (doc_spaces doc)) (doc_root doc) of
     None \<Rightarrow> None
   | Some body \<Rightarrow> Some (case doc_declaration doc of None \<Rightarrow> body | Some d \<Rightarrow> d @ body))"

definition bare_document :: "xml \<Rightarrow> document" where
  "bare_document t = \<lparr>doc_root = t, doc_spaces = [], doc_declaration = None\<rparr>"

section \<open>Elements within a tree\<close>

fun node_at :: "xpath \<Rightarrow> xml \<Rightarrow> xml option" where
  "node_at [] t = Some t"
| "node_at (i # p) t = (if i < length (xml_kids t) then node_at p (xml_kids t ! i) else None)"

fun edit_at :: "xpath \<Rightarrow> (xml \<Rightarrow> xml) \<Rightarrow> xml \<Rightarrow> xml" where
  "edit_at [] f t = f t"
| "edit_at (i # p) f (Elem n x a ks z) =
     (if i < length ks then Elem n x a (ks[i := edit_at p f (ks ! i)]) z else Elem n x a ks z)"

definition set_text :: "string \<Rightarrow> xml \<Rightarrow> xml" where
  "set_text s t = (case t of Elem n x a ks z \<Rightarrow> Elem n (Some s) a ks z)"

definition add_kid :: "xml \<Rightarrow> xml \<Rightarrow> xml" where
  "add_kid k t = (case t of Elem n x a ks z \<Rightarrow> Elem n x a (ks @ [k]) z)"

definition after_last :: "char \<Rightarrow> string \<Rightarrow> string" where
  "after_last c s = rev (takeWhile (\<lambda>x. x \<noteq> c) (rev s))"

definition local_name :: "string \<Rightarrow> string" where
  "local_name tag = after_last CHR ''}'' tag"

definition local_tag :: "xml \<Rightarrow> string" where
  "local_tag t = (case xml_tag t of XTag s \<Rightarrow> local_name s | _ \<Rightarrow> [])"

definition tag_in_parent_ns :: "xml \<Rightarrow> string \<Rightarrow> string" where
  "tag_in_parent_ns t name = (case xml_tag t of
     XTag s \<Rightarrow> if CHR ''}'' \<in> set s then ''{'' @ tl (py_before CHR ''}'' s) @ ''}'' @ name else name
   | _ \<Rightarrow> name)"

definition attribute_key :: "xml \<Rightarrow> string \<Rightarrow> string option" where
  "attribute_key t name = (if name = [] then None else List.find (\<lambda>k. local_name k = name) (keys (xml_attrib t)))"

definition get_attribute :: "xml \<Rightarrow> string \<Rightarrow> string option" where
  "get_attribute t name = (case attribute_key t name of None \<Rightarrow> None | Some k \<Rightarrow> map_of (xml_attrib t) k)"

definition set_attribute :: "string \<Rightarrow> string \<Rightarrow> xml \<Rightarrow> xml" where
  "set_attribute name v t = (case t of Elem n x a ks z \<Rightarrow>
     Elem n x (AList.update (case attribute_key t name of None \<Rightarrow> name | Some k \<Rightarrow> k) v a) ks z)"

section \<open>Paths\<close>

definition dots :: "string \<Rightarrow> bool" where
  "dots s = (s \<in> {[], ''.'', ''..'', ''*''})"

definition rewrite_segment_ns_agnostic :: "string \<Rightarrow> string" where
  "rewrite_segment_ns_agnostic s =
     (if dots s \<or> hd s = CHR ''@'' \<or> hd s = CHR ''{'' then s
      else (let name = py_before CHR ''['' s; predicate = dropWhile (\<lambda>c. c \<noteq> CHR ''['') s in
        if dots name then s
        else ''{*}'' @ (if CHR '':'' \<in> set name then py_after CHR '':'' name else name) @ predicate))"

fun join_slashes :: "string list \<Rightarrow> string" where
  "join_slashes [] = []"
| "join_slashes [s] = s"
| "join_slashes (s # t # ss) = s @ CHR ''/'' # join_slashes (t # ss)"

definition namespace_agnostic_xpath :: "string \<Rightarrow> string" where
  "namespace_agnostic_xpath s =
     (if s = [] \<or> CHR ''{'' \<in> set s then s else join_slashes (map rewrite_segment_ns_agnostic (py_split CHR ''/'' s)))"

definition or_nothing :: "'a list option \<Rightarrow> 'a list" where
  "or_nothing xs = (case xs of None \<Rightarrow> [] | Some ys \<Rightarrow> ys)"

definition find_nodes :: "xml_lib \<Rightarrow> xml \<Rightarrow> string \<Rightarrow> xpath list" where
  "find_nodes lib t path =
     (if path = [] then []
      else (let found = or_nothing (xl_findall lib path t); alt = namespace_agnostic_xpath path in
        if found \<noteq> [] \<or> alt = [] \<or> alt = path then found else or_nothing (xl_findall lib alt t)))"

text \<open>The path of the owner and the local name of an attribute.\<close>

definition split_attribute_xpath :: "string \<Rightarrow> (string \<times> string) option" where
  "split_attribute_xpath path =
     (let final = (if path \<noteq> [] \<and> hd path = CHR ''@'' then path else after_last CHR ''/'' path);
          owner = take (length path - Suc (length final)) path;
          name = after_last CHR '':'' (py_strip (tl final))
      in if path = [] \<or> final = [] \<or> hd final \<noteq> CHR ''@'' \<or> name = [] then None
         else Some (if final = path \<or> owner = [] then ''.'' else owner, name))"

section \<open>Queries and changes\<close>

definition element_extract_value :: "xml_lib \<Rightarrow> xml \<Rightarrow> string option" where
  "element_extract_value lib t =
     (if xml_kids t = [] \<and> xml_text t \<noteq> None \<and> xml_text t \<noteq> Some [] then xml_text t
      else serialize lib (bare_document t))"

text \<open>\<^verbatim>\<open>query_all\<close>: \<^verbatim>\<open>None\<close> where parsing or printing raises.\<close>

definition query_all :: "xml_lib \<Rightarrow> string \<Rightarrow> string \<Rightarrow> string list option" where
  "query_all lib s path =
     (if path = [] then Some []
      else (case parse_document lib s of None \<Rightarrow> None
       | Some doc \<Rightarrow>
           (let t = doc_root doc in
            case split_attribute_xpath path of
              Some (owner, name) \<Rightarrow>
                Some (List.map_filter (\<lambda>n. get_attribute n name) (List.map_filter (\<lambda>p. node_at p t) (find_nodes lib t owner)))
            | None \<Rightarrow> all_some (map (element_extract_value lib) (List.map_filter (\<lambda>p. node_at p t) (find_nodes lib t path))))))"

text \<open>\<^verbatim>\<open>query\<close>: the last match; \<^verbatim>\<open>Some None\<close> is the answer \<^verbatim>\<open>None\<close>.\<close>

definition query_last :: "xml_lib \<Rightarrow> string \<Rightarrow> string \<Rightarrow> string option option" where
  "query_last lib s path =
     (if path = [] then Some None
      else (case parse_document lib s of None \<Rightarrow> None
       | Some doc \<Rightarrow>
           (let t = doc_root doc in
            case split_attribute_xpath path of
              Some (owner, name) \<Rightarrow>
                (case List.map_filter (\<lambda>p. node_at p t) (find_nodes lib t owner) of
                   [] \<Rightarrow> Some None | ns \<Rightarrow> Some (get_attribute (last ns) name))
            | None \<Rightarrow>
                (case List.map_filter (\<lambda>p. node_at p t) (find_nodes lib t path) of
                   [] \<Rightarrow> Some None | ns \<Rightarrow> map_option Some (element_extract_value lib (last ns))))))"

text \<open>\<^verbatim>\<open>update_in_place\<close>: \<^verbatim>\<open>None\<close> when the path finds nothing.\<close>

definition update_in_place :: "xml_lib \<Rightarrow> string \<Rightarrow> string \<Rightarrow> xml \<Rightarrow> xml option" where
  "update_in_place lib path v t =
     (if path = [] then None
      else (case split_attribute_xpath path of
          Some (owner, name) \<Rightarrow>
            (case find_nodes lib t owner of [] \<Rightarrow> None | ps \<Rightarrow> Some (edit_at (last ps) (set_attribute name v) t))
        | None \<Rightarrow>
            (case find_nodes lib t path of [] \<Rightarrow> None | ps \<Rightarrow> Some (edit_at (last ps) (set_text v) t))))"

definition update_xml :: "xml_lib \<Rightarrow> string \<Rightarrow> string \<Rightarrow> string \<Rightarrow> string option" where
  "update_xml lib s path v = (case parse_document lib s of None \<Rightarrow> None
     | Some doc \<Rightarrow>
         if path = [] then Some s
         else (case update_in_place lib path v (doc_root doc) of
             None \<Rightarrow> Some s | Some t \<Rightarrow> serialize lib (doc\<lparr>doc_root := t\<rparr>)))"

text \<open>Removal of the elements at some paths. The root has no parent and stays.\<close>

fun prune :: "xpath list \<Rightarrow> xml \<Rightarrow> xml" and prune_kids :: "xpath list \<Rightarrow> nat \<Rightarrow> xml list \<Rightarrow> xml list" where
  "prune ps (Elem n x a ks z) = Elem n x a (prune_kids ps 0 ks) z"
| "prune_kids ps i [] = []"
| "prune_kids ps i (k # ks) =
     (if [i] \<in> set ps then prune_kids ps (Suc i) ks
      else prune (map tl (filter (\<lambda>p. p \<noteq> [] \<and> hd p = i) ps)) k # prune_kids ps (Suc i) ks)"

definition delete_xml :: "xml_lib \<Rightarrow> string \<Rightarrow> string \<Rightarrow> string option" where
  "delete_xml lib s path = (case parse_document lib s of None \<Rightarrow> None
     | Some doc \<Rightarrow>
         (case find_nodes lib (doc_root doc) path of
            [] \<Rightarrow> Some s
          | ps \<Rightarrow> serialize lib (doc\<lparr>doc_root := prune ps (doc_root doc)\<rparr>)))"

end
