(* ===== verification/Exchange.thy ===== *)
theory Exchange
  imports ExecFields XmlTree
begin

text \<open>
  \<^verbatim>\<open>autotest_runtime/exchange\<close> and \<^verbatim>\<open>datagram/value_adapter.py\<close>: extraction from a
  request/response snapshot, the extraction and assertion pipelines, and their composition.

  Arguments (record \<^verbatim>\<open>xch_env\<close>): jsonpath-ng (\<^verbatim>\<open>xe_jsonpath\<close>: parse and find,
  \<^verbatim>\<open>None\<close> when the expression is rejected or the search raises) with the rewriting
  \<^verbatim>\<open>xe_quote\<close> of non-ASCII keys it is retried with, the XML library (\<^verbatim>\<open>xe_xml\<close>), Python's
  regular expressions (\<^verbatim>\<open>xe_regex\<close>: \<^verbatim>\<open>None\<close> for an invalid pattern, otherwise the whole
  match and its groups), \<^verbatim>\<open>json.loads\<close> of the set operators, and the Chinese texts of the source
  that lie outside the modelled code points.
\<close>

record xch_env =
  xe_ph :: ph_env
  xe_json_loads :: "string \<Rightarrow> pyval option"
  xe_jsonpath :: "string \<Rightarrow> pyval \<Rightarrow> pyval list option"
  xe_quote :: "string \<Rightarrow> string"
  xe_xml :: xml_lib
  xe_regex :: "string \<Rightarrow> string \<Rightarrow> (string \<times> pyval list) option option"
  xe_pool_alias :: string
  xe_empty_text :: string
  xe_space_text :: string

section \<open>value\_adapter.py\<close>

definition py_upper_null :: "string \<Rightarrow> bool" where
  "py_upper_null s = (map upper_ascii_char s = ''#NULL'')"

definition expand_dataset_special_value :: "xch_env \<Rightarrow> pyval \<Rightarrow> pyval" where
  "expand_dataset_special_value env value = (case value of
     PStr s \<Rightarrow> (let crt = py_strip s in
       if crt = xe_empty_text env then PStr []
       else if py_upper_null crt then PNone
       else if crt = xe_space_text env then PStr '' ''
       else value)
   | _ \<Rightarrow> value)"

definition expand_dataset_general_value :: "pyval \<Rightarrow> string" where
  "expand_dataset_general_value value = (case value of PNone \<Rightarrow> []
     | PBool b \<Rightarrow> (if b then ''true'' else ''false'') | _ \<Rightarrow> py_str value)"

definition route_bool :: "string \<Rightarrow> pyval" where
  "route_bool raw = (let t = py_lower (py_strip raw) in
     if t = ''true'' then PBool True else if t = ''false'' then PBool False else PStr raw)"

definition convert_float :: "string \<Rightarrow> pyval" where
  "convert_float raw = (case parse_float (py_strip raw) of None \<Rightarrow> PStr raw
     | Some f \<Rightarrow> if f_value f \<noteq> None then PFloat f else PStr raw)"

definition route_int :: "string \<Rightarrow> pyval" where
  "route_int raw = (case parse_int (py_strip raw) of Inr i \<Rightarrow> PInt i | Inl _ \<Rightarrow> convert_float raw)"

text \<open>\<^verbatim>\<open>adapt\<close>. A special text that expands to the text itself is the same object in Python;
  no special text does.\<close>

definition adapt_value :: "xch_env \<Rightarrow> pyval \<Rightarrow> pyval \<Rightarrow> pyval" where
  "adapt_value env raw_value target_value = (case raw_value of
     PStr raw \<Rightarrow>
       (let expanded = expand_dataset_special_value env raw_value in
        if expanded \<noteq> raw_value then expanded
        else (case target_value of
            PBool _ \<Rightarrow> route_bool raw
          | PInt _ \<Rightarrow> route_int raw
          | PFloat _ \<Rightarrow> convert_float raw
          | _ \<Rightarrow> PStr raw))
   | _ \<Rightarrow> raw_value)"

section \<open>extractors.py\<close>

record exchange =
  response_text :: "string option"
  response_json :: "pyval option"
  response_headers :: "pyval dict option"
  response_cookies :: "pyval dict option"
  request_txt :: "string option"
  request_json :: "pyval option"
  request_headers :: "pyval dict option"
  request_cookies :: "pyval dict option"
  request_form :: "pyval dict option"

datatype extract_error =
    EmptyData | MissingExpr | BadPath | NoMatch | IndexTooLarge | ListIndexError | BadXml | BadRegex
  | GroupOutOfRange | PoolMissing | NoStoredVariable | BadVariableNames | SourceNotAllowed

text \<open>Python list indexing.\<close>

definition py_index :: "'a list \<Rightarrow> int \<Rightarrow> 'a option" where
  "py_index xs i = (let n = int (length xs); j = (if i < 0 then n + i else i) in
     if 0 \<le> j \<and> j < n then Some (xs ! nat j) else None)"

definition resolve_json_path :: "xch_env \<Rightarrow> pyval \<Rightarrow> string \<Rightarrow> extract_error + pyval" where
  "resolve_json_path env data expr0 =
     (let expr = py_strip expr0 in
      if expr = [] \<or> \<not> py_startswith expr ''$'' \<or> data = PNone then Inl BadPath
      else (case (case xe_jsonpath env expr data of Some ms \<Rightarrow> Some ms
                  | None \<Rightarrow> xe_jsonpath env (xe_quote env expr) data) of
              None \<Rightarrow> Inl BadPath
            | Some [] \<Rightarrow> Inl NoMatch
            | Some [v] \<Rightarrow> Inr v
            | Some vs \<Rightarrow> Inr (PList vs)))"

definition extract_json_payload ::
    "xch_env \<Rightarrow> pyval option \<Rightarrow> string option \<Rightarrow> string \<Rightarrow> int option \<Rightarrow> extract_error + pyval" where
  "extract_json_payload env data expr range_type index =
     (case data of None \<Rightarrow> Inl EmptyData
      | Some v \<Rightarrow>
          if range_type = ''all'' then Inr v
          else if \<not> truthy_text expr then Inl MissingExpr
          else (case resolve_json_path env v (the expr) of
              Inl e \<Rightarrow> Inl e
            | Inr r \<Rightarrow> (case (r, index) of
                (PList xs, Some i) \<Rightarrow>
                   if i \<ge> int (length xs) then Inl IndexTooLarge
                   else (case py_index xs i of Some x \<Rightarrow> Inr x | None \<Rightarrow> Inl ListIndexError)
              | _ \<Rightarrow> Inr r)))"

definition extract_xml_payload ::
    "xch_env \<Rightarrow> string option \<Rightarrow> string option \<Rightarrow> string \<Rightarrow> int option \<Rightarrow> extract_error + pyval" where
  "extract_xml_payload env text expr range_type index =
     (if \<not> truthy_text text then Inl EmptyData
      else if range_type = ''all'' then Inr (PStr (the text))
      else if \<not> truthy_text expr then Inl MissingExpr
      else (case query_all (xe_xml env) (the text) (the expr) of
          None \<Rightarrow> Inl BadXml
        | Some [] \<Rightarrow> Inl NoMatch
        | Some values \<Rightarrow> (case index of
            None \<Rightarrow> Inr (PStr (last values))
          | Some i \<Rightarrow> if i \<ge> int (length values) then Inl IndexTooLarge
              else (case py_index values i of Some x \<Rightarrow> Inr (PStr x) | None \<Rightarrow> Inl ListIndexError))))"

definition extract_text_payload ::
    "xch_env \<Rightarrow> string option \<Rightarrow> string option \<Rightarrow> string \<Rightarrow> int option \<Rightarrow> extract_error + pyval" where
  "extract_text_payload env text expr range_type index =
     (if \<not> truthy_text text then Inl EmptyData
      else if range_type = ''all'' then Inr (PStr (the text))
      else if \<not> truthy_text expr then Inl MissingExpr
      else (case xe_regex env (the expr) (the text) of
          None \<Rightarrow> Inl BadRegex
        | Some None \<Rightarrow> Inl NoMatch
        | Some (Some (whole, groups)) \<Rightarrow>
            (case index of
               None \<Rightarrow> Inr (PStr whole)
             | Some i \<Rightarrow>
                 if i = 0 then Inr (PStr whole)
                 else (let n = int (length groups) in
                   if i < 0 then
                     (let actual = n + i + 1 in
                      if actual \<le> 0 then Inl GroupOutOfRange else Inr (groups ! nat (actual - 1)))
                   else if i > n then Inl GroupOutOfRange
                   else Inr (groups ! nat (i - 1))))))"

definition extract_mapping_payload ::
    "xch_env \<Rightarrow> pyval dict option \<Rightarrow> string option \<Rightarrow> string \<Rightarrow> extract_error + pyval" where
  "extract_mapping_payload env data expr range_type =
     (case data of None \<Rightarrow> Inl EmptyData
      | Some d \<Rightarrow>
          if d = [] then Inl EmptyData
          else if range_type = ''all'' then Inr (PDict d)
          else if \<not> truthy_text expr then Inl MissingExpr
          else resolve_json_path env (PDict d) (the expr))"

definition extract_session_vars :: "xch_env \<Rightarrow> pyval dict option \<Rightarrow> string option \<Rightarrow> extract_error + pyval" where
  "extract_session_vars env lookup expr =
     (if \<not> truthy_text expr then Inl MissingExpr
      else case lookup of None \<Rightarrow> Inl PoolMissing
           | Some d \<Rightarrow> resolve_json_path env (PDict d) (the expr))"

subsection \<open>Results of database and Redis operations\<close>

text \<open>\<^verbatim>\<open>source in op_resp.get('variable_name', [])\<close>: \<^verbatim>\<open>None\<close> for the \<^verbatim>\<open>TypeError\<close> of a value that has
  no members.\<close>

definition names_variable :: "string \<Rightarrow> pyval option \<Rightarrow> bool option" where
  "names_variable source v = (case v of
     None \<Rightarrow> Some False
   | Some (PList xs) \<Rightarrow> Some (list_ex (\<lambda>x. py_eq (PStr source) x) xs)
   | Some (PStr s) \<Rightarrow> Some (py_contains s source)
   | Some (PDict d) \<Rightarrow> Some (source \<in> set (keys d))
   | Some _ \<Rightarrow> None)"

text \<open>The last operation that stores the variable and has data wins.\<close>

fun stored_data :: "string \<Rightarrow> pyval list \<Rightarrow> pyval option \<Rightarrow> extract_error + pyval option" where
  "stored_data source [] acc = Inr acc"
| "stored_data source (op # ops) acc = (case op of
     PDict d \<Rightarrow> (case names_variable source (map_of d ''variable_name'') of
         None \<Rightarrow> Inl BadVariableNames
       | Some False \<Rightarrow> stored_data source ops acc
       | Some True \<Rightarrow>
           (let op_data = (case map_of d ''redis_data'' of Some v \<Rightarrow> v
              | None \<Rightarrow> (case map_of d ''sql_data'' of Some v \<Rightarrow> v | None \<Rightarrow> PNone))
            in stored_data source ops (if op_data \<noteq> PNone then Some op_data else acc)))
   | _ \<Rightarrow> stored_data source ops acc)"

definition all_operate_responses :: "pyval list \<Rightarrow> bool" where
  "all_operate_responses ops = list_all (\<lambda>op. case op of
       PDict d \<Rightarrow> list_ex (\<lambda>k. k \<in> set (keys d)) [''variable_name'', ''sql_data'', ''redis_data'']
     | _ \<Rightarrow> False) ops"

definition extract_operate_data ::
    "xch_env \<Rightarrow> string \<Rightarrow> pyval option \<Rightarrow> string option \<Rightarrow> string \<Rightarrow> int option \<Rightarrow> extract_error + pyval" where
  "extract_operate_data env source_strip json expr range_type index =
     (case json of
        Some (PList ops) \<Rightarrow>
          if source_strip = [] \<or> ops = [] then Inl SourceNotAllowed
          else (case stored_data source_strip ops None of
              Inl e \<Rightarrow> Inl e
            | Inr (Some v) \<Rightarrow> extract_json_payload env (Some v) expr range_type index
            | Inr None \<Rightarrow> if all_operate_responses ops then Inl NoStoredVariable else Inl SourceNotAllowed)
      | _ \<Rightarrow> Inl SourceNotAllowed)"

text \<open>\<^verbatim>\<open>extract_from_source\<close>: the registry by normalised source name, then the stored data of
  database and Redis operations.\<close>

definition extract_from_source ::
    "xch_env \<Rightarrow> exchange \<Rightarrow> pyval dict option \<Rightarrow> string \<Rightarrow> string option \<Rightarrow> string option \<Rightarrow> int option \<Rightarrow> extract_error + pyval" where
  "extract_from_source env x lookup source expr range_type index =
     (let range_n = py_lower (py_strip (if truthy_text range_type then the range_type else ''SOME''));
          key = py_lower (py_strip source);
          req_cookies = (case request_cookies x of Some c \<Rightarrow> Some c
             | None \<Rightarrow> (case request_headers x of None \<Rightarrow> None
                 | Some [] \<Rightarrow> None
                 | Some hs \<Rightarrow> Some (map (\<lambda>(k, v). (k, PStr v)) (parse_cookie_header (Some hs)))))
      in
      if key = ''response json'' then extract_json_payload env (response_json x) expr range_n index
      else if key = ''request json'' then extract_json_payload env (request_json x) expr range_n index
      else if key = ''response xml'' then extract_xml_payload env (response_text x) expr range_n index
      else if key = ''request xml'' then extract_xml_payload env (request_txt x) expr range_n index
      else if key = ''response text'' then extract_text_payload env (response_text x) expr range_n index
      else if key = ''request text'' then extract_text_payload env (request_txt x) expr range_n index
      else if key = ''response headers'' then extract_mapping_payload env (response_headers x) expr range_n
      else if key = ''request headers'' then extract_mapping_payload env (request_headers x) expr range_n
      else if key = ''response cookie'' then extract_mapping_payload env (response_cookies x) expr range_n
      else if key = ''request cookie'' then extract_mapping_payload env req_cookies expr range_n
      else if key = ''request form-data'' then extract_mapping_payload env (request_form x) expr range_n
      else if key = ''session_variables'' \<or> key = xe_pool_alias env then extract_session_vars env lookup expr
      else extract_operate_data env (py_strip source) (response_json x) expr range_n index)"

section \<open>extract\_pipeline.py\<close>

record extract_result =
  er_item :: extract_item
  er_value :: pyval
  er_error :: "extract_error option"

definition er_success :: "extract_result \<Rightarrow> bool" where
  "er_success r = (er_error r = None)"

definition extract_rule_complete :: "extract_item \<Rightarrow> bool" where
  "extract_rule_complete it = (ex_name it \<noteq> [] \<and> ex_source it \<noteq> []
     \<and> (scope_is_all (ex_scope it) \<or> truthy_text (ex_expr it)))"

fun run_extract_variables ::
    "xch_env \<Rightarrow> exchange \<Rightarrow> pyval dict option \<Rightarrow> extract_item list \<Rightarrow> pyval dict \<Rightarrow> pyval dict \<times> extract_result list" where
  "run_extract_variables env x lookup [] acc = (acc, [])"
| "run_extract_variables env x lookup (it # its) acc =
     (if \<not> extract_rule_complete it then run_extract_variables env x lookup its acc
      else case extract_from_source env x lookup (ex_source it) (ex_expr it) (ex_scope it) (ex_index it) of
          Inr v \<Rightarrow> (case run_extract_variables env x lookup its (AList.update (ex_name it) v acc) of
              (d, rs) \<Rightarrow> (d, \<lparr>er_item = it, er_value = v, er_error = None\<rparr> # rs))
        | Inl e \<Rightarrow> (case run_extract_variables env x lookup its acc of
              (d, rs) \<Rightarrow> (d, \<lparr>er_item = it, er_value = PNone, er_error = Some e\<rparr> # rs)))"

section \<open>assert\_pipeline.py\<close>

datatype assert_failure = CannotExtract extract_error | NotSatisfied | CannotCompare cmp_error
  | SkipJson | SkipXml | SkipText

record assert_result =
  ar_name :: string
  ar_source :: string
  ar_expr :: string
  ar_operation :: assert_op
  ar_expected :: pyval
  ar_actual :: pyval
  ar_failure :: "assert_failure option"

definition ar_success :: "assert_result \<Rightarrow> bool" where
  "ar_success r = (ar_failure r = None)"

definition assert_rule_complete :: "assert_item \<Rightarrow> bool" where
  "assert_rule_complete it = (as_name it \<noteq> [] \<and> as_expr it \<noteq> [] \<and> as_source it \<noteq> [])"

text \<open>The expected value; \<^verbatim>\<open>NoSource\<close> stands for \<^verbatim>\<open>finished_variables is None\<close>.\<close>

definition resolve_expected :: "xch_env \<Rightarrow> var_source \<Rightarrow> nat \<Rightarrow> pyval \<Rightarrow> pyval \<times> nat" where
  "resolve_expected env src n v = (if src = NoSource then (v, n) else resolve_placeholders (xe_ph env) src n v)"

definition judge :: "xch_env \<Rightarrow> pyval \<Rightarrow> assert_op \<Rightarrow> pyval \<Rightarrow> assert_failure option" where
  "judge env actual op expected = (case compare_assertion (xe_json_loads env) actual (Some op) expected of
     Inl e \<Rightarrow> Some (CannotCompare e) | Inr True \<Rightarrow> None | Inr False \<Rightarrow> Some NotSatisfied)"

definition run_one_assert ::
    "xch_env \<Rightarrow> exchange \<Rightarrow> pyval dict option \<Rightarrow> var_source \<Rightarrow> nat \<Rightarrow> assert_item \<Rightarrow> assert_result \<times> nat" where
  "run_one_assert env x lookup src n it =
     (let r = \<lparr>ar_name = as_name it, ar_source = as_source it, ar_expr = as_expr it,
               ar_operation = as_operation it, ar_expected = as_value it, ar_actual = PNone, ar_failure = None\<rparr>
      in case extract_from_source env x lookup (as_source it) (Some (as_expr it)) (Some ''SOME'') None of
           Inl e \<Rightarrow> (r\<lparr>ar_failure := Some (CannotExtract e)\<rparr>, n)
         | Inr actual \<Rightarrow> (case resolve_expected env src n (as_value it) of (expected, n') \<Rightarrow>
             (r\<lparr>ar_expected := expected, ar_actual := actual,
                ar_failure := judge env actual (as_operation it) expected\<rparr>, n')))"

fun run_assert_validators ::
    "xch_env \<Rightarrow> exchange \<Rightarrow> pyval dict option \<Rightarrow> var_source \<Rightarrow> nat \<Rightarrow> assert_item list \<Rightarrow> assert_result list \<times> nat" where
  "run_assert_validators env x lookup src n [] = ([], n)"
| "run_assert_validators env x lookup src n (it # its) =
     (if \<not> assert_rule_complete it then run_assert_validators env x lookup src n its
      else case run_one_assert env x lookup src n it of (r, n') \<Rightarrow>
        (case run_assert_validators env x lookup src n' its of (rs, n'') \<Rightarrow> (r # rs, n'')))"

text \<open>The data-driven assertions: one equality per path of the dataset.\<close>

record dataset =
  ds_head :: "pyval dict"
  ds_body :: "pyval dict"
  ds_assert_head :: "pyval dict"
  ds_assert_body :: "pyval dict"

definition body_source :: "string \<Rightarrow> string" where
  "body_source expr = (if py_startswith expr ''$.'' then ''response json''
     else if py_startswith expr ''./'' \<or> py_startswith expr ''//'' then ''response xml''
     else ''response text'')"

definition body_skip :: "exchange \<Rightarrow> string \<Rightarrow> assert_failure option" where
  "body_skip x source =
     (if source = ''response json'' \<and> response_json x = None then Some SkipJson
      else if source = ''response xml'' \<and> \<not> truthy_text (response_text x) then Some SkipXml
      else if source = ''response text'' \<and> \<not> truthy_text (response_text x) then Some SkipText
      else None)"

text \<open>The expected value is resolved and its special texts expanded, with a variable source only.\<close>

definition append_one ::
    "xch_env \<Rightarrow> exchange \<Rightarrow> pyval dict option \<Rightarrow> var_source \<Rightarrow> nat \<Rightarrow> string \<Rightarrow> pyval \<Rightarrow> string \<Rightarrow> assert_failure option \<Rightarrow> assert_result \<times> nat" where
  "append_one env x lookup src n path except_value source skip =
     (case resolve_expected env src n except_value of (v, n') \<Rightarrow>
       (let expected = (if src = NoSource then v else expand_dataset_special_value env v);
            x' = x\<lparr>request_txt := None, request_json := None, request_headers := None,
                   request_cookies := None, request_form := None\<rparr>;
            r = \<lparr>ar_name = path, ar_source = source, ar_expr = path, ar_operation = OP_EQUAL,
                 ar_expected = expected, ar_actual = PNone, ar_failure = skip\<rparr>
        in (case skip of Some f \<Rightarrow> (r, n')
            | None \<Rightarrow>
              (case extract_from_source env x' lookup source (Some (py_strip path)) (Some ''SOME'') None of
                 Inl e \<Rightarrow> (r\<lparr>ar_failure := Some (CannotExtract e)\<rparr>, n')
               | Inr actual \<Rightarrow>
                   (case judge env actual OP_EQUAL expected of
                      Some (CannotCompare e) \<Rightarrow> (r\<lparr>ar_failure := Some (CannotCompare e)\<rparr>, n')
                    | f \<Rightarrow> (r\<lparr>ar_actual := actual, ar_failure := f\<rparr>, n'))))))"

fun append_paths ::
    "xch_env \<Rightarrow> exchange \<Rightarrow> pyval dict option \<Rightarrow> var_source \<Rightarrow> nat \<Rightarrow> (string \<Rightarrow> string) \<Rightarrow> (string \<Rightarrow> assert_failure option) \<Rightarrow> pyval dict \<Rightarrow> assert_result list \<times> nat" where
  "append_paths env x lookup src n source_of skip_of [] = ([], n)"
| "append_paths env x lookup src n source_of skip_of ((path, v) # ps) =
     (if path = [] then append_paths env x lookup src n source_of skip_of ps
      else (let source = source_of (py_strip path) in
        case append_one env x lookup src n path v source (skip_of source) of (r, n') \<Rightarrow>
          (case append_paths env x lookup src n' source_of skip_of ps of (rs, n'') \<Rightarrow> (r # rs, n''))))"

definition append_assert_validators ::
    "xch_env \<Rightarrow> exchange \<Rightarrow> pyval dict option \<Rightarrow> var_source \<Rightarrow> nat \<Rightarrow> dataset \<Rightarrow> assert_result list \<Rightarrow> assert_result list \<times> nat" where
  "append_assert_validators env x lookup src n ds results =
     (case (if response_headers x = None then ([], n)
            else append_paths env x lookup src n (\<lambda>_. ''response headers'') (\<lambda>_. None) (ds_assert_head ds)) of
        (heads, n') \<Rightarrow>
          (case append_paths env x lookup src n' body_source (body_skip x) (ds_assert_body ds) of
             (bodies, n'') \<Rightarrow> (results @ heads @ bodies, n'')))"

section \<open>pipeline.py\<close>

text \<open>
  Extraction, the write of the extracted variables to the lookup table and to the session pool,
  the assertions, then the data-driven ones. \<^verbatim>\<open>Inl\<close> is the \<^verbatim>\<open>ValueError\<close> of
  \<^verbatim>\<open>raise_on_failure\<close>; the pool is updated in both cases.
\<close>

datatype pipeline_error = ExtractFailed "extract_result list" | AssertFailed "assert_result list"

definition extracted_vars :: "pyval dict \<Rightarrow> step_var list" where
  "extracted_vars d = map (\<lambda>(k, v). mk_var k v) d"

definition run_extract_and_assert ::
    "xch_env \<Rightarrow> exchange \<Rightarrow> step_var list \<Rightarrow> step_var list \<Rightarrow> nat \<Rightarrow> pyval dict \<Rightarrow> extract_item list \<Rightarrow> assert_item list \<Rightarrow>
     dataset option \<Rightarrow> bool \<Rightarrow> (pipeline_error + extract_result list \<times> assert_result list) \<times> step_var list \<times> nat" where
  "run_extract_and_assert env x defined session n lookup rules validators ds raise_on_failure =
     (case run_extract_variables env x (Some lookup) rules [] of (found, ers) \<Rightarrow>
       (let failed = filter (\<lambda>r. \<not> er_success r) ers in
        if raise_on_failure \<and> failed \<noteq> [] then (Inl (ExtractFailed failed), session, n)
        else
          (let lookup' = dict_update lookup found;
               session' = update_pool session (extracted_vars found);
               src = EngineContext defined session'
           in (case run_assert_validators env x (Some lookup') src n validators of (ars, n') \<Rightarrow>
               (case (case ds of None \<Rightarrow> (ars, n')
                      | Some d \<Rightarrow> append_assert_validators env x (Some lookup') src n' d ars) of
                  (all_ars, n'') \<Rightarrow>
                    (let bad = filter (\<lambda>r. \<not> ar_success r) all_ars in
                     if raise_on_failure \<and> bad \<noteq> [] then (Inl (AssertFailed bad), session', n'')
                     else (Inr (ers, all_ars), session', n'')))))))"

end
