(* ===== verification/Difflib.thy ===== *)
theory Difflib
  imports Prelude
begin

text \<open>
  Python's \<^verbatim>\<open>difflib.SequenceMatcher\<close> without a junk function, as \<^verbatim>\<open>datagram_diff.py\<close> uses it:
  the longest matching block, the matching blocks of two sequences and the edit operations that turn
  the one into the other. With \<^verbatim>\<open>autojunk\<close>, items that make up more than one percent of a
  second sequence of at least two hundred items do not start a match.

  The operations are shown to tile both sequences, with equal parts where they say so, and two equal
  sequences give one operation.
\<close>

section \<open>The longest match\<close>

type_synonym block = "nat \<times> nat \<times> nat"

definition popular :: "bool \<Rightarrow> 'a list \<Rightarrow> 'a \<Rightarrow> bool" where
  "popular autojunk b x = (autojunk \<and> 200 \<le> length b \<and> length b div 100 + 1 < count_list b x)"

definition positions :: "bool \<Rightarrow> 'a list \<Rightarrow> 'a \<Rightarrow> nat list" where
  "positions autojunk b x = (if popular autojunk b x then [] else filter (\<lambda>j. b ! j = x) [0..<length b])"

text \<open>One row: the matches that end with item \<^verbatim>\<open>i\<close> of the first sequence, extending those that
  ended one item before. The best block so far is replaced by a longer one only.\<close>

fun match_row :: "nat \<Rightarrow> nat \<Rightarrow> nat \<Rightarrow> (nat \<Rightarrow> nat) \<Rightarrow> nat list \<Rightarrow> (nat \<Rightarrow> nat) \<Rightarrow> block \<Rightarrow> (nat \<Rightarrow> nat) \<times> block" where
  "match_row i blo bhi old [] new best = (new, best)"
| "match_row i blo bhi old (j # js) new best =
     (if j < blo then match_row i blo bhi old js new best
      else if bhi \<le> j then (new, best)
      else (let k = (if j = 0 then 0 else old (j - 1)) + 1 in
        match_row i blo bhi old js (new(j := k))
          (if snd (snd best) < k then (i + 1 - k, j + 1 - k, k) else best)))"

fun match_rows :: "(nat \<Rightarrow> nat list) \<Rightarrow> nat \<Rightarrow> nat \<Rightarrow> nat list \<Rightarrow> (nat \<Rightarrow> nat) \<Rightarrow> block \<Rightarrow> block" where
  "match_rows js blo bhi [] old best = best"
| "match_rows js blo bhi (i # is) old best =
     (case match_row i blo bhi old (js i) (\<lambda>_. 0) best of (new, best') \<Rightarrow> match_rows js blo bhi is new best')"

fun extend_left :: "'a list \<Rightarrow> 'a list \<Rightarrow> nat \<Rightarrow> nat \<Rightarrow> nat \<Rightarrow> nat \<Rightarrow> nat \<Rightarrow> block" where
  "extend_left a b alo blo 0 j k = (0, j, k)"
| "extend_left a b alo blo (Suc i) j k =
     (if alo < Suc i \<and> blo < j \<and> a ! i = b ! (j - 1) then extend_left a b alo blo i (j - 1) (Suc k)
      else (Suc i, j, k))"

function extend_right :: "'a list \<Rightarrow> 'a list \<Rightarrow> nat \<Rightarrow> nat \<Rightarrow> nat \<Rightarrow> nat \<Rightarrow> nat \<Rightarrow> nat" where
  "extend_right a b ahi bhi i j k =
     (if i + k < ahi \<and> j + k < bhi \<and> a ! (i + k) = b ! (j + k) then extend_right a b ahi bhi i j (Suc k) else k)"
  by pat_completeness auto
termination by (relation "measure (\<lambda>(a, b, ahi, bhi, i, j, k). ahi - (i + k))") auto

declare extend_right.simps [simp del]

definition find_longest_match :: "bool \<Rightarrow> 'a list \<Rightarrow> 'a list \<Rightarrow> nat \<Rightarrow> nat \<Rightarrow> nat \<Rightarrow> nat \<Rightarrow> block" where
  "find_longest_match autojunk a b alo ahi blo bhi =
     (case match_rows (\<lambda>i. positions autojunk b (a ! i)) blo bhi [alo..<ahi] (\<lambda>_. 0) (alo, blo, 0) of (i, j, k) \<Rightarrow>
       (case extend_left a b alo blo i j k of (i', j', k') \<Rightarrow> (i', j', extend_right a b ahi bhi i' j' k')))"

text \<open>A block within bounds whose items agree.\<close>

definition block_ok :: "'a list \<Rightarrow> 'a list \<Rightarrow> nat \<Rightarrow> nat \<Rightarrow> nat \<Rightarrow> nat \<Rightarrow> block \<Rightarrow> bool" where
  "block_ok a b alo ahi blo bhi x = (case x of (i, j, k) \<Rightarrow>
     alo \<le> i \<and> i + k \<le> ahi \<and> blo \<le> j \<and> j + k \<le> bhi \<and> (\<forall>t < k. a ! (i + t) = b ! (j + t)))"

text \<open>\<^verbatim>\<open>old j\<close> items up to \<^verbatim>\<open>i\<close> and up to \<^verbatim>\<open>j\<close>, both excluded and included, agree.\<close>

definition lengths_ok :: "'a list \<Rightarrow> 'a list \<Rightarrow> nat \<Rightarrow> nat \<Rightarrow> nat \<Rightarrow> (nat \<Rightarrow> nat) \<Rightarrow> bool" where
  "lengths_ok a b alo blo i old = (\<forall>j. (0 < old j \<longrightarrow> blo \<le> j) \<and> old j + blo \<le> j + 1 + (if old j = 0 then blo else 0) \<and>
     old j + alo \<le> i + (if old j = 0 then alo else 0) \<and> (\<forall>t < old j. a ! (i - 1 - t) = b ! (j - t)))"

lemma lengths_ok_none [simp]: "lengths_ok a b alo blo i (\<lambda>_. 0)"
  by (simp add: lengths_ok_def)

lemma lengths_okD:
  assumes "lengths_ok a b alo blo i old" "0 < old j"
  shows "blo \<le> j" "old j + blo \<le> j + 1" "old j + alo \<le> i" "t < old j \<Longrightarrow> a ! (i - 1 - t) = b ! (j - t)"
  using assms by (auto simp: lengths_ok_def split: if_splits)

lemma lengths_okI:
  assumes "\<And>j. 0 < old j \<Longrightarrow> blo \<le> j \<and> old j + blo \<le> j + 1 \<and> old j + alo \<le> i \<and> (\<forall>t < old j. a ! (i - 1 - t) = b ! (j - t))"
  shows "lengths_ok a b alo blo i old"
  unfolding lengths_ok_def
proof
  fix j show "(0 < old j \<longrightarrow> blo \<le> j) \<and> old j + blo \<le> j + 1 + (if old j = 0 then blo else 0) \<and>
     old j + alo \<le> i + (if old j = 0 then alo else 0) \<and> (\<forall>t < old j. a ! (i - 1 - t) = b ! (j - t))"
    using assms[of j] by (cases "old j = 0") auto
qed

lemma longer_match:
  assumes old: "lengths_ok a b alo blo i old" and j: "blo \<le> j" "a ! i = b ! j" and i: "alo \<le> i"
    and k: "k = (if j = 0 then 0 else old (j - 1)) + 1"
  shows "k + blo \<le> j + 1" "k + alo \<le> i + 1" "\<forall>t < k. a ! (i - t) = b ! (j - t)"
proof -
  let ?o = "if j = 0 then 0 else old (j - 1)"
  have o: "0 < ?o \<Longrightarrow> blo \<le> j - 1 \<and> ?o + blo \<le> j \<and> ?o + alo \<le> i \<and> (\<forall>t < ?o. a ! (i - 1 - t) = b ! (j - 1 - t))"
    using lengths_okD[OF old, of "j - 1"] by (auto split: if_splits)
  show "k + blo \<le> j + 1" "k + alo \<le> i + 1" using o j i k by (cases "?o = 0"; simp)+
  show "\<forall>t < k. a ! (i - t) = b ! (j - t)"
  proof (intro allI impI)
    fix t assume "t < k"
    then show "a ! (i - t) = b ! (j - t)"
      using o j k by (cases t) (auto split: if_splits)
  qed
qed

lemma match_row_ok:
  assumes "lengths_ok a b alo blo i old" "alo \<le> i" "i < ahi" "\<forall>j \<in> set js. a ! i = b ! j"
    and "lengths_ok a b alo blo (Suc i) new" "block_ok a b alo ahi blo bhi best"
    and "match_row i blo bhi old js new best = (new', best')"
  shows "lengths_ok a b alo blo (Suc i) new' \<and> block_ok a b alo ahi blo bhi best'"
  using assms(4-)
proof (induction js arbitrary: new best)
  case (Cons j js)
  define k where "k = (if j = 0 then 0 else old (j - 1)) + 1"
  define best1 where "best1 = (if snd (snd best) < k then (i + 1 - k, j + 1 - k, k) else best)"
  show ?case
  proof (cases "j < blo \<or> bhi \<le> j")
    case True
    with Cons show ?thesis by (auto split: if_splits)
  next
    case False
    with Cons.prems(1) longer_match[OF assms(1) _ _ assms(2) k_def]
    have b: "k + blo \<le> j + 1" "k + alo \<le> i + 1" "\<forall>t < k. a ! (i - t) = b ! (j - t)" by auto
    have n: "lengths_ok a b alo blo (Suc i) (new(j := k))"
    proof (rule lengths_okI)
      fix l assume "0 < (new(j := k)) l"
      then show "blo \<le> l \<and> (new(j := k)) l + blo \<le> l + 1 \<and> (new(j := k)) l + alo \<le> Suc i \<and>
          (\<forall>t < (new(j := k)) l. a ! (Suc i - 1 - t) = b ! (l - t))"
        using b False lengths_okD[OF Cons.prems(2), of l] by (cases "l = j") auto
    qed
    have "a ! (i + 1 - k + t) = b ! (j + 1 - k + t)" if "t < k" for t
    proof -
      from that b(1,2) have "i + 1 - k + t = i - (k - 1 - t)" "j + 1 - k + t = j - (k - 1 - t)" "k - 1 - t < k" by auto
      with b(3) show ?thesis by metis
    qed
    then have "block_ok a b alo ahi blo bhi (i + 1 - k, j + 1 - k, k)"
      using b False assms(2,3) by (auto simp: block_ok_def)
    with Cons.prems(3) have best: "block_ok a b alo ahi blo bhi best1" by (simp add: best1_def)
    from False have "(j < blo) = False" "(bhi \<le> j) = False" by simp_all
    with Cons.prems(4) have "match_row i blo bhi old js (new(j := k)) best1 = (new', best')"
      by (simp only: match_row.simps Let_def k_def best1_def if_False)
    from Cons.IH[OF _ n best this] Cons.prems(1) show ?thesis by simp
  qed
qed auto

lemma match_rows_ok:
  assumes "alo \<le> i" "\<And>i j. j \<in> set (js i) \<Longrightarrow> a ! i = b ! j"
    and "lengths_ok a b alo blo i old" "block_ok a b alo ahi blo bhi best"
  shows "block_ok a b alo ahi blo bhi (match_rows js blo bhi [i..<ahi] old best)"
  using assms(1,3,4)
proof (induction "ahi - i" arbitrary: i old best)
  case (Suc n)
  then have i: "[i..<ahi] = i # [Suc i..<ahi]" "i < ahi" by (auto simp: upt_conv_Cons)
  obtain new best' where r: "match_row i blo bhi old (js i) (\<lambda>_. 0) best = (new, best')"
    by (metis surj_pair)
  from match_row_ok[OF Suc.prems(2,1) i(2) _ lengths_ok_none Suc.prems(3) r] assms(2)
  have "lengths_ok a b alo blo (Suc i) new \<and> block_ok a b alo ahi blo bhi best'" by blast
  with Suc.hyps(1)[of "Suc i" new best'] Suc.hyps(2) Suc.prems(1) show ?case by (simp add: i r)
qed auto

lemma extend_left_ok:
  "block_ok a b alo ahi blo bhi (i, j, k) \<Longrightarrow> block_ok a b alo ahi blo bhi (extend_left a b alo blo i j k)"
proof (induction a b alo blo i j k rule: extend_left.induct)
  case (2 a b alo blo i j k)
  show ?case
  proof (cases "alo < Suc i \<and> blo < j \<and> a ! i = b ! (j - 1)")
    case True
    have "a ! (i + t) = b ! (j - 1 + t)" if "t < Suc k" for t
      using that True 2(2) by (cases t) (auto simp: block_ok_def)
    with True 2(2) have "block_ok a b alo ahi blo bhi (i, j - 1, Suc k)" by (auto simp: block_ok_def)
    with 2(1) True show ?thesis by simp
  next
    case False
    then show ?thesis using 2(2) by auto
  qed
qed simp

lemma extend_right_ok:
  "block_ok a b alo ahi blo bhi (i, j, k) \<Longrightarrow> block_ok a b alo ahi blo bhi (i, j, extend_right a b ahi bhi i j k)"
proof (induction a b ahi bhi i j k rule: extend_right.induct)
  case (1 a b ahi bhi i j k)
  then show ?case
    by (subst extend_right.simps) (auto simp: block_ok_def less_Suc_eq)
qed

lemma positions_eq: "j \<in> set (positions autojunk b x) \<Longrightarrow> x = b ! j"
  by (auto simp: positions_def split: if_splits)

lemma find_longest_match_ok:
  assumes "alo \<le> ahi" "blo \<le> bhi"
  shows "block_ok a b alo ahi blo bhi (find_longest_match autojunk a b alo ahi blo bhi)"
proof -
  have "block_ok a b alo ahi blo bhi (match_rows (\<lambda>i. positions autojunk b (a ! i)) blo bhi [alo..<ahi] (\<lambda>_. 0) (alo, blo, 0))"
    by (rule match_rows_ok) (use assms in \<open>auto simp: block_ok_def dest: positions_eq\<close>)
  then show ?thesis
    unfolding find_longest_match_def
    by (auto split: prod.splits intro!: extend_right_ok dest!: extend_left_ok)
qed

section \<open>Matching blocks and edit operations\<close>

function raw_blocks :: "bool \<Rightarrow> 'a list \<Rightarrow> 'a list \<Rightarrow> nat \<Rightarrow> nat \<Rightarrow> nat \<Rightarrow> nat \<Rightarrow> block list" where
  "raw_blocks autojunk a b alo ahi blo bhi =
     (if alo \<le> ahi \<and> blo \<le> bhi then
        (case find_longest_match autojunk a b alo ahi blo bhi of (i, j, k) \<Rightarrow>
          if k = 0 then []
          else (if alo < i \<and> blo < j then raw_blocks autojunk a b alo i blo j else [])
            @ (i, j, k) # (if i + k < ahi \<and> j + k < bhi then raw_blocks autojunk a b (i + k) ahi (j + k) bhi else []))
      else [])"
  by pat_completeness auto
termination
proof (relation "measure (\<lambda>(q, a, b, alo, ahi, blo, bhi). ahi - alo)", goal_cases)
  case (2 autojunk a b alo ahi blo bhi i y j k)
  with find_longest_match_ok[of alo ahi blo bhi a b autojunk] have "block_ok a b alo ahi blo bhi (i, j, k)" by simp
  with 2 show ?case by (auto simp: block_ok_def)
next
  case (3 autojunk a b alo ahi blo bhi i y j k)
  with find_longest_match_ok[of alo ahi blo bhi a b autojunk] have "block_ok a b alo ahi blo bhi (i, j, k)" by simp
  with 3 show ?case by (auto simp: block_ok_def)
qed simp

declare raw_blocks.simps [simp del]

text \<open>Blocks that follow each other without a gap on either side are joined.\<close>

fun join_blocks :: "block \<Rightarrow> block list \<Rightarrow> block list" where
  "join_blocks (i, j, k) [] = (if k = 0 then [] else [(i, j, k)])"
| "join_blocks (i, j, k) ((i', j', k') # xs) =
     (if i + k = i' \<and> j + k = j' then join_blocks (i, j, k + k') xs
      else (if k = 0 then [] else [(i, j, k)]) @ join_blocks (i', j', k') xs)"

definition get_matching_blocks :: "bool \<Rightarrow> 'a list \<Rightarrow> 'a list \<Rightarrow> block list" where
  "get_matching_blocks autojunk a b =
     join_blocks (0, 0, 0) (raw_blocks autojunk a b 0 (length a) 0 (length b)) @ [(length a, length b, 0)]"

datatype op_tag = TEqual | TReplace | TDelete | TInsert

record opcode =
  oc_tag :: op_tag
  oc_i1 :: nat
  oc_i2 :: nat
  oc_j1 :: nat
  oc_j2 :: nat

definition gap :: "nat \<Rightarrow> nat \<Rightarrow> nat \<Rightarrow> nat \<Rightarrow> opcode list" where
  "gap i ai j bj =
     (if i < ai \<and> j < bj then [\<lparr>oc_tag = TReplace, oc_i1 = i, oc_i2 = ai, oc_j1 = j, oc_j2 = bj\<rparr>]
      else if i < ai then [\<lparr>oc_tag = TDelete, oc_i1 = i, oc_i2 = ai, oc_j1 = j, oc_j2 = bj\<rparr>]
      else if j < bj then [\<lparr>oc_tag = TInsert, oc_i1 = i, oc_i2 = ai, oc_j1 = j, oc_j2 = bj\<rparr>]
      else [])"

fun opcodes_of :: "nat \<Rightarrow> nat \<Rightarrow> block list \<Rightarrow> opcode list" where
  "opcodes_of i j [] = []"
| "opcodes_of i j ((ai, bj, n) # xs) =
     gap i ai j bj
     @ (if n = 0 then []
        else [\<lparr>oc_tag = TEqual, oc_i1 = ai, oc_i2 = ai + n, oc_j1 = bj, oc_j2 = bj + n\<rparr>])
     @ opcodes_of (ai + n) (bj + n) xs"

definition get_opcodes :: "bool \<Rightarrow> 'a list \<Rightarrow> 'a list \<Rightarrow> opcode list" where
  "get_opcodes autojunk a b = opcodes_of 0 0 (get_matching_blocks autojunk a b)"

section \<open>The operations tile the sequences\<close>

text \<open>Blocks in order between two corners of the grid.\<close>

fun chain :: "'a list \<Rightarrow> 'a list \<Rightarrow> nat \<Rightarrow> nat \<Rightarrow> nat \<Rightarrow> nat \<Rightarrow> block list \<Rightarrow> bool" where
  "chain a b alo ahi blo bhi [] = (alo \<le> ahi \<and> blo \<le> bhi)"
| "chain a b alo ahi blo bhi ((i, j, k) # xs) =
     (block_ok a b alo ahi blo bhi (i, j, k) \<and> chain a b (i + k) ahi (j + k) bhi xs)"

lemma chain_append:
  "chain a b alo i blo j xs \<Longrightarrow> chain a b i ahi j bhi ys \<Longrightarrow> i \<le> ahi \<Longrightarrow> j \<le> bhi \<Longrightarrow>
   chain a b alo ahi blo bhi (xs @ ys)"
proof (induction a b alo i blo j xs rule: chain.induct)
  case (1 a b alo i blo j)
  then show ?case by (cases ys) (auto simp: block_ok_def)
qed (auto simp: block_ok_def)

lemma chain_raw_blocks: "alo \<le> ahi \<Longrightarrow> blo \<le> bhi \<Longrightarrow> chain a b alo ahi blo bhi (raw_blocks autojunk a b alo ahi blo bhi)"
proof (induction autojunk a b alo ahi blo bhi rule: raw_blocks.induct)
  case (1 autojunk a b alo ahi blo bhi)
  obtain i j k where m: "find_longest_match autojunk a b alo ahi blo bhi = (i, j, k)" by (metis surj_pair)
  from find_longest_match_ok[OF "1.prems", of a b autojunk] have ok: "block_ok a b alo ahi blo bhi (i, j, k)" by (simp add: m)
  show ?case
  proof (cases "k = 0")
    case False
    have left: "chain a b alo i blo j (if alo < i \<and> blo < j then raw_blocks autojunk a b alo i blo j else [])"
      using "1.IH"(1)[OF _ m[symmetric] refl False] "1.prems" ok by (auto simp: block_ok_def)
    moreover have "chain a b (i + k) ahi (j + k) bhi
        (if i + k < ahi \<and> j + k < bhi then raw_blocks autojunk a b (i + k) ahi (j + k) bhi else [])"
      using "1.IH"(2)[OF _ m[symmetric] refl False] "1.prems" ok by (auto simp: block_ok_def)
    moreover have "block_ok a b i ahi j bhi (i, j, k)" using ok by (auto simp: block_ok_def)
    ultimately have "chain a b i ahi j bhi ((i, j, k) # (if i + k < ahi \<and> j + k < bhi then raw_blocks autojunk a b (i + k) ahi (j + k) bhi else []))"
      by simp
    note l = chain_append[OF left this]
    with "1.prems" False ok show ?thesis by (subst raw_blocks.simps) (simp add: m block_ok_def)
  qed (use "1.prems" in \<open>subst raw_blocks.simps; simp add: m\<close>)
qed

lemma chain_join_blocks:
  "chain a b alo ahi blo bhi (x # xs) \<Longrightarrow> chain a b alo ahi blo bhi (join_blocks x xs)"
proof (induction x xs arbitrary: alo blo rule: join_blocks.induct)
  case (1 i j k)
  then show ?case by (auto simp: block_ok_def)
next
  case (2 i j k i' j' k' xs)
  show ?case
  proof (cases "i + k = i' \<and> j + k = j'")
    case True
    have "a ! (i + t) = b ! (j + t)" if "t < k + k'" for t
    proof (cases "t < k")
      case False
      with that have "t - k < k'" by auto
      with 2(3) have "a ! (i' + (t - k)) = b ! (j' + (t - k))" unfolding chain.simps block_ok_def by blast
      moreover from True False have "i' + (t - k) = i + t" "j' + (t - k) = j + t" by auto
      ultimately show ?thesis by metis
    qed (use 2(3) in \<open>auto simp: block_ok_def\<close>)
    with 2(3) True have "chain a b alo ahi blo bhi ((i, j, k + k') # xs)" by (auto simp: block_ok_def add.assoc)
    with 2(1)[OF True] True show ?thesis by simp
  next
    case False
    show ?thesis
    proof (cases "k = 0")
      case True
      with 2(3) have "chain a b alo ahi blo bhi ((i', j', k') # xs)" by (auto simp: block_ok_def)
      with 2(2)[OF False] False True show ?thesis by simp
    next
      case k: False
      from 2(3) have "chain a b (i + k) ahi (j + k) bhi ((i', j', k') # xs)" by simp
      with 2(2)[OF False] have "chain a b (i + k) ahi (j + k) bhi (join_blocks (i', j', k') xs)" by blast
      with 2(3) False k show ?thesis by auto
    qed
  qed
qed

text \<open>Operations that follow each other from a corner to the ends of both sequences.\<close>

fun tiles :: "'a list \<Rightarrow> 'a list \<Rightarrow> nat \<Rightarrow> nat \<Rightarrow> opcode list \<Rightarrow> bool" where
  "tiles a b i j [] = (i = length a \<and> j = length b)"
| "tiles a b i j (x # xs) =
     (oc_i1 x = i \<and> oc_j1 x = j \<and> i \<le> oc_i2 x \<and> oc_i2 x \<le> length a \<and> j \<le> oc_j2 x \<and> oc_j2 x \<le> length b \<and>
      (case oc_tag x of
         TEqual \<Rightarrow> oc_i2 x - i = oc_j2 x - j \<and> (\<forall>t < oc_i2 x - i. a ! (i + t) = b ! (j + t))
       | TReplace \<Rightarrow> i < oc_i2 x \<and> j < oc_j2 x
       | TDelete \<Rightarrow> i < oc_i2 x \<and> j = oc_j2 x
       | TInsert \<Rightarrow> i = oc_i2 x \<and> j < oc_j2 x) \<and>
      tiles a b (oc_i2 x) (oc_j2 x) xs)"

lemma tiles_gap:
  "i \<le> ai \<Longrightarrow> ai \<le> length a \<Longrightarrow> j \<le> bj \<Longrightarrow> bj \<le> length b \<Longrightarrow> tiles a b ai bj xs \<Longrightarrow>
   tiles a b i j (gap i ai j bj @ xs)"
  by (auto simp: gap_def)

lemma tiles_opcodes_of:
  "chain a b i (length a) j (length b) xs \<Longrightarrow> tiles a b i j (opcodes_of i j (xs @ [(length a, length b, 0)]))"
proof (induction i j xs rule: opcodes_of.induct)
  case (1 i j)
  then show ?case using tiles_gap[of i "length a" a j "length b" b "[]"] by simp
next
  case (2 i j ai bj n xs)
  then have "tiles a b ai bj ((if n = 0 then []
        else [\<lparr>oc_tag = TEqual, oc_i1 = ai, oc_i2 = ai + n, oc_j1 = bj, oc_j2 = bj + n\<rparr>])
     @ opcodes_of (ai + n) (bj + n) (xs @ [(length a, length b, 0)]))"
    by (auto simp: block_ok_def)
  with 2(2) show ?case by (auto simp: block_ok_def intro!: tiles_gap)
qed

theorem opcodes_tile: "tiles a b 0 0 (get_opcodes autojunk a b)"
proof -
  have "chain a b 0 (length a) 0 (length b) ((0, 0, 0) # raw_blocks autojunk a b 0 (length a) 0 (length b))"
    by (simp add: chain_raw_blocks block_ok_def)
  from tiles_opcodes_of[OF chain_join_blocks[OF this]] show ?thesis
    by (simp add: get_opcodes_def get_matching_blocks_def)
qed

section \<open>Equal sequences\<close>

text \<open>The items that end at a position and do not make up too much of the sequence.\<close>

primrec run_to :: "bool \<Rightarrow> 'a list \<Rightarrow> nat \<Rightarrow> nat" where
  "run_to q a 0 = (if popular q a (a ! 0) then 0 else 1)"
| "run_to q a (Suc i) = (if popular q a (a ! Suc i) then 0 else Suc (run_to q a i))"

definition diag_lengths :: "bool \<Rightarrow> 'a list \<Rightarrow> nat \<Rightarrow> (nat \<Rightarrow> nat) \<Rightarrow> bool" where
  "diag_lengths q a i old = (case i of 0 \<Rightarrow> (\<forall>j. old j = 0)
     | Suc i' \<Rightarrow> (\<forall>j. old j \<le> run_to q a j \<and> old j \<le> run_to q a i') \<and> old i' = run_to q a i')"

definition diag_best :: "bool \<Rightarrow> 'a list \<Rightarrow> nat \<Rightarrow> block \<Rightarrow> bool" where
  "diag_best q a i best = (fst best = fst (snd best) \<and> (\<forall>j < i. run_to q a j \<le> snd (snd best)))"

lemma diag_step:
  assumes "diag_lengths q a i old" "a ! j = a ! i" "\<not> popular q a (a ! i)"
    and "k = (if j = 0 then 0 else old (j - 1)) + 1"
  shows "k \<le> run_to q a j" "k \<le> run_to q a i" "j = i \<Longrightarrow> k = run_to q a i"
  using assms by (cases i; cases j; auto simp: diag_lengths_def)+

lemma match_row_diag:
  assumes old: "diag_lengths q a i old"
    and "sorted_wrt (<) js" "\<forall>j \<in> set js. j < n \<and> a ! j = a ! i \<and> \<not> popular q a (a ! i)"
    and "\<forall>j. new j \<le> run_to q a j \<and> new j \<le> run_to q a i" "diag_best q a i best"
    and "i \<in> set js \<or> new i = run_to q a i \<and> run_to q a i \<le> snd (snd best)"
    and "match_row i 0 n old js new best = (new', best')"
  shows "diag_lengths q a (Suc i) new' \<and> diag_best q a (Suc i) best'"
  using assms(2-)
proof (induction js arbitrary: new best)
  case Nil
  then show ?case by (auto simp: diag_lengths_def diag_best_def less_Suc_eq)
next
  case (Cons j js)
  define k where "k = (if j = 0 then 0 else old (j - 1)) + 1"
  define best1 where "best1 = (if snd (snd best) < k then (i + 1 - k, j + 1 - k, k) else best)"
  from Cons.prems(2) have j: "j < n" "a ! j = a ! i" "\<not> popular q a (a ! i)" by auto
  note k = diag_step[OF old j(2,3) k_def]
  have new: "\<forall>l. (new(j := k)) l \<le> run_to q a l \<and> (new(j := k)) l \<le> run_to q a i"
    using Cons.prems(3) k by auto
  have best: "diag_best q a i best1 \<and> (i \<in> set js \<or> (new(j := k)) i = run_to q a i \<and> run_to q a i \<le> snd (snd best1))"
  proof (cases "j = i")
    case True
    with Cons.prems(4) k(3) show ?thesis
      by (auto simp: best1_def diag_best_def intro: le_trans less_imp_le)
  next
    case False
    have "k \<le> snd (snd best)"
    proof (cases "j < i")
      case True
      with Cons.prems(4) k(1) show ?thesis by (auto simp: diag_best_def intro: le_trans)
    next
      case False
      with \<open>j \<noteq> i\<close> Cons.prems(1) have "i \<notin> set (j # js)" by auto
      with Cons.prems(5) k(2) show ?thesis by auto
    qed
    with False Cons.prems(4,5) show ?thesis by (auto simp: best1_def)
  qed
  from j(1) have "(j < 0) = False" "(n \<le> j) = False" by simp_all
  with Cons.prems(6) have m: "match_row i 0 n old js (new(j := k)) best1 = (new', best')"
    by (simp only: match_row.simps Let_def k_def best1_def if_False)
  from Cons.IH[OF _ _ new _ _ m] best Cons.prems(1,2) show ?case by auto
qed

lemma match_rows_diag:
  assumes "diag_lengths q a i old" "diag_best q a i best" "n = length a"
  shows "fst (match_rows (\<lambda>i. positions q a (a ! i)) 0 n [i..<n] old best) =
    fst (snd (match_rows (\<lambda>i. positions q a (a ! i)) 0 n [i..<n] old best))"
  using assms(1,2)
proof (induction "n - i" arbitrary: i old best)
  case (Suc m)
  then have i: "[i..<n] = i # [Suc i..<n]" "i < n" by (auto simp: upt_conv_Cons)
  let ?js = "positions q a (a ! i)"
  obtain new best' where r: "match_row i 0 n old ?js (\<lambda>_. 0) best = (new, best')" by (metis surj_pair)
  have js: "sorted_wrt (<) ?js" "\<forall>j \<in> set ?js. j < n \<and> a ! j = a ! i \<and> \<not> popular q a (a ! i)"
    using assms(3) by (auto simp: positions_def sorted_wrt_filter split: if_splits)
  have "i \<in> set ?js \<or> run_to q a i = 0"
    using i(2) assms(3) by (cases i) (auto simp: positions_def)
  then have "diag_lengths q a (Suc i) new \<and> diag_best q a (Suc i) best'"
    by (intro match_row_diag[OF Suc.prems(1) js _ Suc.prems(2) _ r]) auto
  with Suc.hyps(1)[of "Suc i" new best'] Suc.hyps(2) show ?case by (simp add: i(1) r)
qed (auto simp: diag_best_def)

lemma extend_left_diag: "extend_left a a 0 0 i i k = (0, 0, i + k)"
  by (induction i arbitrary: k) auto

lemma extend_right_diag: "k \<le> length a \<Longrightarrow> extend_right a a (length a) (length a) 0 0 k = length a"
proof (induction "length a - k" arbitrary: k)
  case (Suc n)
  then show ?case by (subst extend_right.simps) auto
qed (subst extend_right.simps; simp)

lemma find_longest_match_same: "find_longest_match q a a 0 (length a) 0 (length a) = (0, 0, length a)"
proof -
  let ?m = "match_rows (\<lambda>i. positions q a (a ! i)) 0 (length a) [0..<length a] (\<lambda>_. 0) (0, 0, 0)"
  obtain i j k where m: "?m = (i, j, k)" by (metis surj_pair)
  have "fst ?m = fst (snd ?m)"
    by (rule match_rows_diag) (auto simp: diag_lengths_def diag_best_def)
  with m have "i = j" by simp
  moreover have "block_ok a a 0 (length a) 0 (length a) (i, j, k)"
    unfolding m[symmetric] by (rule match_rows_ok) (auto simp: block_ok_def dest: positions_eq)
  ultimately show ?thesis
    by (simp add: find_longest_match_def m extend_left_diag extend_right_diag block_ok_def)
qed

lemma opcodes_same:
  "get_opcodes q a a = (if a = [] then []
     else [\<lparr>oc_tag = TEqual, oc_i1 = 0, oc_i2 = length a, oc_j1 = 0, oc_j2 = length a\<rparr>])"
proof -
  have "raw_blocks q a a 0 (length a) 0 (length a) = (if a = [] then [] else [(0, 0, length a)])"
    by (subst raw_blocks.simps) (simp add: find_longest_match_same)
  then show ?thesis by (simp add: get_opcodes_def get_matching_blocks_def gap_def)
qed

end
