(* ===== verification/DatagramDiff.thy ===== *)
theory DatagramDiff
  imports Difflib PyValue
begin

text \<open>
  \<^verbatim>\<open>autotest_runtime/datagram/datagram_diff.py\<close>: the comparison of two messages, by lines or by
  field names. A message is a JSON or XML text that the parsers of Python's library accept (the
  parameters \<^verbatim>\<open>json_ok\<close> and \<^verbatim>\<open>xml_ok\<close>), or plain text. The regular expressions are written out as
  scanners; each of them has one way to match.

  Two messages without fields are equal exactly when their lines are. Aligned rows show every line of
  both sides once and in order. Comparison by name is decided by the last field of each name.
\<close>

section \<open>Lines and fields\<close>

definition is_line_end :: "char \<Rightarrow> bool" where
  "is_line_end c = (let n = char_code c in (10 \<le> n \<and> n \<le> 13) \<or> (28 \<le> n \<and> n \<le> 30) \<or> n = 133)"

text \<open>\<^verbatim>\<open>str.splitlines\<close>; a carriage return takes a line feed after it along.\<close>

fun split_lines :: "string \<Rightarrow> string \<Rightarrow> string list" where
  "split_lines acc [] = (if acc = [] then [] else [rev acc])"
| "split_lines acc (c # s) =
     (if char_code c = 13 then rev acc # (case s of
          [] \<Rightarrow> []
        | d # s' \<Rightarrow> if char_code d = 10 then split_lines [] s' else split_lines [] (d # s'))
      else if is_line_end c then rev acc # split_lines [] s
      else split_lines (c # acc) s)"

definition py_splitlines :: "string \<Rightarrow> string list" where
  "py_splitlines s = split_lines [] s"

definition is_ascii_letter :: "char \<Rightarrow> bool" where
  "is_ascii_letter c = (let n = char_code c in (65 \<le> n \<and> n \<le> 90) \<or> (97 \<le> n \<and> n \<le> 122))"

text \<open>\<^verbatim>\<open>\w\<close> on U+0000 to U+00FF.\<close>

definition is_word :: "char \<Rightarrow> bool" where
  "is_word c = (let n = char_code c in is_ascii_letter c \<or> is_decimal c \<or> n = 95 \<or> n = 170 \<or> n = 178 \<or> n = 179 \<or>
     n = 181 \<or> n = 185 \<or> n = 186 \<or> (188 \<le> n \<and> n \<le> 190) \<or> (192 \<le> n \<and> n \<noteq> 215 \<and> n \<noteq> 247))"

definition is_length_text :: "string \<Rightarrow> bool" where
  "is_length_text s = (list_all is_decimal s \<and> 4 \<le> length s \<and> length s \<le> 10)"

definition is_length_header_line :: "string \<Rightarrow> bool" where
  "is_length_header_line line = is_length_text (py_strip line)"

fun starts_tag :: "string \<Rightarrow> bool" where
  "starts_tag (c # d # s) = (c = CHR ''<'' \<and> is_ascii_letter d)"
| "starts_tag s = False"

definition strip_length_prefix :: "string \<Rightarrow> string" where
  "strip_length_prefix text =
     (let stripped = py_strip text; digits = takeWhile is_decimal stripped; rest = dropWhile is_decimal stripped in
      if is_length_text digits \<and> map lower_char (take 5 rest) = ''<?xml'' then rest
      else if is_length_text digits \<and> starts_tag rest then rest
      else (case py_splitlines stripped of
          [] \<Rightarrow> stripped
        | l # ls \<Rightarrow> if is_length_header_line l then join [char_of (10 :: nat)] ls else stripped))"

datatype format = JsonFormat | XmlFormat | TextFormat

fun detect_format :: "(string \<Rightarrow> bool) \<Rightarrow> (string \<Rightarrow> bool) \<Rightarrow> string list \<Rightarrow> format" where
  "detect_format json_ok xml_ok [] = TextFormat"
| "detect_format json_ok xml_ok (text # texts) =
     (let stripped = py_strip text in
      if stripped = [] then detect_format json_ok xml_ok texts
      else if json_ok stripped then JsonFormat
      else if xml_ok (strip_length_prefix stripped) then XmlFormat
      else detect_format json_ok xml_ok texts)"

text \<open>The text up to the next quote that no backslash precedes, and what follows that quote.\<close>

fun quoted_name :: "string \<Rightarrow> (string \<times> string) option" where
  "quoted_name [] = None"
| "quoted_name (c # s) =
     (if c = CHR 0x22 then Some ([], s)
      else if c = CHR 0x5C then (case s of
          [] \<Rightarrow> None
        | d # s' \<Rightarrow> map_option (\<lambda>(k, r). (c # d # k, r)) (quoted_name s'))
      else map_option (\<lambda>(k, r). (c # k, r)) (quoted_name s))"

definition rstrip_while :: "(char \<Rightarrow> bool) \<Rightarrow> string \<Rightarrow> string" where
  "rstrip_while P s = rev (dropWhile P (rev s))"

text \<open>The value ends before one comma and the whitespace around it; further commas are stripped.\<close>

definition json_value_text :: "string \<Rightarrow> string" where
  "json_value_text r =
     (let t = rstrip_while is_space r;
          p = (if t \<noteq> [] \<and> last t = CHR '','' then butlast t else t)
      in rstrip_while (\<lambda>c. c = CHR '','') (py_strip p))"

definition parse_json_field :: "string \<Rightarrow> (string \<times> string) option" where
  "parse_json_field line = (case dropWhile is_space line of
     [] \<Rightarrow> None
   | q # s \<Rightarrow> if q \<noteq> CHR 0x22 then None else (case quoted_name s of
       None \<Rightarrow> None
     | Some (key, r) \<Rightarrow> (case dropWhile is_space r of
         [] \<Rightarrow> None
       | c # r' \<Rightarrow> if c = CHR '':'' then Some (key, json_value_text (dropWhile is_space r')) else None)))"

definition is_tag_char :: "char \<Rightarrow> bool" where
  "is_tag_char c = (is_word c \<or> c = CHR '':'' \<or> c = CHR ''.'' \<or> c = CHR ''-'')"

text \<open>A closing tag is no field; an opening one has the whole stripped line as its value.\<close>

definition parse_xml_field :: "string \<Rightarrow> (string \<times> string) option" where
  "parse_xml_field line =
     (let stripped = py_strip line in
      case stripped of
        [] \<Rightarrow> None
      | c # s \<Rightarrow>
          (let tag = takeWhile is_tag_char s in
           if c = CHR ''<'' \<and> tag \<noteq> [] then Some (tag, stripped) else None))"

definition parse_field_line :: "format \<Rightarrow> string \<Rightarrow> (string \<times> string) option" where
  "parse_field_line fmt line = (case fmt of
     JsonFormat \<Rightarrow> parse_json_field line | XmlFormat \<Rightarrow> parse_xml_field line | TextFormat \<Rightarrow> None)"

text \<open>The name a field is matched by: tags of XML are numbered.\<close>

type_synonym counters = "(string \<times> nat) list"

definition make_match_key :: "format \<Rightarrow> string \<Rightarrow> counters \<Rightarrow> string \<times> counters" where
  "make_match_key fmt tag counters =
     (if fmt \<noteq> XmlFormat then (tag, counters)
      else (let idx = (case map_of counters tag of None \<Rightarrow> 0 | Some n \<Rightarrow> n)
            in (tag @ ''#'' @ int_str (int idx), AList.update tag (idx + 1) counters)))"

record field_line =
  fl_line_no :: nat
  fl_match_key :: string
  fl_content :: string
  fl_value :: string

fun field_lines_from :: "format \<Rightarrow> nat \<Rightarrow> counters \<Rightarrow> string list \<Rightarrow> field_line list" where
  "field_lines_from fmt no counters [] = []"
| "field_lines_from fmt no counters (line # lines) = (case parse_field_line fmt line of
     None \<Rightarrow> field_lines_from fmt (no + 1) counters lines
   | Some (key, value) \<Rightarrow> (case make_match_key fmt key counters of (mk, counters') \<Rightarrow>
       \<lparr>fl_line_no = no, fl_match_key = mk, fl_content = line, fl_value = value\<rparr>
         # field_lines_from fmt (no + 1) counters' lines))"

definition extract_field_lines :: "format \<Rightarrow> string list \<Rightarrow> field_line list" where
  "extract_field_lines fmt lines = field_lines_from fmt 1 [] lines"

definition extract_structural_lines :: "format \<Rightarrow> string list \<Rightarrow> (nat \<times> string) list" where
  "extract_structural_lines fmt lines =
     filter (\<lambda>(i, line). parse_field_line fmt line = None \<and> py_strip line \<noteq> []) (enumerate 1 lines)"

definition normalize_text_value :: "string \<Rightarrow> string" where
  "normalize_text_value value =
     (let text = py_strip value in
      if 2 \<le> length text \<and> hd text = last text \<and> hd text \<in> {CHR 0x22, CHR 0x27}
      then butlast (tl text) else text)"

section \<open>Rows\<close>

datatype diff_type = DEqual | DLeftOnly | DRightOnly | DModified | DEmpty
datatype pair_type = PEqual | PModified | PConflict | PLeftOnly | PRightOnly

record line_item =
  li_no :: "nat option"
  li_content :: string
  li_type :: diff_type
  li_key :: "string option"
  li_highlights :: "(nat \<times> nat) list"

record diff_row =
  row_no :: nat
  row_left :: line_item
  row_right :: line_item

definition char_highlights :: "string \<Rightarrow> string \<Rightarrow> (nat \<times> nat) list \<times> (nat \<times> nat) list" where
  "char_highlights l r =
     (let ops = get_opcodes True l r in
      (map (\<lambda>x. (oc_i1 x, oc_i2 x)) (filter (\<lambda>x. oc_tag x \<in> {TReplace, TDelete} \<and> oc_i1 x < oc_i2 x) ops),
       map (\<lambda>x. (oc_j1 x, oc_j2 x)) (filter (\<lambda>x. oc_tag x \<in> {TReplace, TInsert} \<and> oc_j1 x < oc_j2 x) ops)))"

definition empty_item :: line_item where
  "empty_item = \<lparr>li_no = None, li_content = [], li_type = DEmpty, li_key = None, li_highlights = []\<rparr>"

definition classify_pair :: "format \<Rightarrow> string \<Rightarrow> string \<Rightarrow> pair_type" where
  "classify_pair fmt l r = (case (parse_field_line fmt l, parse_field_line fmt r) of
     (Some (lk, lv), Some (rk, rv)) \<Rightarrow>
       if lk \<noteq> rk then PConflict
       else if normalize_text_value lv = normalize_text_value rv then PEqual else PModified
   | _ \<Rightarrow> if l = r then PEqual else PModified)"

text \<open>One row to be: the line of each side with its number, and how they compare.\<close>

record pairing =
  pg_left :: "(nat \<times> string) option"
  pg_right :: "(nat \<times> string) option"
  pg_type :: pair_type

definition side_key :: "format \<Rightarrow> (nat \<times> string) option \<Rightarrow> string option" where
  "side_key fmt x = (case x of None \<Rightarrow> None
     | Some (n, line) \<Rightarrow> if line = [] then None else map_option fst (parse_field_line fmt line))"

definition side_text :: "(nat \<times> string) option \<Rightarrow> string" where
  "side_text x = (case x of None \<Rightarrow> [] | Some (n, line) \<Rightarrow> line)"

definition side_item :: "(nat \<times> string) option \<Rightarrow> diff_type \<Rightarrow> string option \<Rightarrow> (nat \<times> nat) list \<Rightarrow> line_item" where
  "side_item x t key hs =
     \<lparr>li_no = map_option fst x, li_content = side_text x, li_type = t, li_key = key, li_highlights = hs\<rparr>"

definition append_row :: "format \<Rightarrow> diff_row list \<Rightarrow> pairing \<Rightarrow> diff_row list" where
  "append_row fmt rows p =
     (let l = pg_left p; r = pg_right p; lk = side_key fmt l; rk = side_key fmt r in
      rows @ [case pg_type p of
        PLeftOnly \<Rightarrow> \<lparr>row_no = length rows + 1, row_left = side_item l DLeftOnly lk [], row_right = empty_item\<rparr>
      | PRightOnly \<Rightarrow> \<lparr>row_no = length rows + 1, row_left = empty_item, row_right = side_item r DRightOnly rk []\<rparr>
      | PModified \<Rightarrow>
          (case char_highlights (side_text l) (side_text r) of (lh, rh) \<Rightarrow>
            (let shared = (case lk of Some k \<Rightarrow> if k \<noteq> [] then Some k else rk | None \<Rightarrow> rk) in
             \<lparr>row_no = length rows + 1, row_left = side_item l DModified shared lh,
              row_right = side_item r DModified shared rh\<rparr>))
      | PConflict \<Rightarrow> \<lparr>row_no = length rows + 1, row_left = side_item l DLeftOnly lk [],
          row_right = side_item r DRightOnly rk []\<rparr>
      | PEqual \<Rightarrow> \<lparr>row_no = length rows + 1, row_left = side_item l DEqual lk [],
          row_right = side_item r DEqual rk []\<rparr>])"

section \<open>Comparison by position\<close>

fun line_tokens_from :: "format \<Rightarrow> counters \<Rightarrow> string list \<Rightarrow> (string \<times> string) list" where
  "line_tokens_from fmt counters [] = []"
| "line_tokens_from fmt counters (line # lines) =
     (if fmt = XmlFormat \<and> is_length_header_line line
      then (''length_header'', py_strip line) # line_tokens_from fmt counters lines
      else (case parse_field_line fmt line of
          None \<Rightarrow> (''struct'', py_strip line) # line_tokens_from fmt counters lines
        | Some (key, value) \<Rightarrow> (case make_match_key fmt key counters of (mk, counters') \<Rightarrow>
            (''field'', mk) # line_tokens_from fmt counters' lines)))"

definition build_line_tokens :: "format \<Rightarrow> string list \<Rightarrow> (string \<times> string) list" where
  "build_line_tokens fmt lines = line_tokens_from fmt [] lines"

definition line_opcodes :: "format \<Rightarrow> string list \<Rightarrow> string list \<Rightarrow> opcode list" where
  "line_opcodes fmt ls rs =
     (if fmt = TextFormat then get_opcodes True ls rs
      else get_opcodes False (build_line_tokens fmt ls) (build_line_tokens fmt rs))"

definition numbered :: "string list \<Rightarrow> nat \<Rightarrow> nat \<times> string" where
  "numbered lines i = (i + 1, lines ! i)"

definition is_different_field_pair :: "format \<Rightarrow> string \<Rightarrow> string \<Rightarrow> bool" where
  "is_different_field_pair fmt l r = (case (parse_field_line fmt l, parse_field_line fmt r) of
     (Some (lk, lv), Some (rk, rv)) \<Rightarrow> lk \<noteq> rk | _ \<Rightarrow> False)"

definition pair_lines :: "format \<Rightarrow> string list \<Rightarrow> string list \<Rightarrow> nat \<Rightarrow> nat \<Rightarrow> pairing" where
  "pair_lines fmt ls rs i j =
     \<lparr>pg_left = Some (numbered ls i), pg_right = Some (numbered rs j),
      pg_type = (if is_different_field_pair fmt (ls ! i) (rs ! j) then PConflict
        else classify_pair fmt (ls ! i) (rs ! j))\<rparr>"

definition left_alone :: "string list \<Rightarrow> nat \<Rightarrow> pairing" where
  "left_alone ls i = \<lparr>pg_left = Some (numbered ls i), pg_right = None, pg_type = PLeftOnly\<rparr>"

definition right_alone :: "string list \<Rightarrow> nat \<Rightarrow> pairing" where
  "right_alone rs j = \<lparr>pg_left = None, pg_right = Some (numbered rs j), pg_type = PRightOnly\<rparr>"

text \<open>The rows of one operation. Of lines that replace each other the surplus stands alone. Lines of an
  equal operation are classified without the test for different fields, which could not hold.\<close>

definition pairings_of :: "format \<Rightarrow> string list \<Rightarrow> string list \<Rightarrow> opcode \<Rightarrow> pairing list" where
  "pairings_of fmt ls rs x =
     (let i1 = oc_i1 x; i2 = oc_i2 x; j1 = oc_j1 x; j2 = oc_j2 x in
      case oc_tag x of
        TEqual \<Rightarrow> map (\<lambda>t. \<lparr>pg_left = Some (numbered ls (i1 + t)), pg_right = Some (numbered rs (j1 + t)),
            pg_type = classify_pair fmt (ls ! (i1 + t)) (rs ! (j1 + t))\<rparr>) [0..<i2 - i1]
      | TReplace \<Rightarrow> map (\<lambda>t.
            if t < i2 - i1 \<and> t < j2 - j1 then pair_lines fmt ls rs (i1 + t) (j1 + t)
            else if t < i2 - i1 then left_alone ls (i1 + t)
            else right_alone rs (j1 + t)) [0..<max (i2 - i1) (j2 - j1)]
      | TDelete \<Rightarrow> map (left_alone ls) [i1..<i2]
      | TInsert \<Rightarrow> map (right_alone rs) [j1..<j2])"

definition diff_lines_positional :: "format \<Rightarrow> string list \<Rightarrow> string list \<Rightarrow> diff_row list" where
  "diff_lines_positional fmt ls rs =
     foldl (append_row fmt) [] (concat (map (pairings_of fmt ls rs) (line_opcodes fmt ls rs)))"

section \<open>Comparison by name\<close>

text \<open>The first occurrences of a list, in order.\<close>

definition first_seen :: "'a list \<Rightarrow> 'a list" where
  "first_seen xs = rev (remdups (rev xs))"

text \<open>A dictionary by name: a later field replaces an earlier one of the same name.\<close>

definition field_map :: "field_line list \<Rightarrow> string \<Rightarrow> field_line option" where
  "field_map fs k = find (\<lambda>f. fl_match_key f = k) (rev fs)"

definition field_side :: "field_line \<Rightarrow> nat \<times> string" where
  "field_side f = (fl_line_no f, fl_content f)"

definition pair_fields :: "(string \<Rightarrow> field_line option) \<Rightarrow> (string \<Rightarrow> field_line option) \<Rightarrow> string \<Rightarrow> pairing list" where
  "pair_fields lm rm k = (case (lm k, rm k) of
     (Some l, Some r) \<Rightarrow> [\<lparr>pg_left = Some (field_side l), pg_right = Some (field_side r),
        pg_type = (if normalize_text_value (fl_value l) = normalize_text_value (fl_value r) then PEqual else PModified)\<rparr>]
   | (Some l, None) \<Rightarrow> [\<lparr>pg_left = Some (field_side l), pg_right = None, pg_type = PLeftOnly\<rparr>]
   | (None, Some r) \<Rightarrow> [\<lparr>pg_left = None, pg_right = Some (field_side r), pg_type = PRightOnly\<rparr>]
   | (None, None) \<Rightarrow> [])"

definition diff_lines_by_key :: "format \<Rightarrow> string list \<Rightarrow> string list \<Rightarrow> diff_row list" where
  "diff_lines_by_key fmt ls rs =
     (let lf = extract_field_lines fmt ls; rf = extract_field_lines fmt rs;
          rows = diff_lines_positional fmt (map snd (extract_structural_lines fmt ls))
            (map snd (extract_structural_lines fmt rs))
      in foldl (append_row fmt) rows
           (concat (map (pair_fields (field_map lf) (field_map rf))
             (first_seen (map fl_match_key (lf @ rf))))))"

definition check_field_order :: "format \<Rightarrow> string list \<Rightarrow> string list \<Rightarrow> bool" where
  "check_field_order fmt ls rs =
     (let lk = map fl_match_key (extract_field_lines fmt ls); rk = map fl_match_key (extract_field_lines fmt rs) in
      lk = [] \<or> rk = [] \<or> \<not> (set lk = set rk \<and> lk \<noteq> rk))"

section \<open>compare\_messages\<close>

record diff_result =
  df_equal :: bool
  df_format :: format
  df_order_consistent :: bool
  df_rows :: "diff_row list"

definition rows_is_equal :: "diff_row list \<Rightarrow> bool" where
  "rows_is_equal rows = list_all (\<lambda>r. li_type (row_left r) = DEqual \<and> li_type (row_right r) = DEqual) rows"

text \<open>The message of an inconsistent order is one constant text, present exactly when the order is
  inconsistent.\<close>

definition compare_messages :: "(string \<Rightarrow> bool) \<Rightarrow> (string \<Rightarrow> bool) \<Rightarrow> string \<Rightarrow> string \<Rightarrow> int \<Rightarrow> diff_result" where
  "compare_messages json_ok xml_ok left_text right_text order_control =
     (let fmt = detect_format json_ok xml_ok [left_text, right_text];
          ls = py_splitlines left_text; rs = py_splitlines right_text;
          respect_order = (order_control = 1);
          consistent = (if respect_order \<and> fmt \<in> {JsonFormat, XmlFormat} then check_field_order fmt ls rs else True);
          rows = (if respect_order \<or> fmt = TextFormat then diff_lines_positional fmt ls rs
            else diff_lines_by_key fmt ls rs)
      in \<lparr>df_equal = (rows_is_equal rows \<and> \<not> (respect_order \<and> \<not> consistent)), df_format = fmt,
          df_order_consistent = consistent, df_rows = rows\<rparr>)"

section \<open>What the rows show\<close>

definition pairing_equal :: "pairing \<Rightarrow> bool" where
  "pairing_equal p = (pg_type p = PEqual)"

lemma append_row_equal [simp]: "rows_is_equal (append_row fmt rows p) \<longleftrightarrow> rows_is_equal rows \<and> pairing_equal p"
  by (auto simp: append_row_def rows_is_equal_def pairing_equal_def Let_def side_item_def empty_item_def
      split: pair_type.split prod.split)

lemma rows_equal_pairings [simp]:
  "rows_is_equal (foldl (append_row fmt) rows ps) \<longleftrightarrow> rows_is_equal rows \<and> list_all pairing_equal ps"
  by (induction ps arbitrary: rows) auto

lemma rows_is_equal_Nil [simp]: "rows_is_equal []"
  by (simp add: rows_is_equal_def)

lemma classify_pair_refl [simp]: "classify_pair fmt l l = PEqual"
  by (simp add: classify_pair_def split: option.split prod.split)

lemma classify_pair_both [simp]: "classify_pair fmt l r \<noteq> PLeftOnly" "classify_pair fmt l r \<noteq> PRightOnly"
  "PLeftOnly \<noteq> classify_pair fmt l r" "PRightOnly \<noteq> classify_pair fmt l r"
  by (auto simp: classify_pair_def split: option.split prod.split)

text \<open>The lines of each side that an operation, or a list of pairings, shows.\<close>

abbreviation lefts :: "pairing list \<Rightarrow> (nat \<times> string) list" where
  "lefts ps \<equiv> List.map_filter pg_left ps"

abbreviation rights :: "pairing list \<Rightarrow> (nat \<times> string) list" where
  "rights ps \<equiv> List.map_filter pg_right ps"

lemma map_filter_append [simp]: "List.map_filter f (xs @ ys) = List.map_filter f xs @ List.map_filter f ys"
  by (simp add: List.map_filter_def)

lemma map_filter_map: "List.map_filter f (map g xs) = List.map_filter (f \<circ> g) xs"
  by (simp add: List.map_filter_def filter_map comp_def)

lemma map_filter_all: "(\<And>x. x \<in> set xs \<Longrightarrow> f x = Some (g x)) \<Longrightarrow> List.map_filter f xs = map g xs"
  by (induction xs) (auto simp: List.map_filter_def)

lemma map_filter_none: "(\<And>x. x \<in> set xs \<Longrightarrow> f x = None) \<Longrightarrow> List.map_filter f xs = []"
  by (induction xs) (auto simp: List.map_filter_def)

lemma map_filter_upt_prefix:
  assumes "n \<le> m" "\<And>t. t < n \<Longrightarrow> f t = Some (g t)" "\<And>t. n \<le> t \<Longrightarrow> t < m \<Longrightarrow> f t = None"
  shows "List.map_filter f [0..<m] = map g [0..<n]"
proof -
  from assms(1) have "[0..<m] = [0..<n] @ [n..<m]" by (metis le_iff_add upt_add_eq_append zero_le)
  moreover have "List.map_filter f [0..<n] = map g [0..<n]" by (rule map_filter_all) (use assms(2) in auto)
  moreover have "List.map_filter f [n..<m] = []" by (rule map_filter_none) (use assms(3) in auto)
  ultimately show ?thesis by simp
qed

lemma map_shift: "map (\<lambda>t. f (i + t)) [0..<n] = map f [i..<i + n]"
  by (rule nth_equalityI) auto

lemma lefts_of:
  assumes "oc_i1 x \<le> oc_i2 x" "oc_tag x = TInsert \<longrightarrow> oc_i1 x = oc_i2 x" "oc_tag x = TReplace \<longrightarrow> oc_j1 x \<le> oc_j2 x"
  shows "lefts (pairings_of fmt ls rs x) = map (numbered ls) [oc_i1 x..<oc_i2 x]"
proof (cases "oc_tag x")
  case TReplace
  have "lefts (pairings_of fmt ls rs x) = map (\<lambda>t. numbered ls (oc_i1 x + t)) [0..<oc_i2 x - oc_i1 x]"
    by (simp add: pairings_of_def TReplace Let_def map_filter_map)
      (rule map_filter_upt_prefix; simp add: pair_lines_def left_alone_def right_alone_def)
  with assms(1) show ?thesis by (simp add: map_shift)
qed (use assms in \<open>auto simp: pairings_of_def Let_def map_filter_map comp_def left_alone_def right_alone_def
      map_shift map_filter_none intro: trans[OF map_filter_all]\<close>)

lemma rights_of:
  assumes "oc_j1 x \<le> oc_j2 x" "oc_tag x = TDelete \<longrightarrow> oc_j1 x = oc_j2 x"
    "oc_tag x = TEqual \<longrightarrow> oc_i2 x - oc_i1 x = oc_j2 x - oc_j1 x"
  shows "rights (pairings_of fmt ls rs x) = map (numbered rs) [oc_j1 x..<oc_j2 x]"
proof (cases "oc_tag x")
  case TReplace
  have "rights (pairings_of fmt ls rs x) = map (\<lambda>t. numbered rs (oc_j1 x + t)) [0..<oc_j2 x - oc_j1 x]"
    by (simp add: pairings_of_def TReplace Let_def map_filter_map)
      (rule map_filter_upt_prefix; simp add: pair_lines_def left_alone_def right_alone_def)
  with assms(1) show ?thesis by (simp add: map_shift)
qed (use assms in \<open>auto simp: pairings_of_def Let_def map_filter_map comp_def left_alone_def right_alone_def
      map_shift map_filter_none intro: trans[OF map_filter_all]\<close>)

lemma pairings_cover:
  assumes "tiles a b i j ops" "length ls = length a" "length rs = length b"
  shows "lefts (concat (map (pairings_of fmt ls rs) ops)) = map (numbered ls) [i..<length ls] \<and>
    rights (concat (map (pairings_of fmt ls rs) ops)) = map (numbered rs) [j..<length rs]"
  using assms
proof (induction a b i j ops rule: tiles.induct)
  case (2 a b i j x xs)
  then have le: "i \<le> oc_i2 x" "oc_i2 x \<le> length ls" "j \<le> oc_j2 x" "oc_j2 x \<le> length rs" by auto
  then have "[i..<length ls] = [i..<oc_i2 x] @ [oc_i2 x..<length ls]"
    "[j..<length rs] = [j..<oc_j2 x] @ [oc_j2 x..<length rs]"
    by (metis le_iff_add upt_add_eq_append)+
  moreover have "lefts (pairings_of fmt ls rs x) = map (numbered ls) [i..<oc_i2 x]"
    using lefts_of[of x fmt ls rs] 2(2) by (auto split: op_tag.splits)
  moreover have "rights (pairings_of fmt ls rs x) = map (numbered rs) [j..<oc_j2 x]"
    using rights_of[of x fmt ls rs] 2(2) by (auto split: op_tag.splits)
  ultimately show ?case using 2 by simp
qed (simp add: List.map_filter_def)

lemma length_line_tokens [simp]: "length (build_line_tokens fmt lines) = length lines"
proof -
  have "length (line_tokens_from fmt c lines) = length lines" for c
    by (induction lines arbitrary: c) (auto split: option.split prod.split)
  then show ?thesis by (simp add: build_line_tokens_def)
qed

lemma line_opcodes_tile: "\<exists>(a :: (string \<times> string) list) b.
   fmt \<noteq> TextFormat \<longrightarrow> tiles a b 0 0 (line_opcodes fmt ls rs) \<and> length ls = length a \<and> length rs = length b"
  by (rule exI[of _ "build_line_tokens fmt ls"], rule exI[of _ "build_line_tokens fmt rs"])
    (simp add: line_opcodes_def opcodes_tile)

definition positional_pairings :: "format \<Rightarrow> string list \<Rightarrow> string list \<Rightarrow> pairing list" where
  "positional_pairings fmt ls rs = concat (map (pairings_of fmt ls rs) (line_opcodes fmt ls rs))"

lemma positional_lines:
  "lefts (positional_pairings fmt ls rs) = map (numbered ls) [0..<length ls]"
  "rights (positional_pairings fmt ls rs) = map (numbered rs) [0..<length rs]"
proof -
  have "lefts (positional_pairings fmt ls rs) = map (numbered ls) [0..<length ls] \<and>
      rights (positional_pairings fmt ls rs) = map (numbered rs) [0..<length rs]"
  proof (cases "fmt = TextFormat")
    case True
    with pairings_cover[OF opcodes_tile refl refl] show ?thesis
      by (simp add: positional_pairings_def line_opcodes_def)
  next
    case False
    from pairings_cover[OF opcodes_tile length_line_tokens[symmetric] length_line_tokens[symmetric], where fmt = fmt] False
    show ?thesis by (simp add: positional_pairings_def line_opcodes_def)
  qed
  then show "lefts (positional_pairings fmt ls rs) = map (numbered ls) [0..<length ls]"
    "rights (positional_pairings fmt ls rs) = map (numbered rs) [0..<length rs]" by auto
qed

lemma numbered_lines: "map snd (map (numbered ls) [0..<length ls]) = ls"
  by (rule nth_equalityI) (auto simp: numbered_def)

text \<open>A row stands for both its lines, or for one; an equal row for two.\<close>

definition pairing_ok :: "format \<Rightarrow> pairing \<Rightarrow> bool" where
  "pairing_ok fmt p = (case (pg_left p, pg_right p) of
     (Some (i, l), Some (j, r)) \<Rightarrow> pg_type p \<in> {classify_pair fmt l r, PConflict}
   | (Some x, None) \<Rightarrow> pg_type p = PLeftOnly
   | (None, Some y) \<Rightarrow> pg_type p = PRightOnly
   | (None, None) \<Rightarrow> False)"

lemma pairings_ok: "list_all (pairing_ok fmt) (positional_pairings fmt ls rs)"
proof -
  have "list_all (pairing_ok fmt) (pairings_of fmt ls rs x)" for x
    by (auto simp: pairings_of_def Let_def list_all_iff pairing_ok_def pair_lines_def left_alone_def right_alone_def
        numbered_def split: op_tag.split)
  then show ?thesis by (auto simp: positional_pairings_def list_all_iff)
qed

text \<open>Without fields, equal rows are equal lines.\<close>

lemma equal_lines:
  "list_all (pairing_ok TextFormat) ps \<Longrightarrow> list_all pairing_equal ps \<Longrightarrow> map snd (lefts ps) = map snd (rights ps)"
proof (induction ps)
  case (Cons p ps)
  then show ?case
    by (auto simp: pairing_ok_def pairing_equal_def List.map_filter_def classify_pair_def parse_field_line_def
        split: option.splits prod.splits if_splits)
qed (simp add: List.map_filter_def)

lemma positional_same: "list_all pairing_equal (positional_pairings fmt ls ls)"
proof -
  have "\<exists>n. line_opcodes fmt ls ls = [] \<or> line_opcodes fmt ls ls =
      [\<lparr>oc_tag = TEqual, oc_i1 = 0, oc_i2 = n, oc_j1 = 0, oc_j2 = n\<rparr>]"
    by (auto simp: line_opcodes_def opcodes_same)
  then show ?thesis
    by (auto simp: positional_pairings_def pairings_of_def pairing_equal_def list_all_iff)
qed

lemma diff_lines_positional_pairings:
  "rows_is_equal (diff_lines_positional fmt ls rs) \<longleftrightarrow> list_all pairing_equal (positional_pairings fmt ls rs)"
  by (simp add: diff_lines_positional_def positional_pairings_def)

lemma text_rows_equal: "rows_is_equal (diff_lines_positional TextFormat ls rs) \<longleftrightarrow> ls = rs"
proof
  assume "rows_is_equal (diff_lines_positional TextFormat ls rs)"
  then have "map snd (lefts (positional_pairings TextFormat ls rs)) = map snd (rights (positional_pairings TextFormat ls rs))"
    by (intro equal_lines) (auto simp: diff_lines_positional_pairings pairings_ok)
  then show "ls = rs" by (simp only: positional_lines numbered_lines)
qed (simp add: diff_lines_positional_pairings positional_same)

lemma by_key_rows_equal:
  "rows_is_equal (diff_lines_by_key fmt ls rs) \<longleftrightarrow>
     rows_is_equal (diff_lines_positional fmt (map snd (extract_structural_lines fmt ls)) (map snd (extract_structural_lines fmt rs))) \<and>
     (\<forall>k. rel_option (\<lambda>l r. normalize_text_value (fl_value l) = normalize_text_value (fl_value r))
        (field_map (extract_field_lines fmt ls) k) (field_map (extract_field_lines fmt rs) k))"
proof -
  let ?l = "extract_field_lines fmt ls" and ?r = "extract_field_lines fmt rs"
  have one: "list_all pairing_equal (pair_fields lm rm k) \<longleftrightarrow>
      rel_option (\<lambda>l r. normalize_text_value (fl_value l) = normalize_text_value (fl_value r)) (lm k) (rm k)" for lm rm k
    by (cases "lm k"; cases "rm k") (auto simp: pair_fields_def pairing_equal_def)
  have none: "field_map ?l k = None \<and> field_map ?r k = None" if "k \<notin> set (first_seen (map fl_match_key (?l @ ?r)))" for k
    using that by (auto simp: first_seen_def field_map_def find_None_iff)
  have "(\<forall>k \<in> set (first_seen (map fl_match_key (?l @ ?r))). P (field_map ?l k) (field_map ?r k)) \<longleftrightarrow>
      (\<forall>k. P (field_map ?l k) (field_map ?r k))" if "P None None" for P
    using none that by metis
  from this[of "rel_option (\<lambda>l r. normalize_text_value (fl_value l) = normalize_text_value (fl_value r))"]
  show ?thesis by (simp add: diff_lines_by_key_def Let_def list_all_iff[of _ "concat _"] list_all_iff[symmetric] one)
qed

lemma check_field_order_same [simp]: "check_field_order fmt ls ls"
  by (simp add: check_field_order_def)

text \<open>The lines of the messages, as the rows show them on each side.\<close>

definition shown :: "(diff_row \<Rightarrow> line_item) \<Rightarrow> diff_row list \<Rightarrow> (nat \<times> string) list" where
  "shown side rows = List.map_filter (\<lambda>r. map_option (\<lambda>n. (n, li_content (side r))) (li_no (side r))) rows"

lemma shown_Nil [simp]: "shown side [] = []"
  by (simp add: shown_def List.map_filter_def)

lemma shown_append_row:
  "pairing_ok fmt p \<Longrightarrow> shown row_left (append_row fmt rows p) = shown row_left rows @ lefts [p] \<and>
     shown row_right (append_row fmt rows p) = shown row_right rows @ rights [p]"
  by (auto simp: append_row_def shown_def Let_def side_item_def empty_item_def pairing_ok_def List.map_filter_def
      side_text_def split: pair_type.split option.splits prod.split)

lemma shown_rows:
  "list_all (pairing_ok fmt) ps \<Longrightarrow> shown row_left (foldl (append_row fmt) rows ps) = shown row_left rows @ lefts ps \<and>
     shown row_right (foldl (append_row fmt) rows ps) = shown row_right rows @ rights ps"
proof (induction ps arbitrary: rows)
  case (Cons p ps)
  have "lefts (p # ps) = lefts [p] @ lefts ps" "rights (p # ps) = rights [p] @ rights ps"
    by (simp_all add: List.map_filter_def)
  with Cons shown_append_row[of fmt p rows] show ?case by simp
qed (simp add: List.map_filter_def)

lemma row_numbers: "map row_no (foldl (append_row fmt) rows ps) = map row_no rows @ [length rows + 1..<length rows + length ps + 1]"
proof (induction ps arbitrary: rows)
  case (Cons p ps)
  have "map row_no (append_row fmt rows p) = map row_no rows @ [length rows + 1]" "length (append_row fmt rows p) = length rows + 1"
    by (auto simp: append_row_def Let_def split: pair_type.split prod.split)
  with Cons[of "append_row fmt rows p"] show ?case
    by (simp add: upt_conv_Cons[of "Suc (length rows)"] del: upt_Suc)
qed simp

section \<open>Properties\<close>

text \<open>
  C38. Two messages that are neither JSON nor XML compare as equal exactly when their lines are the same,
  whatever the order control: the alignment of the lines neither hides nor invents a difference.
\<close>

theorem text_equal_iff_same_lines:
  assumes "detect_format json_ok xml_ok [l, r] = TextFormat"
  shows "df_equal (compare_messages json_ok xml_ok l r oc) \<longleftrightarrow> py_splitlines l = py_splitlines r"
  by (simp add: compare_messages_def Let_def assms text_rows_equal del: detect_format.simps)

theorem text_equal_iff_same_lines_witness:
  "\<not> df_equal (compare_messages (\<lambda>_. False) (\<lambda>_. False) ''a'' ''b'' 0)"
  by (subst text_equal_iff_same_lines; code_simp)

text \<open>
  A message equals itself, in every format and under every order control.
\<close>

theorem same_message_is_equal: "df_equal (compare_messages json_ok xml_ok t t oc)"
  by (simp add: compare_messages_def Let_def diff_lines_positional_pairings positional_same by_key_rows_equal option.rel_refl
      del: detect_format.simps)

text \<open>
  The aligned rows of a comparison by position are numbered from one, and show every line of the left
  message and every line of the right one exactly once, under its number and in order.
\<close>

theorem rows_show_every_line:
  "map row_no (diff_lines_positional fmt ls rs) = [1..<length (diff_lines_positional fmt ls rs) + 1] \<and>
   shown row_left (diff_lines_positional fmt ls rs) = enumerate 1 ls \<and>
   shown row_right (diff_lines_positional fmt ls rs) = enumerate 1 rs"
proof -
  let ?ps = "positional_pairings fmt ls rs"
  have d: "diff_lines_positional fmt ls rs = foldl (append_row fmt) [] ?ps"
    by (simp add: diff_lines_positional_def positional_pairings_def)
  have "length (foldl (append_row fmt) [] ?ps) = length ?ps"
    using arg_cong[OF row_numbers[of fmt "[]" ?ps], of length] by (simp del: upt_Suc)
  moreover have "map (numbered xs) [0..<length xs] = enumerate 1 xs" for xs
    by (rule nth_equalityI) (auto simp: numbered_def nth_enumerate_eq)
  ultimately show ?thesis
    using row_numbers[of fmt "[]" ?ps] shown_rows[OF pairings_ok, of fmt "[]" ls rs]
    by (simp add: d positional_lines del: upt_Suc)
qed

text \<open>
  Without order control, JSON and XML messages are equal exactly when the lines without a field agree
  and each field name occurs on both sides or on neither, with the same value in its last line. What an
  earlier line of the same name says is not compared.
\<close>

theorem fields_equal_by_name:
  assumes "detect_format json_ok xml_ok [l, r] = fmt" "fmt \<noteq> TextFormat" "oc \<noteq> 1"
  shows "df_equal (compare_messages json_ok xml_ok l r oc) \<longleftrightarrow>
     rows_is_equal (diff_lines_positional fmt (map snd (extract_structural_lines fmt (py_splitlines l)))
       (map snd (extract_structural_lines fmt (py_splitlines r)))) \<and>
     (\<forall>k. rel_option (\<lambda>x y. normalize_text_value (fl_value x) = normalize_text_value (fl_value y))
        (field_map (extract_field_lines fmt (py_splitlines l)) k) (field_map (extract_field_lines fmt (py_splitlines r)) k))"
  using assms by (simp add: compare_messages_def Let_def by_key_rows_equal del: detect_format.simps)

text \<open>Two pretty-printed objects that differ in the first of two fields of the same name.\<close>

definition nested_message :: "string \<Rightarrow> string" where
  "nested_message v = join [CHR 0x0A] [''{'', [CHR 0x22] @ ''a'' @ [CHR 0x22] @ '': {'', [CHR 0x22] @ ''x'' @ [CHR 0x22] @ '': '' @ v,
     ''},'', [CHR 0x22] @ ''b'' @ [CHR 0x22] @ '': {'', [CHR 0x22] @ ''x'' @ [CHR 0x22] @ '': 2'', ''}'', ''}'']"

theorem fields_equal_by_name_witness:
  "df_equal (compare_messages (\<lambda>_. True) (\<lambda>_. False) (nested_message ''1'') (nested_message ''9'') 0) \<longleftrightarrow>
     rows_is_equal (diff_lines_positional JsonFormat
       (map snd (extract_structural_lines JsonFormat (py_splitlines (nested_message ''1''))))
       (map snd (extract_structural_lines JsonFormat (py_splitlines (nested_message ''9''))))) \<and>
     (\<forall>k. rel_option (\<lambda>x y. normalize_text_value (fl_value x) = normalize_text_value (fl_value y))
        (field_map (extract_field_lines JsonFormat (py_splitlines (nested_message ''1''))) k)
        (field_map (extract_field_lines JsonFormat (py_splitlines (nested_message ''9''))) k))"
  by (rule fields_equal_by_name; code_simp)

text \<open>
  Two JSON objects that differ in a nested field are equal without order control when a later object has a
  field of the same name; with order control they are not.
\<close>

theorem nested_difference_is_missed:
  "df_equal (compare_messages (\<lambda>_. True) (\<lambda>_. False) (nested_message ''1'') (nested_message ''9'') 0) \<and>
   \<not> df_equal (compare_messages (\<lambda>_. True) (\<lambda>_. False) (nested_message ''1'') (nested_message ''9'') 1)"
  by (intro conjI; code_simp)

end
