(* ===== verification/PyCode.thy ===== *)
theory PyCode
  imports Placeholder
begin

text \<open>
  The text of a Python step on its way to the interpreter: \<^verbatim>\<open>resolve_code_placeholders\<close>,
  \<^verbatim>\<open>normalize_python_code\<close> and \<^verbatim>\<open>_validate_user_python_restricted\<close> of
  \<^verbatim>\<open>services/autotest_step_engine.py\<close>, and the policy of \<^verbatim>\<open>autotest_runtime/sandbox.py\<close>.
  Parsing to a syntax tree and execution belong to the interpreter; log lines of the resolution are left
  out. The loop that resolves placeholders inside quoted texts may not end: its result is optional.
\<close>

section \<open>Placeholders in code\<close>

definition python_literal :: "pyval \<Rightarrow> string" where
  "python_literal v = (case v of PStr s \<Rightarrow> str_repr s | _ \<Rightarrow> py_str v)"

definition quote_mark :: "char \<Rightarrow> bool" where
  "quote_mark c = (c = apostrophe \<or> c = double_quote)"

definition newline :: char where "newline = char_of (10 :: nat)"

text \<open>\<^verbatim>\<open>RE_QUOTED_PLACEHOLDER\<close> at the start of a text: the name and the text after the match.\<close>

fun quoted_at :: "string \<Rightarrow> (string \<times> string) option" where
  "quoted_at [] = None"
| "quoted_at (q # s) = (if \<not> quote_mark q then None else (case hole_at s of
     Some (name, c # r) \<Rightarrow> if c = q then Some (name, r) else None
   | _ \<Rightarrow> None))"

lemma hole_at_some: "hole_at s = Some (i, r) \<Longrightarrow> s = hole_text i @ r"
  by (simp add: hole_at_text)

lemma quote_chars: "\<not> quote_mark CHR ''$''" "\<not> quote_mark newline" "\<not> quote_mark CHR ''{''" "\<not> quote_mark CHR ''}''"
  by code_simp+

lemma quoted_at_some: "quoted_at s = Some (name, r) \<Longrightarrow> \<exists>q. quote_mark q \<and> s = q # hole_text name @ q # r"
  by (cases s) (auto split: if_splits option.splits list.splits dest: hole_at_some)

text \<open>The value of a placeholder in quotes: a call of a generator, or a variable.\<close>

definition code_value :: "ph_env \<Rightarrow> var_source \<Rightarrow> nat \<Rightarrow> string \<Rightarrow> pyval option \<times> nat" where
  "code_value env src n name =
     (if CHR ''('' \<in> set name \<and> py_endswith (py_strip name) '')'' then (ph_func env n name, Suc n)
      else (lookup_source src name, n))"

function sub_quoted :: "ph_env \<Rightarrow> var_source \<Rightarrow> nat \<Rightarrow> string \<Rightarrow> string \<times> nat" where
  "sub_quoted env src n [] = ([], n)"
| "sub_quoted env src n (c # s) = (case quoted_at (c # s) of
     Some (name, r) \<Rightarrow>
       (case code_value env src n name of (v, n1) \<Rightarrow>
         (case sub_quoted env src n1 r of (t, n2) \<Rightarrow>
           ((case v of None \<Rightarrow> c # hole_text name @ [c] | Some x \<Rightarrow> python_literal x) @ t, n2)))
   | None \<Rightarrow> (case sub_quoted env src n s of (t, n1) \<Rightarrow> (c # t, n1)))"
  by pat_completeness auto
termination
  by (relation "measure (\<lambda>(env, src, n, s). length s)") (auto simp del: quoted_at.simps dest!: quoted_at_some simp: hole_text_def)

declare sub_quoted.simps(2) [simp del] quoted_at.simps(2) [simp del]

text \<open>\<^verbatim>\<open>RE_QUOTED_CONCAT\<close> behind its opening quote: the shortest prefix that works, the name, the
  rest of the quoted text and the text after the match.\<close>

definition quoted_rest :: "char \<Rightarrow> string \<Rightarrow> (string \<times> string) option" where
  "quoted_rest q s =
     (let inside = (\<lambda>c. c \<noteq> q \<and> c \<noteq> newline) in
      case dropWhile inside s of
        [] \<Rightarrow> None
      | c # r \<Rightarrow> if c = q then Some (takeWhile inside s, r) else None)"

definition hole_in_quotes :: "char \<Rightarrow> string \<Rightarrow> (string \<times> string \<times> string) option" where
  "hole_in_quotes q s = (case hole_at s of
     None \<Rightarrow> None
   | Some (name, r) \<Rightarrow> (case quoted_rest q r of None \<Rightarrow> None | Some (suffix, r1) \<Rightarrow> Some (name, suffix, r1)))"

fun concat_from :: "char \<Rightarrow> string \<Rightarrow> (string \<times> string \<times> string \<times> string) option" where
  "concat_from q [] = None"
| "concat_from q (c # s) = (case hole_in_quotes q (c # s) of
     Some m \<Rightarrow> Some ([], m)
   | None \<Rightarrow>
       if c = q \<or> c = newline then None
       else (case concat_from q s of None \<Rightarrow> None | Some (prefix, m) \<Rightarrow> Some (c # prefix, m)))"

fun concat_at :: "string \<Rightarrow> (string \<times> string \<times> string \<times> string) option" where
  "concat_at [] = None"
| "concat_at (q # s) = (if quote_mark q then concat_from q s else None)"

lemma quoted_rest_some: "quoted_rest q s = Some (t, r) \<Longrightarrow> s = t @ q # r"
  unfolding quoted_rest_def Let_def
  by (auto split: list.splits if_splits) (metis takeWhile_dropWhile_id)

lemma concat_from_some: "concat_from q s = Some (p, name, t, r) \<Longrightarrow> s = p @ hole_text name @ t @ q # r"
  by (induction q s arbitrary: p rule: concat_from.induct)
     (auto simp: hole_in_quotes_def split: option.splits if_splits prod.splits dest!: hole_at_some quoted_rest_some)

lemma concat_at_some: "concat_at s = Some (p, name, t, r) \<Longrightarrow> \<exists>q. quote_mark q \<and> s = q # p @ hole_text name @ t @ q # r"
  by (cases s) (auto split: if_splits dest: concat_from_some)

text \<open>One pass over the code.\<close>

function sub_concat :: "var_source \<Rightarrow> string \<Rightarrow> string" where
  "sub_concat src [] = []"
| "sub_concat src (c # s) = (case concat_at (c # s) of
     Some (prefix, name, suffix, r) \<Rightarrow>
       c # prefix @ (case lookup_source src name of None \<Rightarrow> hole_text name | Some v \<Rightarrow> py_str v)
         @ suffix @ c # sub_concat src r
   | None \<Rightarrow> c # sub_concat src s)"
  by pat_completeness auto
termination
  by (relation "measure (\<lambda>(src, s). length s)") (auto simp del: concat_at.simps dest!: concat_at_some)

declare sub_concat.simps(2) [simp del] concat_at.simps(2) [simp del]

text \<open>The passes are repeated until one changes nothing.\<close>

partial_function (option) concat_loop :: "var_source \<Rightarrow> string \<Rightarrow> string option" where
  "concat_loop src code =
     (if sub_concat src code = code then Some code else concat_loop src (sub_concat src code))"

text \<open>\<^verbatim>\<open>RE_PLACEHOLDER\<close> in the remaining code.\<close>

definition sub_bare :: "var_source \<Rightarrow> string \<Rightarrow> string" where
  "sub_bare src code = (case scan code of (ms, tail) \<Rightarrow>
     concat (map (\<lambda>(pre, name). pre @ (case lookup_source src name of
       None \<Rightarrow> hole_text name | Some v \<Rightarrow> python_literal v)) ms) @ tail)"

definition resolve_code_placeholders :: "ph_env \<Rightarrow> var_source \<Rightarrow> nat \<Rightarrow> string \<Rightarrow> string option \<times> nat" where
  "resolve_code_placeholders env src n code = (case sub_quoted env src n code of
     (code1, n1) \<Rightarrow> (map_option (sub_bare src) (concat_loop src code1), n1))"

section \<open>Code on one line\<close>

fun py_find :: "string \<Rightarrow> string \<Rightarrow> nat option" where
  "py_find sub [] = (if sub = [] then Some 0 else None)"
| "py_find sub (c # s) = (if py_startswith (c # s) sub then Some 0 else map_option Suc (py_find sub s))"

text \<open>The first import, by position and keyword.\<close>

definition next_import :: "string \<Rightarrow> (nat \<times> string) option" where
  "next_import s = (case (py_find ''import '' s, py_find ''from '' s) of
     (None, None) \<Rightarrow> None
   | (Some i, None) \<Rightarrow> Some (i, ''import '')
   | (None, Some f) \<Rightarrow> Some (f, ''from '')
   | (Some i, Some f) \<Rightarrow> if f < i then Some (f, ''from '') else Some (i, ''import ''))"

definition next_keywords :: "string list" where
  "next_keywords = [''return '', ''if '', ''for '', ''while '', ''with '', ''import '', ''from '']"

definition statement_end :: "string \<Rightarrow> nat" where
  "statement_end s = fold (\<lambda>kw e. case py_find kw s of None \<Rightarrow> e | Some k \<Rightarrow> if k < e then k else e)
     next_keywords (length s)"

lemma py_find_bound: "py_find sub s = Some k \<Longrightarrow> k + length sub \<le> length s"
  by (induction s arbitrary: k) (auto simp: py_startswith_iff split: if_splits dest!: arg_cong[where f = length])

lemma next_import_bound: "next_import s = Some (k, kw) \<Longrightarrow> k + length kw \<le> length s \<and> 5 \<le> length kw"
  by (auto simp: next_import_def split: option.splits if_splits dest!: py_find_bound)

lemma strip_length: "length (py_strip s) \<le> length s"
  unfolding py_strip_def by (metis length_dropWhile_le length_rev le_trans)

function hoist_imports :: "string \<Rightarrow> string list \<times> string" where
  "hoist_imports body = (case next_import body of
     None \<Rightarrow> ([], body)
   | Some (pos, kw) \<Rightarrow>
       (let after = drop (pos + length kw) body;
            e = statement_end after
        in case hoist_imports (py_strip (drop e after)) of (stmts, rest) \<Rightarrow>
             (py_strip (take (length kw + e) (drop pos body)) # stmts, rest)))"
  by pat_completeness auto
termination
proof (relation "measure length", goal_cases)
  case (2 body p pos kw after e)
  then have "length after < length body" using next_import_bound[of body pos kw] by auto
  then show ?case using strip_length[of "drop e after"] by simp
qed simp

declare hoist_imports.simps [simp del]

definition normalize_python_code :: "string \<Rightarrow> string" where
  "normalize_python_code code0 =
     (let code = py_strip code0 in
      if code = [] \<or> newline \<in> set code then code
      else if py_contains code ''def '' \<and> CHR '':'' \<in> set code then
        (let head = py_strip (py_before CHR '':'' code @ '':'') in
         case hoist_imports (py_strip (py_after CHR '':'' code)) of (imports, rest) \<Rightarrow>
           join [newline] (imports @ [head] @ (if rest = [] then [] else [''    '' @ rest])))
      else code)"

section \<open>The sandbox\<close>

text \<open>The nodes of a syntax tree that the check looks at, in the order of the walk.\<close>

datatype py_node =
    ClassNode
  | AsyncFunctionNode
  | ImportNode "string list"
  | ImportFromNode nat "string option"
  | AttributeNode string
  | OtherNode

datatype violation =
    NoClassOrAsync
  | BadImport string
  | RelativeImport
  | UnnamedImport
  | BadFromImport string
  | BadAttribute string

definition module_proxies :: "string list" where
  "module_proxies = [''json'', ''random'', ''typing'', ''time'', ''calendar'', ''operator'', ''itertools'',
     ''functools'', ''collections'', ''math'', ''decimal'', ''fractions'', ''statistics'', ''re'', ''string'', ''base64'']"

definition allowed_import_roots :: "string list" where
  "allowed_import_roots = module_proxies @ [''datetime'']"

definition lazy_import_roots :: "string list" where
  "lazy_import_roots = [''_strptime'']"

definition forbidden_attrs :: "string list" where
  "forbidden_attrs = [''gi_frame'', ''gi_code'', ''gi_yieldfrom'', ''cr_frame'', ''cr_code'', ''cr_await'',
     ''ag_frame'', ''ag_code'', ''ag_await'', ''f_back'', ''f_builtins'', ''f_code'', ''f_globals'', ''f_locals'',
     ''f_trace'', ''tb_frame'', ''tb_next'', ''cell_contents'']"

definition allowed_private_attrs :: "string list" where
  "allowed_private_attrs = [''_replace'', ''_asdict'', ''_make'', ''_fields'', ''_field_defaults'']"

definition import_root :: "string \<Rightarrow> string" where
  "import_root name = py_before CHR ''.'' name"

definition node_violation :: "py_node \<Rightarrow> violation option" where
  "node_violation node = (case node of
     ClassNode \<Rightarrow> Some NoClassOrAsync
   | AsyncFunctionNode \<Rightarrow> Some NoClassOrAsync
   | ImportNode names \<Rightarrow>
       map_option BadImport (find (\<lambda>name. import_root name \<notin> set allowed_import_roots) names)
   | ImportFromNode level m \<Rightarrow>
       (if level \<noteq> 0 then Some RelativeImport
        else if \<not> (case m of None \<Rightarrow> False | Some name \<Rightarrow> name \<noteq> []) then Some UnnamedImport
        else if import_root (the m) \<notin> set allowed_import_roots then Some (BadFromImport (the m))
        else None)
   | AttributeNode a \<Rightarrow>
       (if (py_startswith a ''_'' \<and> a \<notin> set allowed_private_attrs) \<or> a \<in> set forbidden_attrs
        then Some (BadAttribute a) else None)
   | OtherNode \<Rightarrow> None)"

text \<open>\<^verbatim>\<open>None\<close> from the parser: a syntax error, which is left to the interpreter.\<close>

fun first_violation :: "py_node list \<Rightarrow> violation option" where
  "first_violation [] = None"
| "first_violation (x # xs) = (case node_violation x of Some e \<Rightarrow> Some e | None \<Rightarrow> first_violation xs)"

definition validate_user_python :: "(string \<Rightarrow> py_node list option) \<Rightarrow> string \<Rightarrow> violation option" where
  "validate_user_python parse code = (case parse code of None \<Rightarrow> None | Some nodes \<Rightarrow> first_violation nodes)"

text \<open>\<^verbatim>\<open>_restricted_import\<close>: what the hook hands out, a proxy of the root module or the module itself.
  The argument \<^verbatim>\<open>builtin_import\<close> is Python's own import: the module it returns for a name, or nothing where
  it raises (a submodule that is not there).\<close>

datatype imported = Proxied string | Unproxied string

datatype import_refusal = RelativePath | NotAllowed string | ImportFailed string

definition restricted_import :: "(string \<Rightarrow> string option) \<Rightarrow> string \<Rightarrow> nat \<Rightarrow> import_refusal + imported" where
  "restricted_import builtin_import name level =
     (if level \<noteq> 0 then Inl RelativePath
      else if import_root name \<notin> set allowed_import_roots \<and> import_root name \<notin> set lazy_import_roots
      then Inl (NotAllowed name)
      else case builtin_import name of
        None \<Rightarrow> Inl (ImportFailed name)
      | Some m \<Rightarrow>
          if import_root name \<in> set module_proxies then Inr (Proxied (import_root name)) else Inr (Unproxied m))"

text \<open>\<^verbatim>\<open>ReadonlyModuleProxy\<close>: reading goes to the module unless the name is blocked, writing is refused.\<close>

definition blocked_names :: "string \<Rightarrow> string list" where
  "blocked_names m = (if m = ''operator'' then [''attrgetter'', ''methodcaller''] else [])"

definition module_getattr :: "(string \<Rightarrow> string \<Rightarrow> 'v option) \<Rightarrow> imported \<Rightarrow> string \<Rightarrow> 'v option" where
  "module_getattr target m item = (case m of
     Proxied r \<Rightarrow> if item \<in> set (blocked_names r) then None else target r item
   | Unproxied name \<Rightarrow> target name item)"

definition module_setattr_allowed :: "imported \<Rightarrow> bool" where
  "module_setattr_allowed m = (case m of Proxied _ \<Rightarrow> False | Unproxied _ \<Rightarrow> True)"

text \<open>\<^verbatim>\<open>new_exec_context\<close>: the built-ins are always the sandbox's own.\<close>

datatype binding = SafeBuiltins | Value pyval

definition new_exec_context :: "pyval dict \<Rightarrow> binding dict" where
  "new_exec_context namespace =
     dict_update [(''__builtins__'', SafeBuiltins)]
       (map (\<lambda>(k, v). (k, Value v)) (filter (\<lambda>(k, v). k \<noteq> ''__builtins__'') namespace))"

text \<open>What the executed code leaves: the functions it defined, each with the answer of a call without
  arguments (\<^verbatim>\<open>Inl\<close>: it raises), and its variable \<^verbatim>\<open>result\<close>. A single function is called.\<close>

record code_end =
  ce_functions :: "(string \<times> (string + pyval)) list"
  ce_result :: "pyval option"

datatype code_error = CodeRaised string | ManyFunctions "string list"

definition code_value_of :: "code_end \<Rightarrow> code_error + pyval" where
  "code_value_of x = (case ce_functions x of
     [] \<Rightarrow> Inr (case ce_result x of None \<Rightarrow> PNone | Some v \<Rightarrow> v)
   | [(name, Inl e)] \<Rightarrow> Inl (CodeRaised e)
   | [(name, Inr v)] \<Rightarrow> Inr v
   | fs \<Rightarrow> Inl (ManyFunctions (map fst fs)))"

lemma exec_context_builtins: "map_of (new_exec_context namespace) ''__builtins__'' = Some SafeBuiltins"
proof -
  let ?e = "map (\<lambda>(k, v). (k, Value v)) (filter (\<lambda>(k, v). k \<noteq> ''__builtins__'') namespace)"
  have "map_of (dict_update d ?e) ''__builtins__'' = map_of d ''__builtins__''" for d
    by (induction namespace arbitrary: d) (auto simp: dict_update_def map_of_update)
  then show ?thesis by (simp add: new_exec_context_def)
qed

section \<open>Resolution ends when no value holds a dollar sign\<close>

abbreviation dollars :: "string \<Rightarrow> nat" where
  "dollars s \<equiv> count_list s CHR ''$''"

definition quiet :: "var_source \<Rightarrow> bool" where
  "quiet src = (\<forall>name v. lookup_source src name = Some v \<longrightarrow> CHR ''$'' \<notin> set (py_str v))"

lemma concat_at_first: "concat_at (c # s) = Some (p, name, t, r) \<Longrightarrow> quote_mark c \<and> s = p @ hole_text name @ t @ c # r"
  by (auto simp: concat_at.simps(2) split: if_splits dest: concat_from_some)

lemma sub_concat_dollars:
  assumes "quiet src"
  shows "sub_concat src s = s \<or> dollars (sub_concat src s) < dollars s"
  using assms
proof (induction src s rule: sub_concat.induct)
  case (2 src c s)
  show ?case
  proof (cases "concat_at (c # s)")
    case None
    with 2 show ?thesis by (auto simp: sub_concat.simps(2)[of src c s])
  next
    case (Some m)
    then obtain p name t r where m: "concat_at (c # s) = Some (p, name, t, r)" by (metis prod_cases4)
    then have s: "s = p @ hole_text name @ t @ c # r" and q: "quote_mark c" using concat_at_first by blast+
    from q quote_chars(1) have c: "c \<noteq> CHR ''$''" by blast
    have IH: "sub_concat src r = r \<or> dollars (sub_concat src r) < dollars r"
      using 2(2)[OF m refl refl refl 2(3)] .
    have eq: "sub_concat src (c # s) = c # p @ (case lookup_source src name of None \<Rightarrow> hole_text name | Some v \<Rightarrow> py_str v)
        @ t @ c # sub_concat src r"
      by (simp add: sub_concat.simps(2) m)
    show ?thesis
    proof (cases "lookup_source src name")
      case None
      with IH c show ?thesis unfolding eq by (auto simp: s)
    next
      case (Some v)
      with 2(3) have "dollars (py_str v) = 0" by (simp add: quiet_def count_list_0_iff)
      with IH c Some show ?thesis unfolding eq by (auto simp: s hole_text_def)
    qed
  qed
qed simp

lemma concat_loop_ends:
  assumes "quiet src"
  shows "\<exists>r. concat_loop src code = Some r \<and> sub_concat src r = r"
proof (induction code rule: measure_induct_rule[of "dollars"])
  case (less code)
  show ?case
  proof (cases "sub_concat src code = code")
    case False
    with sub_concat_dollars[OF assms] less show ?thesis by (subst concat_loop.simps) auto
  qed (simp add: concat_loop.simps)
qed

section \<open>Code that the passes leave alone\<close>

text \<open>No placeholder stands in quotes, whole or as a part.\<close>

fun quoted_holes :: "string \<Rightarrow> bool" where
  "quoted_holes [] = False"
| "quoted_holes (c # s) = (quoted_at (c # s) \<noteq> None \<or> concat_at (c # s) \<noteq> None \<or> quoted_holes s)"

lemma sub_quoted_none: "\<not> quoted_holes s \<Longrightarrow> sub_quoted env src n s = (s, n)"
  by (induction s) (auto simp: sub_quoted.simps(2) split: option.splits)

lemma sub_concat_none: "\<not> quoted_holes s \<Longrightarrow> sub_concat src s = s"
  by (induction s) (auto simp: sub_concat.simps(2) split: option.splits)

lemma bare_code_resolves:
  "\<not> quoted_holes code \<Longrightarrow> resolve_code_placeholders env src n code = (Some (sub_bare src code), n)"
  by (simp add: resolve_code_placeholders_def sub_quoted_none concat_loop.simps sub_concat_none)

lemma no_dollar_hole: "CHR ''$'' \<notin> set s \<Longrightarrow> hole_at s = None"
  by (cases "hole_at s") (auto dest!: hole_at_some simp: hole_text_def)

lemma no_dollar_quoted: "CHR ''$'' \<notin> set s \<Longrightarrow> \<not> quoted_holes s"
proof (induction s)
  case (Cons c s)
  have "quoted_at (c # s) = None"
    using Cons.prems by (cases "quoted_at (c # s)") (auto dest!: quoted_at_some simp: hole_text_def)
  moreover have "concat_at (c # s) = None"
    using Cons.prems by (cases "concat_at (c # s)") (auto dest!: concat_at_some simp: hole_text_def)
  ultimately show ?case using Cons by simp
qed simp

lemma no_dollar_bare: "CHR ''$'' \<notin> set s \<Longrightarrow> sub_bare src s = s"
proof -
  assume a: "CHR ''$'' \<notin> set s"
  have "\<not> py_contains s ''${''" using a by (induction s) auto
  then show ?thesis by (simp add: sub_bare_def scan_without_hole)
qed

section \<open>A placeholder inside a longer quoted text\<close>

definition plain :: "string \<Rightarrow> bool" where
  "plain s = (\<forall>c \<in> set s. \<not> quote_mark c \<and> c \<noteq> newline \<and> c \<noteq> CHR ''$'' \<and> c \<noteq> CHR ''}'')"

lemma plain_simps [simp]: "plain []" "plain (s @ t) = (plain s \<and> plain t)"
  by (auto simp: plain_def)

lemma plain_Cons: "plain (c # s) = (\<not> quote_mark c \<and> c \<noteq> newline \<and> c \<noteq> CHR ''$'' \<and> c \<noteq> CHR ''}'' \<and> plain s)"
  by (auto simp: plain_def)

lemma hole_at_front: "name \<noteq> [] \<Longrightarrow> CHR ''}'' \<notin> set name \<Longrightarrow> hole_at (hole_text name @ r) = Some (name, r)"
  by (auto simp: hole_at_def hole_text_def py_startswith_def Let_def takeWhile_append dropWhile_append)

lemma quoted_rest_plain: "plain t \<Longrightarrow> quote_mark q \<Longrightarrow> quoted_rest q (t @ q # r) = Some (t, r)"
  by (induction t) (auto simp: quoted_rest_def plain_Cons Let_def split: list.splits if_splits)

lemma concat_from_plain:
  assumes "plain p" "plain t" "quote_mark q" "name \<noteq> []" "CHR ''}'' \<notin> set name"
  shows "concat_from q (p @ hole_text name @ t @ q # r) = Some (p, name, t, r)"
  using assms(1)
proof (induction p)
  case Nil
  have "hole_in_quotes q (hole_text name @ t @ q # r) = Some (name, t, r)"
    using assms by (simp add: hole_in_quotes_def hole_at_front quoted_rest_plain)
  then show ?case by (simp add: hole_text_def)
next
  case (Cons c p)
  then have "hole_at (c # p @ x) = None" for x by (auto simp: hole_at_def py_startswith_def plain_Cons)
  with Cons assms(3) show ?case by (auto simp: hole_in_quotes_def plain_Cons)
qed

lemma sub_concat_text:
  assumes "plain p" "plain t" "quote_mark q" "name \<noteq> []" "CHR ''}'' \<notin> set name" "lookup_source src name = Some v"
  shows "sub_concat src (q # p @ hole_text name @ t @ [q]) = q # p @ py_str v @ t @ [q]"
  using concat_from_plain[OF assms(1-5), of "[]"] assms(3,6)
  by (simp add: sub_concat.simps(2) concat_at.simps(2))

lemma sub_quoted_unquoted:
  "\<forall>c \<in> set s. \<not> quote_mark c \<Longrightarrow> sub_quoted env src n (s @ r) = (case sub_quoted env src n r of (t, m) \<Rightarrow> (s @ t, m))"
  by (induction s) (auto simp: sub_quoted.simps(2) quoted_at.simps(2) split: prod.splits)

lemma sub_quoted_part:
  assumes "plain p" "plain t" "p \<noteq> [] \<or> t \<noteq> []" "plain name" "name \<noteq> []"
  shows "sub_quoted env src n (q # p @ hole_text name @ t @ [q]) = (q # p @ hole_text name @ t @ [q], n)"
proof -
  have "quoted_at (q # p @ hole_text name @ t @ [q]) = None"
  proof (cases p)
    case Nil
    with assms obtain c t' where t: "t = c # t'" by (cases t) auto
    have "CHR ''}'' \<notin> set name" using assms(4) by (auto simp: plain_def)
    with assms t show ?thesis by (auto simp: Nil quoted_at.simps(2) hole_at_front plain_Cons)
  next
    case (Cons c p')
    with assms have "hole_at (c # x) = None" for x by (auto simp: hole_at_def py_startswith_def plain_Cons)
    with Cons show ?thesis by (simp add: quoted_at.simps(2))
  qed
  moreover have "\<forall>c \<in> set (p @ hole_text name @ t). \<not> quote_mark c"
    using assms quote_chars by (auto simp: plain_def hole_text_def)
  then have "sub_quoted env src n ((p @ hole_text name @ t) @ [q]) = (p @ hole_text name @ t @ [q], n)"
    by (subst sub_quoted_unquoted) (auto simp: sub_quoted.simps(2) quoted_at.simps(2) hole_at_def py_startswith_def)
  ultimately show ?thesis by (simp add: sub_quoted.simps(2))
qed

lemma part_is_inserted:
  assumes "plain p" "plain t" "p \<noteq> [] \<or> t \<noteq> []" "quote_mark q" "plain name" "name \<noteq> []"
    and "lookup_source src name = Some v" "CHR ''$'' \<notin> set (py_str v)"
  shows "resolve_code_placeholders env src n (q # p @ hole_text name @ t @ [q]) = (Some (q # p @ py_str v @ t @ [q]), n)"
proof -
  have b: "CHR ''}'' \<notin> set name" using assms(5) by (auto simp: plain_def)
  let ?r = "q # p @ py_str v @ t @ [q]"
  have "CHR ''$'' \<notin> set ?r" using assms quote_chars by (auto simp: plain_def)
  then have "sub_concat src ?r = ?r" "sub_bare src ?r = ?r"
    using sub_concat_none no_dollar_quoted no_dollar_bare by blast+
  moreover from this have "concat_loop src ?r = Some ?r" by (simp add: concat_loop.simps)
  moreover have "concat_loop src (q # p @ hole_text name @ t @ [q]) = concat_loop src ?r"
    using calculation sub_concat_text[OF assms(1,2,4,6) b assms(7)]
    by (subst concat_loop.simps) auto
  ultimately show ?thesis
    using sub_quoted_part[OF assms(1,2,3,5,6)] by (simp add: resolve_code_placeholders_def)
qed

section \<open>A value that mentions its own name\<close>

lemma own_name_grows:
  assumes ret: "concat_loop src code = Some r" and "\<exists>p. plain p \<and> code = q # p @ hole_text name @ [q]"
    and src: "lookup_source src name = Some (PStr (a @ hole_text name))" "a \<noteq> []" "plain a"
    and q: "quote_mark q" "plain name" "name \<noteq> []"
  shows False
proof -
  have b: "CHR ''}'' \<notin> set name" using q(2) by (auto simp: plain_def)
  have grow: "sub_concat src (q # p @ hole_text name @ [q]) = q # (p @ a) @ hole_text name @ [q]" if "plain p" for p
    using sub_concat_text[OF that _ q(1) q(3) b src(1), of "[]"] by (simp add: py_str_def)
  have "\<not> (src = src \<and> (\<exists>p. plain p \<and> code = q # p @ hole_text name @ [q]))"
  proof (rule concat_loop.raw_induct[where P = "\<lambda>s code r. \<not> (s = src \<and> (\<exists>p. plain p \<and> code = q # p @ hole_text name @ [q]))",
        OF _ ret])
    fix f s code r
    assume IH: "\<And>s code r. f s code = Some r \<Longrightarrow> \<not> (s = src \<and> (\<exists>p. plain p \<and> code = q # p @ hole_text name @ [q]))"
      and eq: "(if sub_concat s code = code then Some code else f s (sub_concat s code)) = Some r"
    show "\<not> (s = src \<and> (\<exists>p. plain p \<and> code = q # p @ hole_text name @ [q]))"
    proof
      assume "s = src \<and> (\<exists>p. plain p \<and> code = q # p @ hole_text name @ [q])"
      then obtain p where s: "s = src" and p: "plain p" "code = q # p @ hole_text name @ [q]" by blast
      with grow[OF p(1)] src(2) have "sub_concat s code \<noteq> code" by simp
      with eq have "f s (sub_concat s code) = Some r" by simp
      moreover have "sub_concat s code = q # (p @ a) @ hole_text name @ [q]" using grow[OF p(1)] p(2) s by simp
      moreover have "plain (p @ a)" using p(1) src(3) by simp
      ultimately show False using IH s by blast
    qed
  qed
  with assms(2) show False by blast
qed

section \<open>Imports on one line\<close>

lemma py_find_first: "py_find sub s = Some k \<Longrightarrow> py_startswith (drop k s) sub"
  by (induction s arbitrary: k) (auto simp: py_startswith_def split: if_splits)

lemma py_find_drop:
  "py_find sub s = Some k \<Longrightarrow> j \<le> k \<Longrightarrow> py_find sub (drop j s) = Some (k - j)"
  "py_find sub s = None \<Longrightarrow> sub \<noteq> [] \<Longrightarrow> py_find sub (drop j s) = None"
proof (induction s arbitrary: k j)
  case (Cons c s)
  {
    case 1
    with Cons.IH(1) show ?case by (cases j) (auto split: if_splits)
  next
    case 2
    with Cons.IH(2) show ?case by (cases j) (auto split: if_splits)
  }
qed (auto split: if_splits)

lemma next_import_drop: "next_import s = Some (k, kw) \<Longrightarrow> next_import (drop k s) = Some (0, kw)"
proof -
  assume a: "next_import s = Some (k, kw)"
  have "next_import (drop k s) = (case (map_option (\<lambda>i. i - k) (py_find ''import '' s), map_option (\<lambda>i. i - k) (py_find ''from '' s)) of
     (None, None) \<Rightarrow> None
   | (Some i, None) \<Rightarrow> Some (i, ''import '')
   | (None, Some f) \<Rightarrow> Some (f, ''from '')
   | (Some i, Some f) \<Rightarrow> if f < i then Some (f, ''from '') else Some (i, ''import ''))"
    using a unfolding next_import_def
    by (cases "py_find ''import '' s"; cases "py_find ''from '' s")
       (auto simp: py_find_drop split: if_splits)
  with a show ?thesis
    by (auto simp: next_import_def split: option.splits if_splits)
qed

text \<open>
  A Python step's function written on one line: what stands between the colon and the first
  import of the body never reaches the interpreter.
\<close>

theorem code_before_import_is_lost:
  assumes "next_import body = Some (k, kw)"
  shows "hoist_imports body = hoist_imports (drop k body)"
  using next_import_drop[OF assms] assms by (subst (1 2) hoist_imports.simps) (simp add: Let_def add.commute)

theorem code_before_import_is_lost_witness:
  "hoist_imports ''x = 1; import random; return x'' = hoist_imports ''import random; return x''"
proof -
  have "next_import ''x = 1; import random; return x'' = Some (7, ''import '')" by code_simp
  from code_before_import_is_lost[OF this] show ?thesis by (simp add: numeral_eq_Suc)
qed

text \<open>And the two halves of a \<^verbatim>\<open>from ... import\<close> are torn apart.\<close>

lemma from_import_is_split:
  "hoist_imports ''from math import e return e'' = ([''from math'', ''import e''], ''return e'')"
  by code_simp

section \<open>What the passes do\<close>

text \<open>
  When no variable's text contains a dollar sign, the repeated passes over the placeholders within
  quoted texts come to an end, at a code on which another pass changes nothing, whatever the code is.
\<close>

theorem quoted_resolution_ends:
  assumes "\<forall>name v. lookup_source src name = Some v \<longrightarrow> CHR ''$'' \<notin> set (py_str v)"
  shows "\<exists>r. concat_loop src code = Some r \<and> sub_concat src r = r"
  using concat_loop_ends assms by (simp add: quiet_def)

theorem quoted_resolution_ends_witness:
  "\<exists>r. concat_loop (VariableList [mk_var ''x'' (PInt 1)]) (apostrophe # ''p_${x}'' @ [apostrophe]) = Some r \<and>
     sub_concat (VariableList [mk_var ''x'' (PInt 1)]) r = r"
proof (rule quoted_resolution_ends)
  have "CHR ''$'' \<notin> set (py_str (PInt 1))" by code_simp
  then show "\<forall>name v. lookup_source (VariableList [mk_var ''x'' (PInt 1)]) name = Some v \<longrightarrow> CHR ''$'' \<notin> set (py_str v)"
    by (auto simp: lookup_source_def get_item_from_list_def mk_var_def split: if_splits)
qed

text \<open>
  C39. Call a text plain when it has no quote, no line break, no dollar sign and no closing brace. Let the value
  of a variable with a plain name be a plain text that is not empty, followed by the placeholder of the variable
  itself. Then the resolution of a code that consists of one quoted text, a plain text that is not empty followed
  by the placeholder of this variable, never returns.
\<close>

theorem self_reference_never_ends:
  assumes "lookup_source src name = Some (PStr (a @ hole_text name))" "a \<noteq> []" "plain a"
    and "quote_mark q" "plain name" "name \<noteq> []" "plain p" "p \<noteq> []"
  shows "resolve_code_placeholders env src n (q # p @ hole_text name @ [q]) = (None, n)"
proof -
  have "concat_loop src (q # p @ hole_text name @ [q]) = None"
    using own_name_grows[OF _ _ assms(1-6)] assms(7) by fastforce
  with sub_quoted_part[of p "[]" name env src n q] assms show ?thesis
    by (simp add: resolve_code_placeholders_def)
qed

theorem self_reference_never_ends_witness:
  "resolve_code_placeholders \<lparr>ph_func = (\<lambda>n s. None), ph_loads = (\<lambda>s. None), ph_dumps = (\<lambda>v. None)\<rparr>
     (VariableList [mk_var ''x'' (PStr ''a${x}'')]) 0 (apostrophe # ''p_'' @ hole_text ''x'' @ [apostrophe]) = (None, 0)"
proof (rule self_reference_never_ends)
  show "lookup_source (VariableList [mk_var ''x'' (PStr ''a${x}'')]) ''x'' = Some (PStr (''a'' @ hole_text ''x''))" by code_simp
  show "plain ''a''" "quote_mark apostrophe" "plain ''x''" "plain ''p_''" by code_simp+
qed simp_all

text \<open>
  A placeholder that is a part of a quoted text is replaced by the text of its value as it is, quotes
  of the value included: nothing escapes them, so a value can end the quoted text and go on as code.
\<close>

theorem value_inserted_as_is:
  assumes "plain p" "plain t" "p \<noteq> [] \<or> t \<noteq> []" "quote_mark q" "plain name" "name \<noteq> []"
    and "lookup_source src name = Some v" "CHR ''$'' \<notin> set (py_str v)"
  shows "resolve_code_placeholders env src n (q # p @ hole_text name @ t @ [q]) = (Some (q # p @ py_str v @ t @ [q]), n)"
  using assms by (rule part_is_inserted)

theorem value_inserted_as_is_witness:
  "resolve_code_placeholders \<lparr>ph_func = (\<lambda>n s. None), ph_loads = (\<lambda>s. None), ph_dumps = (\<lambda>v. None)\<rparr>
     (VariableList [mk_var ''x'' (PStr [apostrophe, CHR ''+'', CHR ''y'', CHR ''+'', apostrophe])]) 0
     (apostrophe # ''a'' @ hole_text ''x'' @ [] @ [apostrophe]) =
   (Some (apostrophe # ''a'' @ py_str (PStr [apostrophe, CHR ''+'', CHR ''y'', CHR ''+'', apostrophe]) @ [] @ [apostrophe]), 0)"
proof (rule value_inserted_as_is)
  show "lookup_source (VariableList [mk_var ''x'' (PStr [apostrophe, CHR ''+'', CHR ''y'', CHR ''+'', apostrophe])]) ''x'' =
    Some (PStr [apostrophe, CHR ''+'', CHR ''y'', CHR ''+'', apostrophe])" by code_simp
  show "CHR ''$'' \<notin> set (py_str (PStr [apostrophe, CHR ''+'', CHR ''y'', CHR ''+'', apostrophe]))" by code_simp
  show "plain ''a''" "plain []" "quote_mark apostrophe" "plain ''x''" by code_simp+
qed simp_all

section \<open>The check and the import hook\<close>

lemma first_violation_none: "first_violation nodes = None \<longleftrightarrow> (\<forall>x \<in> set nodes. node_violation x = None)"
  by (induction nodes) (auto split: option.splits)



end
