(* ===== verification/Datagram.thy ===== *)
theory Datagram
  imports Exchange
begin

text \<open>
  Replacement of the fields of a message by those of a dataset:
  \<^verbatim>\<open>datagram/json_replace.py\<close>, with the path updates of \<^verbatim>\<open>common/jsonpath_utils.py\<close>.

  A match of a JSONPath is where it is found, a path of keys and indices from the top of the value. Both
  JSONPath libraries are parameters that return such paths: \<^verbatim>\<open>jsonpath_ng\<close>, which updates
  (\<^verbatim>\<open>dg_find\<close>), and \<^verbatim>\<open>jsonpath\<close>, which queries (\<^verbatim>\<open>dg_query\<close>).
\<close>

section \<open>Paths within a value\<close>

datatype jstep = AtKey string | AtIndex nat

type_synonym jpath = "jstep list"

fun get_at :: "jpath \<Rightarrow> pyval \<Rightarrow> pyval option" where
  "get_at [] v = Some v"
| "get_at (AtKey k # p) v = (case v of
     PDict d \<Rightarrow> (case map_of d k of None \<Rightarrow> None | Some w \<Rightarrow> get_at p w)
   | _ \<Rightarrow> None)"
| "get_at (AtIndex i # p) v = (case v of
     PList xs \<Rightarrow> if i < length xs then get_at p (xs ! i) else None
   | _ \<Rightarrow> None)"

fun set_at :: "jpath \<Rightarrow> pyval \<Rightarrow> pyval \<Rightarrow> pyval" where
  "set_at [] w v = w"
| "set_at (AtKey k # p) w v = (case v of
     PDict d \<Rightarrow> (case map_of d k of None \<Rightarrow> v | Some u \<Rightarrow> PDict (AList.update k (set_at p w u) d))
   | _ \<Rightarrow> v)"
| "set_at (AtIndex i # p) w v = (case v of
     PList xs \<Rightarrow> if i < length xs then PList (xs[i := set_at p w (xs ! i)]) else v
   | _ \<Rightarrow> v)"

definition below :: "jpath \<Rightarrow> jpath \<Rightarrow> bool" where
  "below p q = (length p < length q \<and> take (length p) q = p)"

text \<open>
  The matches in order. The top of the value is never assigned, and a match inside a value that an earlier
  match has replaced is written to an object that is no longer part of the message.
\<close>

fun write_matches :: "jpath list \<Rightarrow> jpath list \<Rightarrow> pyval \<Rightarrow> pyval \<Rightarrow> pyval" where
  "write_matches written [] w v = v"
| "write_matches written (p # ps) w v =
     (if p = [] \<or> list_ex (\<lambda>q. below q p) written then write_matches written ps w v
      else write_matches (p # written) ps w (set_at p w v))"

section \<open>jsonpath\_utils.py\<close>

text \<open>\<^verbatim>\<open>CodecError\<close> is a \<^verbatim>\<open>TypeError\<close> or a \<^verbatim>\<open>JSONDecodeError\<close>, which
  \<^verbatim>\<open>orjson\<close> raises; \<^verbatim>\<open>PathError\<close> is any other exception.\<close>

datatype replace_exn = CodecError | PathError

datatype find_answer = Rejected | SearchRaises replace_exn | Found "jpath list"

record dgm_env =
  dg_xch :: xch_env
  dg_find :: "string \<Rightarrow> pyval \<Rightarrow> find_answer"
  dg_query :: "string \<Rightarrow> pyval \<Rightarrow> replace_exn + jpath list"

abbreviation dg_loads :: "dgm_env \<Rightarrow> string \<Rightarrow> pyval option" where
  "dg_loads env \<equiv> ph_loads (xe_ph (dg_xch env))"

abbreviation dg_dumps :: "dgm_env \<Rightarrow> pyval \<Rightarrow> string option" where
  "dg_dumps env \<equiv> ph_dumps (xe_ph (dg_xch env))"

text \<open>A text is parsed first; the changes are then not made in place.\<close>

definition json_input :: "dgm_env \<Rightarrow> pyval \<Rightarrow> replace_exn + pyval" where
  "json_input env data = (case data of
     PStr s \<Rightarrow> (case dg_loads env s of None \<Rightarrow> Inl CodecError | Some v \<Rightarrow> Inr v)
   | _ \<Rightarrow> Inr data)"

text \<open>\<^verbatim>\<open>update\<close>: the data as it is left, and the answer: the data when nothing matches,
  otherwise its text.\<close>

definition jsonpath_update :: "dgm_env \<Rightarrow> string \<Rightarrow> pyval \<Rightarrow> pyval \<Rightarrow> replace_exn + pyval \<times> pyval" where
  "jsonpath_update env path value data = (case json_input env data of
     Inl e \<Rightarrow> Inl e
   | Inr v \<Rightarrow> (case dg_find env path v of
       Rejected \<Rightarrow> Inl PathError
     | SearchRaises e \<Rightarrow> Inl e
     | Found ps \<Rightarrow>
         if ps = [] then Inr (data, v)
         else (let w = write_matches [] ps value v in
           case dg_dumps env w of
             None \<Rightarrow> Inl CodecError
           | Some t \<Rightarrow> Inr (case data of PStr _ \<Rightarrow> data | _ \<Rightarrow> w, PStr t))))"

text \<open>\<^verbatim>\<open>query\<close>: the value of a single match, the list of the values otherwise.\<close>

definition query_value :: "pyval \<Rightarrow> jpath list \<Rightarrow> pyval" where
  "query_value v ps = (let found = List.map_filter (\<lambda>p. get_at p v) ps in
     case found of [x] \<Rightarrow> x | xs \<Rightarrow> PList xs)"

definition jsonpath_query :: "dgm_env \<Rightarrow> string \<Rightarrow> pyval \<Rightarrow> replace_exn + pyval \<times> jpath list" where
  "jsonpath_query env path data = (case json_input env data of
     Inl e \<Rightarrow> Inl e
   | Inr v \<Rightarrow> (case dg_query env path v of Inl e \<Rightarrow> Inl e | Inr ps \<Rightarrow> Inr (query_value v ps, ps)))"

section \<open>json\_replace.py\<close>

text \<open>The text before and after the first occurrence of a separator.\<close>

fun cut_at :: "string \<Rightarrow> string \<Rightarrow> (string \<times> string) option" where
  "cut_at sep [] = None"
| "cut_at sep (c # s) =
     (if py_startswith (c # s) sep then Some ([], drop (length sep) (c # s))
      else map_option (apfst (Cons c)) (cut_at sep s))"

definition inner_mark :: string where
  "inner_mark = ''@JSON@''"

text \<open>An unreadable reference counts like \<^verbatim>\<open>None\<close>: the value is taken as it is.\<close>

definition query_target_value :: "dgm_env \<Rightarrow> pyval \<Rightarrow> string \<Rightarrow> pyval" where
  "query_target_value env data path = (case jsonpath_query env path data of Inl e \<Rightarrow> PNone | Inr (v, ps) \<Rightarrow> v)"

definition adapt_json_value :: "dgm_env \<Rightarrow> bool \<Rightarrow> string \<Rightarrow> pyval \<Rightarrow> pyval \<Rightarrow> pyval" where
  "adapt_json_value env type_adapted path data value =
     (if \<not> type_adapted then value else adapt_value (dg_xch env) value (query_target_value env data path))"

definition update_data :: "dgm_env \<Rightarrow> string \<Rightarrow> pyval \<Rightarrow> pyval \<Rightarrow> replace_exn + pyval" where
  "update_data env path value data = map_sum id fst (jsonpath_update env path value data)"

text \<open>
  The second part of a two-part path works on the value the first part finds, an object or a text that
  holds JSON; what comes out is written back by the first part. A list with one element, whether it is
  a list of matches or a single match that is such a list, stands for the element.
\<close>

definition outer_target :: "pyval \<Rightarrow> jpath list \<Rightarrow> (jpath \<times> pyval) option" where
  "outer_target v ps =
     (let place = (case ps of [p] \<Rightarrow> p | _ \<Rightarrow> []) in
      case v of
        PNone \<Rightarrow> None
      | PList xs \<Rightarrow> (case xs of [x] \<Rightarrow> Some (place @ [AtIndex 0], x) | _ \<Rightarrow> None)
      | _ \<Rightarrow> Some (place, v))"

definition modify_text :: "dgm_env \<Rightarrow> bool \<Rightarrow> string \<Rightarrow> string \<Rightarrow> pyval \<Rightarrow> string \<Rightarrow> pyval \<Rightarrow> replace_exn + pyval" where
  "modify_text env type_adapted outer inner value s data =
     (case (if py_strip s = [] then Some (PDict []) else dg_loads env s) of
        None \<Rightarrow> Inr data
      | Some obj \<Rightarrow> (case jsonpath_update env inner (adapt_json_value env type_adapted inner obj value) obj of
          Inl e \<Rightarrow> Inl e
        | Inr (_, PStr t) \<Rightarrow> update_data env outer (PStr t) data
        | Inr _ \<Rightarrow> Inr data))"

definition modify_object :: "dgm_env \<Rightarrow> bool \<Rightarrow> string \<Rightarrow> string \<Rightarrow> pyval \<Rightarrow> jpath \<Rightarrow> pyval \<Rightarrow> pyval \<Rightarrow> replace_exn + pyval" where
  "modify_object env type_adapted outer inner value place obj data =
     (case jsonpath_update env inner (adapt_json_value env type_adapted inner obj value) obj of
        Inl e \<Rightarrow> Inl e
      | Inr (obj1, PStr t) \<Rightarrow>
          update_data env outer (case dg_loads env t of None \<Rightarrow> obj1 | Some v \<Rightarrow> v) (set_at place obj1 data)
      | Inr _ \<Rightarrow> Inr data)"

definition modify_inner_content :: "dgm_env \<Rightarrow> bool \<Rightarrow> string \<Rightarrow> pyval \<Rightarrow> pyval \<Rightarrow> replace_exn + pyval" where
  "modify_inner_content env type_adapted path value data =
     (case cut_at inner_mark path of
        None \<Rightarrow>
          if path = [] then Inr data
          else update_data env path (adapt_json_value env type_adapted path data value) data
      | Some (a, b) \<Rightarrow>
          if cut_at inner_mark b \<noteq> None then update_data env path value data
          else (let outer = py_strip a; inner = py_strip b in
            if outer = [] \<or> inner = [] then Inr data
            else (let inner = (if py_startswith inner ''$.'' then inner else ''$.'' @ inner) in
              case jsonpath_query env outer data of
                Inl e \<Rightarrow> Inl e
              | Inr (v, ps) \<Rightarrow> (case outer_target v ps of
                  None \<Rightarrow> Inr data
                | Some (place, PStr s) \<Rightarrow> modify_text env type_adapted outer inner value s data
                | Some (place, PDict d) \<Rightarrow> modify_object env type_adapted outer inner value place (PDict d) data
                | Some _ \<Rightarrow> Inr data))))"

definition wire_text :: "dgm_env \<Rightarrow> pyval \<Rightarrow> string" where
  "wire_text env value = expand_dataset_general_value (expand_dataset_special_value (dg_xch env) value)"

fun apply_path_map :: "dgm_env \<Rightarrow> bool \<Rightarrow> pyval dict \<Rightarrow> pyval \<Rightarrow> replace_exn + pyval" where
  "apply_path_map env type_adapted [] data = Inr data"
| "apply_path_map env type_adapted ((path, value) # m) data =
     (if path = [] then apply_path_map env type_adapted m data
      else (case modify_inner_content env type_adapted path
                 (if type_adapted then value else PStr (wire_text env value)) data of
          Inl e \<Rightarrow> Inl e
        | Inr data1 \<Rightarrow> apply_path_map env type_adapted m data1))"

text \<open>The parts of a request the paths of a body are written to.\<close>

record channels =
  ch_headers :: "pyval dict option"
  ch_body :: pyval
  ch_form :: pyval
  ch_urlencoded :: pyval
  ch_params :: pyval

definition modify_mapping :: "dgm_env \<Rightarrow> pyval dict \<Rightarrow> pyval \<Rightarrow> replace_exn + pyval" where
  "modify_mapping env m v = (case v of PDict d \<Rightarrow> apply_path_map env False m v | _ \<Rightarrow> Inr v)"

definition modify_body :: "dgm_env \<Rightarrow> pyval dict \<Rightarrow> pyval \<Rightarrow> replace_exn + pyval" where
  "modify_body env m v = (case v of
     PDict d \<Rightarrow> apply_path_map env True m v
   | PStr s \<Rightarrow>
       (case (if py_strip s = [] then Some (PDict []) else dg_loads env s) of
          Some (PDict d) \<Rightarrow> (case apply_path_map env True m (PDict d) of
              Inl CodecError \<Rightarrow> Inr v | Inl PathError \<Rightarrow> Inl PathError | Inr w \<Rightarrow> Inr w)
        | _ \<Rightarrow> Inr v)
   | _ \<Rightarrow> Inr v)"

definition modify_request_params :: "dgm_env \<Rightarrow> pyval dict \<Rightarrow> channels \<Rightarrow> replace_exn + channels" where
  "modify_request_params env m ch =
     (if m = [] then Inr ch
      else (case modify_body env m (ch_body ch) of Inl e \<Rightarrow> Inl e | Inr body \<Rightarrow>
       (case modify_mapping env m (ch_form ch) of Inl e \<Rightarrow> Inl e | Inr form \<Rightarrow>
        (case modify_mapping env m (ch_urlencoded ch) of Inl e \<Rightarrow> Inl e | Inr urlencoded \<Rightarrow>
         (case modify_mapping env m (ch_params ch) of Inl e \<Rightarrow> Inl e | Inr params \<Rightarrow>
           Inr (ch\<lparr>ch_body := body, ch_form := form, ch_urlencoded := urlencoded, ch_params := params\<rparr>))))))"

text \<open>Headers are found by name, by any case of it when the name itself is missing.\<close>

definition header_name :: "string \<Rightarrow> string" where
  "header_name path = py_strip (case cut_at ''$.'' (py_strip path) of None \<Rightarrow> py_strip path | Some (a, b) \<Rightarrow> b)"

definition resolve_header_key :: "pyval dict option \<Rightarrow> string \<Rightarrow> string option" where
  "resolve_header_key headers key = (case headers of None \<Rightarrow> None
     | Some hs \<Rightarrow>
         if key = [] then None
         else if key \<in> set (keys hs) then Some key
         else List.find (\<lambda>k. py_lower k = py_lower key) (keys hs))"

definition put_header :: "dgm_env \<Rightarrow> string \<Rightarrow> pyval \<Rightarrow> pyval dict \<Rightarrow> pyval dict" where
  "put_header env path value hs =
     (if path = [] then hs
      else (case resolve_header_key (Some hs) (header_name path) of
          None \<Rightarrow> hs | Some k \<Rightarrow> AList.update k (PStr (wire_text env value)) hs))"

definition put_headers :: "dgm_env \<Rightarrow> pyval dict \<Rightarrow> pyval dict option \<Rightarrow> pyval dict option" where
  "put_headers env m headers = map_option (fold (\<lambda>(path, value). put_header env path value) m) headers"

text \<open>A part of the request as the search for paths sees it.\<close>

definition candidate :: "dgm_env \<Rightarrow> pyval \<Rightarrow> pyval option" where
  "candidate env v = (case v of
     PDict d \<Rightarrow> Some v
   | PList xs \<Rightarrow> Some v
   | PStr s \<Rightarrow> if py_strip s = [] then None
       else (case dg_loads env s of
           Some (PDict d) \<Rightarrow> Some (PDict d) | Some (PList xs) \<Rightarrow> Some (PList xs) | _ \<Rightarrow> None)
   | _ \<Rightarrow> None)"

fun jsonpath_hits :: "dgm_env \<Rightarrow> string \<Rightarrow> pyval list \<Rightarrow> replace_exn + bool" where
  "jsonpath_hits env outer [] = Inr False"
| "jsonpath_hits env outer (v # vs) = (case candidate env v of
     None \<Rightarrow> jsonpath_hits env outer vs
   | Some d \<Rightarrow> (case dg_find env outer d of
       Rejected \<Rightarrow> Inr False
     | SearchRaises e \<Rightarrow> Inl e
     | Found ps \<Rightarrow> if ps = [] then jsonpath_hits env outer vs else Inr True))"

definition outer_part :: "string \<Rightarrow> string" where
  "outer_part path = py_strip (case cut_at inner_mark path of None \<Rightarrow> path | Some (a, b) \<Rightarrow> a)"

fun missed_body_paths :: "dgm_env \<Rightarrow> pyval list \<Rightarrow> string list \<Rightarrow> replace_exn + string list" where
  "missed_body_paths env vs [] = Inr []"
| "missed_body_paths env vs (path # ps) =
     (case (if path = [] then Inr True
            else if outer_part path = [] then Inr False else jsonpath_hits env (outer_part path) vs) of
        Inl e \<Rightarrow> Inl e
      | Inr hit \<Rightarrow> (case missed_body_paths env vs ps of
          Inl e \<Rightarrow> Inl e
        | Inr missed \<Rightarrow> Inr (if hit then missed else path # missed)))"

definition missed_header_paths :: "pyval dict option \<Rightarrow> string list \<Rightarrow> string list" where
  "missed_header_paths headers paths =
     filter (\<lambda>p. p \<noteq> [] \<and> resolve_header_key headers (header_name p) = None) paths"

text \<open>\<^verbatim>\<open>replace_json_datagram\<close>: the request and the paths that were not found, in the order
  they are reported.\<close>

definition replace_json_datagram ::
    "dgm_env \<Rightarrow> pyval dict \<Rightarrow> pyval dict \<Rightarrow> channels \<Rightarrow> replace_exn + channels \<times> string list" where
  "replace_json_datagram env head_map body_map ch =
     (case missed_body_paths env [ch_body ch, ch_form ch, ch_urlencoded ch, ch_params ch] (keys body_map) of
        Inl e \<Rightarrow> Inl e
      | Inr missed \<Rightarrow>
          (case modify_request_params env body_map (ch\<lparr>ch_headers := put_headers env head_map (ch_headers ch)\<rparr>) of
             Inl e \<Rightarrow> Inl e
           | Inr ch1 \<Rightarrow> Inr (ch1, missed_header_paths (ch_headers ch) (keys head_map) @ missed)))"

section \<open>What a replacement changes\<close>

definition related :: "jpath \<Rightarrow> jpath \<Rightarrow> bool" where
  "related p q = (p = q \<or> below p q \<or> below q p)"

lemma below_Cons [simp]:
  "\<not> below p []" "below [] (b # q)" "below (a # p) (b # q) \<longleftrightarrow> a = b \<and> below p q"
  by (auto simp: below_def)

lemma related_Cons [simp]:
  "related [] q" "related p []" "related (a # p) (b # q) \<longleftrightarrow> a = b \<and> related p q"
  by (cases q; cases p; auto simp: related_def)+

lemma get_set_apart: "\<not> related p q \<Longrightarrow> get_at q (set_at p w v) = get_at q v"
proof (induction p w v arbitrary: q rule: set_at.induct)
  case (2 k p w v)
  then show ?case
    by (cases "(q, v)" rule: get_at.cases) (auto simp: map_of_update split: pyval.splits option.splits)
next
  case (3 i p w v)
  then show ?case
    by (cases "(q, v)" rule: get_at.cases) (auto simp: nth_list_update split: pyval.splits option.splits)
qed simp

lemma get_set_same: "get_at p v \<noteq> None \<Longrightarrow> get_at p (set_at p w v) = Some w"
  by (induction p w v rule: set_at.induct) (auto simp: map_of_update split: pyval.splits option.splits if_splits)

lemma get_set_below: "get_at p v \<noteq> None \<Longrightarrow> below p q \<Longrightarrow> get_at p (set_at q w v) \<noteq> None"
proof (induction q w v arbitrary: p rule: set_at.induct)
  case (2 k q w v)
  then show ?case by (cases p) (auto simp: map_of_update split: pyval.splits option.splits)
next
  case (3 i q w v)
  then show ?case by (cases p) (auto simp: nth_list_update split: pyval.splits option.splits if_splits)
qed simp

lemma write_matches_apart:
  "(\<And>p. p \<in> set ps \<Longrightarrow> \<not> related p q) \<Longrightarrow> get_at q (write_matches written ps w v) = get_at q v"
  by (induction ps arbitrary: written v) (auto simp: get_set_apart)

text \<open>Once a path is written nothing at it or inside it is written differently.\<close>

lemma write_matches_written:
  "p \<in> set written \<Longrightarrow> get_at p v = Some w \<Longrightarrow> (\<And>q. q \<in> set ps \<Longrightarrow> \<not> below q p) \<Longrightarrow>
   get_at p (write_matches written ps w v) = Some w"
proof (induction ps arbitrary: written v)
  case (Cons q ps)
  have "get_at p (set_at q w v) = Some w" if "\<not> below p q"
    using Cons.prems that get_set_apart[of q p w v] get_set_same[of p v w]
    by (cases "q = p") (auto simp: related_def)
  with Cons show ?case by (auto simp: list_ex_iff)
qed simp

lemma write_matches_value:
  "p \<in> set ps \<Longrightarrow> p \<noteq> [] \<Longrightarrow> get_at p v \<noteq> None \<Longrightarrow> (\<And>q. q \<in> set ps \<union> set written \<Longrightarrow> \<not> below q p) \<Longrightarrow>
   get_at p (write_matches written ps w v) = Some w"
proof (induction ps arbitrary: written v)
  case (Cons q ps)
  show ?case
  proof (cases "q = p")
    case True
    with Cons.prems have "\<not> list_ex (\<lambda>q. below q p) written" by (auto simp: list_ex_iff)
    with Cons.prems True get_set_same[of p v w] show ?thesis
      by (auto intro!: write_matches_written)
  next
    case False
    with Cons.prems(1) have p: "p \<in> set ps" by simp
    have "get_at p (set_at q w v) \<noteq> None"
      using Cons.prems(3,4) False get_set_apart[of q p w v] get_set_below[of p v q w]
      by (cases "below p q") (auto simp: related_def)
    with Cons.prems(4) Cons.IH[OF p Cons.prems(2), of "set_at q w v" "q # written"] Cons.IH[OF p Cons.prems(2,3), of written]
    show ?thesis by auto
  qed
qed simp


text \<open>
  Injecting a value into a field that already holds the result of the injection changes nothing: a
  message that is replaced again, by another round of a loop, stays the same.
\<close>

theorem injection_is_idempotent:
  "adapt_value env value (adapt_value env value target) = adapt_value env value target"
  by (auto simp: adapt_value_def Let_def route_bool_def route_int_def convert_float_def split: pyval.splits option.splits sum.splits if_splits)

text \<open>
  When the first part of a two-part path finds one list with one object in it, the object replaces the
  list: the message comes out with another shape than it had.
\<close>

theorem one_element_list_is_unwrapped:
  assumes "cut_at inner_mark path = Some (a, b)" "cut_at inner_mark b = None" "py_strip a \<noteq> []" "py_strip b = ''$.'' @ c"
    and "\<And>s. data \<noteq> PStr s" "p \<noteq> []" "get_at p data = Some (PList [PDict d])"
    and "dg_query env (py_strip a) data = Inr [p]" "\<And>v. dg_find env (py_strip a) v = Found [p]"
    and "jsonpath_update env (py_strip b) (adapt_json_value env type_adapted (py_strip b) (PDict d) w) (PDict d) = Inr (obj, PStr t)"
    and "dg_loads env t = Some obj" "modify_inner_content env type_adapted path w data = Inr data'"
  shows "get_at p data' = Some obj"
proof -
  have j: "json_input env data = Inr data" using assms(5) by (simp add: json_input_def split: pyval.splits)
  have q: "jsonpath_query env (py_strip a) data = Inr (PList [PDict d], [p])"
    using assms(7,8) by (simp add: jsonpath_query_def j query_value_def map_filter_simps)
  have st: "py_startswith (py_strip b) ''$.''" "py_strip b \<noteq> []" by (simp_all add: assms(4) py_startswith_def)
  let ?e = "set_at (p @ [AtIndex 0]) obj data"
  have "below p (p @ [AtIndex 0])" by (simp add: below_def)
  with assms(7) have there: "get_at p ?e \<noteq> None" by (intro get_set_below) auto
  then have "?e \<noteq> PStr s" for s
    using assms(6) by (cases "(p, ?e)" rule: get_at.cases) auto
  then have "json_input env ?e = Inr ?e" by (simp add: json_input_def split: pyval.splits)
  with assms(9) \<open>\<And>s. ?e \<noteq> PStr s\<close> have "update_data env (py_strip a) obj ?e = Inr data' \<Longrightarrow> data' = set_at p obj ?e"
    by (auto simp: update_data_def jsonpath_update_def assms(6) Let_def split: option.splits pyval.splits)
  moreover have "update_data env (py_strip a) obj ?e = Inr data'"
    using assms(1-3,10-12) st by (auto simp: modify_inner_content_def q outer_target_def modify_object_def Let_def)
  ultimately show ?thesis using get_set_same[OF there] by simp
qed

lemma resolve_header_key_sound:
  "resolve_header_key (Some hs) key = Some k \<Longrightarrow> k \<in> set (keys hs) \<and> py_lower key = py_lower k"
  by (auto simp: resolve_header_key_def find_Some_iff split: if_splits)

lemma put_header_effect:
  "keys (put_header env path value hs) = keys hs"
  "map_of (put_header env path value hs) k = map_of hs k \<or>
   (map_of (put_header env path value hs) k = Some (PStr (wire_text env value)) \<and> py_lower (header_name path) = py_lower k)"
  by (auto simp: put_header_def keys_update map_of_update dest: resolve_header_key_sound split: option.splits)

lemma put_headers_effect:
  "keys (fold (\<lambda>(path, value). put_header env path value) m hs) = keys hs \<and>
   (map_of (fold (\<lambda>(path, value). put_header env path value) m hs) k = map_of hs k \<or>
    (\<exists>(path, value) \<in> set m. map_of (fold (\<lambda>(path, value). put_header env path value) m hs) k = Some (PStr (wire_text env value))
       \<and> py_lower (header_name path) = py_lower k))"
proof (induction m arbitrary: hs)
  case (Cons x m)
  obtain path val where x: "x = (path, val)" by fastforce
  from Cons.IH[of "put_header env path val hs"] put_header_effect(2)[of env path val hs k] show ?case
    by (auto simp: x put_header_effect(1))
qed simp

lemma modify_request_params_headers:
  "modify_request_params env m (ch\<lparr>ch_headers := h\<rparr>) = map_sum id (\<lambda>c. c\<lparr>ch_headers := h\<rparr>) (modify_request_params env m ch)"
  "modify_request_params env m ch = Inr c \<Longrightarrow> ch_headers c = ch_headers ch"
  by (auto simp: modify_request_params_def split: sum.splits if_splits)

text \<open>
  The paths for the head of a request change its headers only and never add one: every header keeps its
  name, and its value or the text of a path that names it in some case of letters. The rest of the request
  is what the paths for the body make of it, whatever the paths for the head are.
\<close>

theorem headers_replaced_by_name:
  assumes "replace_json_datagram env head_map body_map ch = Inr (out, missed)" "ch_headers ch = Some hs"
  shows "\<exists>hs'. ch_headers out = Some hs' \<and> keys hs' = keys hs
    \<and> (\<forall>k. map_of hs' k = map_of hs k \<or>
        (\<exists>(path, value) \<in> set head_map. map_of hs' k = Some (PStr (wire_text env value)) \<and> py_lower (header_name path) = py_lower k))
    \<and> (\<forall>other. \<exists>ms. replace_json_datagram env other body_map ch = Inr (out\<lparr>ch_headers := put_headers env other (ch_headers ch)\<rparr>, ms))"
proof -
  let ?hs = "fold (\<lambda>(path, value). put_header env path value) head_map hs"
  note split = modify_request_params_headers(1)
  obtain c ms where c: "modify_request_params env body_map ch = Inr c"
    and ms: "missed_body_paths env [ch_body ch, ch_form ch, ch_urlencoded ch, ch_params ch] (keys body_map) = Inr ms"
    and out: "out = c\<lparr>ch_headers := Some ?hs\<rparr>"
    using assms by (cases "modify_request_params env body_map ch") (auto simp: replace_json_datagram_def split put_headers_def split: sum.splits)
  have "\<exists>ms'. replace_json_datagram env other body_map ch = Inr (out\<lparr>ch_headers := put_headers env other (ch_headers ch)\<rparr>, ms')" for other
    by (simp add: replace_json_datagram_def split c ms out)
  with put_headers_effect[of env head_map hs] show ?thesis by (simp add: out)
qed

section \<open>A small library of paths\<close>

text \<open>The path of a key of an object, and the first element of a list below it.\<close>

definition key_paths :: "string \<Rightarrow> pyval \<Rightarrow> jpath list" where
  "key_paths path v = (if get_at [AtKey (drop 2 path)] v = None then [] else [[AtKey (drop 2 path)]])"

definition sample_dgm :: dgm_env where
  "sample_dgm = \<lparr>dg_xch = \<lparr>xe_ph = \<lparr>ph_func = (\<lambda>n s. None), ph_loads = (\<lambda>s. Some (PDict [(''n'', PInt 2)])), ph_dumps = (\<lambda>v. Some ''json'')\<rparr>,
     xe_json_loads = (\<lambda>s. None), xe_jsonpath = (\<lambda>e v. None), xe_quote = (\<lambda>s. s),
     xe_xml = \<lparr>xl_tree = (\<lambda>s. None), xl_spaces = (\<lambda>s. []), xl_print = (\<lambda>ns t. None), xl_findall = (\<lambda>p t. None)\<rparr>,
     xe_regex = (\<lambda>e s. None), xe_pool_alias = ''pool'', xe_empty_text = ''empty'', xe_space_text = ''space''\<rparr>,
     dg_find = (\<lambda>p v. Found (key_paths p v)), dg_query = (\<lambda>p v. Inr (key_paths p v))\<rparr>"


theorem one_element_list_is_unwrapped_witness:
  "get_at [AtKey ''items''] (PDict [(''items'', PDict [(''n'', PInt 2)])]) = Some (PDict [(''n'', PInt 2)])"
proof (rule one_element_list_is_unwrapped[where env = "sample_dgm\<lparr>dg_find := (\<lambda>p v. Found [[AtKey (drop 2 p)]])\<rparr>" and path = "''$.items@JSON@$.n''"
      and a = "''$.items''" and b = "''$.n''" and c = "''n''" and data = "PDict [(''items'', PList [PDict [(''n'', PInt 1)]])]"
      and d = "[(''n'', PInt 1)]" and type_adapted = True and w = "PStr ''2''" and t = "''json''"])
qed (simp | code_simp)+

theorem headers_replaced_by_name_witness:
  "\<exists>hs'. Some [(''Token'', PStr ''t'')] = Some hs' \<and> keys hs' = keys [(''Token'', PStr ''old'')]"
  using headers_replaced_by_name[of sample_dgm "[(''$.token'', PStr ''t'')]" "[]"
      "\<lparr>ch_headers = Some [(''Token'', PStr ''old'')], ch_body = PNone, ch_form = PNone, ch_urlencoded = PNone, ch_params = PNone\<rparr>"
      "\<lparr>ch_headers = Some [(''Token'', PStr ''t'')], ch_body = PNone, ch_form = PNone, ch_urlencoded = PNone, ch_params = PNone\<rparr>" "[]"
      "[(''Token'', PStr ''old'')]"]
  by (auto simp: replace_json_datagram_def modify_request_params_def put_headers_def put_header_def resolve_header_key_def)

end
