(* ===== verification/XmlMessage.thy ===== *)
theory XmlMessage
  imports Exchange
begin

text \<open>
  XML messages: replacement of fields by XPath (\<^verbatim>\<open>datagram/xml_replace.py\<close>) and the placeholders of an XML
  message (the XML functions of \<^verbatim>\<open>placeholders/resolver.py\<close>).
\<close>

section \<open>xml\_replace.py\<close>

datatype xml_failure = NotXml | CannotPrint

text \<open>The tree, whether a path was found, and the paths that were not.\<close>

fun put_xml_paths :: "xch_env \<Rightarrow> pyval dict \<Rightarrow> xml \<Rightarrow> xml \<times> bool \<times> string list" where
  "put_xml_paths env [] t = (t, False, [])"
| "put_xml_paths env ((path, value) # m) t =
     (if path = [] then put_xml_paths env m t
      else (case update_in_place (xe_xml env) path
                (expand_dataset_general_value (expand_dataset_special_value env value)) t of
          None \<Rightarrow> (case put_xml_paths env m t of (u, changed, missed) \<Rightarrow> (u, changed, path # missed))
        | Some t1 \<Rightarrow> (case put_xml_paths env m t1 of (u, changed, missed) \<Rightarrow> (u, True, missed))))"

definition replace_xml_datagram :: "xch_env \<Rightarrow> pyval dict \<Rightarrow> string option \<Rightarrow> (xml_failure + string option) \<times> string list" where
  "replace_xml_datagram env body_map txt =
     (if \<not> truthy_text txt \<or> body_map = [] then (Inr txt, [])
      else (case parse_document (xe_xml env) (the txt) of
          None \<Rightarrow> (Inl NotXml, [])
        | Some doc \<Rightarrow> (case put_xml_paths env body_map (doc_root doc) of (t, changed, missed) \<Rightarrow>
            (if \<not> changed then (Inr txt, missed)
             else (case serialize (xe_xml env) (doc\<lparr>doc_root := t\<rparr>) of
                 None \<Rightarrow> (Inl CannotPrint, missed) | Some s \<Rightarrow> (Inr (Some s), missed))))))"

section \<open>resolver.py\<close>

text \<open>\<^verbatim>\<open>None\<close> where the resolution of a text raises.\<close>

definition resolve_segment :: "ph_env \<Rightarrow> var_source \<Rightarrow> nat \<Rightarrow> string option \<Rightarrow> string option option \<times> nat" where
  "resolve_segment env src n s = (case s of
     None \<Rightarrow> (Some None, n)
   | Some txt \<Rightarrow>
       if \<not> py_contains txt ''${'' then (Some (Some txt), n)
       else (case resolve_string_placeholders env src n txt of (r, n1) \<Rightarrow> (map_option Some r, n1)))"

fun resolve_attribs :: "ph_env \<Rightarrow> var_source \<Rightarrow> nat \<Rightarrow> string dict \<Rightarrow> string dict option \<times> nat" where
  "resolve_attribs env src n [] = (Some [], n)"
| "resolve_attribs env src n ((k, v) # a) =
     (case (if \<not> py_contains v ''${'' then (Some v, n) else resolve_string_placeholders env src n v) of
        (None, n1) \<Rightarrow> (None, n1)
      | (Some w, n1) \<Rightarrow> (case resolve_attribs env src n1 a of
          (None, n2) \<Rightarrow> (None, n2) | (Some b, n2) \<Rightarrow> (Some ((k, w) # b), n2)))"

definition set_tail :: "string option \<Rightarrow> xml \<Rightarrow> xml" where
  "set_tail z t = (case t of Elem m x a ks z' \<Rightarrow> Elem m x a ks z)"

fun resolve_element :: "ph_env \<Rightarrow> var_source \<Rightarrow> nat \<Rightarrow> xml \<Rightarrow> xml option \<times> nat"
  and resolve_kids :: "ph_env \<Rightarrow> var_source \<Rightarrow> nat \<Rightarrow> xml list \<Rightarrow> xml list option \<times> nat" where
  "resolve_element env src n (Elem m x a ks z) =
     (case resolve_segment env src n x of
        (None, n1) \<Rightarrow> (None, n1)
      | (Some y, n1) \<Rightarrow> (case resolve_attribs env src n1 a of
          (None, n2) \<Rightarrow> (None, n2)
        | (Some b, n2) \<Rightarrow> (case resolve_kids env src n2 ks of
            (None, n3) \<Rightarrow> (None, n3) | (Some ls, n3) \<Rightarrow> (Some (Elem m y b ls z), n3))))"
| "resolve_kids env src n [] = (Some [], n)"
| "resolve_kids env src n (k # ks) =
     (case resolve_element env src n k of
        (None, n1) \<Rightarrow> (None, n1)
      | (Some l, n1) \<Rightarrow> (case resolve_segment env src n1 (xml_tail k) of
          (None, n2) \<Rightarrow> (None, n2)
        | (Some z, n2) \<Rightarrow> (case resolve_kids env src n2 ks of
            (None, n3) \<Rightarrow> (None, n3) | (Some ls, n3) \<Rightarrow> (Some (set_tail z l # ls), n3))))"

text \<open>A message that is not XML, and one whose resolution raises, is resolved as a text; \<^verbatim>\<open>None\<close>
  where that raises too.\<close>

definition resolve_xml_placeholders :: "xch_env \<Rightarrow> var_source \<Rightarrow> nat \<Rightarrow> string \<Rightarrow> string option \<times> nat" where
  "resolve_xml_placeholders env src n txt =
     (if \<not> py_contains txt ''${'' then (Some txt, n)
      else (case parse_document (xe_xml env) txt of
          None \<Rightarrow> resolve_string_placeholders (xe_ph env) src n txt
        | Some doc \<Rightarrow> (case resolve_element (xe_ph env) src n (doc_root doc) of
            (None, n1) \<Rightarrow> resolve_string_placeholders (xe_ph env) src n1 txt
          | (Some t, n1) \<Rightarrow> (case serialize (xe_xml env) (doc\<lparr>doc_root := t\<rparr>) of
              None \<Rightarrow> resolve_string_placeholders (xe_ph env) src n1 txt
            | Some s \<Rightarrow> (Some s, n1)))))"

section \<open>The structure of the message is kept\<close>

text \<open>A tree without its texts, its tails and the values of its attributes.\<close>

primrec outline :: "xml \<Rightarrow> xml" where
  "outline (Elem m x a ks z) = Elem m None (map (\<lambda>(k, v). (k, [])) a) (map outline ks) None"

lemma outline_set_tail [simp]: "outline (set_tail z t) = outline t"
  by (cases t) (simp add: set_tail_def)

lemma resolve_attribs_keys: "resolve_attribs env src n a = (Some b, n') \<Longrightarrow> map (\<lambda>(k, v). (k, [])) b = map (\<lambda>(k, v). (k, [])) a"
  by (induction env src n a arbitrary: b n' rule: resolve_attribs.induct) (auto split: prod.splits option.splits if_splits)

lemma resolve_outline:
  "resolve_element env src n t = (Some t', n') \<Longrightarrow> outline t' = outline t"
  "resolve_kids env src n ks = (Some ls, n') \<Longrightarrow> map outline ls = map outline ks"
  by (induction env src n t and env src n ks arbitrary: t' n' and ls n' rule: resolve_element_resolve_kids.induct)
     (auto simp: resolve_attribs_keys split: prod.splits option.splits)

text \<open>
  The placeholders of an XML message are resolved within its texts and attributes only: the resolved
  tree has the same elements in the same places with the same attribute names, whatever the values hold.
  A value with markup in it cannot add or close an element.
\<close>

theorem xml_resolution_keeps_elements:
  "resolve_element env src n t = (Some t', n') \<Longrightarrow> outline t' = outline t"
  by (rule resolve_outline)

theorem xml_resolution_keeps_elements_witness:
  "outline (Elem (XTag ''a'') (Some ''<b/>'') [] [Elem (XTag ''c'') None [(''k'', ''<b/>'')] [] None] None)
     = outline (Elem (XTag ''a'') (Some ''${x}'') [] [Elem (XTag ''c'') None [(''k'', ''${x}'')] [] None] None)"
  by (rule xml_resolution_keeps_elements[where env = "\<lparr>ph_func = (\<lambda>n s. None), ph_loads = (\<lambda>s. None), ph_dumps = (\<lambda>v. None)\<rparr>"
      and src = "VariableList [mk_var ''x'' (PStr ''<b/>'')]" and n = 0 and n' = 0]) code_simp

end
