(* ===== verification/TcpFrame.thy ===== *)
theory TcpFrame
  imports PyValue "HOL-Library.Word"
begin

text \<open>
  \<^verbatim>\<open>common/request/tcp_async_utils.py\<close> and the framing part of
  \<^verbatim>\<open>autotest_runtime/protocol_tcp.py\<close>: how a message is put into a frame, how an answer is read from
  the stream, and how the fields of a step choose the frame.

  Bytes are 8-bit words. The text encodings are those of Python's codecs, a parameter (\<^verbatim>\<open>codec\<close>); the
  encoding of an end symbol is always UTF-8 and written out. A peer is what it sends, in the pieces the
  reader gets, and whether it closes the connection then; if not, the next read times out.
\<close>

type_synonym bytes = "8 word list"

record codec =
  cd_encode :: "string \<Rightarrow> string \<Rightarrow> bytes option"
  cd_decode :: "string \<Rightarrow> bytes \<Rightarrow> string option"
  cd_dumps :: "pyval \<Rightarrow> bytes option"

section \<open>Building a frame\<close>

datatype frame_mode = LengthPrefix | Terminator | RawFrame

datatype tcp_error =
    BadRadix nat
  | LengthOverflow nat
  | BadHex nat
  | BadEncoding
  | BadLength string
  | NegativeLength
  | TooLarge int
  | ConnectFailed
  | ReadTimeout
  | Incomplete
  | EndNotFound
  | LimitOverrun

definition to_byte :: "char \<Rightarrow> 8 word" where
  "to_byte c = word_of_nat (char_code c)"

definition hex_value :: "char \<Rightarrow> nat option" where
  "hex_value c = (let n = char_code c in
     if 48 \<le> n \<and> n \<le> 57 then Some (n - 48)
     else if 97 \<le> n \<and> n \<le> 102 then Some (n - 87)
     else if 65 \<le> n \<and> n \<le> 70 then Some (n - 55) else None)"

text \<open>\<^verbatim>\<open>bytes.fromhex\<close> on an even number of hexadecimal digits.\<close>

fun from_hex :: "string \<Rightarrow> bytes option" where
  "from_hex [] = Some []"
| "from_hex [c] = None"
| "from_hex (c # d # s) = (case (hex_value c, hex_value d, from_hex s) of
     (Some a, Some b, Some bs) \<Rightarrow> Some (word_of_nat (16 * a + b) # bs) | _ \<Rightarrow> None)"

text \<open>Only an object is dumped as JSON; everything else that is not a text is printed with \<^verbatim>\<open>str\<close>.\<close>

definition encode_body :: "codec \<Rightarrow> pyval \<Rightarrow> string \<Rightarrow> bool \<Rightarrow> tcp_error + bytes" where
  "encode_body cd data encoding hex_string = (case data of
     PNone \<Rightarrow> Inr []
   | PDict d \<Rightarrow> (case cd_dumps cd data of None \<Rightarrow> Inl BadEncoding | Some bs \<Rightarrow> Inr bs)
   | _ \<Rightarrow>
       (if hex_string then
          (let compact = filter (\<lambda>c. \<not> is_space c) (py_str data) in
           case from_hex compact of None \<Rightarrow> Inl (BadHex (length compact)) | Some bs \<Rightarrow> Inr bs)
        else (case cd_encode cd encoding (py_str data) of None \<Rightarrow> Inl BadEncoding | Some bs \<Rightarrow> Inr bs)))"

text \<open>\<^verbatim>\<open>format(n, 'd')\<close> and \<^verbatim>\<open>format(n, 'x')\<close>, and \<^verbatim>\<open>zfill\<close>.\<close>

function radix_digits :: "nat \<Rightarrow> nat \<Rightarrow> string" where
  "radix_digits radix n =
     (if radix < 2 \<or> n < radix then [hex_digit n]
      else radix_digits radix (n div radix) @ [hex_digit (n mod radix)])"
  by pat_completeness auto
termination
  by (relation "measure snd") auto

declare radix_digits.simps [simp del]

definition zfill :: "nat \<Rightarrow> string \<Rightarrow> string" where
  "zfill width s = replicate (width - length s) CHR ''0'' @ s"

definition format_length_prefix :: "codec \<Rightarrow> nat \<Rightarrow> nat \<Rightarrow> nat \<Rightarrow> string \<Rightarrow> tcp_error + bytes" where
  "format_length_prefix cd length_value radix width encoding =
     (if radix \<noteq> 10 \<and> radix \<noteq> 16 then Inl (BadRadix radix)
      else (let text = zfill width (radix_digits radix length_value) in
        if width < length text then Inl (LengthOverflow (length text))
        else (case cd_encode cd encoding text of None \<Rightarrow> Inl BadEncoding | Some bs \<Rightarrow> Inr bs)))"

record frame_config =
  fc_mode :: frame_mode
  fc_radix :: nat
  fc_radix_length :: nat
  fc_include_length :: bool
  fc_request_end :: "bytes option"
  fc_response_end :: "bytes option"
  fc_encoding :: string
  fc_hex_string :: bool
  fc_send_only :: bool
  fc_long_connection :: bool

definition truthy_bytes :: "bytes option \<Rightarrow> bool" where
  "truthy_bytes b = (case b of None \<Rightarrow> False | Some bs \<Rightarrow> bs \<noteq> [])"

definition build_payload :: "codec \<Rightarrow> frame_config \<Rightarrow> pyval \<Rightarrow> tcp_error + bytes" where
  "build_payload cd fc data = (case encode_body cd data (fc_encoding fc) (fc_hex_string fc) of
     Inl e \<Rightarrow> Inl e
   | Inr body \<Rightarrow> (case fc_mode fc of
       LengthPrefix \<Rightarrow>
         (let n = (if fc_include_length fc then length body + fc_radix_length fc else length body) in
          case format_length_prefix cd n (fc_radix fc) (fc_radix_length fc) (fc_encoding fc) of
            Inl e \<Rightarrow> Inl e | Inr prefix \<Rightarrow> Inr (prefix @ body))
     | Terminator \<Rightarrow> Inr (if truthy_bytes (fc_request_end fc) then body @ the (fc_request_end fc) else body)
     | RawFrame \<Rightarrow> Inr body))"

section \<open>Reading a frame\<close>

text \<open>Python's \<^verbatim>\<open>int(text, radix)\<close> on texts of the modelled code points.\<close>

fun digits_value :: "nat \<Rightarrow> nat \<Rightarrow> string \<Rightarrow> nat option" where
  "digits_value radix acc [] = Some acc"
| "digits_value radix acc (c # s) =
     (if c = CHR ''_'' then
        (case s of [] \<Rightarrow> None | d # s' \<Rightarrow> if d = CHR ''_'' then None else digits_value radix acc s)
      else (case hex_value c of
          None \<Rightarrow> None
        | Some v \<Rightarrow> if v < radix then digits_value radix (radix * acc + v) s else None))"

definition unsigned_value :: "nat \<Rightarrow> string \<Rightarrow> nat option" where
  "unsigned_value radix s =
     (let prefixed = (radix = 16 \<and> (py_startswith s ''0x'' \<or> py_startswith s ''0X''));
          t = (if prefixed then drop 2 s else s)
      in if t = [] \<or> (hd t = CHR ''_'' \<and> \<not> prefixed) then None else digits_value radix 0 t)"

definition int_of_radix :: "nat \<Rightarrow> string \<Rightarrow> int option" where
  "int_of_radix radix text = (case py_strip text of
     [] \<Rightarrow> None
   | c # s \<Rightarrow>
       (if c = CHR ''-'' then map_option (\<lambda>n. - int n) (unsigned_value radix s)
        else if c = CHR ''+'' then map_option int (unsigned_value radix s)
        else map_option int (unsigned_value radix (c # s))))"

record peer =
  pe_chunks :: "bytes list"
  pe_closes :: bool

definition stream :: "peer \<Rightarrow> bytes" where
  "stream p = concat (pe_chunks p)"

definition starved :: "peer \<Rightarrow> tcp_error" where
  "starved p = (if pe_closes p then Incomplete else ReadTimeout)"

definition read_exactly :: "peer \<Rightarrow> nat \<Rightarrow> bytes \<Rightarrow> tcp_error + bytes \<times> bytes" where
  "read_exactly p n bs = (if length bs < n then Inl (starved p) else Inr (take n bs, drop n bs))"

fun bytes_find :: "bytes \<Rightarrow> bytes \<Rightarrow> nat option" where
  "bytes_find sep [] = (if sep = [] then Some 0 else None)"
| "bytes_find sep (b # bs) =
     (if take (length sep) (b # bs) = sep then Some 0 else map_option Suc (bytes_find sep bs))"

text \<open>\<^verbatim>\<open>StreamReader.readuntil\<close>, without the separator.\<close>

definition read_until :: "peer \<Rightarrow> nat \<Rightarrow> bytes \<Rightarrow> tcp_error + bytes" where
  "read_until p limit sep = (case bytes_find sep (stream p) of
     Some k \<Rightarrow> if limit < k then Inl LimitOverrun else Inr (take k (stream p))
   | None \<Rightarrow>
       if limit < length (stream p) + 1 - length sep then Inl LimitOverrun
       else Inl (if pe_closes p then EndNotFound else ReadTimeout))"

text \<open>\<^verbatim>\<open>_read_until_eof\<close>: pieces are counted as they come.\<close>

fun read_chunks :: "nat \<Rightarrow> nat \<Rightarrow> bool \<Rightarrow> bytes list \<Rightarrow> tcp_error + bytes" where
  "read_chunks max_bytes total_read closes [] = (if closes then Inr [] else Inl ReadTimeout)"
| "read_chunks max_bytes total_read closes (c # cs) =
     (if max_bytes < total_read + length c then Inl (TooLarge (int max_bytes))
      else (case read_chunks max_bytes (total_read + length c) closes cs of
          Inl e \<Rightarrow> Inl e | Inr bs \<Rightarrow> Inr (c @ bs)))"

definition read_until_eof :: "nat \<Rightarrow> peer \<Rightarrow> tcp_error + bytes" where
  "read_until_eof max_bytes p = read_chunks max_bytes 0 (pe_closes p) (filter (\<lambda>c. c \<noteq> []) (pe_chunks p))"

definition read_length_prefixed :: "codec \<Rightarrow> frame_config \<Rightarrow> nat \<Rightarrow> peer \<Rightarrow> tcp_error + bytes" where
  "read_length_prefixed cd fc max_bytes p = (case read_exactly p (fc_radix_length fc) (stream p) of
     Inl e \<Rightarrow> Inl e
   | Inr (prefix, rest) \<Rightarrow> (case cd_decode cd (fc_encoding fc) prefix of
       None \<Rightarrow> Inl BadEncoding
     | Some text \<Rightarrow> (case int_of_radix (fc_radix fc) (py_strip text) of
         None \<Rightarrow> Inl (BadLength (py_strip text))
       | Some n \<Rightarrow>
           (let n' = (if fc_include_length fc then n - int (fc_radix_length fc) else n) in
            if n' < 0 then Inl NegativeLength
            else if int max_bytes < n' then Inl (TooLarge n')
            else map_sum (\<lambda>e. e) fst (read_exactly p (nat n') rest)))))"

definition read_answer :: "codec \<Rightarrow> frame_config \<Rightarrow> nat \<Rightarrow> peer \<Rightarrow> tcp_error + bytes" where
  "read_answer cd fc max_bytes p =
     (if fc_send_only fc then Inr []
      else (case fc_mode fc of
          LengthPrefix \<Rightarrow> read_length_prefixed cd fc max_bytes p
        | Terminator \<Rightarrow>
            if truthy_bytes (fc_response_end fc)
            then read_until p (max max_bytes 65536) (the (fc_response_end fc))
            else read_until_eof max_bytes p
        | RawFrame \<Rightarrow> read_until_eof max_bytes p))"

text \<open>\<^verbatim>\<open>exchange\<close>: the payload is built before the connection; \<^verbatim>\<open>None\<close> is a failed
  connection, otherwise the peer answers what it was sent.\<close>

definition exchange_frame :: "codec \<Rightarrow> frame_config \<Rightarrow> nat \<Rightarrow> pyval \<Rightarrow> (bytes \<Rightarrow> peer option) \<Rightarrow> tcp_error + bytes" where
  "exchange_frame cd fc max_bytes data server = (case build_payload cd fc data of
     Inl e \<Rightarrow> Inl e
   | Inr payload \<Rightarrow> (case server payload of
       None \<Rightarrow> Inl ConnectFailed
     | Some p \<Rightarrow> read_answer cd fc max_bytes p))"

section \<open>What is sent can be read back\<close>

text \<open>An encoding that keeps hexadecimal digits, a byte for each: every superset of ASCII does.\<close>

definition keeps_digits :: "codec \<Rightarrow> string \<Rightarrow> bool" where
  "keeps_digits cd encoding = (\<forall>t. list_all (\<lambda>c. hex_value c \<noteq> None) t \<longrightarrow>
     (\<exists>bs. cd_encode cd encoding t = Some bs \<and> length bs = length t \<and> cd_decode cd encoding bs = Some t))"

lemma hex_digit_value: "n < 16 \<Longrightarrow> hex_value (hex_digit n) = Some n"
  by (auto simp: hex_value_def hex_digit_def char_code_def)

lemma radix_digits_one: "n < radix \<Longrightarrow> radix_digits radix n = [hex_digit n]"
  by (subst radix_digits.simps) simp

lemma radix_digits_more:
  "2 \<le> radix \<Longrightarrow> radix \<le> n \<Longrightarrow> radix_digits radix n = radix_digits radix (n div radix) @ [hex_digit (n mod radix)]"
  by (subst radix_digits.simps) simp

lemma last_digit: "2 \<le> radix \<Longrightarrow> radix \<le> 16 \<Longrightarrow> hex_value (hex_digit (n mod radix)) = Some (n mod radix) \<and> n mod radix < radix"
  using hex_digit_value[of "n mod radix"] mod_less_divisor[of radix n] by linarith

lemma radix_digits_hex: "2 \<le> radix \<Longrightarrow> radix \<le> 16 \<Longrightarrow> list_all (\<lambda>c. \<exists>v < radix. hex_value c = Some v) (radix_digits radix n)"
proof (induction n rule: less_induct)
  case (less n)
  note d = last_digit[OF less.prems, of n]
  show ?case
  proof (cases "n < radix")
    case True
    with d show ?thesis by (simp add: radix_digits_one)
  next
    case False
    then have "n div radix < n" using less.prems by simp
    from less.IH[OF this less.prems] False d less.prems(1) show ?thesis by (simp add: radix_digits_more)
  qed
qed

lemma hex_char_facts: "hex_value c = Some v \<Longrightarrow>
    \<not> is_space c \<and> c \<noteq> CHR ''-'' \<and> c \<noteq> CHR ''+'' \<and> c \<noteq> CHR ''x'' \<and> c \<noteq> CHR ''X'' \<and> c \<noteq> CHR ''_''"
  by (auto simp: hex_value_def char_code_def is_space_def Let_def split: if_splits)

lemma digits_value_append:
  "list_all (\<lambda>c. \<exists>v < radix. hex_value c = Some v) s \<Longrightarrow>
   digits_value radix acc (s @ t) = (case digits_value radix acc s of None \<Rightarrow> None | Some a \<Rightarrow> digits_value radix a t)"
proof (induction s arbitrary: acc)
  case (Cons c s)
  then obtain v where v: "hex_value c = Some v" "v < radix" by auto
  then have "c \<noteq> CHR ''_''" using hex_char_facts by blast
  with Cons v show ?case by simp
qed simp

lemma digits_value_radix:
  "2 \<le> radix \<Longrightarrow> radix \<le> 16 \<Longrightarrow> digits_value radix 0 (radix_digits radix n) = Some n"
proof (induction n rule: less_induct)
  case (less n)
  note d = last_digit[OF less.prems, of n]
  then have u: "hex_digit (n mod radix) \<noteq> CHR ''_''" using hex_char_facts by blast
  show ?case
  proof (cases "n < radix")
    case True
    with d u show ?thesis by (simp add: radix_digits_one)
  next
    case False
    then have "n div radix < n" using less.prems by simp
    from less.IH[OF this less.prems] False d u less.prems show ?thesis
      by (simp add: radix_digits_more digits_value_append[OF radix_digits_hex[OF less.prems]])
  qed
qed

lemma digits_value_zeros: "0 < radix \<Longrightarrow> digits_value radix 0 (replicate k CHR ''0'' @ s) = digits_value radix 0 s"
proof (induction k)
  case (Suc k)
  have "hex_value CHR ''0'' = Some 0" by (simp add: hex_value_def char_code_def)
  with Suc show ?case by simp
qed simp

lemma hex_zero: "hex_value CHR ''0'' = Some 0"
  by (simp add: hex_value_def char_code_def)

lemma hex_x: "hex_value CHR ''x'' = None" "hex_value CHR ''X'' = None"
  by (simp_all add: hex_value_def char_code_def)

lemma int_of_radix_zfill:
  assumes "radix = 10 \<or> radix = 16"
  shows "int_of_radix radix (zfill width (radix_digits radix n)) = Some (int n)"
proof -
  let ?t = "zfill width (radix_digits radix n)"
  have r: "2 \<le> radix" "radix \<le> 16" "0 < radix" using assms by auto
  have z: "\<exists>v < radix. hex_value CHR ''0'' = Some v" using r by (simp add: hex_value_def char_code_def)
  have all: "\<forall>c \<in> set ?t. \<exists>v. hex_value c = Some v"
    using radix_digits_hex[OF r(1,2), of n] z by (auto simp: zfill_def list_all_iff)
  have ne: "radix_digits radix n \<noteq> []" by (subst radix_digits.simps) simp
  then obtain c s where t: "?t = c # s" by (cases ?t) (auto simp: zfill_def)
  have "py_strip ?t = ?t" using all hex_char_facts by (intro py_strip_no_space) (auto simp: list_all_iff)
  moreover have "\<not> py_startswith ?t ''0x''" "\<not> py_startswith ?t ''0X''"
    using all hex_x by (auto simp: py_startswith_iff)
  moreover have "digits_value radix 0 ?t = Some n"
    using digits_value_zeros[OF r(3)] digits_value_radix[OF r(1,2)] by (simp add: zfill_def)
  moreover have "c \<noteq> CHR ''-''" "c \<noteq> CHR ''+''" "c \<noteq> CHR ''_''" using all hex_char_facts t by auto
  ultimately show ?thesis by (simp add: int_of_radix_def unsigned_value_def t Let_def)
qed

lemma encoded_prefix:
  assumes "keeps_digits cd encoding" "format_length_prefix cd n radix width encoding = Inr prefix"
  shows "length prefix = width \<and> (\<exists>text. cd_decode cd encoding prefix = Some text \<and>
    int_of_radix radix (py_strip text) = Some (int n))"
proof -
  let ?t = "zfill width (radix_digits radix n)"
  from assms(2) have r: "radix = 10 \<or> radix = 16" and w: "length ?t \<le> width" and e: "cd_encode cd encoding ?t = Some prefix"
    by (auto simp: format_length_prefix_def Let_def split: if_splits option.splits)
  have all: "list_all (\<lambda>c. hex_value c \<noteq> None) ?t"
    using radix_digits_hex[of radix n] r hex_zero by (fastforce simp: zfill_def list_all_iff)
  with assms(1) e have "length prefix = length ?t" "cd_decode cd encoding prefix = Some ?t"
    unfolding keeps_digits_def by force+
  moreover have "length ?t = width" using w by (simp add: zfill_def)
  moreover have "py_strip ?t = ?t" using all hex_char_facts by (intro py_strip_no_space) (auto simp: list_all_iff)
  ultimately show ?thesis using int_of_radix_zfill[OF r, of width n] by simp
qed


text \<open>An eight-bit encoding.\<close>

definition latin_codec :: codec where
  "latin_codec = \<lparr>cd_encode = (\<lambda>e s. Some (map to_byte s)), cd_decode = (\<lambda>e bs. Some (map (\<lambda>b. char_of (unat b)) bs)),
     cd_dumps = (\<lambda>v. None)\<rparr>"

lemma latin_keeps_digits: "keeps_digits latin_codec e"
proof -
  have "char_of (unat (to_byte c)) = c" for c
    using of_char_mod_256[of c, where 'a = nat] by (simp add: to_byte_def char_code_def unat_of_nat)
  then show ?thesis by (simp add: keeps_digits_def latin_codec_def comp_def)
qed

definition prefixed_frame :: frame_config where
  "prefixed_frame = \<lparr>fc_mode = LengthPrefix, fc_radix = 16, fc_radix_length = 4, fc_include_length = True,
     fc_request_end = None, fc_response_end = None, fc_encoding = ''utf-8'', fc_hex_string = False,
     fc_send_only = False, fc_long_connection = False\<rparr>"


lemma read_chunks_total:
  "n \<le> max_bytes \<Longrightarrow> read_chunks max_bytes n closes cs =
     (if max_bytes < n + length (concat cs) then Inl (TooLarge (int max_bytes))
      else if closes then Inr (concat cs) else Inl ReadTimeout)"
  by (induction cs arbitrary: n) auto

text \<open>
  Without a length or an end symbol the answer is everything up to the end of the stream, refused when
  it exceeds the limit and timed out when the peer does not close; the pieces in which it arrives do not
  matter.
\<close>

theorem read_until_eof_ignores_pieces:
  "read_until_eof max_bytes p =
     (if max_bytes < length (stream p) then Inl (TooLarge (int max_bytes))
      else if pe_closes p then Inr (stream p) else Inl ReadTimeout)"
proof -
  have "concat (filter (\<lambda>c. c \<noteq> []) cs) = concat cs" for cs :: "bytes list" by (induction cs) auto
  then show ?thesis by (simp add: read_until_eof_def read_chunks_total stream_def)
qed

end
