(* ===== verification/Protocol.thy ===== *)
theory Protocol
  imports StepTree TcpFrame
begin

text \<open>
  \<^verbatim>\<open>autotest_runtime/protocol_tcp.py\<close> and \<^verbatim>\<open>protocol_http.py\<close>: the frame a TCP step asks for,
  what is sent and what extraction reads of it, the parts of an HTTP request, and its address.
\<close>

section \<open>The frame of a TCP step\<close>

text \<open>UTF-8 of the modelled code points.\<close>

definition utf8_char :: "char \<Rightarrow> bytes" where
  "utf8_char c = (let n = char_code c in
     if n < 128 then [word_of_nat n] else [word_of_nat (192 + n div 64), word_of_nat (128 + n mod 64)])"

definition escape_byte :: "char \<Rightarrow> 8 word option" where
  "escape_byte c =
     (if c = CHR ''r'' then Some 13 else if c = CHR ''n'' then Some 10 else if c = CHR ''t'' then Some 9
      else if c = CHR ''0'' then Some 0 else if char_code c = 92 then Some 92 else None)"

text \<open>\<^verbatim>\<open>int(two characters, 16)\<close> where it is a byte.\<close>

definition hex_pair :: "char \<Rightarrow> char \<Rightarrow> 8 word option" where
  "hex_pair c d = (case int_of_radix 16 [c, d] of
     None \<Rightarrow> None | Some i \<Rightarrow> if 0 \<le> i then Some (word_of_int i) else None)"

fun end_symbol_bytes :: "string \<Rightarrow> bytes" where
  "end_symbol_bytes [] = []"
| "end_symbol_bytes [c] = utf8_char c"
| "end_symbol_bytes (c # n # s) =
     (if char_code c \<noteq> 92 then utf8_char c @ end_symbol_bytes (n # s)
      else (case escape_byte n of
          Some b \<Rightarrow> b # end_symbol_bytes s
        | None \<Rightarrow>
            (case s of
               d # e # s' \<Rightarrow>
                 (case (if n = CHR ''x'' \<or> n = CHR ''X'' then hex_pair d e else None) of
                    Some b \<Rightarrow> b # end_symbol_bytes s'
                  | None \<Rightarrow> utf8_char c @ end_symbol_bytes (n # s))
             | _ \<Rightarrow> utf8_char c @ end_symbol_bytes (n # s))))"

text \<open>The word that stands for no end symbol lies outside the modelled code points: such a field is
  \<^verbatim>\<open>None\<close>.\<close>

definition parse_response_end_symbol :: "string option \<Rightarrow> bytes option" where
  "parse_response_end_symbol raw = (case raw of None \<Rightarrow> None
     | Some s \<Rightarrow> if py_strip s = [] then None else Some (end_symbol_bytes (py_strip s)))"

definition request_end_bytes :: "tcp_end_symbol \<Rightarrow> bytes option" where
  "request_end_bytes e = (case e of EndUnused \<Rightarrow> None | EndCRLF \<Rightarrow> Some [13, 10] | EndCR \<Rightarrow> Some [13] | EndLF \<Rightarrow> Some [10])"

definition or_else :: "'a option \<Rightarrow> 'a \<Rightarrow> 'a" where
  "or_else x y = (case x of None \<Rightarrow> y | Some a \<Rightarrow> a)"

definition encoding_of :: "string option \<Rightarrow> string" where
  "encoding_of e = (let t = py_strip (if truthy_text e then the e else ''utf-8'') in if t = [] then ''utf-8'' else t)"

definition resolve_tcp_frame_config :: "step_data \<Rightarrow> frame_config" where
  "resolve_tcp_frame_config d =
     (let radix = or_else (tcp_radix d) RadixUnused;
          request_symbol = or_else (tcp_request_end d) EndUnused;
          response_symbol = parse_response_end_symbol (tcp_response_end d);
          connect = or_else (tcp_connect d) ShortConnection
      in \<lparr>fc_mode = (if radix \<noteq> RadixUnused then LengthPrefix
            else if request_symbol \<noteq> EndUnused \<or> response_symbol \<noteq> None then Terminator else RawFrame),
          fc_radix = (if radix = RadixHex then 16 else 10),
          fc_radix_length = (if truthy_id (tcp_radix_length d) then nat (the (tcp_radix_length d)) else 8),
          fc_include_length = (or_else (tcp_datagram_length d) ExcludesLength = IncludesLength),
          fc_request_end = request_end_bytes request_symbol,
          fc_response_end = response_symbol,
          fc_encoding = encoding_of (tcp_encoding d),
          fc_hex_string = tcp_hex_string d,
          fc_send_only = (connect = SendOnly),
          fc_long_connection = (connect = LongConnection)\<rparr>)"

definition empty_text :: "pyval \<Rightarrow> bool" where
  "empty_text v = (v = PNone \<or> v = PStr [])"

definition select_tcp_payload :: "args_type option \<Rightarrow> pyval \<Rightarrow> pyval \<Rightarrow> pyval" where
  "select_tcp_payload t txt body =
     (if t = Some ArgJson then body
      else if t = Some ArgRaw \<or> t = Some ArgXml then txt
      else if empty_text txt then body else txt)"

definition is_container :: "pyval \<Rightarrow> bool" where
  "is_container v = (case v of PDict _ \<Rightarrow> True | PList _ \<Rightarrow> True | _ \<Rightarrow> False)"

definition starts_json :: "string \<Rightarrow> bool" where
  "starts_json s = (py_startswith s ''{'' \<or> py_startswith s ''['')"

text \<open>The answer as a text, and as JSON where it looks like it.\<close>

definition hex_upper :: "8 word \<Rightarrow> string" where
  "hex_upper b = map upper_ascii_char [hex_digit (unat b div 16), hex_digit (unat b mod 16)]"

definition parse_tcp_response :: "ph_env \<Rightarrow> codec \<Rightarrow> string \<Rightarrow> bool \<Rightarrow> bytes \<Rightarrow> string \<times> pyval option" where
  "parse_tcp_response ph cd encoding hex_string raw =
     (if hex_string then (concat (map hex_upper raw), None)
      else (let txt = (case cd_decode cd encoding raw of None \<Rightarrow> [] | Some t \<Rightarrow> t) in
        (txt, if txt \<noteq> [] \<and> starts_json (py_strip txt)
              then (case ph_loads ph txt of None \<Rightarrow> None | Some v \<Rightarrow> if v = PNone then None else Some v) else None)))"

text \<open>What extraction reads as the request: its JSON and its text. \<^verbatim>\<open>None\<close>: the dump raises.\<close>

definition tcp_extract_sources :: "ph_env \<Rightarrow> pyval \<Rightarrow> pyval \<Rightarrow> pyval \<Rightarrow> (pyval option \<times> string option) option" where
  "tcp_extract_sources ph body txt payload =
     (let json = (if is_container body then Some body
            else (case txt of
                PStr s \<Rightarrow> if starts_json (py_strip s)
                  then (case ph_loads ph s of None \<Rightarrow> None | Some v \<Rightarrow> if is_container v then Some v else None) else None
              | _ \<Rightarrow> None))
      in if \<not> empty_text txt then Some (json, Some (py_str txt))
         else (case payload of
             PStr p \<Rightarrow> Some (json, Some p)
           | _ \<Rightarrow> if is_container body then (case ph_dumps ph body of None \<Rightarrow> None | Some t \<Rightarrow> Some (json, Some t))
               else Some (json, if txt = PNone then None else Some [])))"

section \<open>HTTP requests\<close>

record http_payloads =
  hp_json :: pyval
  hp_data :: pyval
  hp_content :: pyval
  hp_files :: pyval
  hp_headers :: "pyval dict option"

definition has_content_type :: "pyval dict \<Rightarrow> bool" where
  "has_content_type hs = list_ex (\<lambda>k. py_lower k = ''content-type'') (keys hs)"

definition or_none_value :: "pyval \<Rightarrow> pyval" where
  "or_none_value v = (if py_truthy v then v else PNone)"

definition assemble_http_body_payloads ::
    "args_type option \<Rightarrow> pyval \<Rightarrow> pyval \<Rightarrow> pyval \<Rightarrow> pyval \<Rightarrow> pyval \<Rightarrow> pyval dict option \<Rightarrow> http_payloads" where
  "assemble_http_body_payloads t txt body form_data form_files urlencoded headers =
     (let none = \<lparr>hp_json = PNone, hp_data = PNone, hp_content = PNone, hp_files = PNone, hp_headers = headers\<rparr> in
      case t of
        None \<Rightarrow>
          (let p = (if py_truthy txt then none\<lparr>hp_data := txt\<rparr>
                    else if py_truthy form_data \<or> py_truthy form_files
                    then none\<lparr>hp_data := form_data, hp_files := or_none_value form_files\<rparr>
                    else if py_truthy urlencoded then none\<lparr>hp_data := urlencoded\<rparr> else none)
           in if py_truthy body \<and> \<not> py_truthy (hp_data p) then p\<lparr>hp_json := body\<rparr> else p)
      | Some ArgNone \<Rightarrow> none
      | Some ArgParams \<Rightarrow> none
      | Some ArgRaw \<Rightarrow> none\<lparr>hp_data := txt\<rparr>
      | Some ArgJson \<Rightarrow> none\<lparr>hp_json := body\<rparr>
      | Some ArgXml \<Rightarrow>
          (let hs = (case headers of None \<Rightarrow> [] | Some h \<Rightarrow> h) in
           none\<lparr>hp_content := txt, hp_headers := Some (if has_content_type hs then hs
             else AList.update ''Content-Type'' (PStr ''application/xml; charset=utf-8'') hs)\<rparr>)
      | Some ArgFormData \<Rightarrow> none\<lparr>hp_data := form_data, hp_files := or_none_value form_files\<rparr>
      | Some ArgUrlencoded \<Rightarrow> none\<lparr>hp_data := urlencoded\<rparr>)"

text \<open>Headers are percent-encoded by \<^verbatim>\<open>urllib.parse.quote\<close>, a parameter.\<close>

definition encode_http_header_values :: "(string \<Rightarrow> string) \<Rightarrow> pyval dict option \<Rightarrow> pyval dict option" where
  "encode_http_header_values quote headers = (case headers of None \<Rightarrow> None
     | Some hs \<Rightarrow> Some (map (\<lambda>(k, v). (k, case v of PStr s \<Rightarrow> PStr (quote s) | _ \<Rightarrow> v))
         (filter (\<lambda>(k, v). py_strip k \<noteq> []) hs)))"

definition build_httpx_request_kwargs ::
    "(string \<Rightarrow> string) \<Rightarrow> pyval dict option \<Rightarrow> pyval \<Rightarrow> http_payloads \<Rightarrow> pyval dict" where
  "build_httpx_request_kwargs quote headers params p =
     (let hs = (case headers of None \<Rightarrow> PNone | Some h \<Rightarrow>
            PDict (if h = [] then h else (case encode_http_header_values quote headers of None \<Rightarrow> h | Some h' \<Rightarrow> h')))
      in filter (\<lambda>(k, v). v \<noteq> PNone)
        [(''headers'', hs), (''params'', params), (''data'', hp_data p), (''json'', hp_json p),
         (''content'', hp_content p), (''files'', hp_files p)])"

definition is_absolute_http_url :: "string \<Rightarrow> bool" where
  "is_absolute_http_url url = (let u = py_lower (py_strip url) in py_startswith u ''http://'' \<or> py_startswith u ''https://'')"

definition strip_left :: "char \<Rightarrow> string \<Rightarrow> string" where
  "strip_left c s = dropWhile (\<lambda>x. x = c) s"

definition strip_right :: "char \<Rightarrow> string \<Rightarrow> string" where
  "strip_right c s = rev (dropWhile (\<lambda>x. x = c) (rev s))"

definition build_absolute_http_url :: "string \<Rightarrow> string \<Rightarrow> string \<Rightarrow> string" where
  "build_absolute_http_url host0 port0 path0 =
     (let host1 = strip_right CHR '':'' (strip_right CHR ''/'' (py_strip host0));
          port = py_strip port0;
          path = strip_left CHR ''/'' path0;
          l = py_lower host1;
          host = (if py_startswith l ''http://'' \<or> py_startswith l ''https://'' then host1 else ''http://'' @ host1);
          origin = (if port = [] then host else host @ '':'' @ port)
      in origin @ ''/'' @ path)"

end
