(* ===== verification/EngineState.thy ===== *)
theory EngineState
  imports Exchange DatagramDiff PyCode Datagram XmlMessage Protocol
begin

text \<open>
  State and effects of the step engine (\<^verbatim>\<open>services/autotest_step_engine.py\<close>): the execution
  context \<^verbatim>\<open>StepExecutionContext\<close>, step results, saved details, and the operations of the
  context and of \<^verbatim>\<open>BaseStepExecutor\<close> that do not run other steps.

  The session pool is a mutable list that several places hold a reference to: the context keeps a
  store of pool objects (\<^verbatim>\<open>c_pools\<close>) and the reference of the current one (\<^verbatim>\<open>c_session\<close>).
  \<^verbatim>\<open>update_variables\<close> writes in place; a quoted script installs a new object.

  Messages are constructors of \<^verbatim>\<open>err\<close> (errors) and \<^verbatim>\<open>log_entry\<close> (log lines); timestamps,
  stack traces and the log lines of the placeholder resolver are left out.
\<close>

section \<open>Errors and outcomes\<close>

text \<open>How a request of the HTTP client fails.\<close>

datatype http_failure = AddressRejected | RequestTimedOut | NotConnected | RequestBroken | OtherFailure

datatype err =
    StepTypeUndefined
  | InvalidStepType
  | BadVariableName
  | NoLoopMode
  | NoErrorStrategy
  | LoopMaximumsEmpty
  | LoopMaximumsUndefined string
  | LoopMaximumsBad pyval
  | LoopMaximumsRange int
  | BadLoopVariable
  | IterableEmpty loop_mode
  | IterableType loop_mode
  | IterableParse string
  | LoopWrapped loop_mode err
  | RoundFailed loop_mode int err
  | StrategyStop loop_mode "err option"
  | LoopConditionsEmpty
  | LoopGuard nat
  | ConditionMissing
  | ConditionUndefined string
  | ConditionCompare cmp_error
  | ConditionLoopError err
  | WaitNegative
  | WaitTooLong
  | WaitMissing
  | BranchItemsEmpty
  | BranchConditionMissing nat
  | BranchChildrenFailed err
  | AssertRulesMissing
  | ExtractRulesMissing
  | PipelineFailed "extract_result list" "assert_result list"
  | QuoteIdMissing
  | QuoteCaseNotFound int
  | QuoteQueryError int
  | QuoteTreeError int
  | Formatted bool err
  | DetailFailed err "err option"
  | External string
  | OperatesEmpty
  | OperateConfigMissing nat
  | OperateProjectUnknown nat
  | OperateFieldMissing nat string
  | OperateFailed nat err
  | CodeMissing
  | CodeTooLong nat
  | CodeForbidden violation
  | CodeStopped code_error
  | CodeResultType pyval
  | SourceOutsidePool string
  | CompareItemsMissing
  | CompareItemIncomplete nat
  | CompareOrderBad int
  | MessagesDiffer "nat list"
  | HttpMethodMissing
  | HttpAddressInvalid string
  | HttpRefused http_failure
  | TcpConfigMissing
  | TcpTargetInvalid string "string option"
  | TcpFieldMissing string
  | TcpPortInvalid string
  | TcpRefused tcp_error
  | ReplaceRaised replace_exn
  | XmlReplaceRaised xml_failure
  | PlaceholderRaised
  | DumpRaised

text \<open>\<^verbatim>\<open>StepExecutionError\<close> and every other exception.\<close>

datatype exn = SEE err | OtherExn err

fun exn_err :: "exn \<Rightarrow> err" where
  "exn_err (SEE e) = e"
| "exn_err (OtherExn e) = e"

text \<open>
  A computation on a state ends with a value, with an exception (the state as the raise left it),
  or is \<^verbatim>\<open>Stuck\<close>: the nesting of steps was deeper than the step budget, or the resolution of
  the placeholders of a Python code does not return.
\<close>

datatype ('s, 'a) outcome = Done 's 'a | Fail 's exn | Stuck

definition bind :: "('s, 'a) outcome \<Rightarrow> ('s \<Rightarrow> 'a \<Rightarrow> ('s, 'b) outcome) \<Rightarrow> ('s, 'b) outcome" where
  "bind m f = (case m of Done s a \<Rightarrow> f s a | Fail s e \<Rightarrow> Fail s e | Stuck \<Rightarrow> Stuck)"

lemma bind_simps [simp]:
  "bind (Done s a) f = f s a" "bind (Fail s e) f = Fail s e" "bind Stuck f = Stuck"
  by (auto simp: bind_def)

section \<open>Results and details\<close>

datatype request_snapshot =
    NoRequest
  | ReqLoopMaximums int
  | ReqLoopConditions condition
  | ReqBranch "(nat \<times> branch_type \<times> condition option \<times> string option) option"
  | ReqSent "pyval dict"

datatype response_info = NoResponse | RespBody pyval | RespDiff "diff_result list"

datatype message = NoMessage | BranchMatched branch_type | NoBranchMatched

record result_info =
  r_case_id :: "int option"
  r_step_id :: "int option"
  r_step_no :: "int option"
  r_step_code :: "string option"
  r_step_name :: "string option"
  r_step_type :: "step_type option"
  r_quote_case_id :: "int option"
  r_success :: bool
  r_message :: message
  r_error :: "err option"
  r_dataset_name :: "string option"
  r_dataset :: "dataset option"
  r_request :: request_snapshot
  r_response :: response_info
  r_extract :: "extract_result list"
  r_assert :: "assert_result list"

datatype step_result = Result (rinfo: result_info) (rchildren: "step_result list")

definition new_result :: "step_data \<Rightarrow> bool \<Rightarrow> err option \<Rightarrow> step_result" where
  "new_result d ok e = Result
     \<lparr>r_case_id = case_id d, r_step_id = step_id d, r_step_no = step_no d, r_step_code = step_code d,
      r_step_name = step_name d, r_step_type = step_type d, r_quote_case_id = quote_case_id d,
      r_success = ok, r_message = NoMessage, r_error = e, r_dataset_name = None, r_dataset = None,
      r_request = NoRequest, r_response = NoResponse, r_extract = [], r_assert = []\<rparr> []"

abbreviation map_info :: "(result_info \<Rightarrow> result_info) \<Rightarrow> step_result \<Rightarrow> step_result" where
  "map_info f r \<equiv> Result (f (rinfo r)) (rchildren r)"

abbreviation res_success :: "step_result \<Rightarrow> bool" where
  "res_success r \<equiv> r_success (rinfo r)"

definition set_failed :: "step_result \<Rightarrow> step_result" where
  "set_failed r = map_info (\<lambda>i. i\<lparr>r_success := False\<rparr>) r"

definition set_error :: "err \<Rightarrow> step_result \<Rightarrow> step_result" where
  "set_error e r = map_info (\<lambda>i. i\<lparr>r_success := False, r_error := Some e\<rparr>) r"

definition add_child :: "step_result \<Rightarrow> step_result \<Rightarrow> step_result" where
  "add_child c r = Result (rinfo r) (rchildren r @ [c])"

datatype log_entry =
    LUpdated "string list"
  | LWaited rat
  | LBuiltinMissing string
  | LRound loop_mode int
  | LLoopStart loop_mode int
  | LLoopEnd loop_mode int
  | LLoopEmpty loop_mode
  | LChildFailed loop_mode loop_strategy "err option"
  | LTimeoutClamped rat
  | LTimedOut int
  | LConditionFalse int
  | LBranch message
  | LError err
  | LQuoteEmpty int
  | LPoolInit nat
  | LPoolMerged nat
  | LDataset bool
  | LQuoteStart int
  | LQuoteEnd int
  | LStored string
  | LSearched nat
  | LCodeResult pyval
  | LCompareStart nat
  | LCompareDone
  | LExtractSkipped
  | LExtracted extract_result
  | LAssertSkipped
  | LAsserted assert_result
  | LMissedPaths "string list"
  | LHttpStart string
  | LHttpAnswered int
  | LLongConnection
  | LJsonUnreadable

record detail =
  d_case_id :: int
  d_report_code :: "string option"
  d_quote_case_id :: "int option"
  d_parent_step_id :: "int option"
  d_step_id :: "int option"
  d_step_no :: "int option"
  d_step_code :: string
  d_step_type :: "step_type option"
  d_step_state :: bool
  d_step_except :: "err option"
  d_logs :: "log_entry list option"
  d_loop_cycles :: "int option"
  d_loop_maximums :: "int option"
  d_loop_conditions :: "condition option"
  d_branch_match :: "nat option"
  d_branch_items :: "(branch_type \<times> condition option \<times> string option) list option"
  d_dataset_name :: "string option"
  d_dataset :: "dataset option"
  d_session :: "step_var list option"
  d_defined :: "step_var list option"
  d_extract :: "extract_result list option"
  d_assert :: "assert_result list option"

section \<open>Context and environment\<close>

datatype config_type = CFG_APP | CFG_DB | CFG_REDIS | CFG_FILE

record exec_config =
  env_name :: string
  config_type :: config_type
  config_name :: string
  config_host :: string
  config_port :: string
  config_database :: "string option"

record ctx =
  c_case_id :: int
  c_config :: "exec_config dict"
  c_report_code :: "string option"
  c_dataset_name :: "string option"
  c_logs :: "(string option \<times> log_entry list) list"
  c_pending :: "detail list option"
  c_cycle :: "(string \<times> int option) list"
  c_current :: "string option"
  c_quote_case :: "int option"
  c_quote_parent :: "int option"
  c_quote_dataset_name :: "string option"
  c_quote_dataset :: "dataset option"
  c_defined :: "step_var list"
  c_pools :: "nat \<Rightarrow> step_var list"
  c_session :: nat
  c_next_pool :: nat
  c_tick :: nat

text \<open>Where an operation of a database or Redis step runs.\<close>

record target =
  tg_project :: int
  tg_env :: string
  tg_config :: string
  tg_database :: string

datatype operate_class = SqlOperate | RedisOperate

text \<open>A request for the HTTP client and its answer.\<close>

record http_call =
  hc_method :: string
  hc_url :: string
  hc_arguments :: "pyval dict"

datatype json_answer = JsonValue pyval | JsonInvalid | JsonRaises

record http_reply =
  hr_code :: int
  hr_reason :: string
  hr_headers :: "string dict"
  hr_text :: string
  hr_cookies :: "(string \<times> string) list"
  hr_json :: json_answer

datatype quote_lookup = CaseFound "step_var list" | CaseMissing | CaseQueryError

text \<open>
  What the engine calls outside the modelled code: the clock, the database, the JSONPath libraries, the text
  encodings, percent encoding, the HTTP client, TCP servers (\<^verbatim>\<open>None\<close> when there is no connection), the
  servers of database and Redis operations, the interpreter of Python code, and the validation of a detail
  (\<^verbatim>\<open>Some e\<close>: it raises).
\<close>

record engine_env =
  en_xch :: xch_env
  en_server :: server_config
  en_clock :: "nat \<Rightarrow> rat"
  en_find :: "string \<Rightarrow> pyval \<Rightarrow> find_answer"
  en_query :: "string \<Rightarrow> pyval \<Rightarrow> replace_exn + jpath list"
  en_codec :: codec
  en_quote :: "string \<Rightarrow> string"
  en_unquote :: "string \<Rightarrow> string"
  en_http :: "http_call \<Rightarrow> nat \<Rightarrow> http_failure + http_reply"
  en_tcp :: "string \<Rightarrow> int \<Rightarrow> nat \<Rightarrow> bytes \<Rightarrow> peer option"
  en_find_case :: "int \<Rightarrow> case_type \<Rightarrow> quote_lookup"
  en_case_tree :: "int \<Rightarrow> step list option"
  en_load_dataset :: "int option \<Rightarrow> string option \<Rightarrow> string \<Rightarrow> dataset option"
  en_detail_error :: "detail \<Rightarrow> err option"
  en_find_project :: "string \<Rightarrow> err + int option"
  en_operate :: "operate_class \<Rightarrow> target \<Rightarrow> string \<Rightarrow> nat \<Rightarrow> err + pyval \<times> pyval"
  en_parse :: "string \<Rightarrow> py_node list option"
  en_run_code :: "string \<Rightarrow> binding dict \<Rightarrow> nat \<Rightarrow> string + code_end"
  en_label :: "step_type \<Rightarrow> string \<times> string option"
  en_error_text :: "nat \<Rightarrow> err \<Rightarrow> string"
  en_json_ok :: "string \<Rightarrow> bool"
  en_xml_ok :: "string \<Rightarrow> bool"

abbreviation en_ph :: "engine_env \<Rightarrow> ph_env" where
  "en_ph env \<equiv> xe_ph (en_xch env)"

abbreviation en_dgm :: "engine_env \<Rightarrow> dgm_env" where
  "en_dgm env \<equiv> \<lparr>dg_xch = en_xch env, dg_find = en_find env, dg_query = en_query env\<rparr>"

section \<open>Operations of the context\<close>

definition add_log :: "log_entry \<Rightarrow> string option \<Rightarrow> ctx \<Rightarrow> ctx" where
  "add_log e code c =
     (let k = (if truthy_text code then code else c_current c);
          old = (case map_of (c_logs c) k of Some l \<Rightarrow> l | None \<Rightarrow> [])
      in c\<lparr>c_logs := AList.update k (old @ [e]) (c_logs c)\<rparr>)"

definition session :: "ctx \<Rightarrow> step_var list" where
  "session c = c_pools c (c_session c)"

text \<open>\<^verbatim>\<open>update_variables(vars, scope='session_variables')\<close>: in place.\<close>

definition update_session :: "step_var list \<Rightarrow> ctx \<Rightarrow> ctx" where
  "update_session vars c =
     add_log (LUpdated (filter (\<lambda>k. k \<noteq> []) (map var_key vars))) None
       (c\<lparr>c_pools := (c_pools c)(c_session c := update_pool (session c) vars)\<rparr>)"

text \<open>Assigning a new list object to \<^verbatim>\<open>session_variables\<close>.\<close>

definition install_session :: "step_var list \<Rightarrow> ctx \<Rightarrow> ctx" where
  "install_session vs c =
     c\<lparr>c_pools := (c_pools c)(c_next_pool c := vs), c_session := c_next_pool c, c_next_pool := Suc (c_next_pool c)\<rparr>"

definition ctx_source :: "ctx \<Rightarrow> var_source" where
  "ctx_source c = EngineContext (c_defined c) (session c)"

definition ctx_resolve :: "engine_env \<Rightarrow> pyval \<Rightarrow> ctx \<Rightarrow> pyval \<times> ctx" where
  "ctx_resolve env v c = (case resolve_placeholders (en_ph env) (ctx_source c) (c_tick c) v of
     (w, n) \<Rightarrow> (w, c\<lparr>c_tick := n\<rparr>))"

definition ctx_resolve_vars :: "engine_env \<Rightarrow> step_var list \<Rightarrow> ctx \<Rightarrow> step_var list \<times> ctx" where
  "ctx_resolve_vars env vs c = (case resolve_vars (en_ph env) (ctx_source c) (c_tick c) vs of
     (ws, n) \<Rightarrow> (ws, c\<lparr>c_tick := n\<rparr>))"

definition ctx_get_variable :: "string \<Rightarrow> ctx \<Rightarrow> var_exn + pyval" where
  "ctx_get_variable name c = get_variable (c_defined c) (session c) name"

definition ctx_now :: "engine_env \<Rightarrow> ctx \<Rightarrow> rat \<times> ctx" where
  "ctx_now env c = (en_clock env (c_tick c), c\<lparr>c_tick := Suc (c_tick c)\<rparr>)"

definition ctx_sleep :: "rat option \<Rightarrow> ctx \<Rightarrow> (ctx, unit) outcome" where
  "ctx_sleep seconds c = (case seconds of
     None \<Rightarrow> Done c ()
   | Some t \<Rightarrow>
       if t < 0 then Fail c (SEE WaitNegative)
       else if 300 < t then Fail c (SEE WaitTooLong)
       else Done (add_log (LWaited t) None c) ())"

text \<open>The text of an unresolved placeholder, \<^verbatim>\<open>s[2:-1]\<close> when it has the shape of one.\<close>

definition bare_placeholder :: "pyval \<Rightarrow> string option" where
  "bare_placeholder v = (case v of
     PStr s \<Rightarrow> if py_startswith s ''${'' \<and> py_endswith s ''}'' then Some (butlast (drop 2 s)) else None
   | _ \<Rightarrow> None)"

section \<open>Operations of the executor base class\<close>

definition config_key :: "step_data \<Rightarrow> nat option \<Rightarrow> string" where
  "config_key d idx =
     (let base = (if truthy_id (step_id d) then int_str (the (step_id d))
                  else ''@@'' @ py_strip (case step_name d of None \<Rightarrow> ''None'' | Some s \<Rightarrow> s))
      in case idx of None \<Rightarrow> base | Some i \<Rightarrow> base @ ''_@@'' @ int_str (int i))"

definition get_execute_config :: "step_data \<Rightarrow> nat option \<Rightarrow> config_type list option \<Rightarrow> ctx \<Rightarrow> exec_config option" where
  "get_execute_config d idx expected c = (case map_of (c_config c) (config_key d idx) of
     None \<Rightarrow> None
   | Some cfg \<Rightarrow> (case expected of None \<Rightarrow> Some cfg
       | Some ts \<Rightarrow> if config_type cfg \<in> set ts then Some cfg else None))"

definition existing_variable_keys :: "step_data \<Rightarrow> ctx \<Rightarrow> string set" where
  "existing_variable_keys d c =
     set (filter (\<lambda>k. k \<noteq> []) (map var_key (defined_vars d) @ map var_key (session c)))"

text \<open>The built-in variables of a step: HTTP and TCP have them, with one log line for each value that
  is missing.\<close>

definition step_builtins :: "engine_env \<Rightarrow> step_data \<Rightarrow> ctx \<Rightarrow> step_var list \<times> ctx" where
  "step_builtins env d c =
     (if step_type d \<in> {Some HTTP, Some TCP} then
        (let cfg = get_execute_config d None (Some [CFG_APP]) c;
             host = map_option config_host cfg;
             port = (case cfg of None \<Rightarrow> None | Some g \<Rightarrow> if config_port g = [] then None else Some (config_port g));
             path = (if step_type d = Some TCP then Some []
                     else Some (py_strip (case request_url d of None \<Rightarrow> [] | Some u \<Rightarrow> u)));
             existing = existing_variable_keys d c;
             missing = List.map_filter (\<lambda>(n, v). if n \<notin> existing \<and> v = None then Some n else None)
               (builtin_variable_entries (en_server env) host port path)
         in (collect_builtin_step_variables (en_server env) host port path existing,
             fold (\<lambda>n. add_log (LBuiltinMissing n) (step_code d)) missing c))
      else ([], c))"

definition is_quote :: "step_type option \<Rightarrow> bool" where
  "is_quote t = (t \<in> {Some QUOTE_PUBLIC_SCRIPT, Some QUOTE_PUBLIC_API})"

text \<open>\<^verbatim>\<open>execute\<close>, before \<^verbatim>\<open>_execute\<close>: the built-in variables become the defined ones, then
  (not for the quote steps) the step's own, resolved with the built-ins in scope, in front.\<close>

definition prepare_defined :: "engine_env \<Rightarrow> step_data \<Rightarrow> ctx \<Rightarrow> ctx" where
  "prepare_defined env d c =
     (case step_builtins env d c of (builtins, c1) \<Rightarrow>
       (let c2 = c1\<lparr>c_defined := builtins\<rparr> in
        if is_quote (step_type d) then c2
        else (case ctx_resolve_vars env (filter (\<lambda>v. usable_key (var_key v)) (defined_vars d)) c2 of
          (resolved, c3) \<Rightarrow>
            c3\<lparr>c_defined := resolved @ filter (\<lambda>b. var_key b \<notin> set (map var_key resolved)) builtins\<rparr>)))"

definition evaluate_condition :: "engine_env \<Rightarrow> condition \<Rightarrow> ctx \<Rightarrow> (ctx, bool) outcome" where
  "evaluate_condition env cond c =
     (case (condition_expr cond, condition_compare cond) of
        (Some expr, Some op) \<Rightarrow>
          (case ctx_resolve env (PStr expr) c of (resolved, c1) \<Rightarrow>
            (let actual = (case bare_placeholder resolved of
                   None \<Rightarrow> Inr resolved
                 | Some name \<Rightarrow> (case ctx_get_variable name c1 of
                       Inr v \<Rightarrow> Inr v
                     | Inl InvalidName \<Rightarrow> Inl BadVariableName
                     | Inl (UndefinedVariable x) \<Rightarrow> Inl (ConditionUndefined x)))
             in case actual of
                  Inl e \<Rightarrow> Fail c1 (SEE e)
                | Inr a \<Rightarrow>
                    (case ctx_resolve env (condition_value cond) c1 of (w, c2) \<Rightarrow>
                      (case compare_assertion (xe_json_loads (en_xch env)) a (Some op) w of
                         Inl e \<Rightarrow> Fail c2 (SEE (ConditionCompare e))
                       | Inr b \<Rightarrow> Done c2 b))))
      | _ \<Rightarrow> Fail c (SEE ConditionMissing))"

definition empty_exchange :: exchange where
  "empty_exchange = \<lparr>response_text = None, response_json = None, response_headers = None,
     response_cookies = None, request_txt = None, request_json = None, request_headers = None,
     request_cookies = None, request_form = None\<rparr>"

text \<open>The log lines of a pipeline: one for each rule, complete or skipped, in the order of the rules.\<close>

fun rule_logs :: "('i \<Rightarrow> bool) \<Rightarrow> log_entry \<Rightarrow> ('r \<Rightarrow> log_entry) \<Rightarrow> 'i list \<Rightarrow> 'r list \<Rightarrow> log_entry list" where
  "rule_logs ok skipped line [] rs = []"
| "rule_logs ok skipped line (it # its) rs =
     (if \<not> ok it then skipped # rule_logs ok skipped line its rs
      else case rs of [] \<Rightarrow> rule_logs ok skipped line its []
           | r # rs' \<Rightarrow> line r # rule_logs ok skipped line its rs')"

definition extracted_names :: "extract_result list \<Rightarrow> string list" where
  "extracted_names ers =
     keys (fold (\<lambda>e. AList.update (ex_name (er_item e)) (er_value e)) (filter er_success ers) [])"

abbreviation log_all :: "log_entry list \<Rightarrow> string option \<Rightarrow> ctx \<Rightarrow> ctx" where
  "log_all es code c \<equiv> fold (\<lambda>e. add_log e code) es c"

definition log_pipeline ::
    "string option \<Rightarrow> extract_item list \<Rightarrow> extract_result list \<Rightarrow> assert_item list \<Rightarrow> assert_result list \<Rightarrow> ctx \<Rightarrow> ctx" where
  "log_pipeline code rules ers validators ars c =
     (let names = extracted_names ers;
          c1 = log_all (rule_logs extract_rule_complete LExtractSkipped LExtracted rules ers) code c;
          c2 = (if names = [] then c1 else add_log (LUpdated names) None c1)
      in log_all (rule_logs assert_rule_complete LAssertSkipped LAsserted validators ars) code c2)"

text \<open>\<^verbatim>\<open>apply_extract_and_assert\<close>: the results are recorded before a failure is raised. The
  result of the step carries the step code the lines are logged for.\<close>

definition apply_extract_and_assert ::
    "engine_env \<Rightarrow> exchange \<Rightarrow> extract_item list \<Rightarrow> assert_item list \<Rightarrow> dataset option \<Rightarrow> pyval dict \<Rightarrow>
     ctx \<times> step_result \<Rightarrow> (ctx \<times> step_result, unit) outcome" where
  "apply_extract_and_assert env x rules validators ds extra st = (case st of (c, r) \<Rightarrow>
     (let lookup = dict_update (build_session_lookup (c_defined c) (session c)) extra in
      case run_extract_and_assert (en_xch env) x (c_defined c) (session c) (c_tick c) lookup rules validators ds False of
        (out, pool, n) \<Rightarrow>
          (let c1 = c\<lparr>c_pools := (c_pools c)(c_session c := pool), c_tick := n\<rparr> in
           case out of
             Inl _ \<Rightarrow> Done (c1, r) ()
           | Inr (ers, ars) \<Rightarrow>
               (let c2 = log_pipeline (r_step_code (rinfo r)) rules ers validators ars c1;
                    r1 = map_info (\<lambda>i. i\<lparr>r_extract := r_extract i @ ers, r_assert := r_assert i @ ars\<rparr>) r;
                    ef = filter (\<lambda>e. \<not> er_success e) ers; af = filter (\<lambda>a. \<not> ar_success a) ars
                in if ef \<noteq> [] \<or> af \<noteq> [] then Fail (c2, r1) (SEE (PipelineFailed ef af))
                   else Done (c2, r1) ()))))"

text \<open>The branch for \<^verbatim>\<open>Inl\<close> is never taken: failures are raised only with
  \<^verbatim>\<open>raise_on_failure\<close>.\<close>

section \<open>Saving a detail\<close>

definition snapshot_loop_conditions :: "step_data \<Rightarrow> request_snapshot \<Rightarrow> condition option" where
  "snapshot_loop_conditions d req =
     (case req of ReqLoopConditions cond \<Rightarrow> Some cond | _ \<Rightarrow> loop_conditions d)"

definition snapshot_branch_items :: "request_snapshot \<Rightarrow> (branch_type \<times> condition option \<times> string option) list option" where
  "snapshot_branch_items req = (case req of ReqBranch (Some (i, t, cond, desc)) \<Rightarrow> Some [(t, cond, desc)] | _ \<Rightarrow> None)"

definition or_none :: "'a list \<Rightarrow> 'a list option" where
  "or_none xs = (if xs = [] then None else Some xs)"

text \<open>A missing step id is replaced by a timestamp, here the next clock index.\<close>

definition make_detail :: "step_data \<Rightarrow> step_result \<Rightarrow> int option \<Rightarrow> ctx \<Rightarrow> detail" where
  "make_detail d r cycles c =
     (let i = rinfo r; req = r_request i in
      \<lparr>d_case_id = c_case_id c, d_report_code = c_report_code c,
       d_quote_case_id = (if truthy_id (quote_case_id d) then quote_case_id d else r_quote_case_id i),
       d_parent_step_id = (if truthy_id (parent_step_id d) then parent_step_id d else c_quote_parent c),
       d_step_id = (if truthy_id (step_id d) then step_id d else Some (int (c_tick c))),
       d_step_no = step_no d,
       d_step_code = (if truthy_text (step_code d) then the (step_code d) else ''temporary-step-debugging''),
       d_step_type = step_type d, d_step_state = r_success i, d_step_except = r_error i,
       d_logs = (case map_of (c_logs c) (step_code d) of None \<Rightarrow> None | Some l \<Rightarrow> or_none l),
       d_loop_cycles = cycles,
       d_loop_maximums = (case req of ReqLoopMaximums n \<Rightarrow> Some n | _ \<Rightarrow> None),
       d_loop_conditions = snapshot_loop_conditions d req,
       d_branch_match = (case req of ReqBranch (Some (k, _)) \<Rightarrow> Some k | _ \<Rightarrow> None),
       d_branch_items = snapshot_branch_items req,
       d_dataset_name = (if r_dataset i = None then None else r_dataset_name i),
       d_dataset = r_dataset i,
       d_session = or_none (session c), d_defined = or_none (c_defined c),
       d_extract = or_none (r_extract i), d_assert = or_none (r_assert i)\<rparr>)"

text \<open>\<^verbatim>\<open>_save_step_detail\<close> with the handling of its failure in \<^verbatim>\<open>execute\<close>.\<close>

definition save_step_detail :: "engine_env \<Rightarrow> step_data \<Rightarrow> int option \<Rightarrow> ctx \<times> step_result \<Rightarrow> ctx \<times> step_result" where
  "save_step_detail env d cycles st = (case st of (c, r) \<Rightarrow>
     (if \<not> truthy_text (c_report_code c) then (c, r)
      else (let det = make_detail d r cycles c in
        case en_detail_error env det of
          Some e \<Rightarrow> (let e' = DetailFailed e (r_error (rinfo r)) in
             (add_log (LError (DetailFailed e None)) (step_code d) c, set_error e' r))
        | None \<Rightarrow> (c\<lparr>c_pending := map_option (\<lambda>ds. ds @ [det]) (c_pending c)\<rparr>, r))))"

section \<open>Executors\<close>

text \<open>An executor runs on the context and the result it fills in.\<close>

type_synonym xstate = "ctx \<times> step_result"

definition on_ctx :: "(ctx, 'a) outcome \<Rightarrow> step_result \<Rightarrow> (xstate, 'a) outcome" where
  "on_ctx m r = (case m of Done c a \<Rightarrow> Done (c, r) a | Fail c e \<Rightarrow> Fail (c, r) e | Stuck \<Rightarrow> Stuck)"

lemma on_ctx_simps [simp]:
  "on_ctx (Done c a) r = Done (c, r) a" "on_ctx (Fail c e) r = Fail (c, r) e" "on_ctx Stuck r = Stuck"
  by (auto simp: on_ctx_def)

abbreviation log_step :: "log_entry \<Rightarrow> step \<Rightarrow> xstate \<Rightarrow> xstate" where
  "log_step e s st \<equiv> (add_log e (step_code (sdata s)) (fst st), snd st)"

text \<open>The last handler of an \<^verbatim>\<open>_execute\<close>: what is not a \<^verbatim>\<open>StepExecutionError\<close> is
  formatted, recorded, logged and raised again as one.\<close>

definition wrap_other :: "step_data \<Rightarrow> (xstate, 'a) outcome \<Rightarrow> (xstate, 'a) outcome" where
  "wrap_other d m = (case m of
     Fail (c, r) (OtherExn e) \<Rightarrow>
       (let f = Formatted False e in Fail (add_log (LError f) (step_code d) c, set_error f r) (SEE f))
   | _ \<Rightarrow> m)"

end
