(* ===== verification/Requests.thy ===== *)
theory Requests
  imports EngineState
begin

text \<open>
  The executors of \<^verbatim>\<open>services/autotest_step_engine.py\<close> for database and Redis operations, Python code
  and message comparison. The servers, the interpreter and the lookup of a project by name are
  parameters of the environment; what the executors do with their answers is modelled.

  The two kinds of operations differ in how they take the database name, in whether the variable name is
  resolved and in what counts as a found result; the loop over the operations is the same.
\<close>

section \<open>Database and Redis operations\<close>

definition operate_type :: "operate_class \<Rightarrow> config_type" where
  "operate_type cls = (case cls of SqlOperate \<Rightarrow> CFG_DB | RedisOperate \<Rightarrow> CFG_REDIS)"

definition operate_step :: "operate_class \<Rightarrow> step_type" where
  "operate_step cls = (case cls of SqlOperate \<Rightarrow> DATABASE | RedisOperate \<Rightarrow> REDIS)"

definition operates_of :: "operate_class \<Rightarrow> step_data \<Rightarrow> operate list" where
  "operates_of cls d = (case cls of SqlOperate \<Rightarrow> database_operates d | RedisOperate \<Rightarrow> redis_operates d)"

definition stops_when_found :: "operate_class \<Rightarrow> step_data \<Rightarrow> bool" where
  "stops_when_found cls d = (case cls of SqlOperate \<Rightarrow> database_searched d | RedisOperate \<Rightarrow> redis_searched d)"

text \<open>The environment configuration of one operation; \<^verbatim>\<open>None\<close> when nothing in it is set.\<close>

record place =
  pl_env :: string
  pl_host :: string
  pl_port :: string
  pl_config :: string
  pl_database :: "string option"

definition operate_place :: "operate_class \<Rightarrow> exec_config option \<Rightarrow> operate \<Rightarrow> place option" where
  "operate_place cls cfg op = (case cfg of
     None \<Rightarrow> None
   | Some g \<Rightarrow>
       (let env = py_strip (env_name g) in
        if env = [] \<and> config_host g = [] \<and> config_port g = [] then None
        else Some \<lparr>pl_env = env, pl_host = config_host g, pl_port = config_port g, pl_config = config_name g,
          pl_database = (case cls of SqlOperate \<Rightarrow> config_database g
            | RedisOperate \<Rightarrow> if truthy_text (config_database g) then config_database g
                else Some (op_database_name op))\<rparr>))"

text \<open>The resolution of a text is a text.\<close>

definition resolve_str :: "engine_env \<Rightarrow> string \<Rightarrow> ctx \<Rightarrow> string \<times> ctx" where
  "resolve_str env s c = (case ctx_resolve env (PStr s) c of (v, c1) \<Rightarrow>
     (case v of PStr t \<Rightarrow> (t, c1) | _ \<Rightarrow> (s, c1)))"

record resolved_operate =
  ro_expr :: string
  ro_config :: string
  ro_project :: string
  ro_database :: "string option"
  ro_name :: string

definition resolve_operate :: "engine_env \<Rightarrow> operate_class \<Rightarrow> place \<Rightarrow> operate \<Rightarrow> ctx \<Rightarrow> resolved_operate \<times> ctx" where
  "resolve_operate env cls pl op c =
     (case resolve_str env (op_expr op) c of (e, c1) \<Rightarrow>
      (case resolve_str env (pl_config pl) c1 of (g, c2) \<Rightarrow>
      (case resolve_str env (op_project_name op) c2 of (p, c3) \<Rightarrow>
      (case (case pl_database pl of None \<Rightarrow> (None, c3)
             | Some d \<Rightarrow> (case resolve_str env d c3 of (t, c4) \<Rightarrow> (Some t, c4))) of (d, c4) \<Rightarrow>
      (case (case cls of SqlOperate \<Rightarrow> (op_variable_name op, c4)
             | RedisOperate \<Rightarrow> resolve_str env (op_variable_name op) c4) of (v, c5) \<Rightarrow>
        (\<lparr>ro_expr = e, ro_config = g, ro_project = p, ro_database = d, ro_name = v\<rparr>, c5))))))"

text \<open>The project by its id, or by its name when there is no id.\<close>

definition operate_project :: "engine_env \<Rightarrow> nat \<Rightarrow> operate \<Rightarrow> resolved_operate \<Rightarrow> exn + int option" where
  "operate_project env idx op ro =
     (if \<not> truthy_id (op_project_id op) \<and> py_strip (ro_project ro) \<noteq> [] then
        (case en_find_project env (py_strip (ro_project ro)) of
           Inl e \<Rightarrow> Inl (OtherExn e)
         | Inr None \<Rightarrow> Inl (SEE (OperateProjectUnknown idx))
         | Inr (Some p) \<Rightarrow> Inr (Some p))
      else Inr (op_project_id op))"

definition operate_target :: "nat \<Rightarrow> place \<Rightarrow> resolved_operate \<Rightarrow> int option \<Rightarrow> err + target" where
  "operate_target idx pl ro project =
     (if \<not> truthy_id project then Inl (OperateFieldMissing idx ''project_id'')
      else if ro_config ro = [] then Inl (OperateFieldMissing idx ''config_name'')
      else if \<not> truthy_text (ro_database ro) then Inl (OperateFieldMissing idx ''database_name'')
      else if ro_expr ro = [] then Inl (OperateFieldMissing idx ''expr'')
      else if ro_name ro = [] then Inl (OperateFieldMissing idx ''variable_name'')
      else Inr \<lparr>tg_project = the project, tg_env = pl_env pl, tg_config = ro_config ro, tg_database = the (ro_database ro)\<rparr>)"

text \<open>One operation: the answer of the server, data and count, or an exception; with the project known
  by then.\<close>

definition run_operate ::
    "engine_env \<Rightarrow> operate_class \<Rightarrow> nat \<Rightarrow> place \<Rightarrow> operate \<Rightarrow> resolved_operate \<Rightarrow> ctx \<Rightarrow>
     (exn + pyval \<times> pyval) \<times> int option \<times> ctx" where
  "run_operate env cls idx pl op ro c = (case operate_project env idx op ro of
     Inl e \<Rightarrow> (Inl e, op_project_id op, c)
   | Inr project \<Rightarrow> (case operate_target idx pl ro project of
       Inl e \<Rightarrow> (Inl (SEE e), project, c)
     | Inr tg \<Rightarrow>
         (case en_operate env cls tg (ro_expr ro) (c_tick c) of
            Inl e \<Rightarrow> (Inl (OtherExn e), project, c\<lparr>c_tick := Suc (c_tick c)\<rparr>)
          | Inr a \<Rightarrow> (Inr a, project, c\<lparr>c_tick := Suc (c_tick c)\<rparr>))))"

text \<open>\<^verbatim>\<open>has_effective_redis_result\<close>, and rows of a query.\<close>

definition effective_value :: "pyval \<Rightarrow> bool" where
  "effective_value v = (case v of PNone \<Rightarrow> False | PList xs \<Rightarrow> xs \<noteq> [] | PDict d \<Rightarrow> d \<noteq> []
     | PStr s \<Rightarrow> py_strip s \<noteq> [] | _ \<Rightarrow> True)"

definition has_effective_redis_result :: "pyval \<Rightarrow> bool" where
  "has_effective_redis_result v = (case v of PList xs \<Rightarrow> list_ex effective_value xs | _ \<Rightarrow> False)"

definition operate_found :: "operate_class \<Rightarrow> pyval \<Rightarrow> bool" where
  "operate_found cls data = (case cls of
     SqlOperate \<Rightarrow> (case data of PList xs \<Rightarrow> xs \<noteq> [] | _ \<Rightarrow> False)
   | RedisOperate \<Rightarrow> has_effective_redis_result data)"

definition count_name :: "string \<Rightarrow> string" where
  "count_name name = name @ ''_count''"

definition text_or_none :: "string option \<Rightarrow> pyval" where
  "text_or_none s = (case s of None \<Rightarrow> PNone | Some t \<Rightarrow> PStr t)"

definition id_or_none :: "int option \<Rightarrow> pyval" where
  "id_or_none i = (case i of None \<Rightarrow> PNone | Some n \<Rightarrow> PInt n)"

text \<open>The entry of an operation in the response of the step.\<close>

definition response_entry ::
    "operate_class \<Rightarrow> nat \<Rightarrow> place \<Rightarrow> operate \<Rightarrow> resolved_operate \<Rightarrow> int option \<Rightarrow> pyval \<Rightarrow> pyval \<Rightarrow> string option \<Rightarrow> pyval" where
  "response_entry cls idx pl op ro project data count failure =
     (let start = [(''index'', PInt (int idx)), (''name'', PStr (op_name op)),
            (''variable_name'', PList [PStr (ro_name ro), PStr (count_name (ro_name ro))])];
          meta = [(''env_name'', PStr (pl_env pl)), (''project_id'', id_or_none project),
            (''project_name'', PStr (ro_project ro)), (''config_name'', PStr (ro_config ro)),
            (''database_name'', text_or_none (ro_database ro)), (''config_host'', PStr (pl_host pl)),
            (''config_port'', PStr (pl_port pl))];
          err = (case failure of None \<Rightarrow> [] | Some t \<Rightarrow> [(''error'', PStr t)])
      in PDict (case cls of
           SqlOperate \<Rightarrow> start @ meta @ [(''sql_data'', data), (''sql_count'', count)] @ err
         | RedisOperate \<Rightarrow> start @ [(''redis_meta'', PDict meta), (''redis_data'', data), (''redis_count'', count)] @ err))"

text \<open>The two variables an operation leaves: its data and its count.\<close>

definition stored_item :: "engine_env \<Rightarrow> step_type \<Rightarrow> nat option \<Rightarrow> string \<Rightarrow> pyval \<Rightarrow> extract_result" where
  "stored_item env t idx name value =
     \<lparr>er_item = \<lparr>ex_name = name, ex_source = fst (en_label env t), ex_expr = snd (en_label env t),
        ex_scope = Some ''ALL'', ex_index = map_option int idx\<rparr>, er_value = value, er_error = None\<rparr>"

definition operate_marks :: "engine_env \<Rightarrow> operate_class \<Rightarrow> nat \<Rightarrow> string \<Rightarrow> pyval \<Rightarrow> pyval \<Rightarrow> extract_result list" where
  "operate_marks env cls idx name data count =
     [stored_item env (operate_step cls) (Some idx) name data,
      stored_item env (operate_step cls) (Some idx) (count_name name) count]"

text \<open>
  The operations in order. An error of the engine ends the step; any other exception fails it, is entered
  in the response, and the next operation runs. A found result ends the operations when the step says so.
\<close>

fun run_operates ::
    "engine_env \<Rightarrow> operate_class \<Rightarrow> step \<Rightarrow> nat \<Rightarrow> operate list \<Rightarrow> xstate \<Rightarrow> (xstate, extract_result list \<times> pyval list) outcome" where
  "run_operates env cls s idx [] st = Done st ([], [])"
| "run_operates env cls s idx (op # ops) st =
     (let d = sdata s in
      case operate_place cls (get_execute_config d (Some idx) (Some [operate_type cls]) (fst st)) op of
        None \<Rightarrow> Fail st (SEE (OperateConfigMissing idx))
      | Some pl \<Rightarrow> (case resolve_operate env cls pl op (fst st) of (ro, c1) \<Rightarrow>
          (case run_operate env cls idx pl op ro c1 of (out, project, c2) \<Rightarrow>
            (case out of
               Inl (SEE e) \<Rightarrow> Fail (c2, snd st) (SEE e)
             | Inl (OtherExn e) \<Rightarrow>
                 (let f = OperateFailed idx e;
                      entry = response_entry cls idx pl op ro project PNone PNone (Some (en_error_text env idx e))
                  in bind (run_operates env cls s (Suc idx) ops (add_log (LError f) (step_code d) c2, set_error f (snd st)))
                    (\<lambda>st1 (ms, rs). Done st1 (ms, entry # rs)))
             | Inr (data, count) \<Rightarrow>
                 (let c3 = (if cls = RedisOperate then add_log (LStored (ro_name ro)) (step_code d) c2 else c2);
                      marks = operate_marks env cls idx (ro_name ro) data count;
                      entry = response_entry cls idx pl op ro project data count None
                  in if stops_when_found cls d \<and> operate_found cls data
                     then Done (add_log (LSearched idx) (step_code d) c3, snd st) (marks, [entry])
                     else bind (run_operates env cls s (Suc idx) ops (c3, snd st))
                       (\<lambda>st1 (ms, rs). Done st1 (marks @ ms, entry # rs)))))))"

definition stored_values :: "extract_result list \<Rightarrow> pyval dict" where
  "stored_values ms = fold (\<lambda>m. AList.update (ex_name (er_item m)) (er_value m)) ms []"

definition set_stored :: "extract_result list \<Rightarrow> response_info \<Rightarrow> step_result \<Rightarrow> step_result" where
  "set_stored ms resp r = map_info (\<lambda>i. i\<lparr>r_extract := ms, r_response := resp\<rparr>) r"

definition execute_operates :: "engine_env \<Rightarrow> operate_class \<Rightarrow> step \<Rightarrow> xstate \<Rightarrow> (xstate, unit) outcome" where
  "execute_operates env cls s st = wrap_other (sdata s)
     (if operates_of cls (sdata s) = [] then Fail st (SEE OperatesEmpty)
      else bind (run_operates env cls s 0 (operates_of cls (sdata s)) st) (\<lambda>st1 (ms, rs).
        (case ph_dumps (en_ph env) (PList rs) of
           None \<Rightarrow> Fail st1 (OtherExn (External ''dumps''))
         | Some text \<Rightarrow>
             apply_extract_and_assert env
               (empty_exchange\<lparr>response_text := Some text, response_json := Some (PList rs)\<rparr>)
               (extract_rules (sdata s)) (assert_rules (sdata s)) None (stored_values ms)
               (fst st1, set_stored ms (RespBody (PList rs)) (snd st1)))))"

section \<open>Python code\<close>

definition max_code_length :: nat where
  "max_code_length = 65536"

definition code_fails :: "err \<Rightarrow> ctx \<Rightarrow> (ctx, 'a) outcome" where
  "code_fails e c = Fail (add_log (LError e) None c) (SEE e)"

definition clone_state :: "ctx \<Rightarrow> pyval dict" where
  "clone_state c = [(''defined_variables'', PDict (list_to_dict (c_defined c))),
     (''session_variables'', PDict (list_to_dict (session c)))]"

text \<open>The value of a code must be a dictionary or a list of them; \<^verbatim>\<open>None\<close> is the empty dictionary.
  The keys of a modelled dictionary are texts already.\<close>

definition accept_result :: "pyval \<Rightarrow> ctx \<Rightarrow> (ctx, pyval) outcome" where
  "accept_result v c = (case v of
     PNone \<Rightarrow> Done (add_log (LCodeResult PNone) None c) (PDict [])
   | PDict d \<Rightarrow> Done (add_log (LCodeResult v) None c) v
   | PList xs \<Rightarrow>
       if list_all (\<lambda>x. case x of PDict _ \<Rightarrow> True | _ \<Rightarrow> False) xs
       then Done (add_log (LCodeResult v) None c) v
       else code_fails (CodeResultType v) c
   | _ \<Rightarrow> code_fails (CodeResultType v) c)"

text \<open>\<^verbatim>\<open>run_python_code\<close>: \<^verbatim>\<open>Stuck\<close> when the resolution of the code does not return.\<close>

definition run_python_code :: "engine_env \<Rightarrow> string \<Rightarrow> ctx \<Rightarrow> (ctx, pyval) outcome" where
  "run_python_code env code c =
     (if code = [] then Done c (PDict [])
      else if max_code_length < length code then code_fails (CodeTooLong (length code)) c
      else (case resolve_code_placeholders (en_ph env) (ctx_source c) (c_tick c) code of
        (None, n) \<Rightarrow> Stuck
      | (Some resolved, n) \<Rightarrow>
          (let prepared = normalize_python_code resolved; c1 = c\<lparr>c_tick := n\<rparr> in
           case validate_user_python (en_parse env) prepared of
             Some e \<Rightarrow> code_fails (CodeForbidden e) c1
           | None \<Rightarrow>
               (let c2 = c\<lparr>c_tick := Suc n\<rparr> in
                case en_run_code env prepared (new_exec_context (clone_state c)) n of
                  Inl e \<Rightarrow> code_fails (CodeStopped (CodeRaised e)) c2
                | Inr x \<Rightarrow> (case code_value_of x of
                    Inl e \<Rightarrow> code_fails (CodeStopped e) c2
                  | Inr v \<Rightarrow> accept_result v c2)))))"

text \<open>The code of a step resolves in every context when no placeholder stands in quotes.\<close>

definition code_settles :: "step_data \<Rightarrow> bool" where
  "code_settles d = (step_type d \<noteq> Some PYTHON \<or> (case code_text d of None \<Rightarrow> True | Some t \<Rightarrow> \<not> quoted_holes t))"

definition pack_python_result :: "engine_env \<Rightarrow> pyval \<Rightarrow> extract_result list \<times> pyval dict" where
  "pack_python_result env v = (case v of
     PDict d \<Rightarrow> (map (\<lambda>(k, x). stored_item env PYTHON None k x) d, d)
   | _ \<Rightarrow> ([stored_item env PYTHON None ''result'' v], [(''result'', v)]))"

definition pool_source :: "engine_env \<Rightarrow> string \<Rightarrow> bool" where
  "pool_source env source =
     (let t = py_lower (py_strip source) in t = ''session_variables'' \<or> t = xe_pool_alias (en_xch env))"

definition execute_python :: "engine_env \<Rightarrow> step \<Rightarrow> xstate \<Rightarrow> (xstate, unit) outcome" where
  "execute_python env s st = wrap_other (sdata s)
     (if \<not> truthy_text (code_text (sdata s)) then Fail st (SEE CodeMissing)
      else bind (on_ctx (run_python_code env (the (code_text (sdata s))) (fst st)) (snd st)) (\<lambda>st1 v.
        (let (r1, extra) = (if v = PDict [] then (snd st1, [])
               else (case pack_python_result env v of (items, d) \<Rightarrow> (set_stored items (RespBody v) (snd st1), d)));
             rules = assert_rules (sdata s)
         in case find (\<lambda>a. \<not> pool_source env (as_source a)) rules of
              Some a \<Rightarrow> Fail (fst st1, r1) (SEE (SourceOutsidePool (py_lower (py_strip (as_source a)))))
            | None \<Rightarrow>
                if rules = [] then Done (fst st1, r1) ()
                else apply_extract_and_assert env empty_exchange [] rules None extra (fst st1, r1))))"

section \<open>Message comparison\<close>

definition to_message_text :: "engine_env \<Rightarrow> pyval \<Rightarrow> string option" where
  "to_message_text env v = (case v of PNone \<Rightarrow> Some [] | PStr s \<Rightarrow> Some s
     | PDict _ \<Rightarrow> ph_dumps (en_ph env) v | PList _ \<Rightarrow> ph_dumps (en_ph env) v | _ \<Rightarrow> Some (py_str v))"

text \<open>A bare variable name stands for its placeholder; an unresolved placeholder is looked up once more,
  under the stripped name.\<close>

definition resolve_message_ref :: "engine_env \<Rightarrow> pyval \<Rightarrow> ctx \<Rightarrow> pyval \<times> ctx" where
  "resolve_message_ref env raw c =
     (if raw = PNone then (PNone, c)
      else (let text = py_strip (py_str raw) in
        if text = [] then (PStr [], c)
        else (let ref = (if py_contains text ''${'' then text else ''${'' @ text @ ''}'') in
          case ctx_resolve env (PStr ref) c of (resolved, c1) \<Rightarrow>
            (case bare_placeholder resolved of
               None \<Rightarrow> (resolved, c1)
             | Some name \<Rightarrow>
                 if py_strip name = [] then (resolved, c1)
                 else (case ctx_get_variable (py_strip name) c1 of Inr v \<Rightarrow> (v, c1) | Inl _ \<Rightarrow> (resolved, c1))))))"

definition field_ordered :: "int option \<Rightarrow> err + int" where
  "field_ordered raw = (case raw of None \<Rightarrow> Inr 0 | Some n \<Rightarrow> if n = 0 \<or> n = 1 then Inr n else Inl (CompareOrderBad n))"

text \<open>The first comparison that is incomplete or has a wrong order control.\<close>

fun check_comparisons :: "nat \<Rightarrow> compare_item list \<Rightarrow> err option" where
  "check_comparisons i [] = None"
| "check_comparisons i (x # xs) =
     (if ci_left x = PNone \<or> ci_right x = PNone then Some (CompareItemIncomplete i)
      else case field_ordered (ci_ordered x) of Inl e \<Rightarrow> Some e | Inr _ \<Rightarrow> check_comparisons (Suc i) xs)"

fun run_comparisons :: "engine_env \<Rightarrow> compare_item list \<Rightarrow> ctx \<Rightarrow> (ctx, diff_result list) outcome" where
  "run_comparisons env [] c = Done c []"
| "run_comparisons env (x # xs) c =
     (case resolve_message_ref env (ci_left x) c of (l, c1) \<Rightarrow>
       (case to_message_text env l of
          None \<Rightarrow> Fail c1 (OtherExn (External ''dumps''))
        | Some left_text \<Rightarrow> (case resolve_message_ref env (ci_right x) c1 of (r, c2) \<Rightarrow>
            (case to_message_text env r of
               None \<Rightarrow> Fail c2 (OtherExn (External ''dumps''))
             | Some right_text \<Rightarrow>
                 (let order = (case ci_ordered x of None \<Rightarrow> 0 | Some n \<Rightarrow> n);
                      dr = compare_messages (en_json_ok env) (en_xml_ok env) left_text right_text order
                  in bind (run_comparisons env xs c2) (\<lambda>c3 drs. Done c3 (dr # drs)))))))"

definition failed_indices :: "diff_result list \<Rightarrow> nat list" where
  "failed_indices drs = map fst (filter (\<lambda>(i, dr). \<not> df_equal dr) (enumerate 0 drs))"

definition execute_diff :: "engine_env \<Rightarrow> step \<Rightarrow> xstate \<Rightarrow> (xstate, unit) outcome" where
  "execute_diff env s st = wrap_other (sdata s)
     (let items = compare_items (sdata s) in
      if items = [] then Fail st (SEE CompareItemsMissing)
      else case check_comparisons 0 items of
        Some e \<Rightarrow> Fail st (SEE e)
      | None \<Rightarrow>
          bind (on_ctx (run_comparisons env items (add_log (LCompareStart (length items)) (step_code (sdata s)) (fst st))) (snd st))
            (\<lambda>st1 drs.
              (let r1 = map_info (\<lambda>i. i\<lparr>r_response := RespDiff drs\<rparr>) (snd st1); bad = failed_indices drs in
               if bad \<noteq> [] then Fail (fst st1, r1) (SEE (MessagesDiffer bad))
               else Done (add_log LCompareDone (step_code (sdata s)) (fst st1), r1) ())))"

end
