(* ===== verification/Network.thy ===== *)
theory Network
  imports Requests
begin

text \<open>
  The executors of \<^verbatim>\<open>services/autotest_step_engine.py\<close> for HTTP and TCP requests: the address, the dataset
  of the step, the replacement of its fields in the message, the placeholders, the exchange itself and what
  the extraction reads of it. The HTTP client and the TCP servers are parameters of the environment; timings
  and the timeouts a step asks for are left out.

  The replacement of a body is made in place on the body of the step. Here every run of a step starts from
  the body of the step; that a value injected twice is the value injected once is shown in \<^verbatim>\<open>Datagram\<close>.
\<close>

section \<open>Fields of a request\<close>

text \<open>\<^verbatim>\<open>convert_list_to_dict_for_http\<close>. The keys of the list are texts.\<close>

definition http_entry :: "pyval \<Rightarrow> (string \<times> pyval) option" where
  "http_entry item = (case item of
     PDict d \<Rightarrow> (case map_of d ''key'' of
         None \<Rightarrow> None
       | Some k \<Rightarrow> if k = PNone \<or> py_strip (py_str k) = [] then None
           else Some (py_str k, case map_of d ''value'' of None \<Rightarrow> PNone | Some v \<Rightarrow> v))
   | _ \<Rightarrow> None)"

definition convert_list_to_dict_for_http :: "pyval \<Rightarrow> pyval dict" where
  "convert_list_to_dict_for_http data = (case data of
     PList xs \<Rightarrow> fold (\<lambda>(k, v). AList.update k v) (List.map_filter http_entry xs) []
   | _ \<Rightarrow> [])"

definition try_serialize_request_body :: "engine_env \<Rightarrow> pyval \<Rightarrow> pyval" where
  "try_serialize_request_body env raw = (case raw of
     PStr s \<Rightarrow> if py_strip s = [] then PDict [] else (case ph_loads (en_ph env) s of None \<Rightarrow> raw | Some v \<Rightarrow> v)
   | _ \<Rightarrow> raw)"

definition has_dataset_payload :: "dataset option \<Rightarrow> bool" where
  "has_dataset_payload ds = (case ds of None \<Rightarrow> False
     | Some s \<Rightarrow> ds_head s \<noteq> [] \<or> ds_body s \<noteq> [] \<or> ds_assert_head s \<noteq> [] \<or> ds_assert_body s \<noteq> [])"

definition text_value :: "pyval \<Rightarrow> string option" where
  "text_value v = (case v of PStr s \<Rightarrow> Some s | _ \<Rightarrow> None)"

definition first_sign :: "(char \<Rightarrow> bool) \<Rightarrow> string \<Rightarrow> string \<Rightarrow> bool" where
  "first_sign space signs s = (case dropWhile space s of [] \<Rightarrow> False | c # cs \<Rightarrow> c \<in> set signs)"

definition looks_like_xml_payload :: "string option \<Rightarrow> bool" where
  "looks_like_xml_payload s = (case s of None \<Rightarrow> False
     | Some t \<Rightarrow> first_sign (\<lambda>c. c = CHR '' '' \<or> char_code c \<in> {9, 10, 13}) ''<'' t)"

definition resolve_datagram_is_xml :: "args_type option \<Rightarrow> string option \<Rightarrow> pyval \<Rightarrow> bool" where
  "resolve_datagram_is_xml t txt body =
     (t = Some ArgXml \<or> (t \<noteq> Some ArgJson \<and> (looks_like_xml_payload txt \<or> looks_like_xml_payload (text_value body))))"

text \<open>A message that is stored in the body as a text.\<close>

definition xml_source :: "string option \<Rightarrow> pyval \<Rightarrow> string option" where
  "xml_source txt body = (case txt of
     Some s \<Rightarrow> if py_strip s \<noteq> [] then txt else text_value body | None \<Rightarrow> text_value body)"

definition fall_back_text :: "args_type option \<Rightarrow> string option \<Rightarrow> pyval \<Rightarrow> string option" where
  "fall_back_text t txt body =
     (if truthy_text txt then txt
      else (case body of PStr b \<Rightarrow> if t = Some ArgXml \<or> first_sign is_space ''<'' b then Some b else txt | _ \<Rightarrow> txt))"

section \<open>The dataset\<close>

definition load_step_dataset :: "engine_env \<Rightarrow> step_data \<Rightarrow> ctx \<Rightarrow> dataset option" where
  "load_step_dataset env d c =
     (if truthy_id (c_quote_case c) then c_quote_dataset c
      else if truthy_text (c_dataset_name c) \<and> truthy_text (step_code d)
      then en_load_dataset env (case_id d) (step_code d) (the (c_dataset_name c))
      else None)"

definition set_dataset :: "dataset option \<Rightarrow> string option \<Rightarrow> step_result \<Rightarrow> step_result" where
  "set_dataset ds name r = map_info (\<lambda>i. i\<lparr>r_dataset := ds, r_dataset_name := name\<rparr>) r"

text \<open>A message with the fields of a dataset in it: the parts, the text, or the exception, and the lists of
  paths that were reported as not found.\<close>

type_synonym replaced = "(err + channels \<times> string option) \<times> string list list"

definition dumped :: "engine_env \<Rightarrow> channels \<Rightarrow> string list list \<Rightarrow> replaced" where
  "dumped env ch missed = (case ph_dumps (en_ph env) (ch_body ch) of
     None \<Rightarrow> (Inl DumpRaised, missed) | Some t \<Rightarrow> (Inr (ch, Some t), missed))"

definition replace_xml_text :: "engine_env \<Rightarrow> dataset \<Rightarrow> channels \<Rightarrow> string option \<Rightarrow> string list list \<Rightarrow> replaced" where
  "replace_xml_text env ds ch txt missed =
     (case replace_xml_datagram (en_xch env) (ds_body ds) (xml_source txt (ch_body ch)) of (out, missed1) \<Rightarrow>
       (case out of Inl f \<Rightarrow> Inl (XmlReplaceRaised f) | Inr t \<Rightarrow> Inr (ch, t), missed @ [missed1]))"

definition headers_only :: "channels \<Rightarrow> channels" where
  "headers_only ch = \<lparr>ch_headers = ch_headers ch, ch_body = PNone, ch_form = PNone, ch_urlencoded = PNone, ch_params = PNone\<rparr>"

definition replace_http :: "engine_env \<Rightarrow> args_type option \<Rightarrow> dataset option \<Rightarrow> channels \<Rightarrow> string option \<Rightarrow> replaced" where
  "replace_http env t ds ch txt =
     (if \<not> has_dataset_payload ds then (Inr (ch, txt), [])
      else if resolve_datagram_is_xml t txt (ch_body ch) then
        (case replace_json_datagram (en_dgm env) (ds_head (the ds)) [] (headers_only ch) of
           Inl e \<Rightarrow> (Inl (ReplaceRaised e), [])
         | Inr (h, missed) \<Rightarrow> replace_xml_text env (the ds) (ch\<lparr>ch_headers := ch_headers h\<rparr>) txt [missed])
      else
        (case replace_json_datagram (en_dgm env) (ds_head (the ds)) (ds_body (the ds)) ch of
           Inl e \<Rightarrow> (Inl (ReplaceRaised e), [])
         | Inr (ch1, missed) \<Rightarrow>
             if is_container (ch_body ch1) \<and> txt \<noteq> None \<and> first_sign is_space ''{['' (the txt)
             then dumped env ch1 [missed] else (Inr (ch1, txt), [missed])))"

definition body_for_replace :: "engine_env \<Rightarrow> pyval \<Rightarrow> string option \<Rightarrow> pyval" where
  "body_for_replace env body txt =
     (if (body = PNone \<or> body = PDict [] \<or> body = PStr []) \<and> txt \<noteq> None \<and> starts_json (py_strip (the txt))
      then (case ph_loads (en_ph env) (the txt) of None \<Rightarrow> body | Some v \<Rightarrow> v) else body)"

definition replace_tcp :: "engine_env \<Rightarrow> args_type option \<Rightarrow> dataset option \<Rightarrow> pyval \<Rightarrow> string option \<Rightarrow> replaced" where
  "replace_tcp env t ds body txt =
     (let ch = \<lparr>ch_headers = None, ch_body = body, ch_form = PNone, ch_urlencoded = PNone, ch_params = PNone\<rparr> in
      if \<not> has_dataset_payload ds then (Inr (ch, txt), [])
      else if resolve_datagram_is_xml t txt body then replace_xml_text env (the ds) ch txt []
      else
        (case replace_json_datagram (en_dgm env) [] (ds_body (the ds)) (ch\<lparr>ch_body := body_for_replace env body txt\<rparr>) of
           Inl e \<Rightarrow> (Inl (ReplaceRaised e), [])
         | Inr (ch1, missed) \<Rightarrow> (case ch_body ch1 of
             PStr s \<Rightarrow> (Inr (ch1, if s = [] then txt else Some s), [missed])
           | _ \<Rightarrow> if is_container (ch_body ch1) then dumped env ch1 [missed] else (Inr (ch1, txt), [missed]))))"

definition log_missed :: "string option \<Rightarrow> string list list \<Rightarrow> ctx \<Rightarrow> ctx" where
  "log_missed code missed c = fold (\<lambda>m. add_log (LMissedPaths m) code) (filter (\<lambda>m. m \<noteq> []) missed) c"

section \<open>Placeholders\<close>

definition dict_or_none :: "pyval dict option \<Rightarrow> pyval" where
  "dict_or_none d = (case d of None \<Rightarrow> PNone | Some x \<Rightarrow> PDict x)"

definition dict_value :: "pyval \<Rightarrow> pyval dict option" where
  "dict_value v = (case v of PDict d \<Rightarrow> Some d | _ \<Rightarrow> None)"

definition resolve_channels :: "engine_env \<Rightarrow> channels \<Rightarrow> ctx \<Rightarrow> channels \<times> ctx" where
  "resolve_channels env ch c =
     (case ctx_resolve env (dict_or_none (ch_headers ch)) c of (h, c1) \<Rightarrow>
      (case ctx_resolve env (ch_params ch) c1 of (p, c2) \<Rightarrow>
      (case ctx_resolve env (ch_form ch) c2 of (f, c3) \<Rightarrow>
      (case ctx_resolve env (ch_urlencoded ch) c3 of (u, c4) \<Rightarrow>
      (case ctx_resolve env (ch_body ch) c4 of (b, c5) \<Rightarrow>
        (\<lparr>ch_headers = dict_value h, ch_body = b, ch_form = f, ch_urlencoded = u, ch_params = p\<rparr>, c5))))))"

definition resolve_message_text :: "engine_env \<Rightarrow> bool \<Rightarrow> string option \<Rightarrow> ctx \<Rightarrow> (ctx, string option) outcome" where
  "resolve_message_text env is_xml txt c =
     (if is_xml \<and> truthy_text txt then
        (case resolve_xml_placeholders (en_xch env) (ctx_source c) (c_tick c) (the txt) of
           (None, n) \<Rightarrow> Fail (c\<lparr>c_tick := n\<rparr>) (OtherExn PlaceholderRaised)
         | (Some s, n) \<Rightarrow> Done (c\<lparr>c_tick := n\<rparr>) (Some s))
      else (case ctx_resolve env (text_or_none txt) c of (v, c1) \<Rightarrow> Done c1 (text_value v)))"

section \<open>HTTP\<close>

definition step_address :: "step_data \<Rightarrow> string" where
  "step_address d = py_strip (case request_url d of None \<Rightarrow> [] | Some u \<Rightarrow> u)"

text \<open>The address of the request and the name of the environment.\<close>

definition http_address :: "step_data \<Rightarrow> exec_config option \<Rightarrow> string \<times> string option" where
  "http_address d cfg = (case cfg of
     None \<Rightarrow> (step_address d, None)
   | Some g \<Rightarrow>
       (if is_absolute_http_url (step_address d) then step_address d
        else build_absolute_http_url (py_strip (config_host g)) (py_strip (config_port g)) (step_address d),
        Some (env_name g)))"

definition http_parts :: "engine_env \<Rightarrow> step_data \<Rightarrow> channels" where
  "http_parts env d =
     \<lparr>ch_headers = Some (convert_list_to_dict_for_http (request_header d)),
      ch_body = try_serialize_request_body env (request_body d),
      ch_form = PDict (convert_list_to_dict_for_http (request_form_data d)),
      ch_urlencoded = PDict (convert_list_to_dict_for_http (request_form_urlencoded d)),
      ch_params = PDict (convert_list_to_dict_for_http (request_params d))\<rparr>"

definition args_text :: "args_type option \<Rightarrow> pyval" where
  "args_text t = (case t of None \<Rightarrow> PNone | Some ArgRaw \<Rightarrow> PStr ''raw'' | Some ArgNone \<Rightarrow> PStr ''none''
     | Some ArgJson \<Rightarrow> PStr ''json'' | Some ArgXml \<Rightarrow> PStr ''xml'' | Some ArgParams \<Rightarrow> PStr ''params''
     | Some ArgFormData \<Rightarrow> PStr ''form-data'' | Some ArgUrlencoded \<Rightarrow> PStr ''x-www-form-urlencoded'')"

definition http_request_record ::
    "step_data \<Rightarrow> string \<Rightarrow> string option \<Rightarrow> channels \<Rightarrow> string option \<Rightarrow> pyval \<Rightarrow> http_payloads \<Rightarrow> pyval dict" where
  "http_request_record d url envn ch txt files p =
     [(''request_url'', PStr url), (''request_method'', text_or_none (request_method d)),
      (''request_env_name'', text_or_none envn), (''request_args_type'', args_text (args_type d)),
      (''request_header'', dict_or_none (hp_headers p)), (''request_params'', ch_params ch),
      (''request_form_data'', ch_form ch), (''request_form_urlencoded'', ch_urlencoded ch),
      (''request_form_file'', files), (''request_body'', hp_json p), (''request_text'', text_or_none txt)]"

definition send_http_request ::
    "engine_env \<Rightarrow> string \<Rightarrow> string \<Rightarrow> pyval \<Rightarrow> http_payloads \<Rightarrow> ctx \<Rightarrow> (ctx, http_reply) outcome" where
  "send_http_request env method url params p c =
     (let c1 = c\<lparr>c_tick := Suc (c_tick c)\<rparr> in
      case en_http env \<lparr>hc_method = method, hc_url = url,
            hc_arguments = build_httpx_request_kwargs (en_quote env) (hp_headers p) params p\<rparr> (c_tick c) of
        Inl f \<Rightarrow> Fail (add_log (LError (HttpRefused f)) None c1) (SEE (HttpRefused f))
      | Inr reply \<Rightarrow> Done (add_log (LHttpAnswered (hr_code reply)) None c1) reply)"

definition response_dict :: "string dict \<Rightarrow> pyval dict" where
  "response_dict d = map (\<lambda>(k, v). (k, PStr v)) d"

definition reply_headers :: "engine_env \<Rightarrow> http_reply \<Rightarrow> pyval dict" where
  "reply_headers env reply = response_dict (map (\<lambda>(k, v). (k, en_unquote env v)) (hr_headers reply))"

definition reply_cookies :: "http_reply \<Rightarrow> pyval dict" where
  "reply_cookies reply = response_dict (fold (\<lambda>(k, v). AList.update k v) (hr_cookies reply) [])"

definition http_response_record :: "engine_env \<Rightarrow> http_reply \<Rightarrow> pyval dict" where
  "http_response_record env reply =
     [(''response_code'', PInt (hr_code reply)), (''response_message'', PStr (hr_reason reply)),
      (''response_header'', PDict (reply_headers env reply)), (''response_text'', PStr (hr_text reply)),
      (''response_cookie'', PDict (reply_cookies reply))]"

definition not_none :: "pyval \<Rightarrow> pyval option" where
  "not_none v = (if v = PNone then None else Some v)"

definition reply_json :: "http_reply \<Rightarrow> pyval option" where
  "reply_json reply = (case hr_json reply of JsonValue v \<Rightarrow> not_none v | _ \<Rightarrow> None)"

text \<open>What extraction and assertion read of the exchange.\<close>

definition http_exchange :: "engine_env \<Rightarrow> channels \<Rightarrow> string option \<Rightarrow> http_payloads \<Rightarrow> http_reply \<Rightarrow> exchange" where
  "http_exchange env ch txt p reply =
     \<lparr>response_text = Some (hr_text reply), response_json = reply_json reply,
      response_headers = Some (reply_headers env reply), response_cookies = Some (reply_cookies reply),
      request_txt = (if truthy_text txt then txt else text_value (hp_data p)),
      request_json = (if is_container (hp_json p) then Some (hp_json p)
        else if is_container (ch_body ch) then Some (ch_body ch) else None),
      request_headers = hp_headers p,
      request_cookies = Some (response_dict (parse_cookie_header (hp_headers p))),
      request_form = merge_mapping_dicts [dict_value (ch_urlencoded ch), dict_value (ch_form ch)] []\<rparr>"

definition set_sent :: "pyval dict \<Rightarrow> step_result \<Rightarrow> step_result" where
  "set_sent q r = map_info (\<lambda>i. i\<lparr>r_request := ReqSent q\<rparr>) r"

definition set_response :: "pyval dict \<Rightarrow> step_result \<Rightarrow> step_result" where
  "set_response q r = map_info (\<lambda>i. i\<lparr>r_response := RespBody (PDict q)\<rparr>) r"

text \<open>The request once its address and dataset are known.\<close>

definition run_http :: "engine_env \<Rightarrow> step_data \<Rightarrow> string \<Rightarrow> string option \<Rightarrow> dataset option \<Rightarrow> xstate \<Rightarrow> (xstate, unit) outcome" where
  "run_http env d url envn ds st =
     (case replace_http env (args_type d) ds (http_parts env d) (request_text d) of (out, missed) \<Rightarrow>
       (let st1 = (log_missed (step_code d) missed (fst st), snd st) in
        case out of
          Inl e \<Rightarrow> Fail st1 (OtherExn e)
        | Inr (ch0, txt0) \<Rightarrow>
            (case resolve_channels env ch0 (fst st1) of (ch, c2) \<Rightarrow>
              (let txt1 = fall_back_text (args_type d) txt0 (ch_body ch0) in
               bind (on_ctx (resolve_message_text env (resolve_datagram_is_xml (args_type d) txt1 (ch_body ch)) txt1 c2) (snd st1))
                 (\<lambda>st3 txt.
                   (let files = PDict (convert_list_to_dict_for_http (request_form_file d));
                        p = assemble_http_body_payloads (args_type d) (text_or_none txt) (ch_body ch) (ch_form ch) files
                              (ch_urlencoded ch) (ch_headers ch);
                        r3 = set_sent (http_request_record d url envn ch txt files p) (snd st3)
                    in bind (on_ctx (send_http_request env (the (request_method d)) url (ch_params ch) p (fst st3)) r3)
                         (\<lambda>st4 reply.
                           apply_extract_and_assert env (http_exchange env ch txt p reply) (extract_rules d) (assert_rules d) ds []
                             (if hr_json reply = JsonRaises then add_log LJsonUnreadable (step_code d) (fst st4) else fst st4,
                              set_response (http_response_record env reply) (snd st4)))))))))"

definition execute_http :: "engine_env \<Rightarrow> step \<Rightarrow> xstate \<Rightarrow> (xstate, unit) outcome" where
  "execute_http env s st =
     (let d = sdata s in
      if request_method d = None then Fail st (SEE HttpMethodMissing)
      else (case http_address d (get_execute_config d None (Some [CFG_APP]) (fst st)) of (url, envn) \<Rightarrow>
        if url = [] \<or> \<not> py_startswith (py_lower url) ''http'' \<or> \<not> truthy_text envn
        then Fail st (SEE (HttpAddressInvalid url))
        else (let ds = load_step_dataset env d (fst st) in
          wrap_other d (run_http env d url envn ds
            (add_log (LHttpStart url) (step_code d) (fst st), set_dataset ds (c_dataset_name (fst st)) (snd st))))))"

section \<open>TCP\<close>

definition tcp_max_response_bytes :: nat where
  "tcp_max_response_bytes = 10 * 1024 * 1024"

text \<open>Host, port, configuration name and environment.\<close>

definition tcp_target :: "step_data \<Rightarrow> exec_config option \<Rightarrow> string \<times> string option \<times> string option \<times> string option" where
  "tcp_target d cfg = (case cfg of
     None \<Rightarrow> (step_address d, request_port d, request_config_name d, None)
   | Some g \<Rightarrow> (config_host g, Some (config_port g), Some (config_name g), Some (env_name g)))"

definition tcp_problem :: "step_data \<Rightarrow> exec_config option \<Rightarrow> err option" where
  "tcp_problem d cfg = (case tcp_target d cfg of (host, port, config, envn) \<Rightarrow>
     if \<not> truthy_text envn \<and> host = [] \<and> \<not> truthy_text port then Some TcpConfigMissing
     else if host = [] \<or> \<not> truthy_text port then Some (TcpTargetInvalid host port)
     else None)"

text \<open>These are checked after the dataset is loaded.\<close>

definition tcp_fields_problem :: "step_data \<Rightarrow> exec_config option \<Rightarrow> err option" where
  "tcp_fields_problem d cfg = (case tcp_target d cfg of (host, port, config, envn) \<Rightarrow>
     if \<not> truthy_id (request_project_id d) then Some (TcpFieldMissing ''request_project_id'')
     else if \<not> truthy_text config then Some (TcpFieldMissing ''request_config_name'')
     else None)"

definition tcp_request_record :: "step_data \<Rightarrow> string \<Rightarrow> string option \<Rightarrow> string option \<Rightarrow> pyval \<Rightarrow> string option \<Rightarrow> pyval \<Rightarrow> pyval dict" where
  "tcp_request_record d host port envn body txt payload =
     [(''request_url'', PStr host), (''request_port'', text_or_none port), (''request_env_name'', text_or_none envn),
      (''request_args_type'', args_text (args_type d)), (''request_body'', body), (''request_text'', text_or_none txt),
      (''payload'', payload)]"

definition tcp_response_record :: "string \<Rightarrow> bytes \<Rightarrow> pyval dict" where
  "tcp_response_record txt raw = [(''response_text'', PStr txt), (''response_bytes'', PInt (int (length raw)))]"

definition tcp_exchange_of :: "string \<Rightarrow> pyval option \<Rightarrow> pyval option \<times> string option \<Rightarrow> exchange" where
  "tcp_exchange_of txt json sources =
     empty_exchange\<lparr>response_text := Some txt, response_json := json, request_json := fst sources, request_txt := snd sources\<rparr>"

text \<open>The exchange once the message is known.\<close>

definition exchange_tcp ::
    "engine_env \<Rightarrow> step_data \<Rightarrow> string \<Rightarrow> string \<Rightarrow> pyval \<Rightarrow> pyval \<Rightarrow> pyval \<Rightarrow> dataset option \<Rightarrow> xstate \<Rightarrow> (xstate, unit) outcome" where
  "exchange_tcp env d host port body txt payload ds st =
     (let fc = resolve_tcp_frame_config d;
          c1 = (if fc_long_connection fc then add_log LLongConnection (step_code d) (fst st) else fst st);
          c2 = c1\<lparr>c_tick := Suc (c_tick c1)\<rparr>
      in case parse_int port of
           Inl _ \<Rightarrow> Fail (c1, snd st) (OtherExn (TcpPortInvalid port))
         | Inr n \<Rightarrow> (case exchange_frame (en_codec env) fc tcp_max_response_bytes payload (en_tcp env host n (c_tick c1)) of
             Inl e \<Rightarrow> Fail (c2, snd st) (OtherExn (TcpRefused e))
           | Inr raw \<Rightarrow>
               (case parse_tcp_response (en_ph env) (en_codec env) (fc_encoding fc) (fc_hex_string fc) raw of (answer, json) \<Rightarrow>
                 (let st3 = (c2, set_response (tcp_response_record answer raw) (snd st)) in
                  case tcp_extract_sources (en_ph env) body txt payload of
                    None \<Rightarrow> Fail st3 (OtherExn DumpRaised)
                  | Some sources \<Rightarrow>
                      apply_extract_and_assert env (tcp_exchange_of answer json sources) (extract_rules d) (assert_rules d) ds [] st3))))"

definition run_tcp :: "engine_env \<Rightarrow> step_data \<Rightarrow> string \<Rightarrow> string \<Rightarrow> string option \<Rightarrow> dataset option \<Rightarrow> xstate \<Rightarrow> (xstate, unit) outcome" where
  "run_tcp env d host port envn ds st =
     (let body0 = try_serialize_request_body env (request_body d) in
      case replace_tcp env (args_type d) ds body0 (request_text d) of (out, missed) \<Rightarrow>
       (let st1 = (log_missed (step_code d) missed (fst st), snd st) in
        case out of
          Inl e \<Rightarrow> Fail st1 (OtherExn e)
        | Inr (ch, txt0) \<Rightarrow>
            (let txt1 = fall_back_text (args_type d) txt0 (ch_body ch) in
             case ctx_resolve env (ch_body ch) (fst st1) of (body, c2) \<Rightarrow>
              bind (on_ctx (resolve_message_text env (args_type d = Some ArgXml \<or> (txt1 \<noteq> None \<and> first_sign is_space ''<'' (the txt1))) txt1 c2) (snd st1))
                (\<lambda>st3 txt.
                  (let payload = select_tcp_payload (args_type d) (text_or_none txt) body in
                   exchange_tcp env d host port body (text_or_none txt) payload ds
                     (fst st3, set_sent (tcp_request_record d host (Some port) envn body txt payload) (snd st3)))))))"

definition execute_tcp :: "engine_env \<Rightarrow> step \<Rightarrow> xstate \<Rightarrow> (xstate, unit) outcome" where
  "execute_tcp env s st =
     (let d = sdata s; cfg = get_execute_config d None (Some [CFG_APP]) (fst st) in
      case tcp_problem d cfg of
        Some e \<Rightarrow> Fail st (SEE e)
      | None \<Rightarrow>
          (let ds = load_step_dataset env d (fst st); st1 = (fst st, set_dataset ds (c_dataset_name (fst st)) (snd st)) in
           case tcp_fields_problem d cfg of
             Some e \<Rightarrow> Fail st1 (SEE e)
           | None \<Rightarrow> (case tcp_target d cfg of (host, port, config, envn) \<Rightarrow>
               wrap_other d (run_tcp env d host (the port) envn ds st1))))"

end
