(* ===== verification/Executors.thy ===== *)
theory Executors
  imports Network
begin

text \<open>
  The executors of \<^verbatim>\<open>services/autotest_step_engine.py\<close> that this development models: loops,
  condition branches, wait, assert, extract, user variables and the two quote steps. They run on the
  execution context together with the result the executor fills in (\<^verbatim>\<open>xstate\<close>).

  Running another step is the argument \<^verbatim>\<open>run\<close>: the engine closes the recursion with it. The
  executors for HTTP, TCP, Python, database, Redis and comparison steps are in \<^verbatim>\<open>Requests\<close> and
  \<^verbatim>\<open>Network\<close>.
\<close>

type_synonym runner = "step \<Rightarrow> ctx \<Rightarrow> (ctx, step_result option) outcome"

section \<open>Child steps\<close>

text \<open>
  A child that raises becomes a failed result and the next child runs; its type is converted while
  the failed result is built, so an undefined one raises out of the loop. \<^verbatim>\<open>log_code\<close> is the
  step the error is logged for.
\<close>

fun run_children :: "runner \<Rightarrow> (step \<Rightarrow> string option) \<Rightarrow> step list \<Rightarrow> ctx \<Rightarrow> (ctx, step_result list) outcome" where
  "run_children run log_code [] c = Done c []"
| "run_children run log_code (s # ss) c = (case run s c of
     Stuck \<Rightarrow> Stuck
   | Done c1 r \<Rightarrow> bind (run_children run log_code ss c1)
       (\<lambda>c2 rs. Done c2 (case r of None \<Rightarrow> rs | Some x \<Rightarrow> x # rs))
   | Fail c1 e \<Rightarrow>
       (let m = Formatted True (exn_err e); c2 = add_log (LError m) (log_code s) c1 in
        if step_type (sdata s) = None then Fail c2 (OtherExn InvalidStepType)
        else bind (run_children run log_code ss c2)
          (\<lambda>c3 rs. Done c3 (new_result (sdata s) False (Some m) # rs))))"

definition execute_children :: "runner \<Rightarrow> step \<Rightarrow> ctx \<Rightarrow> (ctx, step_result list) outcome" where
  "execute_children run s c = run_children run (\<lambda>ch. step_code (sdata ch)) (executor_children s) c"

section \<open>Loops\<close>

definition set_cycle :: "string \<Rightarrow> int \<Rightarrow> ctx \<Rightarrow> ctx" where
  "set_cycle code no c = c\<lparr>c_cycle := AList.update code (Some no) (c_cycle c)\<rparr>"

definition child_cycle_code :: "step_data \<Rightarrow> string" where
  "child_cycle_code d = (if truthy_text (step_code d) then the (step_code d)
     else case step_id d of None \<Rightarrow> [] | Some i \<Rightarrow> int_str i)"

definition mark_own_cycle :: "step \<Rightarrow> int \<Rightarrow> ctx \<Rightarrow> ctx" where
  "mark_own_cycle s no c = (if truthy_text (step_code (sdata s)) then set_cycle (the (step_code (sdata s))) no c else c)"

definition mark_child_cycles :: "step \<Rightarrow> int \<Rightarrow> ctx \<Rightarrow> ctx" where
  "mark_child_cycles s no c =
     fold (\<lambda>k. set_cycle k no) (filter (\<lambda>k. k \<noteq> []) (map (child_cycle_code \<circ> sdata) (executor_children s))) c"

text \<open>
  The results of a round are attached one by one; a failing one is handled by the strategy, and what
  follows it in the round is not attached when the strategy stops or breaks.
\<close>

fun attach_children ::
    "loop_mode \<Rightarrow> loop_strategy \<Rightarrow> step \<Rightarrow> step_result list \<Rightarrow> xstate \<Rightarrow> (xstate, bool) outcome" where
  "attach_children mode on_error s [] st = Done st True"
| "attach_children mode on_error s (x # xs) (c, r) =
     (let r1 = add_child x r in
      if res_success x then attach_children mode on_error s xs (c, r1)
      else (let r2 = set_failed r1; e = r_error (rinfo x) in
        case on_error of
          LS_STOP \<Rightarrow> Fail (c, r2) (SEE (StrategyStop mode e))
        | LS_BREAK \<Rightarrow> Done (add_log (LChildFailed mode LS_BREAK e) (step_code (sdata s)) c, r2) False
        | LS_CONTINUE \<Rightarrow> attach_children mode on_error s xs
            (add_log (LChildFailed mode LS_CONTINUE e) (step_code (sdata s)) c, r2)))"

definition begin_round :: "loop_mode \<Rightarrow> step \<Rightarrow> int \<Rightarrow> step_var list \<Rightarrow> ctx \<Rightarrow> ctx" where
  "begin_round mode s no vars c =
     mark_child_cycles s no (update_session vars
       (add_log (LRound mode no) (step_code (sdata s)) (mark_own_cycle s no c)))"

definition execute_loop_round ::
    "runner \<Rightarrow> loop_mode \<Rightarrow> loop_strategy \<Rightarrow> step \<Rightarrow> int \<Rightarrow> step_var list \<Rightarrow> xstate \<Rightarrow> (xstate, bool) outcome" where
  "execute_loop_round run mode on_error s no vars st =
     (case execute_children run s (begin_round mode s no vars (fst st)) of
        Stuck \<Rightarrow> Stuck
      | Fail c (SEE e) \<Rightarrow>
          (if on_error = LS_STOP then Fail (c, snd st) (SEE e) else Done (c, snd st) (on_error = LS_CONTINUE))
      | Fail c (OtherExn e) \<Rightarrow>
          (let m = RoundFailed mode no e; st1 = (add_log (LError m) (step_code (sdata s)) c, set_failed (snd st)) in
           if on_error = LS_STOP then Fail st1 (SEE m) else Done st1 (on_error = LS_CONTINUE))
      | Done c rs \<Rightarrow> attach_children mode on_error s rs (c, snd st))"

text \<open>\<^verbatim>\<open>StepVariablesBase(key=name, ...)\<close> rejects a missing name.\<close>

definition loop_var :: "string option \<times> pyval \<Rightarrow> step_var option" where
  "loop_var kv = map_option (\<lambda>k. mk_var k (snd kv)) (fst kv)"

definition loop_sleep :: "step \<Rightarrow> xstate \<Rightarrow> (xstate, unit) outcome" where
  "loop_sleep s st = (case loop_interval (sdata s) of
     None \<Rightarrow> Done st ()
   | Some t \<Rightarrow> if 0 < t then on_ctx (ctx_sleep (Some t) (fst st)) (snd st) else Done st ())"

text \<open>The rounds of a counted loop: the numbers with the variables they write, up to \<^verbatim>\<open>last_no\<close>.\<close>

fun run_rounds ::
    "runner \<Rightarrow> loop_mode \<Rightarrow> loop_strategy \<Rightarrow> step \<Rightarrow> int \<Rightarrow> (int \<times> (string option \<times> pyval) list) list \<Rightarrow> xstate \<Rightarrow> (xstate, bool) outcome" where
  "run_rounds run mode on_error s last_no [] st = Done st True"
| "run_rounds run mode on_error s last_no ((no, kvs) # rounds) st =
     (case all_some (map loop_var kvs) of
        None \<Rightarrow> Fail st (OtherExn BadLoopVariable)
      | Some vars \<Rightarrow> bind (execute_loop_round run mode on_error s no vars st)
          (\<lambda>st1 go. if \<not> go then Done st1 False
             else bind (if no < last_no then loop_sleep s st1 else Done st1 ())
               (\<lambda>st2 _. run_rounds run mode on_error s last_no rounds st2)))"

definition finish_rounds :: "loop_mode \<Rightarrow> step \<Rightarrow> int \<Rightarrow> (xstate, bool) outcome \<Rightarrow> (xstate, unit) outcome" where
  "finish_rounds mode s last_no m = bind m (\<lambda>st go. Done (if go then log_step (LLoopEnd mode last_no) s st else st) ())"

text \<open>\<^verbatim>\<open>_resolve_loop_maximums\<close>\<close>

definition int_of_text :: "string \<Rightarrow> int option" where
  "int_of_text s = (case s of
     [] \<Rightarrow> None
   | c # cs \<Rightarrow>
       if c = CHR ''-'' then (if cs = [] then None else map_option uminus (dec_value 0 cs))
       else if c = CHR ''+'' then (if cs = [] then None else dec_value 0 cs)
       else dec_value 0 s)"

definition maximums_value :: "pyval \<Rightarrow> int option" where
  "maximums_value v = (case v of
     PInt i \<Rightarrow> Some i
   | PFloat f \<Rightarrow> if f_is_integer f then f_to_int f else None
   | PStr s \<Rightarrow> int_of_text (py_strip s)
   | _ \<Rightarrow> None)"

definition resolve_loop_maximums :: "engine_env \<Rightarrow> step_data \<Rightarrow> ctx \<Rightarrow> (ctx, int) outcome" where
  "resolve_loop_maximums env d c = (case loop_maximums d of
     None \<Rightarrow> Fail c (SEE LoopMaximumsEmpty)
   | Some raw \<Rightarrow>
       if py_strip raw = [] then Fail c (SEE LoopMaximumsEmpty)
       else (case ctx_resolve env (PStr (py_strip raw)) c of (resolved, c1) \<Rightarrow>
         (let value = (case bare_placeholder resolved of
                None \<Rightarrow> Inr resolved
              | Some name \<Rightarrow> (case ctx_get_variable name c1 of
                    Inr v \<Rightarrow> Inr v
                  | Inl InvalidName \<Rightarrow> Inl BadVariableName
                  | Inl (UndefinedVariable x) \<Rightarrow> Inl (LoopMaximumsUndefined x)))
          in case value of
               Inl e \<Rightarrow> Fail c1 (SEE e)
             | Inr v \<Rightarrow> (case maximums_value v of
                 None \<Rightarrow> Fail c1 (SEE (LoopMaximumsBad v))
               | Some n \<Rightarrow> if n < 1 \<or> 100 < n then Fail c1 (SEE (LoopMaximumsRange n)) else Done c1 n))))"

definition set_request :: "request_snapshot \<Rightarrow> step_result \<Rightarrow> step_result" where
  "set_request q r = map_info (\<lambda>i. i\<lparr>r_request := q\<rparr>) r"

definition count_rounds :: "step_data \<Rightarrow> int \<Rightarrow> (int \<times> (string option \<times> pyval) list) list" where
  "count_rounds d n = map (\<lambda>i. (i, [(loop_index d, PInt i)])) [1..n]"

definition execute_count_loop :: "engine_env \<Rightarrow> runner \<Rightarrow> loop_strategy \<Rightarrow> step \<Rightarrow> xstate \<Rightarrow> (xstate, unit) outcome" where
  "execute_count_loop env run on_error s st =
     bind (on_ctx (resolve_loop_maximums env (sdata s) (fst st)) (snd st)) (\<lambda>st1 n.
       finish_rounds LM_COUNT s n
         (run_rounds run LM_COUNT on_error s n (count_rounds (sdata s) n)
           (log_step (LLoopStart LM_COUNT n) s (fst st1, set_request (ReqLoopMaximums n) (snd st1)))))"

text \<open>\<^verbatim>\<open>parse_iterable_source\<close>; \<^verbatim>\<open>ph_loads\<close> is \<^verbatim>\<open>orjson.loads\<close>.\<close>

definition parse_iterable_source :: "engine_env \<Rightarrow> string \<Rightarrow> ctx \<Rightarrow> (ctx, pyval) outcome" where
  "parse_iterable_source env source c = (case ctx_resolve env (PStr source) c of (resolved, c1) \<Rightarrow>
     (case bare_placeholder resolved of
        Some name \<Rightarrow> (case ctx_get_variable name c1 of
            Inr v \<Rightarrow> Done c1 v
          | Inl InvalidName \<Rightarrow> Fail c1 (SEE BadVariableName)
          | Inl (UndefinedVariable x) \<Rightarrow> Fail c1 (SEE (IterableParse x)))
      | None \<Rightarrow> Done c1 (case resolved of
            PStr t \<Rightarrow> (case ph_loads (en_ph env) t of Some v \<Rightarrow> v | None \<Rightarrow> PStr t)
          | v \<Rightarrow> v)))"

definition wrap_loop :: "loop_mode \<Rightarrow> (xstate, 'a) outcome \<Rightarrow> (xstate, 'a) outcome" where
  "wrap_loop mode m = (case m of Fail st (OtherExn e) \<Rightarrow> Fail st (SEE (LoopWrapped mode e)) | _ \<Rightarrow> m)"

text \<open>Iterating a value: the items of a list, the keys of a dictionary.\<close>

definition list_items :: "pyval \<Rightarrow> pyval list option" where
  "list_items v = (case v of PList xs \<Rightarrow> Some xs | PDict d \<Rightarrow> Some (map (PStr \<circ> fst) d) | _ \<Rightarrow> None)"

definition list_rounds :: "step_data \<Rightarrow> pyval list \<Rightarrow> (int \<times> (string option \<times> pyval) list) list" where
  "list_rounds d xs = map (\<lambda>(i, x). (int i, [(loop_index d, PInt (int i)), (loop_value d, x)])) (enumerate 1 xs)"

definition dict_rounds :: "step_data \<Rightarrow> (string \<times> pyval) list \<Rightarrow> (int \<times> (string option \<times> pyval) list) list" where
  "dict_rounds d kvs = map (\<lambda>(i, k, v). (int i,
     [(loop_index d, PInt (int i)), (loop_key d, PStr k), (loop_value d, v)])) (enumerate 1 kvs)"

definition run_collection_loop ::
    "runner \<Rightarrow> loop_mode \<Rightarrow> loop_strategy \<Rightarrow> step \<Rightarrow> (int \<times> (string option \<times> pyval) list) list \<Rightarrow> xstate \<Rightarrow> (xstate, unit) outcome" where
  "run_collection_loop run mode on_error s rounds st =
     (let n = int (length rounds) in
      if rounds = [] then Done (log_step (LLoopEmpty mode) s st) ()
      else finish_rounds mode s n (run_rounds run mode on_error s n rounds (log_step (LLoopStart mode n) s st)))"

definition execute_list_loop :: "engine_env \<Rightarrow> runner \<Rightarrow> loop_strategy \<Rightarrow> step \<Rightarrow> xstate \<Rightarrow> (xstate, unit) outcome" where
  "execute_list_loop env run on_error s st =
     (if \<not> truthy_text (loop_iterable (sdata s)) then Fail st (SEE (IterableEmpty LM_LIST))
      else wrap_loop LM_LIST
        (bind (on_ctx (parse_iterable_source env (the (loop_iterable (sdata s))) (fst st)) (snd st)) (\<lambda>st1 v.
           case list_items v of
             None \<Rightarrow> Fail st1 (SEE (IterableType LM_LIST))
           | Some xs \<Rightarrow> run_collection_loop run LM_LIST on_error s (list_rounds (sdata s) xs) st1)))"

definition execute_dict_loop :: "engine_env \<Rightarrow> runner \<Rightarrow> loop_strategy \<Rightarrow> step \<Rightarrow> xstate \<Rightarrow> (xstate, unit) outcome" where
  "execute_dict_loop env run on_error s st =
     (if \<not> truthy_text (loop_iterable (sdata s)) then Fail st (SEE (IterableEmpty LM_DICT))
      else wrap_loop LM_DICT
        (bind (on_ctx (parse_iterable_source env (the (loop_iterable (sdata s))) (fst st)) (snd st)) (\<lambda>st1 v.
           case v of
             PDict kvs \<Rightarrow> run_collection_loop run LM_DICT on_error s (dict_rounds (sdata s) kvs) st1
           | _ \<Rightarrow> Fail st1 (SEE (IterableType LM_DICT)))))"

text \<open>
  The condition loop. \<^verbatim>\<open>left\<close> counts the rounds that may still run, so the round that starts
  with \<^verbatim>\<open>left\<close> is number \<^verbatim>\<open>limit - left + 1\<close>; the clock is read only with a timeout.
\<close>

definition loop_guard_limit :: nat where
  "loop_guard_limit = 100"

definition timed_out :: "engine_env \<Rightarrow> rat option \<Rightarrow> rat \<Rightarrow> ctx \<Rightarrow> bool \<times> ctx" where
  "timed_out env timeout start c = (case timeout of
     None \<Rightarrow> (False, c)
   | Some t \<Rightarrow> if 0 < t then (case ctx_now env c of (now, c1) \<Rightarrow> (t \<le> now - start, c1)) else (False, c))"

fun condition_rounds ::
    "engine_env \<Rightarrow> runner \<Rightarrow> loop_strategy \<Rightarrow> step \<Rightarrow> condition \<Rightarrow> rat option \<Rightarrow> rat \<Rightarrow> nat \<Rightarrow> xstate \<Rightarrow> (xstate, int) outcome" where
  "condition_rounds env run on_error s cond timeout start left st =
     (let no = int loop_guard_limit - int left in
      case timed_out env timeout start (fst st) of (late, c1) \<Rightarrow>
        if late then Done (log_step (LTimedOut no) s (c1, snd st)) no
        else (case evaluate_condition env cond c1 of
          Stuck \<Rightarrow> Stuck
        | Fail c2 e \<Rightarrow> (let m = ConditionLoopError (exn_err e) in
            Done (log_step (LError m) s (c2, set_error m (snd st))) no)
        | Done c2 matched \<Rightarrow>
            if \<not> matched then Done (log_step (LConditionFalse no) s (c2, snd st)) no
            else (case left of
              0 \<Rightarrow> Fail (c2, snd st) (SEE (LoopGuard loop_guard_limit))
            | Suc left' \<Rightarrow>
                (case loop_var (loop_index (sdata s), PInt (no + 1)) of
                   None \<Rightarrow> Fail (c2, snd st) (OtherExn BadLoopVariable)
                 | Some v \<Rightarrow> bind (execute_loop_round run LM_CONDITION on_error s (no + 1) [v] (c2, snd st))
                     (\<lambda>st1 go. if \<not> go then Done st1 (no + 1)
                        else bind (loop_sleep s st1)
                          (\<lambda>st2 _. condition_rounds env run on_error s cond timeout start left' st2))))))"

declare condition_rounds.simps [simp del]

definition clamp_timeout :: "step \<Rightarrow> ctx \<Rightarrow> rat option \<times> ctx" where
  "clamp_timeout s c = (case loop_timeout (sdata s) of
     None \<Rightarrow> (None, c)
   | Some t \<Rightarrow> if 300 < t then (Some 300, add_log (LTimeoutClamped t) (step_code (sdata s)) c) else (Some t, c))"

definition execute_condition_loop :: "engine_env \<Rightarrow> runner \<Rightarrow> loop_strategy \<Rightarrow> step \<Rightarrow> xstate \<Rightarrow> (xstate, unit) outcome" where
  "execute_condition_loop env run on_error s st = (case loop_conditions (sdata s) of
     None \<Rightarrow> Fail st (SEE LoopConditionsEmpty)
   | Some cond \<Rightarrow> (case clamp_timeout s (fst st) of (timeout, c1) \<Rightarrow>
       (let c2 = add_log (LLoopStart LM_CONDITION 0) (step_code (sdata s)) c1 in
        case ctx_now env c2 of (start, c3) \<Rightarrow>
          bind (condition_rounds env run on_error s cond timeout start loop_guard_limit
                 (c3, set_request (ReqLoopConditions cond) (snd st)))
            (\<lambda>st2 no. Done (log_step (LLoopEnd LM_CONDITION no) s st2) ()))))"

definition execute_loop :: "engine_env \<Rightarrow> runner \<Rightarrow> step \<Rightarrow> xstate \<Rightarrow> (xstate, unit) outcome" where
  "execute_loop env run s st = wrap_other (sdata s)
     (case loop_mode_of (sdata s) of
        None \<Rightarrow> Fail st (SEE NoLoopMode)
      | Some mode \<Rightarrow> (case loop_on_error (sdata s) of
          None \<Rightarrow> Fail st (SEE NoErrorStrategy)
        | Some on_error \<Rightarrow> (case mode of
            LM_COUNT \<Rightarrow> execute_count_loop env run on_error s st
          | LM_LIST \<Rightarrow> execute_list_loop env run on_error s st
          | LM_DICT \<Rightarrow> execute_dict_loop env run on_error s st
          | LM_CONDITION \<Rightarrow> execute_condition_loop env run on_error s st)))"

section \<open>Condition branches\<close>

text \<open>The first branch that matches, with its position; \<^verbatim>\<open>Fail\<close> when a condition is missing or
  cannot be evaluated before one matches.\<close>

fun find_branch :: "engine_env \<Rightarrow> nat \<Rightarrow> branch list \<Rightarrow> ctx \<Rightarrow> (ctx, (nat \<times> branch) option) outcome" where
  "find_branch env i [] c = Done c None"
| "find_branch env i (b # bs) c =
     (if br_type b = BR_ELSE then Done c (Some (i, b))
      else case br_conditions b of
        None \<Rightarrow> Fail c (SEE (BranchConditionMissing (i + 1)))
      | Some cond \<Rightarrow> bind (evaluate_condition env cond c)
          (\<lambda>c1 matched. if matched then Done c1 (Some (i, b)) else find_branch env (Suc i) bs c1))"

definition set_message :: "bool \<Rightarrow> message \<Rightarrow> step_result \<Rightarrow> step_result" where
  "set_message ok m r = map_info (\<lambda>i. i\<lparr>r_success := ok, r_message := m\<rparr>) r"

definition add_children :: "step_result list \<Rightarrow> step_result \<Rightarrow> step_result" where
  "add_children xs r = Result (rinfo r) (rchildren r @ xs)"

definition run_branch :: "runner \<Rightarrow> step \<Rightarrow> nat \<Rightarrow> branch \<Rightarrow> xstate \<Rightarrow> (xstate, unit) outcome" where
  "run_branch run s i b st =
     (let m = BranchMatched (br_type b);
          q = ReqBranch (Some (i, br_type b, br_conditions b, br_desc b));
          r1 = set_request q (set_message True m (snd st));
          c1 = add_log (LBranch m) (step_code (sdata s)) (fst st)
      in case run_children run (\<lambda>_. step_code (sdata s)) (sort_steps (br_children b)) c1 of
           Stuck \<Rightarrow> Stuck
         | Done c2 rs \<Rightarrow> Done (c2, add_children rs r1) ()
         | Fail c2 e \<Rightarrow> (let f = BranchChildrenFailed (exn_err e) in
             Done (log_step (LError f) s (c2, set_error f r1)) ()))"

definition execute_condition :: "engine_env \<Rightarrow> runner \<Rightarrow> step \<Rightarrow> xstate \<Rightarrow> (xstate, unit) outcome" where
  "execute_condition env run s st =
     (let fail = (\<lambda>st1 e. let f = Formatted False e in
            Done (log_step (LError f) s (fst st1, set_error f (snd st1))) ())
      in if branch_items s = [] then fail st BranchItemsEmpty
         else (let st0 = (fst st, set_request (ReqBranch None) (snd st)) in
           case on_ctx (find_branch env 0 (branch_items s) (fst st0)) (snd st0) of
             Stuck \<Rightarrow> Stuck
           | Fail st1 e \<Rightarrow> fail st1 (exn_err e)
           | Done st1 None \<Rightarrow>
               Done (log_step (LBranch NoBranchMatched) s (fst st1, set_message True NoBranchMatched (snd st1))) ()
           | Done st1 (Some (i, b)) \<Rightarrow> run_branch run s i b st1))"

section \<open>Wait, assert, extract, user variables\<close>

definition execute_wait :: "step \<Rightarrow> xstate \<Rightarrow> (xstate, unit) outcome" where
  "execute_wait s st = wrap_other (sdata s) (case wait_seconds (sdata s) of
     None \<Rightarrow> Fail st (SEE WaitMissing)
   | Some t \<Rightarrow> on_ctx (ctx_sleep (Some t) (fst st)) (snd st))"

definition execute_assert :: "engine_env \<Rightarrow> step \<Rightarrow> xstate \<Rightarrow> (xstate, unit) outcome" where
  "execute_assert env s st = wrap_other (sdata s)
     (if assert_rules (sdata s) = [] then Fail st (SEE AssertRulesMissing)
      else apply_extract_and_assert env empty_exchange [] (assert_rules (sdata s)) None [] st)"

definition execute_extract :: "engine_env \<Rightarrow> step \<Rightarrow> xstate \<Rightarrow> (xstate, unit) outcome" where
  "execute_extract env s st = wrap_other (sdata s)
     (if extract_rules (sdata s) = [] then Fail st (SEE ExtractRulesMissing)
      else apply_extract_and_assert env empty_exchange (extract_rules (sdata s)) [] None [] st)"

definition execute_user_variables :: "engine_env \<Rightarrow> step \<Rightarrow> xstate \<Rightarrow> (xstate, unit) outcome" where
  "execute_user_variables env s st =
     (if session_vars (sdata s) = [] then Done st ()
      else (case ctx_resolve_vars env (session_vars (sdata s)) (fst st) of (vs, c1) \<Rightarrow>
        Done (if vs = [] then c1 else update_session vs c1, snd st) ()))"

section \<open>Quote steps\<close>

text \<open>What a quote executor class declares.\<close>

record quote_kind =
  qk_case_type :: case_type
  qk_merge_fields :: bool
  qk_isolated_pool :: bool
  qk_own_dataset :: bool

definition quote_api :: quote_kind where
  "quote_api = \<lparr>qk_case_type = PUBLIC_API, qk_merge_fields = True, qk_isolated_pool = False, qk_own_dataset = True\<rparr>"

definition quote_script :: quote_kind where
  "quote_script = \<lparr>qk_case_type = PUBLIC_SCRIPT, qk_merge_fields = False, qk_isolated_pool = True, qk_own_dataset = False\<rparr>"

definition merge_defined :: "step_var list \<Rightarrow> step_var list \<Rightarrow> step_var list" where
  "merge_defined original appended =
     (let ks = filter (\<lambda>k. k \<noteq> []) (map var_key appended)
      in filter (\<lambda>v. var_key v \<notin> set ks) original @ appended)"

definition merge_and_override_fields :: "quote_kind \<Rightarrow> step_data \<Rightarrow> step \<Rightarrow> step" where
  "merge_and_override_fields qk own s =
     (if \<not> qk_merge_fields qk \<or> step_type (sdata s) \<notin> {Some HTTP, Some TCP} then s
      else (let d = sdata s in
        Step (d\<lparr>defined_vars := (if defined_vars own = [] then defined_vars d
                   else merge_defined (defined_vars d) (defined_vars own)),
               extract_rules := extract_rules d @ extract_rules own,
               assert_rules := assert_rules d @ assert_rules own\<rparr>)
          (children s) (quote_steps s) (branch_items s)))"

text \<open>The roots of the quoted case. A \<^verbatim>\<open>StepExecutionError\<close> of the factory is raised, any other
  exception becomes a failed child, which does not fail the quote step itself.\<close>

fun run_quote_steps :: "runner \<Rightarrow> quote_kind \<Rightarrow> step_data \<Rightarrow> step list \<Rightarrow> xstate \<Rightarrow> (xstate, unit) outcome" where
  "run_quote_steps run qk own [] st = Done st ()"
| "run_quote_steps run qk own (s # ss) (c, r) = (case run (merge_and_override_fields qk own s) c of
     Stuck \<Rightarrow> Stuck
   | Done c1 None \<Rightarrow> run_quote_steps run qk own ss (c1, r)
   | Done c1 (Some x) \<Rightarrow>
       run_quote_steps run qk own ss (c1, if res_success x then add_child x r else set_failed (add_child x r))
   | Fail c1 (SEE e) \<Rightarrow> Fail (c1, r) (SEE e)
   | Fail c1 (OtherExn e) \<Rightarrow>
       (let m = Formatted True e in
        run_quote_steps run qk own ss
          (add_log (LError m) (step_code (sdata s)) c1, add_child (new_result (sdata s) False (Some m)) r)))"

definition load_quote_dataset :: "engine_env \<Rightarrow> quote_kind \<Rightarrow> step \<Rightarrow> ctx \<Rightarrow> ctx" where
  "load_quote_dataset env qk s c =
     (let d = sdata s in
      if qk_own_dataset qk \<and> truthy_id (data_source_id d) \<and> truthy_text (c_dataset_name c)
      then (let snap = en_load_dataset env (case_id d) (step_code d) (the (c_dataset_name c)) in
        add_log (LDataset (snap \<noteq> None)) (step_code d)
          (c\<lparr>c_quote_dataset_name := c_dataset_name c, c_quote_dataset := snap\<rparr>))
      else c\<lparr>c_quote_dataset_name := None, c_quote_dataset := None\<rparr>)"

text \<open>\<^verbatim>\<open>start_pool\<close> installs the pool of the quoted case; \<^verbatim>\<open>quote_body\<close> runs its roots.\<close>

definition start_pool :: "step \<Rightarrow> step_var list \<Rightarrow> step list \<Rightarrow> ctx \<Rightarrow> ctx" where
  "start_pool s stored roots c =
     (let pool = build_quote_session_pool stored (collect_session_variables roots)
      in add_log (LPoolInit (length pool)) (step_code (sdata s)) (install_session pool c))"

definition quote_body :: "engine_env \<Rightarrow> runner \<Rightarrow> quote_kind \<Rightarrow> step \<Rightarrow> step list \<Rightarrow> int \<Rightarrow> xstate \<Rightarrow> (xstate, unit) outcome" where
  "quote_body env run qk s roots qid st =
     (let st1 = log_step (LQuoteStart qid) s (load_quote_dataset env qk s (fst st), snd st) in
      bind (run_quote_steps run qk (sdata s) (sort_steps (map prepare_step roots)) st1)
        (\<lambda>st2 _. Done (log_step (LQuoteEnd qid) s st2) ()))"

text \<open>The \<^verbatim>\<open>finally\<close> of an isolated pool: the contents of the pool object that was installed at
  the start are merged over the host's, whatever object the context holds by then.\<close>

definition finish_pool :: "step \<Rightarrow> nat \<Rightarrow> nat \<Rightarrow> ctx \<Rightarrow> ctx" where
  "finish_pool s host quote c =
     (let merged = merge_back_session_pool (c_pools c host) (c_pools c quote)
      in add_log (LPoolMerged (length merged)) (step_code (sdata s)) (install_session merged c))"

definition restore_dataset :: "ctx \<Rightarrow> ctx \<Rightarrow> ctx" where
  "restore_dataset c0 c = c\<lparr>c_quote_dataset_name := c_quote_dataset_name c0, c_quote_dataset := c_quote_dataset c0\<rparr>"

definition restore_quote :: "ctx \<Rightarrow> ctx \<Rightarrow> ctx" where
  "restore_quote c0 c = c\<lparr>c_quote_case := c_quote_case c0, c_quote_parent := c_quote_parent c0\<rparr>"

definition finally_ctx :: "(ctx \<Rightarrow> ctx) \<Rightarrow> (xstate, 'a) outcome \<Rightarrow> (xstate, 'a) outcome" where
  "finally_ctx f m = (case m of
     Done (c, r) a \<Rightarrow> Done (f c, r) a | Fail (c, r) e \<Rightarrow> Fail (f c, r) e | Stuck \<Rightarrow> Stuck)"

definition quote_scope :: "engine_env \<Rightarrow> runner \<Rightarrow> quote_kind \<Rightarrow> step \<Rightarrow> step_var list \<Rightarrow> step list \<Rightarrow> int \<Rightarrow> xstate \<Rightarrow> (xstate, unit) outcome" where
  "quote_scope env run qk s stored roots qid st =
     (if qk_isolated_pool qk then
        (let c1 = start_pool s stored roots (fst st) in
         finally_ctx (finish_pool s (c_session (fst st)) (c_session c1))
           (wrap_other (sdata s) (quote_body env run qk s roots qid (c1, snd st))))
      else wrap_other (sdata s) (quote_body env run qk s roots qid st))"

definition execute_quote :: "engine_env \<Rightarrow> runner \<Rightarrow> quote_kind \<Rightarrow> step \<Rightarrow> xstate \<Rightarrow> (xstate, unit) outcome" where
  "execute_quote env run qk s st =
     finally_ctx (\<lambda>c. restore_quote (fst st) (restore_dataset (fst st) c))
       (if \<not> truthy_id (quote_case_id (sdata s)) then Fail st (SEE QuoteIdMissing)
        else (let qid = the (quote_case_id (sdata s));
                  st1 = ((fst st)\<lparr>c_quote_case := Some qid, c_quote_parent := step_id (sdata s)\<rparr>, snd st)
          in case en_find_case env qid (qk_case_type qk) of
               CaseMissing \<Rightarrow> Fail st1 (SEE (QuoteCaseNotFound qid))
             | CaseQueryError \<Rightarrow> Fail st1 (SEE (QuoteQueryError qid))
             | CaseFound stored \<Rightarrow> (case en_case_tree env qid of
                 None \<Rightarrow> Fail st1 (SEE (QuoteTreeError qid))
               | Some roots \<Rightarrow>
                   if roots = [] then Done (log_step (LQuoteEmpty qid) s st1) ()
                   else quote_scope env run qk s stored roots qid st1)))"

text \<open>
  The code restores the dataset before it merges the pools back and the quote markers after; the
  merge does not read either.
\<close>

section \<open>Dispatch\<close>

definition execute_body :: "engine_env \<Rightarrow> runner \<Rightarrow> step \<Rightarrow> xstate \<Rightarrow> (xstate, unit) outcome" where
  "execute_body env run s st = (case the (step_type (sdata s)) of
     LOOP \<Rightarrow> execute_loop env run s st
   | COND_BRANCH \<Rightarrow> execute_condition env run s st
   | WAIT \<Rightarrow> execute_wait s st
   | ASSERT \<Rightarrow> execute_assert env s st
   | EXTRACT \<Rightarrow> execute_extract env s st
   | USER_VARIABLES \<Rightarrow> execute_user_variables env s st
   | QUOTE_PUBLIC_SCRIPT \<Rightarrow> execute_quote env run quote_script s st
   | QUOTE_PUBLIC_API \<Rightarrow> execute_quote env run quote_api s st
   | DATABASE \<Rightarrow> execute_operates env SqlOperate s st
   | REDIS \<Rightarrow> execute_operates env RedisOperate s st
   | PYTHON \<Rightarrow> execute_python env s st
   | DIFF \<Rightarrow> execute_diff env s st
   | HTTP \<Rightarrow> execute_http env s st
   | TCP \<Rightarrow> execute_tcp env s st)"

end
