(* ===== verification/Engine.thy ===== *)
theory Engine
  imports Executors
begin

text \<open>
  Running a step and running a case: \<^verbatim>\<open>BaseStepExecutor.execute\<close>, \<^verbatim>\<open>StepExecutorFactory\<close>
  and \<^verbatim>\<open>AutoTestStepExecutionEngine\<close> of \<^verbatim>\<open>services/autotest_step_engine.py\<close>.

  Steps run steps: children, branches, and the roots of quoted cases, which come from the database
  and may quote each other without end. \<^verbatim>\<open>exec_step\<close> therefore counts nesting levels: with none
  left it is \<^verbatim>\<open>Stuck\<close>. It never changes its answer when given more levels, and the levels a
  tree needs are bounded below.
\<close>

section \<open>One step\<close>

definition extracted_step_vars :: "step_result \<Rightarrow> step_var list" where
  "extracted_step_vars r =
     map (\<lambda>e. mk_var (ex_name (er_item e)) (er_value e)) (filter er_success (r_extract (rinfo r)))"

text \<open>The \<^verbatim>\<open>finally\<close> of \<^verbatim>\<open>execute\<close>.\<close>

definition merge_extracted :: "step_result \<Rightarrow> ctx \<Rightarrow> ctx" where
  "merge_extracted r c = (if extracted_step_vars r = [] then c else update_session (extracted_step_vars r) c)"

definition finish_step :: "engine_env \<Rightarrow> step_data \<Rightarrow> int option \<Rightarrow> string option \<Rightarrow> xstate \<Rightarrow> xstate" where
  "finish_step env d cycles prev st =
     save_step_detail env d cycles ((merge_extracted (snd st) (fst st))\<lparr>c_current := prev\<rparr>, snd st)"

definition record_failure :: "exn \<Rightarrow> step_result \<Rightarrow> step_result" where
  "record_failure e r = (case r_error (rinfo r) of None \<Rightarrow> set_error (exn_err e) r | Some _ \<Rightarrow> set_failed r)"

definition begin_step :: "step_data \<Rightarrow> ctx \<Rightarrow> ctx" where
  "begin_step d c =
     (let c1 = (if truthy_text (step_code d) \<and> map_of (c_cycle c) (the (step_code d)) = None
                then c\<lparr>c_cycle := AList.update (the (step_code d)) None (c_cycle c)\<rparr> else c)
      in c1\<lparr>c_current := step_code d\<rparr>)"

definition own_cycle :: "step_data \<Rightarrow> ctx \<Rightarrow> int option" where
  "own_cycle d c = (case step_code d of None \<Rightarrow> None
     | Some k \<Rightarrow> (case map_of (c_cycle c) k of None \<Rightarrow> None | Some n \<Rightarrow> n))"

definition execute :: "engine_env \<Rightarrow> runner \<Rightarrow> runner" where
  "execute env run s c =
     (let d = sdata s in
      if step_is_skipped d then Done c None
      else (case execute_body env run s (prepare_defined env d (begin_step d c), new_result d True None) of
        Stuck \<Rightarrow> Stuck
      | Done st _ \<Rightarrow> (case finish_step env d (own_cycle d c) (c_current c) st of (c1, r) \<Rightarrow> Done c1 (Some r))
      | Fail st e \<Rightarrow>
          (case finish_step env d (own_cycle d c) (c_current c) (fst st, record_failure e (snd st)) of
             (c1, r) \<Rightarrow> Done c1 (Some r))))"

text \<open>\<^verbatim>\<open>StepExecutorFactory.create_executor\<close>, then \<^verbatim>\<open>execute\<close>.\<close>

definition create_and_execute :: "engine_env \<Rightarrow> runner \<Rightarrow> runner" where
  "create_and_execute env run s c =
     (if step_type (sdata s) = None then Fail c (SEE StepTypeUndefined) else execute env run s c)"

primrec exec_step :: "engine_env \<Rightarrow> nat \<Rightarrow> runner" where
  "exec_step env 0 = (\<lambda>s c. Stuck)"
| "exec_step env (Suc n) = create_and_execute env (exec_step env n)"

section \<open>Logs and statistics of a case\<close>

primrec collect_step_codes :: "step_result \<Rightarrow> string list" where
  "collect_step_codes (Result i cs) =
     (case r_step_code i of None \<Rightarrow> [] | Some k \<Rightarrow> [k]) @ concat (map collect_step_codes cs)"

definition child_step_codes :: "step_result \<Rightarrow> string list" where
  "child_step_codes r = concat (map collect_step_codes (rchildren r))"

type_synonym logs = "(string option \<times> log_entry list) list"

definition logs_of :: "logs \<Rightarrow> string option \<Rightarrow> log_entry list" where
  "logs_of ls k = (case map_of ls k of None \<Rightarrow> [] | Some l \<Rightarrow> l)"

definition aggregated_logs :: "logs \<Rightarrow> step_result \<Rightarrow> log_entry list" where
  "aggregated_logs ls r = concat (map (\<lambda>k. logs_of ls (Some k)) (sort (child_step_codes r)))"

definition aggregate_root_step_logs :: "step_result \<Rightarrow> string \<Rightarrow> ctx \<Rightarrow> ctx" where
  "aggregate_root_step_logs r root_code c =
     c\<lparr>c_logs := AList.update (Some root_code) (logs_of (c_logs c) (Some root_code) @ aggregated_logs (c_logs c) r) (c_logs c)\<rparr>"

text \<open>\<^verbatim>\<open>collect_all_results\<close>, each with whether it has children.\<close>

primrec collect_result :: "step_result \<Rightarrow> (result_info \<times> bool) list" where
  "collect_result (Result i cs) = (i, cs \<noteq> []) # concat (map collect_result cs)"

definition collect_all_results :: "step_result list \<Rightarrow> (result_info \<times> bool) list" where
  "collect_all_results rs = concat (map collect_result rs)"

definition counted :: "result_info \<times> bool \<Rightarrow> bool" where
  "counted p = (\<not> (is_quote (r_step_type (fst p)) \<and> snd p))"

text \<open>One state for each step code, false when some result of the code failed.\<close>

fun unique_states :: "result_info list \<Rightarrow> (string option \<times> bool) list \<Rightarrow> (string option \<times> bool) list" where
  "unique_states [] acc = acc"
| "unique_states (i # is) acc =
     (let k = r_step_code i;
          acc1 = (if map_of acc k = None then AList.update k True acc else acc);
          acc2 = (if r_success i then acc1 else AList.update k False acc1)
      in unique_states is acc2)"

definition states_of :: "step_result list \<Rightarrow> (string option \<times> bool) list" where
  "states_of rs = unique_states (map fst (filter counted (collect_all_results rs))) []"

record statistics =
  total_steps :: nat
  success_steps :: nat
  failed_steps :: nat
  passed_ratio :: pyfloat

definition statistics_of :: "(string option \<times> bool) list \<Rightarrow> statistics" where
  "statistics_of st =
     (let n = length st; ok = length (filter snd st) in
      \<lparr>total_steps = n, success_steps = ok, failed_steps = n - ok,
       passed_ratio = (if n = 0 then FFin 0
          else f_mul (f_div (round_double (of_nat ok)) (round_double (of_nat n))) (FFin 100))\<rparr>)"

section \<open>One case\<close>

record report =
  rp_case_id :: int
  rp_code :: string
  rp_state :: bool
  rp_statistics :: statistics
  rp_dataset_name :: "string option"
  rp_envs :: "string set"

record case_outcome =
  co_results :: "step_result list"
  co_logs :: logs
  co_report_code :: "string option"
  co_statistics :: statistics
  co_session :: "step_var list"
  co_report :: "report option"
  co_details :: "detail list option"

text \<open>A new context: \<^verbatim>\<open>report_code\<close> is present when the report is saved. The initial
  variables are resolved against an empty context.\<close>

definition init_ctx :: "engine_env \<Rightarrow> int \<Rightarrow> exec_config dict \<Rightarrow> string option \<Rightarrow> step_var list \<Rightarrow> string option \<Rightarrow> ctx" where
  "init_ctx env cid cfg rc vars ds =
     (case resolve_vars (en_ph env) (EngineContext [] []) 0 vars of (vs, n) \<Rightarrow>
       \<lparr>c_case_id = cid, c_config = cfg, c_report_code = rc, c_dataset_name = ds, c_logs = [],
        c_pending = map_option (\<lambda>_. []) rc, c_cycle = [], c_current = None, c_quote_case = None,
        c_quote_parent = None, c_quote_dataset_name = None, c_quote_dataset = None, c_defined = [],
        c_pools = (\<lambda>_. [])(0 := vs), c_session = 0, c_next_pool = 1, c_tick = n\<rparr>)"

text \<open>The logs of the steps below a root are gathered only when the root has no parent id.\<close>

definition add_root_logs :: "step_data \<Rightarrow> step_result \<Rightarrow> ctx \<Rightarrow> ctx" where
  "add_root_logs d r c = (case (parent_step_id d, step_code d) of
     (None, Some code) \<Rightarrow> aggregate_root_step_logs r code c | _ \<Rightarrow> c)"

fun run_roots :: "runner \<Rightarrow> step list \<Rightarrow> ctx \<Rightarrow> (ctx, step_result list) outcome" where
  "run_roots run [] c = Done c []"
| "run_roots run (s # ss) c = bind (run s c) (\<lambda>c1 r. case r of
       None \<Rightarrow> run_roots run ss c1
     | Some x \<Rightarrow> bind (run_roots run ss (add_root_logs (sdata s) x c1)) (\<lambda>c2 xs. Done c2 (x # xs)))"

definition make_report :: "ctx \<Rightarrow> string \<Rightarrow> statistics \<Rightarrow> report" where
  "make_report c code st =
     \<lparr>rp_case_id = c_case_id c, rp_code = code, rp_state = (failed_steps st = 0), rp_statistics = st,
      rp_dataset_name = (if truthy_text (c_dataset_name c) then c_dataset_name c else None),
      rp_envs = env_name ` snd ` set (c_config c)\<rparr>"

text \<open>\<^verbatim>\<open>round(passed_ratio, 2)\<close>\<close>

definition round2 :: "pyfloat \<Rightarrow> pyfloat" where
  "round2 f = (case f_value f of None \<Rightarrow> f | Some q \<Rightarrow> round_double (of_int (round_half_even (q * 100)) / 100))"

definition finish_case :: "step_result list \<Rightarrow> ctx \<Rightarrow> case_outcome" where
  "finish_case rs c =
     (let st = statistics_of (states_of rs) in
      \<lparr>co_results = rs, co_logs = c_logs c, co_report_code = c_report_code c,
       co_statistics = st\<lparr>passed_ratio := round2 (passed_ratio st)\<rparr>, co_session = session c,
       co_report = (if truthy_text (c_report_code c) then Some (make_report c (the (c_report_code c)) st) else None),
       co_details = (if truthy_text (c_report_code c) then c_pending c else None)\<rparr>)"

definition execute_case ::
    "engine_env \<Rightarrow> nat \<Rightarrow> int \<Rightarrow> exec_config dict \<Rightarrow> string option \<Rightarrow> step_var list \<Rightarrow> string option \<Rightarrow> step list \<Rightarrow>
     (ctx, case_outcome) outcome" where
  "execute_case env levels cid cfg rc vars ds steps =
     bind (run_roots (exec_step env levels) (sort_steps (map prepare_step steps)) (init_ctx env cid cfg rc vars ds))
       (\<lambda>c rs. Done c (finish_case rs c))"

end
