(* ===== verification/EngineFrame.thy ===== *)
theory EngineFrame
  imports Engine
begin

text \<open>
  What running a step may do to the execution context, and what it returns. \<^verbatim>\<open>frame\<close> bounds
  the effect of any part of an execution: the case stays the same, log lines and details are only
  appended, the pool objects other than the current one are untouched, and pools keep distinct keys.
  \<^verbatim>\<open>step_frame\<close> adds that the markers of the running step and of the quote chain are as before.

  The interface \<^verbatim>\<open>step_runner\<close> is what the executors rely on when they run other steps. The
  engine meets it at every nesting level, by induction on the levels.
\<close>

section \<open>Frames\<close>

lemma resolve_vars_keys [simp]: "map var_key (fst (resolve_vars env src n vs)) = map var_key vs"
  by (induction vs arbitrary: n) (auto split: prod.splits, (metis fst_conv)+)

definition same_case :: "ctx \<Rightarrow> ctx \<Rightarrow> bool" where
  "same_case c c' = (c_case_id c' = c_case_id c \<and> c_config c' = c_config c \<and>
     c_report_code c' = c_report_code c \<and> c_dataset_name c' = c_dataset_name c)"

definition same_marks :: "ctx \<Rightarrow> ctx \<Rightarrow> bool" where
  "same_marks c c' = (c_current c' = c_current c \<and> c_quote_case c' = c_quote_case c \<and>
     c_quote_parent c' = c_quote_parent c \<and> c_quote_dataset_name c' = c_quote_dataset_name c \<and>
     c_quote_dataset c' = c_quote_dataset c)"

definition details_grow :: "ctx \<Rightarrow> ctx \<Rightarrow> bool" where
  "details_grow c c' = (\<exists>ds. c_pending c' = map_option (\<lambda>x. x @ ds) (c_pending c))"

definition logs_grow :: "ctx \<Rightarrow> ctx \<Rightarrow> bool" where
  "logs_grow c c' = (\<forall>k. \<exists>l. logs_of (c_logs c') k = logs_of (c_logs c) k @ l)"

definition pools_frame :: "ctx \<Rightarrow> ctx \<Rightarrow> bool" where
  "pools_frame c c' = (c_next_pool c \<le> c_next_pool c' \<and>
     (c_session c' = c_session c \<or> c_next_pool c \<le> c_session c') \<and>
     (\<forall>i < c_next_pool c. i \<noteq> c_session c \<longrightarrow> c_pools c' i = c_pools c i))"

definition pool_ok :: "ctx \<Rightarrow> bool" where
  "pool_ok c = (c_session c < c_next_pool c \<and> (\<forall>i. distinct_keys (c_pools c i)))"

definition frame :: "ctx \<Rightarrow> ctx \<Rightarrow> bool" where
  "frame c c' = (same_case c c' \<and> details_grow c c' \<and> logs_grow c c' \<and> pools_frame c c' \<and>
     (pool_ok c \<longrightarrow> pool_ok c'))"

definition step_frame :: "ctx \<Rightarrow> ctx \<Rightarrow> bool" where
  "step_frame c c' = (frame c c' \<and> same_marks c c')"

lemma details_grow_refl [simp]: "details_grow c c"
  unfolding details_grow_def by (rule exI[of _ "[]"]) (cases "c_pending c"; simp)

lemma details_grow_trans: "details_grow a b \<Longrightarrow> details_grow b c \<Longrightarrow> details_grow a c"
  unfolding details_grow_def by (auto simp: option.map_comp comp_def)

lemma logs_grow_trans: "logs_grow a b \<Longrightarrow> logs_grow b c \<Longrightarrow> logs_grow a c"
  unfolding logs_grow_def by (metis append.assoc)

lemma pools_frame_trans: "pools_frame a b \<Longrightarrow> pools_frame b c \<Longrightarrow> pools_frame a c"
  unfolding pools_frame_def by (smt (verit, best) leD le_trans less_le_trans)

lemma frame_refl [simp]: "frame c c"
  by (auto simp: frame_def same_case_def logs_grow_def pools_frame_def)

lemma step_frame_refl [simp]: "step_frame c c"
  by (simp add: step_frame_def same_marks_def)

lemma frame_trans: "frame a b \<Longrightarrow> frame b c \<Longrightarrow> frame a c"
  unfolding frame_def
  by (auto intro: details_grow_trans logs_grow_trans pools_frame_trans) (auto simp: same_case_def)

lemma step_frame_trans [trans]: "step_frame a b \<Longrightarrow> step_frame b c \<Longrightarrow> step_frame a c"
  unfolding step_frame_def by (auto intro: frame_trans) (auto simp: same_marks_def)

section \<open>The primitives stay within the frame\<close>

named_theorems frames \<open>effects of the context operations\<close>

text \<open>A context that differs in nothing \<^verbatim>\<open>frame\<close> looks at.\<close>

lemma frame_same:
  assumes "same_case c c'" "c_pending c' = c_pending c" "c_logs c' = c_logs c" "c_pools c' = c_pools c"
    "c_session c' = c_session c" "c_next_pool c' = c_next_pool c"
  shows "frame c c'"
proof -
  have "c_pending c' = map_option (\<lambda>x. x @ []) (c_pending c)"
    using assms(2) by (cases "c_pending c") auto
  then have "details_grow c c'" unfolding details_grow_def by blast
  with assms show ?thesis by (auto simp: frame_def logs_grow_def pools_frame_def pool_ok_def)
qed

lemma add_log_frame [frames]: "step_frame c (add_log e k c)"
proof -
  let ?k = "if truthy_text k then k else c_current c"
  have "logs_grow c (add_log e k c)"
    unfolding logs_grow_def
  proof
    fix j
    show "\<exists>l. logs_of (c_logs (add_log e k c)) j = logs_of (c_logs c) j @ l"
      by (cases "j = ?k") (auto simp: add_log_def Let_def logs_of_def map_of_update split: option.splits)
  qed
  then show ?thesis
    by (auto simp: add_log_def Let_def step_frame_def frame_def same_case_def same_marks_def pools_frame_def
        pool_ok_def details_grow_def option.map_id[unfolded id_def])
       (rule exI[of _ "[]"], simp add: option.map_ident)+
qed

lemma set_session_frame:
  "distinct_keys (session c) \<longrightarrow> distinct_keys p \<Longrightarrow>
   step_frame c (c\<lparr>c_pools := (c_pools c)(c_session c := p)\<rparr>)"
  by (auto simp: step_frame_def frame_def same_case_def same_marks_def pools_frame_def pool_ok_def
      logs_grow_def session_def details_grow_def)
     (rule exI[of _ "[]"], simp add: option.map_ident)+

lemma update_session_frame [frames]: "step_frame c (update_session vs c)"
  unfolding update_session_def
  by (rule step_frame_trans[OF set_session_frame add_log_frame]) (simp add: distinct_update_pool)

lemma tick_frame [frames]: "step_frame c (c\<lparr>c_tick := n\<rparr>)"
  by (auto simp: step_frame_def same_marks_def same_case_def intro!: frame_same)

lemma defined_frame [frames]: "step_frame c (c\<lparr>c_defined := vs\<rparr>)"
  by (auto simp: step_frame_def same_marks_def same_case_def intro!: frame_same)

lemma cycle_frame [frames]: "step_frame c (c\<lparr>c_cycle := cy\<rparr>)"
  by (auto simp: step_frame_def same_marks_def same_case_def intro!: frame_same)

lemma marks_frame:
  "frame c (c\<lparr>c_current := k\<rparr>)" "frame c (c\<lparr>c_quote_case := q, c_quote_parent := p\<rparr>)"
  "frame c (c\<lparr>c_quote_dataset_name := nm, c_quote_dataset := sn\<rparr>)"
  by (auto simp: same_case_def intro!: frame_same)

lemma install_session_frame: "distinct_keys vs \<Longrightarrow> frame c (install_session vs c)"
  by (auto simp: install_session_def frame_def same_case_def pools_frame_def pool_ok_def logs_grow_def
      details_grow_def)
     (rule exI[of _ "[]"], simp add: option.map_ident)+

lemma resolve_frame [frames]: "ctx_resolve env v c = (w, c') \<Longrightarrow> step_frame c c'"
  by (auto simp: ctx_resolve_def frames split: prod.splits)

lemma resolve_vars_frame [frames]: "ctx_resolve_vars env vs c = (ws, c') \<Longrightarrow> step_frame c c'"
  by (auto simp: ctx_resolve_vars_def frames split: prod.splits)

lemma now_frame [frames]: "ctx_now env c = (t, c') \<Longrightarrow> step_frame c c'"
  by (auto simp: ctx_now_def frames)

lemma fold_frame:
  "(\<And>x c. step_frame c (f x c)) \<Longrightarrow> step_frame c (fold f xs c)"
  by (induction xs arbitrary: c) (auto intro: step_frame_trans)

lemma builtins_frame [frames]: "step_builtins env d c = (bs, c') \<Longrightarrow> step_frame c c'"
  unfolding step_builtins_def Let_def by (auto split: if_splits intro: fold_frame add_log_frame)

lemma prepare_defined_frame [frames]: "step_frame c (prepare_defined env d c)"
proof -
  obtain bs c1 where b: "step_builtins env d c = (bs, c1)" by fastforce
  obtain ws c2 where r: "ctx_resolve_vars env (filter (\<lambda>v. usable_key (var_key v)) (defined_vars d))
      (c1\<lparr>c_defined := bs\<rparr>) = (ws, c2)" by fastforce
  have "step_frame c (c1\<lparr>c_defined := bs\<rparr>)"
    by (rule step_frame_trans[OF builtins_frame[OF b] defined_frame])
  moreover from this have "step_frame c (c2\<lparr>c_defined := x\<rparr>)" for x
    using resolve_vars_frame[OF r] defined_frame by (meson step_frame_trans)
  ultimately show ?thesis by (simp add: prepare_defined_def b r Let_def)
qed

section \<open>Outcomes that stay within a relation\<close>

definition stays :: "('s \<Rightarrow> 's \<Rightarrow> bool) \<Rightarrow> 's \<Rightarrow> ('s, 'a) outcome \<Rightarrow> bool" where
  "stays R s m = (case m of Done s' a \<Rightarrow> R s s' | Fail s' e \<Rightarrow> R s s' | Stuck \<Rightarrow> True)"

lemma stays_simps [simp]:
  "stays R s (Done s' a) = R s s'" "stays R s (Fail s' e) = R s s'" "stays R s Stuck"
  by (auto simp: stays_def)

locale outcome_frame =
  fixes R :: "'s \<Rightarrow> 's \<Rightarrow> bool"
  assumes frame_self: "R s s"
    and frame_join: "R s t \<Longrightarrow> R t u \<Longrightarrow> R s u"
begin

lemma stays_from: "R s t \<Longrightarrow> stays R t m \<Longrightarrow> stays R s m"
  by (cases m) (auto intro: frame_join)

lemma stays_bind:
  "stays R s m \<Longrightarrow> (\<And>t a. m = Done t a \<Longrightarrow> stays R t (f t a)) \<Longrightarrow> stays R s (bind m f)"
  by (cases m) (auto intro: stays_from)

end

text \<open>Results: who the step is stays, children are only appended, and a result with an error is not
  a success.\<close>

fun sound :: "step_result \<Rightarrow> bool" where
  "sound (Result i cs) = ((r_error i \<noteq> None \<longrightarrow> \<not> r_success i) \<and> list_all sound cs)"

definition identity :: "result_info \<Rightarrow> int option \<times> int option \<times> string option \<times> step_type option \<times> int option" where
  "identity i = (r_case_id i, r_step_id i, r_step_code i, r_step_type i, r_quote_case_id i)"

definition describes :: "step_data \<Rightarrow> step_result \<Rightarrow> bool" where
  "describes d r = (identity (rinfo r) = (case_id d, step_id d, step_code d, step_type d, quote_case_id d))"

definition result_frame :: "step_result \<Rightarrow> step_result \<Rightarrow> bool" where
  "result_frame r r' = (identity (rinfo r') = identity (rinfo r) \<and> (sound r \<longrightarrow> sound r') \<and>
     (\<exists>xs. rchildren r' = rchildren r @ xs))"

definition xframe :: "xstate \<Rightarrow> xstate \<Rightarrow> bool" where
  "xframe st st' = (step_frame (fst st) (fst st') \<and> result_frame (snd st) (snd st'))"

lemma result_frame_refl [simp]: "result_frame r r"
  by (simp add: result_frame_def)

lemma result_frame_trans: "result_frame a b \<Longrightarrow> result_frame b c \<Longrightarrow> result_frame a c"
  by (auto simp: result_frame_def)

lemma xframe_refl [simp]: "xframe st st"
  by (simp add: xframe_def)

lemma xframe_ctx [intro]: "step_frame c c' \<Longrightarrow> xframe (c, r) (c', r)"
  by (simp add: xframe_def)

interpretation ctxf: outcome_frame step_frame
  by unfold_locales (auto intro: step_frame_trans)

interpretation xf: outcome_frame xframe
  by unfold_locales (auto simp: xframe_def intro: step_frame_trans result_frame_trans)

lemma sound_iff: "sound r = ((r_error (rinfo r) \<noteq> None \<longrightarrow> \<not> res_success r) \<and> list_all sound (rchildren r))"
  by (cases r) simp

lemma result_frame_edits [frames]:
  "result_frame r (set_failed r)" "result_frame r (set_error e r)" "result_frame r (set_request q r)"
  "result_frame r (record_failure x r)" "sound y \<Longrightarrow> result_frame r (add_child y r)"
  "list_all sound ys \<Longrightarrow> result_frame r (add_children ys r)"
  by (auto simp: result_frame_def identity_def sound_iff set_failed_def set_error_def set_request_def
      record_failure_def add_child_def add_children_def split: option.splits)

lemma new_result_sound: "\<not> ok \<or> e = None \<Longrightarrow> sound (new_result d ok e) \<and> describes d (new_result d ok e)"
  by (auto simp: new_result_def describes_def identity_def)

section \<open>The operations of the base class stay within the frame\<close>

lemma sleep_stays [frames]: "stays step_frame c (ctx_sleep t c)"
  by (auto simp: ctx_sleep_def frames split: option.splits)

lemma evaluate_condition_stays [frames]: "stays step_frame c (evaluate_condition env cond c)"
proof (cases "(condition_expr cond, condition_compare cond)")
  case (Pair x y)
  show ?thesis
  proof (cases "x = None \<or> y = None")
    case True
    with Pair show ?thesis by (auto simp: evaluate_condition_def split: option.splits)
  next
    case False
    then obtain expr op where xy: "x = Some expr" "y = Some op" by auto
    obtain w c1 where r: "ctx_resolve env (PStr expr) c = (w, c1)" by fastforce
    obtain u c2 where q: "ctx_resolve env (condition_value cond) c1 = (u, c2)" by fastforce
    have "step_frame c c1" "step_frame c c2"
      using resolve_frame[OF r] resolve_frame[OF q] by (auto intro: step_frame_trans)
    with Pair xy r q show ?thesis
      by (auto simp: evaluate_condition_def Let_def split: option.splits sum.splits var_exn.splits)
  qed
qed

lemma on_ctx_stays [intro]: "stays step_frame c m \<Longrightarrow> stays xframe (c, r) (on_ctx m r)"
  by (cases m) auto

lemma wrap_other_stays [intro]: "stays xframe st m \<Longrightarrow> stays xframe st (wrap_other d m)"
proof (cases m)
  case (Fail st' e)
  assume a: "stays xframe st m"
  have "xframe st' (add_log x k (fst st'), set_error f (snd st'))" for x k f
    by (simp add: xframe_def frames)
  with a Fail show ?thesis
    by (cases e; cases st') (auto simp: wrap_other_def Let_def intro: xf.frame_join)
qed (auto simp: wrap_other_def)

lemma run_extract_and_assert_distinct:
  "run_extract_and_assert env x defined pool n lookup rules validators ds raise = (out, pool', n') \<Longrightarrow>
   distinct_keys pool \<Longrightarrow> distinct_keys pool'"
  unfolding run_extract_and_assert_def Let_def
  by (auto simp: distinct_update_pool split: prod.splits if_splits option.splits)

lemma log_pipeline_frame [frames]: "step_frame c (log_pipeline code rules ers validators ars c)"
  unfolding log_pipeline_def Let_def
  by (rule step_frame_trans[OF fold_frame step_frame_trans[OF _ fold_frame]]) (auto intro: add_log_frame)

lemma apply_extract_and_assert_stays [frames]:
  "stays xframe st (apply_extract_and_assert env x rules validators ds extra st)"
proof -
  obtain c r where st: "st = (c, r)" by fastforce
  let ?lookup = "dict_update (build_session_lookup (c_defined c) (session c)) extra"
  obtain out pool n where e: "run_extract_and_assert (en_xch env) x (c_defined c) (session c) (c_tick c) ?lookup
      rules validators ds False = (out, pool, n)" by (metis prod_cases3)
  have "step_frame c (c\<lparr>c_pools := (c_pools c)(c_session c := pool)\<rparr>)"
    using run_extract_and_assert_distinct[OF e] by (intro set_session_frame) simp
  then have p: "step_frame c ((c\<lparr>c_pools := (c_pools c)(c_session c := pool)\<rparr>)\<lparr>c_tick := n\<rparr>)"
    using tick_frame step_frame_trans by blast
  moreover have "step_frame c (log_pipeline k rules ers validators ars
      ((c\<lparr>c_pools := (c_pools c)(c_session c := pool)\<rparr>)\<lparr>c_tick := n\<rparr>))" for k ers ars
    using step_frame_trans[OF p log_pipeline_frame] .
  moreover have "result_frame r (map_info (\<lambda>i. i\<lparr>r_extract := a, r_assert := b\<rparr>) r)" for a b
    by (auto simp: result_frame_def identity_def sound_iff)
  ultimately show ?thesis
    by (auto simp: st apply_extract_and_assert_def Let_def e xframe_def split: sum.splits)
qed

lemma save_step_detail_frame [frames]: "xframe st (save_step_detail env d cycles st)"
proof -
  have "step_frame c (c\<lparr>c_pending := map_option (\<lambda>ds. ds @ [x]) (c_pending c)\<rparr>)" for c x
    by (auto simp: step_frame_def frame_def same_case_def same_marks_def pools_frame_def pool_ok_def
        logs_grow_def details_grow_def)
  then show ?thesis
    by (cases st) (auto simp: save_step_detail_def Let_def xframe_def frames split: option.splits)
qed

end
