(* ===== verification/RequestFrame.thy ===== *)
theory RequestFrame
  imports EngineFrame
begin

text \<open>
  The executors of \<^verbatim>\<open>Requests\<close> stay within the frame of a step. They run no other step, and they end by
  themselves, the Python executor when its code resolves.
\<close>

section \<open>Within the frame\<close>

lemma on_ctx_stays_st: "stays step_frame (fst st) m \<Longrightarrow> stays xframe st (on_ctx m (snd st))"
  using on_ctx_stays[of "fst st" m "snd st"] by simp

lemma xframe_edit: "step_frame (fst st) c \<Longrightarrow> result_frame (snd st) r \<Longrightarrow> xframe st (c, r)"
  by (simp add: xframe_def)

lemma resolve_str_frame [frames]: "resolve_str env s c = (t, c') \<Longrightarrow> step_frame c c'"
  by (auto simp: resolve_str_def dest: resolve_frame split: prod.splits pyval.splits)

lemma resolve_operate_frame [frames]:
  assumes "resolve_operate env cls pl op c = (ro, c')"
  shows "step_frame c c'"
proof -
  obtain e c1 g c2 p c3 where r: "resolve_str env (op_expr op) c = (e, c1)"
    "resolve_str env (pl_config pl) c1 = (g, c2)" "resolve_str env (op_project_name op) c2 = (p, c3)"
    by (metis surj_pair)
  obtain d c4 where d: "(case pl_database pl of None \<Rightarrow> (None, c3)
      | Some x \<Rightarrow> (case resolve_str env x c3 of (t, y) \<Rightarrow> (Some t, y))) = (d, c4)" by fastforce
  have "step_frame c c3" using r by (meson resolve_str_frame step_frame_trans)
  moreover have "step_frame c3 c4"
    using d by (auto split: option.splits prod.splits dest: resolve_str_frame)
  moreover have "step_frame c4 c'"
    using assms by (auto simp: resolve_operate_def r d split: prod.splits operate_class.splits dest: resolve_str_frame)
  ultimately show ?thesis by (blast intro: step_frame_trans)
qed

lemma run_operate_frame [frames]: "run_operate env cls idx pl op ro c = (out, p, c') \<Longrightarrow> step_frame c c'"
  by (auto simp: run_operate_def tick_frame split: sum.splits prod.splits)

lemma run_operates_stays: "stays xframe st (run_operates env cls s idx ops st)"
proof (induction ops arbitrary: idx st)
  case (Cons op ops)
  show ?case
  proof (cases "operate_place cls (get_execute_config (sdata s) (Some idx) (Some [operate_type cls]) (fst st)) op")
    case (Some pl)
    obtain ro c1 where r: "resolve_operate env cls pl op (fst st) = (ro, c1)" by fastforce
    obtain out p c2 where o: "run_operate env cls idx pl op ro c1 = (out, p, c2)" by (metis prod_cases3)
    have f: "step_frame (fst st) c2"
      using resolve_operate_frame[OF r] run_operate_frame[OF o] by (rule step_frame_trans)
    have logs: "step_frame (fst st) (add_log e k c2)" "step_frame (fst st) (add_log e' k' (add_log e k c2))" for e k e' k'
      using f add_log_frame by (meson step_frame_trans)+
    have more: "stays xframe st (bind (run_operates env cls s (Suc idx) ops (c, r)) (\<lambda>t (ms, rs). Done t (g ms rs)))"
      if "step_frame (fst st) c" "result_frame (snd st) r" for c r g
      by (rule xf.stays_from[OF xframe_edit[OF that]], rule xf.stays_bind[OF Cons.IH]) (auto split: prod.splits)
    show ?thesis
    proof (cases out)
      case (Inl e)
      then show ?thesis
        by (cases e) (simp_all add: Some r o Let_def f logs more xframe_edit result_frame_edits)
    next
      case (Inr a)
      obtain data count where "a = (data, count)" by fastforce
      then show ?thesis
        by (simp add: Some r o Let_def Inr f logs more xframe_edit)
    qed
  qed simp
qed simp

lemma response_edits [frames]:
  "result_frame r (set_stored ms resp r)" "result_frame r (map_info (\<lambda>i. i\<lparr>r_response := resp\<rparr>) r)"
  by (auto simp: set_stored_def result_frame_def identity_def sound_iff)

lemma execute_operates_stays: "stays xframe st (execute_operates env cls s st)"
  unfolding execute_operates_def
  by (auto split: option.splits prod.splits simp: response_edits xframe_def
      intro!: wrap_other_stays xf.stays_bind run_operates_stays xf.stays_from[OF _ apply_extract_and_assert_stays])

lemma code_fails_stays: "step_frame c c' \<Longrightarrow> stays step_frame c (code_fails e c')"
  by (simp add: code_fails_def) (rule step_frame_trans[OF _ add_log_frame])

lemma accept_result_stays: "step_frame c c' \<Longrightarrow> stays step_frame c (accept_result v c')"
  using step_frame_trans[OF _ add_log_frame] by (auto simp: accept_result_def code_fails_stays split: pyval.splits)

lemma run_python_code_stays: "stays step_frame c (run_python_code env code c)"
  by (auto simp: run_python_code_def Let_def tick_frame
      intro!: code_fails_stays accept_result_stays split: option.splits prod.splits sum.splits)

lemma execute_python_stays: "stays xframe st (execute_python env s st)"
proof -
  have "stays xframe (c, r) (apply_extract_and_assert env x rs vs ds extra (c, r'))" if "result_frame r r'"
    for c r r' x rs vs ds extra
    using that by (intro xf.stays_from[OF xframe_edit apply_extract_and_assert_stays]) auto
  then show ?thesis
    unfolding execute_python_def
    by (auto split: option.splits prod.splits simp: Let_def response_edits xframe_def
        intro!: wrap_other_stays xf.stays_bind on_ctx_stays_st run_python_code_stays)
qed

lemma resolve_message_ref_frame [frames]: "resolve_message_ref env raw c = (v, c') \<Longrightarrow> step_frame c c'"
  by (auto simp: resolve_message_ref_def Let_def dest: resolve_frame
      split: if_splits prod.splits option.splits sum.splits)

lemma run_comparisons_stays: "stays step_frame c (run_comparisons env items c)"
proof (induction items arbitrary: c)
  case (Cons x items)
  obtain l c1 where l: "resolve_message_ref env (ci_left x) c = (l, c1)" by fastforce
  obtain r c2 where r: "resolve_message_ref env (ci_right x) c1 = (r, c2)" by fastforce
  have "step_frame c c1" "step_frame c c2"
    using resolve_message_ref_frame[OF l] resolve_message_ref_frame[OF r] by (auto intro: step_frame_trans)
  then show ?case
    by (auto simp: l r Let_def Cons.IH intro!: ctxf.stays_from[of c c2] ctxf.stays_bind split: option.splits)
qed simp

lemma execute_diff_stays: "stays xframe st (execute_diff env s st)"
proof -
  have "stays xframe st (on_ctx (run_comparisons env items (add_log e k (fst st))) (snd st))" for items e k
    by (intro on_ctx_stays_st ctxf.stays_from[OF add_log_frame run_comparisons_stays])
  then show ?thesis
    unfolding execute_diff_def
    by (auto split: option.splits simp: Let_def response_edits add_log_frame xframe_def intro!: wrap_other_stays xf.stays_bind)
qed

section \<open>They end\<close>

lemma apply_not_stuck: "apply_extract_and_assert env x rules validators ds extra st \<noteq> Stuck"
  by (auto simp: apply_extract_and_assert_def Let_def split: prod.splits sum.splits)

lemma stuck_iff [simp]:
  "bind m f = Stuck \<longleftrightarrow> m = Stuck \<or> (\<exists>s a. m = Done s a \<and> f s a = Stuck)"
  "on_ctx n r = Stuck \<longleftrightarrow> n = Stuck" "wrap_other d x = Stuck \<longleftrightarrow> x = Stuck"
  "wrap_loop mode y = Stuck \<longleftrightarrow> y = Stuck" "finally_ctx g z = Stuck \<longleftrightarrow> z = Stuck"
  by (cases m; cases n; cases x; cases y; cases z;
      auto simp: wrap_other_def wrap_loop_def finally_ctx_def Let_def split: exn.splits prod.splits)+

lemma run_operates_not_stuck: "run_operates env cls s idx ops st \<noteq> Stuck"
  by (induction ops arbitrary: idx st)
     (auto simp: Let_def split: option.splits prod.splits sum.splits exn.splits)

lemma run_comparisons_not_stuck: "run_comparisons env items c \<noteq> Stuck"
  by (induction items arbitrary: c) (auto simp: Let_def split: option.splits prod.splits)

lemma run_python_code_ends: "\<not> quoted_holes code \<Longrightarrow> run_python_code env code c \<noteq> Stuck"
  by (auto simp: run_python_code_def bare_code_resolves code_fails_def accept_result_def Let_def
      split: option.splits sum.splits pyval.splits)

lemma requests_not_stuck:
  "execute_operates env cls s st \<noteq> Stuck" "execute_diff env s st \<noteq> Stuck"
  by (auto simp: execute_operates_def execute_diff_def Let_def run_operates_not_stuck
      run_comparisons_not_stuck apply_not_stuck split: option.splits prod.splits if_splits)

lemma python_not_stuck:
  "step_type (sdata s) = Some PYTHON \<Longrightarrow> code_settles (sdata s) \<Longrightarrow> execute_python env s st \<noteq> Stuck"
  by (auto simp: execute_python_def Let_def run_python_code_ends apply_not_stuck code_settles_def truthy_text_def
      split: option.splits prod.splits if_splits)

section \<open>Operations\<close>

lemma run_operates_counts:
  "run_operates env cls s idx ops st = Done st' (ms, rs) \<Longrightarrow> \<not> stops_when_found cls (sdata s) \<Longrightarrow>
   length rs = length ops \<and> length ms \<le> 2 * length ops \<and>
   res_success (snd st') = (res_success (snd st) \<and> length ms = 2 * length ops)"
proof (induction ops arbitrary: idx st ms rs)
  case (Cons op ops)
  from Cons.prems(1) obtain pl where pl: "operate_place cls (get_execute_config (sdata s) (Some idx) (Some [operate_type cls]) (fst st)) op = Some pl"
    by (cases "operate_place cls (get_execute_config (sdata s) (Some idx) (Some [operate_type cls]) (fst st)) op") auto
  obtain ro c1 where r: "resolve_operate env cls pl op (fst st) = (ro, c1)" by fastforce
  obtain out p c2 where o: "run_operate env cls idx pl op ro c1 = (out, p, c2)" by (metis prod_cases3)
  show ?case
  proof (cases out)
    case (Inl e)
    with Cons.prems obtain f where e: "e = OtherExn f" by (cases e) (auto simp: pl r o)
    define st1 where "st1 = (add_log (LError (OperateFailed idx f)) (step_code (sdata s)) c2, set_error (OperateFailed idx f) (snd st))"
    obtain ms1 rs1 where m: "run_operates env cls s (Suc idx) ops st1 = Done st' (ms1, rs1)" "ms = ms1" "length rs = Suc (length rs1)"
      using Cons.prems Inl e unfolding st1_def
      by (cases "run_operates env cls s (Suc idx) ops (add_log (LError (OperateFailed idx f)) (step_code (sdata s)) c2, set_error (OperateFailed idx f) (snd st))")
         (auto simp: pl r o Let_def)
    have "\<not> res_success (snd st1)" by (simp add: st1_def set_error_def)
    with Cons.IH[OF m(1) Cons.prems(2)] m show ?thesis by simp
  next
    case (Inr a)
    obtain data count where a: "a = (data, count)" by fastforce
    define st1 where "st1 = (if cls = RedisOperate then add_log (LStored (ro_name ro)) (step_code (sdata s)) c2 else c2, snd st)"
    obtain ms1 rs1 where m: "run_operates env cls s (Suc idx) ops st1 = Done st' (ms1, rs1)"
        "length ms = 2 + length ms1" "length rs = Suc (length rs1)"
      using Cons.prems Inr a unfolding st1_def
      by (cases "run_operates env cls s (Suc idx) ops (if cls = RedisOperate then add_log (LStored (ro_name ro)) (step_code (sdata s)) c2 else c2, snd st)")
         (auto simp: pl r o Let_def operate_marks_def)
    with Cons.IH[OF m(1) Cons.prems(2)] show ?thesis by (simp add: st1_def)
  qed
qed auto

end
