(* ===== verification/NetworkFrame.thy ===== *)
theory NetworkFrame
  imports RequestFrame Network
begin

text \<open>
  The executors of \<^verbatim>\<open>Network\<close> stay within the frame of a step and end by themselves.
\<close>

section \<open>Within the frame\<close>

lemma log_missed_frame [frames]: "step_frame c (log_missed code missed c)"
  unfolding log_missed_def by (intro fold_frame frames)

lemma resolve_channels_frame [frames]: "resolve_channels env ch c = (ch', c') \<Longrightarrow> step_frame c c'"
  by (auto simp: resolve_channels_def split: prod.splits) (meson resolve_frame step_frame_trans)

lemma resolve_message_text_stays: "stays step_frame c (resolve_message_text env is_xml txt c)"
  by (auto simp: resolve_message_text_def tick_frame dest: resolve_frame split: prod.splits option.splits)

lemma send_http_request_stays: "stays step_frame c (send_http_request env method url params p c)"
  using step_frame_trans[OF tick_frame add_log_frame]
  by (auto simp: send_http_request_def Let_def split: sum.splits)

lemma request_edits [frames]:
  "result_frame r (set_sent q r)" "result_frame r (set_response q r)" "result_frame r (set_dataset ds name r)"
  by (auto simp: set_sent_def set_response_def set_dataset_def result_frame_def identity_def sound_iff)

lemma run_http_stays: "stays xframe st (run_http env d url envn ds st)"
proof -
  obtain out missed where o: "replace_http env (args_type d) ds (http_parts env d) (request_text d) = (out, missed)" by fastforce
  let ?c1 = "log_missed (step_code d) missed (fst st)"
  show ?thesis
  proof (cases out)
    case (Inl e)
    then show ?thesis by (simp add: run_http_def o log_missed_frame xframe_edit)
  next
    case (Inr a)
    obtain ch0 txt0 where a: "a = (ch0, txt0)" by fastforce
    obtain ch c2 where r: "resolve_channels env ch0 ?c1 = (ch, c2)" by fastforce
    have c2: "step_frame (fst st) c2"
      using log_missed_frame resolve_channels_frame[OF r] by (rule step_frame_trans)
    have msg: "stays xframe st (on_ctx (resolve_message_text env x t c2) (snd st))" for x t
      by (intro on_ctx_stays_st ctxf.stays_from[OF c2 resolve_message_text_stays])
    have send: "stays xframe st3 (on_ctx (send_http_request env m u ps p (fst st3)) (set_sent q (snd st3)))" for st3 m u ps p q
      using on_ctx_stays_st[of "(fst st3, set_sent q (snd st3))" "send_http_request env m u ps p (fst st3)"] send_http_request_stays
      by (intro xf.stays_from[of st3 "(fst st3, set_sent q (snd st3))"] xframe_edit request_edits) simp_all
    have final: "stays xframe st4 (apply_extract_and_assert env x rs vs ds [] (if b then add_log e k (fst st4) else fst st4, set_response q (snd st4)))"
      for st4 x rs vs b e k q
      by (rule xf.stays_from[OF xframe_edit apply_extract_and_assert_stays]) (auto simp: add_log_frame request_edits)
    show ?thesis
      unfolding run_http_def o Inr a prod.case sum.case Let_def fst_conv snd_conv r
      by (intro xf.stays_bind msg send final)
  qed
qed

lemma start_request: "step_frame (fst st) c \<Longrightarrow> xframe st (c, set_dataset ds name (snd st))"
  by (intro xframe_edit request_edits)

lemma execute_http_stays: "stays xframe st (execute_http env s st)"
proof -
  have "stays xframe st (run_http env d url envn ds (add_log e k (fst st), set_dataset ds name (snd st)))" for d url envn ds e k name
    by (rule xf.stays_from[OF start_request run_http_stays]) (simp add: add_log_frame)
  then show ?thesis by (auto simp: execute_http_def Let_def split: prod.splits intro!: wrap_other_stays)
qed

lemma exchange_tcp_stays: "stays xframe st (exchange_tcp env d host port body txt payload ds st)"
proof -
  let ?c1 = "if fc_long_connection (resolve_tcp_frame_config d) then add_log LLongConnection (step_code d) (fst st) else fst st"
  have c1: "step_frame (fst st) ?c1" by (simp add: add_log_frame)
  then have c2: "step_frame (fst st) (?c1\<lparr>c_tick := n\<rparr>)" for n using tick_frame by (rule step_frame_trans)
  have "stays xframe st (apply_extract_and_assert env x rs vs ds [] (?c1\<lparr>c_tick := n\<rparr>, set_response q (snd st)))" for x rs vs n q
    by (rule xf.stays_from[OF xframe_edit[OF c2 request_edits(2)] apply_extract_and_assert_stays])
  with c1 c2 show ?thesis
    unfolding exchange_tcp_def Let_def
    by (auto simp: xframe_edit request_edits split: sum.splits prod.splits option.splits)
qed

lemma run_tcp_stays: "stays xframe st (run_tcp env d host port envn ds st)"
proof -
  obtain out missed where o: "replace_tcp env (args_type d) ds (try_serialize_request_body env (request_body d)) (request_text d) = (out, missed)"
    by fastforce
  let ?c1 = "log_missed (step_code d) missed (fst st)"
  show ?thesis
  proof (cases out)
    case (Inl e)
    then show ?thesis by (simp add: run_tcp_def o log_missed_frame xframe_edit Let_def)
  next
    case (Inr a)
    obtain ch txt0 where a: "a = (ch, txt0)" by fastforce
    obtain body c2 where r: "ctx_resolve env (ch_body ch) ?c1 = (body, c2)" by fastforce
    have c2: "step_frame (fst st) c2"
      using log_missed_frame resolve_frame[OF r] by (rule step_frame_trans)
    have msg: "stays xframe st (on_ctx (resolve_message_text env x t c2) (snd st))" for x t
      by (intro on_ctx_stays_st ctxf.stays_from[OF c2 resolve_message_text_stays])
    have final: "stays xframe st3 (exchange_tcp env d host port b t p ds (fst st3, set_sent q (snd st3)))" for st3 b t p q
      by (rule xf.stays_from[OF xframe_edit exchange_tcp_stays]) (auto simp: request_edits)
    show ?thesis
      unfolding run_tcp_def o Inr a prod.case sum.case Let_def fst_conv snd_conv r
      by (intro xf.stays_bind msg final)
  qed
qed

lemma execute_tcp_stays: "stays xframe st (execute_tcp env s st)"
proof -
  have "xframe st (fst st, set_dataset ds name (snd st))" for ds name by (rule start_request) simp
  moreover from this have "stays xframe st (run_tcp env d host port envn ds (fst st, set_dataset ds name (snd st)))" for d host port envn ds name
    by (rule xf.stays_from[OF _ run_tcp_stays])
  ultimately show ?thesis
    by (auto simp: execute_tcp_def Let_def split: prod.splits option.splits intro!: wrap_other_stays)
qed

section \<open>They end\<close>

lemma message_text_not_stuck: "resolve_message_text env is_xml txt c \<noteq> Stuck"
  by (auto simp: resolve_message_text_def split: prod.splits option.splits)

lemma send_not_stuck: "send_http_request env method url params p c \<noteq> Stuck"
  by (auto simp: send_http_request_def Let_def split: sum.splits)

lemma run_http_not_stuck: "run_http env d url envn ds st \<noteq> Stuck"
  by (auto simp: run_http_def Let_def message_text_not_stuck send_not_stuck apply_not_stuck split: prod.splits sum.splits)

lemma exchange_tcp_not_stuck: "exchange_tcp env d host port body txt payload ds st \<noteq> Stuck"
  by (auto simp: exchange_tcp_def Let_def apply_not_stuck split: prod.splits sum.splits option.splits)

lemma run_tcp_not_stuck: "run_tcp env d host port envn ds st \<noteq> Stuck"
  by (auto simp: run_tcp_def Let_def message_text_not_stuck exchange_tcp_not_stuck split: prod.splits sum.splits)

lemma network_not_stuck: "execute_http env s st \<noteq> Stuck" "execute_tcp env s st \<noteq> Stuck"
  by (auto simp: execute_http_def execute_tcp_def Let_def run_http_not_stuck run_tcp_not_stuck split: prod.splits option.splits)

end
