(* ===== verification/Runner.thy ===== *)
theory Runner
  imports NetworkFrame
begin

text \<open>
  The interface between the executors and the engine. \<^verbatim>\<open>step_runner\<close> states what an executor
  relies on when it runs another step; its lemmas give the same guarantees for every executor, and
  for the step that runs it. \<^verbatim>\<open>exec_step\<close> meets the interface at every nesting level.
\<close>

section \<open>Frames of a quote\<close>

text \<open>Inside a quote step the quote markers change; they are put back at its end.\<close>

definition loose :: "ctx \<Rightarrow> ctx \<Rightarrow> bool" where
  "loose c c' = (frame c c' \<and> c_current c' = c_current c)"

definition lframe :: "xstate \<Rightarrow> xstate \<Rightarrow> bool" where
  "lframe st st' = (loose (fst st) (fst st') \<and> result_frame (snd st) (snd st'))"

lemma loose_trans: "loose a b \<Longrightarrow> loose b c \<Longrightarrow> loose a c"
  by (auto simp: loose_def intro: frame_trans)

interpretation lf: outcome_frame lframe
  by unfold_locales (auto simp: lframe_def loose_def intro: frame_trans result_frame_trans)

lemma loosen: "xframe st st' \<Longrightarrow> lframe st st'"
  by (simp add: xframe_def lframe_def loose_def step_frame_def same_marks_def)

lemma stays_loosen: "stays xframe st m \<Longrightarrow> stays lframe st m"
  by (cases m) (auto intro: loosen)

lemma loose_log: "loose c c' \<Longrightarrow> loose c (add_log e k c')"
  using add_log_frame[of c' e k] by (auto simp: loose_def step_frame_def same_marks_def intro: frame_trans)

lemma loose_dataset: "loose c (c\<lparr>c_quote_dataset_name := nm, c_quote_dataset := sn\<rparr>)"
  by (simp add: loose_def marks_frame)

lemma loose_install: "distinct_keys vs \<Longrightarrow> loose c (install_session vs c)"
  using install_session_frame[of vs c] by (simp add: loose_def install_session_def)

lemma wrap_other_loose: "stays lframe st m \<Longrightarrow> stays lframe st (wrap_other d m)"
proof (cases m)
  case (Fail st' e)
  assume a: "stays lframe st m"
  have "lframe st' (add_log x k (fst st'), set_error f (snd st'))" for x k f
    by (rule loosen) (simp add: xframe_def frames)
  with a Fail show ?thesis
    by (cases e; cases st') (auto simp: wrap_other_def Let_def intro: lf.frame_join)
qed (auto simp: wrap_other_def)

lemma finally_ctx_loose:
  "(\<And>c. loose c (f c)) \<Longrightarrow> stays lframe st m \<Longrightarrow> stays lframe st (finally_ctx f m)"
  by (cases m) (auto simp: finally_ctx_def lframe_def intro: loose_trans split: prod.splits)

lemma restore_marks:
  "stays lframe st m \<Longrightarrow> stays xframe st (finally_ctx (\<lambda>c. restore_quote (fst st) (restore_dataset (fst st) c)) m)"
proof -
  have "step_frame c (restore_quote c (restore_dataset c c'))" if "loose c c'" for c c'
  proof -
    have "frame c' (restore_quote c (restore_dataset c c'))"
      unfolding restore_quote_def restore_dataset_def using marks_frame by (blast intro: frame_trans)
    with that show ?thesis
      by (auto simp: loose_def step_frame_def same_marks_def restore_quote_def restore_dataset_def intro: frame_trans)
  qed
  then show "stays lframe st m \<Longrightarrow> ?thesis"
    by (cases m) (auto simp: finally_ctx_def lframe_def xframe_def split: prod.splits)
qed

section \<open>The interface\<close>

locale step_runner =
  fixes run :: runner
  assumes run_stays: "stays step_frame c (run s c)"
    and run_typed: "step_type (sdata s) \<noteq> None \<Longrightarrow> run s c \<noteq> Fail c' e"
    and run_untyped: "run s c = Fail c' e \<Longrightarrow> e = SEE StepTypeUndefined"
    and run_skips: "run s c = Done c' q \<Longrightarrow> (q = None) = step_is_skipped (sdata s)"
    and run_result: "run s c = Done c' (Some r) \<Longrightarrow> describes (sdata s) r \<and> sound r"
begin

section \<open>Child steps\<close>

lemma run_children_stays: "stays step_frame c (run_children run f ss c)"
proof (induction ss arbitrary: c)
  case (Cons s ss)
  have a: "stays step_frame c (run s c)" by (rule run_stays)
  show ?case
  proof (cases "run s c")
    case (Done c1 r)
    with a Cons[of c1] show ?thesis
      by (cases "run_children run f ss c1") (auto intro: step_frame_trans)
  next
    case (Fail c1 e)
    let ?c2 = "add_log (LError (Formatted True (exn_err e))) (f s) c1"
    have "step_frame c ?c2" using a Fail add_log_frame step_frame_trans by fastforce
    with Fail Cons[of ?c2] show ?thesis
      by (cases "run_children run f ss ?c2") (auto simp: Let_def intro: step_frame_trans)
  qed simp
qed simp

text \<open>One result for each child that is not skipped, in the order of the children.\<close>

lemma run_children_results:
  "run_children run f ss c = Done c' rs \<Longrightarrow>
   list_all2 (\<lambda>s r. describes (sdata s) r \<and> sound r) (filter (\<lambda>s. \<not> step_is_skipped (sdata s)) ss) rs"
proof (induction ss arbitrary: c rs)
  case (Cons s ss)
  show ?case
  proof (cases "run s c")
    case (Done c1 r)
    with Cons.prems obtain xs where "run_children run f ss c1 = Done c' xs"
      "rs = (case r of None \<Rightarrow> xs | Some x \<Rightarrow> x # xs)"
      by (cases "run_children run f ss c1") auto
    with Cons.IH run_skips[OF Done] run_result Done show ?thesis by (cases r) auto
  next
    case (Fail c1 e)
    then have "step_type (sdata s) = None" using run_typed by blast
    with Cons.prems Fail show ?thesis by (simp add: Let_def)
  next
    case Stuck
    with Cons.prems show ?thesis by simp
  qed
qed simp

lemma run_children_fails: "run_children run f ss c = Fail c' e \<Longrightarrow> e = OtherExn InvalidStepType"
proof (induction ss arbitrary: c)
  case (Cons s ss)
  show ?case
  proof (cases "run s c")
    case (Done c1 r)
    with Cons show ?thesis by (cases "run_children run f ss c1") auto
  next
    case (Fail c1 x)
    with Cons show ?thesis
      by (cases "run_children run f ss (add_log (LError (Formatted True (exn_err x))) (f s) c1)")
         (auto simp: Let_def split: if_splits)
  next
    case Stuck
    with Cons.prems show ?thesis by simp
  qed
qed simp

lemma run_children_typed:
  "\<forall>s \<in> set ss. step_type (sdata s) \<noteq> None \<Longrightarrow> run_children run f ss c \<noteq> Fail c' e"
proof (induction ss arbitrary: c)
  case (Cons s ss)
  then have "run s c \<noteq> Fail c1 x" for c1 x using run_typed by simp
  then show ?case
  proof (cases "run s c")
    case (Done c1 r)
    with Cons show ?thesis by (cases "run_children run f ss c1") auto
  qed auto
qed simp

lemma children_sound: "run_children run f ss c = Done c' rs \<Longrightarrow> list_all sound rs"
  using run_children_results by (fastforce simp: list_all2_conv_all_nth list_all_length)

section \<open>Loops\<close>

lemma begin_round_frame: "step_frame c (begin_round mode s no vars c)"
proof -
  have cyc: "step_frame c (set_cycle k no c)" for k c by (simp add: set_cycle_def cycle_frame)
  have "step_frame c (mark_own_cycle s no c)" by (simp add: mark_own_cycle_def cyc)
  also have "step_frame \<dots> (add_log (LRound mode no) (step_code (sdata s)) \<dots>)" by (rule add_log_frame)
  also have "step_frame \<dots> (update_session vars \<dots>)" by (rule update_session_frame)
  also have "step_frame \<dots> (mark_child_cycles s no \<dots>)"
    unfolding mark_child_cycles_def by (intro fold_frame cyc)
  finally show ?thesis by (simp add: begin_round_def)
qed

lemma attach_children_stays:
  "list_all sound rs \<Longrightarrow> stays xframe st (attach_children mode on_error s rs st)"
proof (induction rs arbitrary: st)
  case (Cons x rs)
  obtain c r where st: "st = (c, r)" by fastforce
  let ?c' = "add_log (LChildFailed mode on_error (r_error (rinfo x))) (step_code (sdata s)) c"
  have r: "result_frame r (add_child x r)" using Cons.prems by (simp add: frames)
  then have f: "result_frame r (set_failed (add_child x r))" by (blast intro: frames result_frame_trans)
  have g: "xframe (c, r) (?c', set_failed (add_child x r))" using f by (simp add: xframe_def frames)
  note ih = Cons.IH[of "(c, add_child x r)"] Cons.IH[of "(?c', set_failed (add_child x r))"]
  have sound: "list_all sound rs" using Cons.prems by simp
  show ?case
  proof (cases "res_success x")
    case True
    have "xframe (c, r) (c, add_child x r)" using r by (simp add: xframe_def)
    with ih(1) sound True st show ?thesis by (auto simp: Let_def intro: xf.stays_from)
  next
    case False
    show ?thesis
    proof (cases on_error)
      case LS_CONTINUE
      with ih(2) sound False st g show ?thesis by (auto simp: Let_def intro: xf.stays_from)
    qed (use False st g f in \<open>auto simp: Let_def xframe_def\<close>)
  qed
qed simp

lemma execute_loop_round_stays: "stays xframe st (execute_loop_round run mode on_error s no vars st)"
proof -
  obtain c r where st: "st = (c, r)" by fastforce
  let ?c1 = "begin_round mode s no vars c"
  have b: "stays step_frame c (execute_children run s ?c1)"
    unfolding execute_children_def by (rule ctxf.stays_from[OF begin_round_frame run_children_stays])
  show ?thesis
  proof (cases "execute_children run s ?c1")
    case (Done c2 rs)
    with b have "xframe st (c2, r)" by (simp add: xframe_def st)
    moreover have "stays xframe (c2, r) (attach_children mode on_error s rs (c2, r))"
      using children_sound Done by (intro attach_children_stays) (auto simp: execute_children_def)
    ultimately show ?thesis using Done by (auto simp: execute_loop_round_def st intro: xf.stays_from)
  next
    case (Fail c2 e)
    with b have "xframe st (c2, r)" "step_frame c (add_log x k c2)" for x k
      by (auto simp: xframe_def st intro: step_frame_trans add_log_frame)
    with Fail show ?thesis
      by (cases e) (auto simp: execute_loop_round_def st xframe_def frames Let_def)
  qed (simp add: execute_loop_round_def st)
qed

lemma loop_sleep_stays: "stays xframe st (loop_sleep s st)"
  by (cases st) (auto simp: loop_sleep_def frames split: option.splits)

lemma log_step_frame: "xframe st (log_step e s st)"
  by (simp add: xframe_def frames)

lemma run_rounds_stays: "stays xframe st (run_rounds run mode on_error s n rounds st)"
proof (induction rounds arbitrary: st)
  case (Cons p rounds)
  obtain no kvs where p: "p = (no, kvs)" by fastforce
  show ?case
  proof (cases "all_some (map loop_var kvs)")
    case (Some vars)
    have "stays xframe t (if no < n then loop_sleep s t else Done t ())" for t
      by (simp add: loop_sleep_stays)
    then show ?thesis
      by (auto simp: p Some intro!: xf.stays_bind execute_loop_round_stays Cons)
  qed (simp add: p)
qed simp

lemma finish_rounds_stays: "stays xframe st m \<Longrightarrow> stays xframe st (finish_rounds mode s n m)"
  unfolding finish_rounds_def by (rule xf.stays_bind) (auto simp: log_step_frame)

lemma resolve_loop_maximums_stays: "stays step_frame c (resolve_loop_maximums env d c)"
  unfolding resolve_loop_maximums_def Let_def
  by (auto split: option.splits prod.splits sum.splits var_exn.splits dest: resolve_frame)

lemma parse_iterable_source_stays: "stays step_frame c (parse_iterable_source env src c)"
  unfolding parse_iterable_source_def
  by (auto split: option.splits prod.splits sum.splits var_exn.splits pyval.splits dest: resolve_frame)

lemma execute_count_loop_stays: "stays xframe st (execute_count_loop env run on_error s st)"
  unfolding execute_count_loop_def
proof (intro xf.stays_bind on_ctx_stays_st resolve_loop_maximums_stays)
  fix t n
  have "xframe t (log_step (LLoopStart LM_COUNT n) s (fst t, set_request (ReqLoopMaximums n) (snd t)))"
    by (simp add: xframe_def frames)
  then show "stays xframe t (finish_rounds LM_COUNT s n (run_rounds run LM_COUNT on_error s n
      (count_rounds (sdata s) n) (log_step (LLoopStart LM_COUNT n) s (fst t, set_request (ReqLoopMaximums n) (snd t)))))"
    by (intro finish_rounds_stays xf.stays_from[OF _ run_rounds_stays])
qed

lemma run_collection_loop_stays: "stays xframe st (run_collection_loop run mode on_error s rounds st)"
  unfolding run_collection_loop_def Let_def
  by (auto intro!: finish_rounds_stays xf.stays_from[OF log_step_frame run_rounds_stays] simp: log_step_frame)

lemma wrap_loop_stays: "stays xframe st m \<Longrightarrow> stays xframe st (wrap_loop mode m)"
  by (cases m) (auto simp: wrap_loop_def split: exn.splits)

lemma execute_list_loop_stays: "stays xframe st (execute_list_loop env run on_error s st)"
  unfolding execute_list_loop_def
  by (auto intro!: wrap_loop_stays xf.stays_bind on_ctx_stays_st parse_iterable_source_stays
      simp: run_collection_loop_stays split: option.splits)

lemma execute_dict_loop_stays: "stays xframe st (execute_dict_loop env run on_error s st)"
  unfolding execute_dict_loop_def
  by (auto intro!: wrap_loop_stays xf.stays_bind on_ctx_stays_st parse_iterable_source_stays
      simp: run_collection_loop_stays split: pyval.splits)

lemma timed_out_frame: "timed_out env t st c = (b, c') \<Longrightarrow> step_frame c c'"
  by (auto simp: timed_out_def split: option.splits if_splits prod.splits dest: now_frame)

lemma condition_rounds_stays:
  "stays xframe st (condition_rounds env run on_error s cond timeout start left st)"
proof (induction left arbitrary: st rule: less_induct)
  case (less left)
  obtain late c1 where t: "timed_out env timeout start (fst st) = (late, c1)" by fastforce
  obtain c r where st: "st = (c, r)" by fastforce
  have f1: "xframe (c, r) (c1, r)" using timed_out_frame[OF t] by (simp add: xframe_def st)
  have log: "xframe (c, r) (c2, q) \<Longrightarrow> xframe (c, r) (add_log x k c2, q)" for c2 q x k
    by (auto simp: xframe_def intro: step_frame_trans add_log_frame)
  have ev: "stays step_frame c1 (evaluate_condition env cond c1)" by (rule evaluate_condition_stays)
  show ?case
  proof (cases late)
    case True
    with t st f1 log show ?thesis by (subst condition_rounds.simps) (simp add: Let_def)
  next
    case False
    show ?thesis
    proof (cases "evaluate_condition env cond c1")
      case (Done c2 matched)
      with ev f1 have f2: "xframe (c, r) (c2, r)" by (auto intro: xf.frame_join)
      show ?thesis
      proof (cases "matched \<and> left \<noteq> 0 \<and> loop_index (sdata s) \<noteq> None")
        case True
        then obtain l k where l: "left = Suc l" "loop_index (sdata s) = Some k" by (cases left) auto
        have "stays xframe (c2, r) (bind (execute_loop_round run LM_CONDITION on_error s m vs (c2, r))
            (\<lambda>st1 go. if \<not> go then Done st1 m'
              else bind (loop_sleep s st1) (\<lambda>st2 _. condition_rounds env run on_error s cond timeout start l st2)))"
          for m m' vs
          using less[of l] l
          by (intro xf.stays_bind execute_loop_round_stays) (auto intro!: xf.stays_bind loop_sleep_stays)
        note xf.stays_from[OF f2 this]
        with True False t Done l st show ?thesis
          by (subst condition_rounds.simps) (simp add: Let_def loop_var_def)
      next
        case n: False
        with False t Done f2 st log show ?thesis
          by (subst condition_rounds.simps) (auto simp: Let_def loop_var_def split: nat.splits option.splits)
      qed
    next
      case (Fail c2 e)
      with ev f1 have "xframe (c, r) (c2, r)" by (auto intro: xf.frame_join)
      moreover have "xframe (c2, r) (add_log x k c2, set_error m r)" for x k m
        by (simp add: xframe_def frames)
      ultimately have "xframe (c, r) (add_log x k c2, set_error m r)" for x k m
        by (blast intro: xf.frame_join)
      with False t Fail st show ?thesis by (subst condition_rounds.simps) (simp add: Let_def)
    next
      case Stuck
      with False t st show ?thesis by (subst condition_rounds.simps) (simp add: Let_def)
    qed
  qed
qed

lemma clamp_timeout_frame: "clamp_timeout s c = (t, c') \<Longrightarrow> step_frame c c'"
  by (auto simp: clamp_timeout_def add_log_frame split: option.splits if_splits)

lemma execute_condition_loop_stays: "stays xframe st (execute_condition_loop env run on_error s st)"
proof (cases "loop_conditions (sdata s)")
  case (Some cond)
  obtain t c1 where cl: "clamp_timeout s (fst st) = (t, c1)" by fastforce
  let ?c2 = "add_log (LLoopStart LM_CONDITION 0) (step_code (sdata s)) c1"
  obtain start c3 where n: "ctx_now env ?c2 = (start, c3)" by fastforce
  have "step_frame (fst st) c3"
    using clamp_timeout_frame[OF cl] now_frame[OF n] add_log_frame by (blast intro: step_frame_trans)
  then have "xframe st (c3, set_request (ReqLoopConditions cond) (snd st))" by (simp add: xframe_def frames)
  then have "stays xframe st (condition_rounds env run on_error s cond t start loop_guard_limit
      (c3, set_request (ReqLoopConditions cond) (snd st)))"
    by (rule xf.stays_from[OF _ condition_rounds_stays])
  then show ?thesis
    by (simp add: execute_condition_loop_def Some cl n Let_def) (rule xf.stays_bind, auto simp: log_step_frame)
qed (simp add: execute_condition_loop_def)

lemma execute_loop_stays: "stays xframe st (execute_loop env run s st)"
  unfolding execute_loop_def
  by (auto intro!: wrap_other_stays execute_count_loop_stays execute_list_loop_stays execute_dict_loop_stays
      execute_condition_loop_stays split: option.splits loop_mode.splits)

section \<open>Branches\<close>

lemma find_branch_stays: "stays step_frame c (find_branch env i bs c)"
  by (induction bs arbitrary: i c)
     (auto split: option.splits intro!: ctxf.stays_bind evaluate_condition_stays)

lemma execute_condition_stays:
  assumes "r_error (rinfo (snd st)) = None"
  shows "stays xframe st (execute_condition env run s st)"
proof -
  obtain c r where st: "st = (c, r)" by fastforce
  have err: "xframe (c, r) (c1, q) \<Longrightarrow> xframe (c, r) (add_log x k c1, set_error m q)" for c1 q x k m
    by (auto simp: xframe_def intro: step_frame_trans add_log_frame result_frame_trans frames)
  have msg: "result_frame r (set_message True m (set_request q r))"
    "result_frame r (set_request q (set_message True m r))" for m q
    using assms by (auto simp: st result_frame_def set_message_def set_request_def identity_def sound_iff)
  let ?r0 = "set_request (ReqBranch None) r"
  have fb: "stays step_frame c (find_branch env 0 (branch_items s) c)" by (rule find_branch_stays)
  show ?thesis
  proof (cases "find_branch env 0 (branch_items s) c")
    case (Fail c1 e)
    with fb have "xframe (c, r) (c1, ?r0)" by (simp add: xframe_def frames)
    with Fail err err[of c r] st show ?thesis by (simp add: execute_condition_def Let_def)
  next
    case (Done c1 m)
    show ?thesis
    proof (cases m)
      case None
      with Done fb msg st err[of c r] show ?thesis
        by (auto simp: execute_condition_def Let_def xframe_def intro: step_frame_trans add_log_frame)
    next
      case (Some ib)
      obtain i b where ib: "ib = (i, b)" by fastforce
      let ?c2 = "add_log (LBranch (BranchMatched (br_type b))) (step_code (sdata s)) c1"
      let ?r1 = "set_request (ReqBranch (Some (i, br_type b, br_conditions b, br_desc b)))
        (set_message True (BranchMatched (br_type b)) ?r0)"
      have r1: "result_frame r ?r1"
        using assms by (auto simp: st result_frame_def set_message_def set_request_def identity_def sound_iff)
      have c2: "step_frame c ?c2" using fb Done by (auto intro: step_frame_trans add_log_frame)
      have k: "stays step_frame ?c2 (run_children run (\<lambda>_. step_code (sdata s)) (sort_steps (br_children b)) ?c2)"
        by (rule run_children_stays)
      have "stays xframe (c, r) (run_branch run s i b (c1, ?r0))"
      proof (cases "run_children run (\<lambda>_. step_code (sdata s)) (sort_steps (br_children b)) ?c2")
        case d: (Done c3 rs)
        with k c2 have "step_frame c c3" by (auto intro: step_frame_trans)
        moreover have "result_frame r (add_children rs ?r1)"
          using r1 children_sound[OF d] by (blast intro: frames result_frame_trans)
        ultimately show ?thesis using d by (simp add: run_branch_def Let_def xframe_def)
      next
        case f: (Fail c3 e)
        with k c2 r1 have "xframe (c, r) (c3, ?r1)" by (auto simp: xframe_def intro: step_frame_trans)
        with f err show ?thesis by (simp add: run_branch_def Let_def)
      qed (simp add: run_branch_def)
      with Some ib Done st err[of c r] show ?thesis by (simp add: execute_condition_def Let_def)
    qed
  next
    case Stuck
    with st err[of c r] show ?thesis by (simp add: execute_condition_def Let_def)
  qed
qed

section \<open>Quotes\<close>

lemma run_quote_steps_stays: "stays xframe st (run_quote_steps run qk own ss st)"
proof (induction ss arbitrary: st)
  case (Cons s ss)
  obtain c r where st: "st = (c, r)" by fastforce
  let ?s = "merge_and_override_fields qk own s"
  have a: "stays step_frame c (run ?s c)" by (rule run_stays)
  show ?case
  proof (cases "run ?s c")
    case (Done c1 q)
    show ?thesis
    proof (cases q)
      case None
      with Done a Cons[of "(c1, r)"] st show ?thesis by (auto intro: xf.stays_from)
    next
      case (Some x)
      let ?r1 = "if res_success x then add_child x r else set_failed (add_child x r)"
      have "sound x" using run_result Done Some by blast
      then have "result_frame r ?r1" by (auto intro: frames result_frame_trans)
      with a Done have "xframe (c, r) (c1, ?r1)" by (simp add: xframe_def)
      with Done Some Cons[of "(c1, ?r1)"] st show ?thesis by (simp add: xf.stays_from)
    qed
  next
    case (Fail c1 e)
    let ?m = "\<lambda>x. Formatted True x"
    have "xframe (c, r) (add_log (LError (?m x)) (step_code (sdata s)) c1,
        add_child (new_result (sdata s) False (Some (?m x))) r)" for x
      using a Fail new_result_sound[of False]
      by (auto simp: xframe_def intro: step_frame_trans add_log_frame result_frame_edits)
    note xf.stays_from[OF this Cons]
    moreover have "xframe (c, r) (c1, r)" using a Fail by (simp add: xframe_def)
    ultimately show ?thesis using Fail st by (cases e) (auto simp: Let_def)
  qed (simp add: st)
qed simp

lemma quote_body_stays: "stays lframe st (quote_body env run qk s roots qid st)"
proof -
  have "loose c (load_quote_dataset env qk s c)" for c
    using loose_log[OF loose_dataset] loose_dataset by (simp add: load_quote_dataset_def Let_def)
  then have "lframe st (log_step (LQuoteStart qid) s (load_quote_dataset env qk s (fst st), snd st))"
    using loose_log by (simp add: lframe_def)
  then show ?thesis
    unfolding quote_body_def Let_def
    by (rule lf.stays_from)
       (intro lf.stays_bind stays_loosen[OF run_quote_steps_stays], simp add: loosen log_step_frame)
qed

lemma quote_scope_stays: "stays lframe st (quote_scope env run qk s stored roots qid st)"
proof -
  have w: "stays lframe t (wrap_other (sdata s) (quote_body env run qk s roots qid t))" for t
    by (rule wrap_other_loose[OF quote_body_stays])
  let ?c1 = "start_pool s stored roots (fst st)"
  have "loose (fst st) ?c1"
    unfolding start_pool_def Let_def build_quote_session_pool_def
    by (rule loose_log[OF loose_install[OF distinct_merge_by_key]])
  then have "lframe st (?c1, snd st)" by (simp add: lframe_def)
  note iso = lf.stays_from[OF this w]
  have "loose c (finish_pool s h q c)" for h q c
    unfolding finish_pool_def Let_def merge_back_session_pool_def
    by (rule loose_log[OF loose_install[OF distinct_merge_by_key]])
  then have "stays lframe st m \<Longrightarrow> stays lframe st (finally_ctx (finish_pool s h q) m)" for h q and m :: "(xstate, unit) outcome"
    by (rule finally_ctx_loose)
  with iso w show ?thesis by (auto simp: quote_scope_def Let_def)
qed

lemma execute_quote_stays: "stays xframe st (execute_quote env run qk s st)"
proof -
  let ?st1 = "\<lambda>qid. ((fst st)\<lparr>c_quote_case := Some qid, c_quote_parent := step_id (sdata s)\<rparr>, snd st)"
  have m: "lframe st (?st1 qid)" for qid
    by (simp add: lframe_def loose_def marks_frame)
  have "stays lframe st (quote_scope env run qk s stored roots qid (?st1 qid))" for stored roots qid
    by (rule lf.stays_from[OF m quote_scope_stays])
  moreover have "lframe st (log_step (LQuoteEmpty qid) s (?st1 qid))" for qid
    by (rule lf.frame_join[OF m[of qid]]) (rule loosen[OF log_step_frame])
  ultimately show ?thesis
    unfolding execute_quote_def Let_def
    by (intro restore_marks) (auto intro: m lf.frame_self split: quote_lookup.splits option.splits)
qed

section \<open>Dispatch\<close>

lemma execute_user_variables_stays: "stays xframe st (execute_user_variables env s st)"
proof -
  obtain vs c1 where r: "ctx_resolve_vars env (session_vars (sdata s)) (fst st) = (vs, c1)" by fastforce
  from resolve_vars_frame[OF r] have "step_frame (fst st) (update_session vs c1)"
    by (blast intro: step_frame_trans frames)
  with resolve_vars_frame[OF r] show ?thesis by (simp add: execute_user_variables_def r xframe_def)
qed

lemma execute_body_stays:
  assumes "r_error (rinfo (snd st)) = None"
  shows "stays xframe st (execute_body env run s st)"
  unfolding execute_body_def execute_wait_def execute_assert_def execute_extract_def
  by (auto simp: assms execute_loop_stays execute_condition_stays execute_quote_stays execute_http_stays execute_tcp_stays
      execute_user_variables_stays apply_extract_and_assert_stays sleep_stays
      execute_operates_stays execute_python_stays execute_diff_stays
      intro!: wrap_other_stays on_ctx_stays_st split: step_type.splits option.splits)

section \<open>The step that runs others\<close>

lemma begin_step_marks: "frame c (begin_step d c)" "same_marks (c\<lparr>c_current := step_code d\<rparr>) (begin_step d c)"
proof -
  let ?c1 = "c\<lparr>c_cycle := AList.update (the (step_code d)) None (c_cycle c)\<rparr>"
  have "frame c ?c1" using cycle_frame by (simp add: step_frame_def)
  with marks_frame(1) show "frame c (begin_step d c)"
    by (auto simp: begin_step_def Let_def intro: frame_trans)
qed (simp add: begin_step_def Let_def same_marks_def)

lemma finish_step_frame:
  assumes "frame c (fst st)" "same_marks (c\<lparr>c_current := k\<rparr>) (fst st)"
  shows "step_frame c (fst (finish_step env d cycles (c_current c) st)) \<and>
         result_frame (snd st) (snd (finish_step env d cycles (c_current c) st))"
proof -
  let ?c = "merge_extracted (snd st) (fst st)"
  have "step_frame (fst st) ?c" by (simp add: merge_extracted_def frames)
  with assms have "frame c ?c" "same_marks (c\<lparr>c_current := k\<rparr>) ?c"
    by (auto simp: step_frame_def same_marks_def intro: frame_trans)
  then have "step_frame c (?c\<lparr>c_current := c_current c\<rparr>)"
    using marks_frame(1) by (auto simp: step_frame_def same_marks_def intro: frame_trans)
  moreover have "xframe (?c\<lparr>c_current := c_current c\<rparr>, snd st) (finish_step env d cycles (c_current c) st)"
    unfolding finish_step_def by (rule save_step_detail_frame)
  ultimately show ?thesis by (auto simp: xframe_def intro: step_frame_trans)
qed

lemma execute_outcome:
  "case execute env run s c of
     Done c' r \<Rightarrow> step_frame c c' \<and> (r = None) = step_is_skipped (sdata s) \<and>
       (\<forall>x. r = Some x \<longrightarrow> describes (sdata s) x \<and> sound x)
   | Fail c' e \<Rightarrow> False | Stuck \<Rightarrow> True"
proof (cases "step_is_skipped (sdata s)")
  case False
  let ?d = "sdata s"
  let ?st0 = "(prepare_defined env ?d (begin_step ?d c), new_result ?d True None)"
  have p: "step_frame (begin_step ?d c) (fst ?st0)" by (simp add: frames)
  have body: "stays xframe ?st0 (execute_body env run s ?st0)"
    by (rule execute_body_stays) (simp add: new_result_def)
  have fin: "step_frame c (fst (finish_step env ?d (own_cycle ?d c) (c_current c) (c1, q))) \<and>
      describes ?d (snd (finish_step env ?d (own_cycle ?d c) (c_current c) (c1, q))) \<and>
      sound (snd (finish_step env ?d (own_cycle ?d c) (c_current c) (c1, q)))"
    if "step_frame (fst ?st0) c1" "result_frame (snd ?st0) q" for c1 q
  proof -
    have "step_frame (begin_step ?d c) c1" using p that(1) by (rule step_frame_trans)
    with begin_step_marks[where c = c and d = ?d] have "frame c c1" "same_marks (c\<lparr>c_current := step_code ?d\<rparr>) c1"
      by (auto simp: step_frame_def same_marks_def intro: frame_trans)
    then have *: "step_frame c (fst (finish_step env ?d (own_cycle ?d c) (c_current c) (c1, q)))"
      "result_frame q (snd (finish_step env ?d (own_cycle ?d c) (c_current c) (c1, q)))"
      using finish_step_frame[of c "(c1, q)"] by auto
    then have "result_frame (snd ?st0) (snd (finish_step env ?d (own_cycle ?d c) (c_current c) (c1, q)))"
      using that(2) by (blast intro: result_frame_trans)
    with * new_result_sound[of True None ?d] show ?thesis by (auto simp: result_frame_def describes_def)
  qed
  show ?thesis
  proof (cases "execute_body env run s ?st0")
    case (Done st u)
    with body fin[of "fst st" "snd st"] False show ?thesis
      by (auto simp: execute_def Let_def xframe_def split: prod.splits)
  next
    case (Fail st e)
    with body have "step_frame (fst ?st0) (fst st)" "result_frame (snd ?st0) (record_failure e (snd st))"
      by (auto simp: xframe_def intro: result_frame_trans frames)
    with fin[of "fst st" "record_failure e (snd st)"] Fail False show ?thesis
      by (auto simp: execute_def Let_def split: prod.splits)
  qed (simp add: execute_def Let_def False)
qed (simp add: execute_def Let_def)

text \<open>Closing the recursion once more gives a runner that meets the interface again.\<close>

lemma next_runner: "step_runner (create_and_execute env run)"
proof
  fix s c c' e and q :: "step_result option" and r
  note o = execute_outcome[where env = env and s = s and c = c]
  show "stays step_frame c (create_and_execute env run s c)"
    using o by (auto simp: create_and_execute_def split: outcome.splits)
  show "create_and_execute env run s c \<noteq> Fail c' e" if "step_type (sdata s) \<noteq> None"
    using o that by (auto simp: create_and_execute_def)
  show "e = SEE StepTypeUndefined" if "create_and_execute env run s c = Fail c' e"
    using o that by (auto simp: create_and_execute_def split: if_splits)
  show "(q = None) = step_is_skipped (sdata s)" if "create_and_execute env run s c = Done c' q"
    using o that by (auto simp: create_and_execute_def split: if_splits)
  show "describes (sdata s) r \<and> sound r" if "create_and_execute env run s c = Done c' (Some r)"
    using o that by (auto simp: create_and_execute_def split: if_splits)
qed

end

section \<open>The engine is a runner\<close>

lemma exec_step_runner: "step_runner (exec_step env n)"
proof (induction n)
  case 0
  show ?case by unfold_locales auto
next
  case (Suc n)
  then show ?case by (simp add: step_runner.next_runner)
qed

interpretation engine: step_runner "exec_step env n" for env n
  by (rule exec_step_runner)

end
