(* ===== verification/Levels.thy ===== *)
theory Levels
  imports Runner
begin

text \<open>
  Nesting levels. More levels never change an answer (\<^verbatim>\<open>exec_step_more\<close>), and a tree whose
  nesting, quoted cases included, fits in the levels is run to the end (\<^verbatim>\<open>exec_step_settles\<close>).
\<close>

section \<open>More levels never change an answer\<close>

definition refines :: "('s, 'a) outcome \<Rightarrow> ('s, 'a) outcome \<Rightarrow> bool" where
  "refines m m' = (m = Stuck \<or> m' = m)"

lemma refines_refl [simp, intro]: "refines m m"
  by (simp add: refines_def)

lemma refines_simps [simp]:
  "refines Stuck m" "refines (Done s a) m' = (m' = Done s a)" "refines (Fail s e) m' = (m' = Fail s e)"
  by (auto simp: refines_def)

lemma refines_bind [intro]: "refines m m' \<Longrightarrow> (\<And>s a. refines (f s a) (f' s a)) \<Longrightarrow> refines (bind m f) (bind m' f')"
  by (cases m) (auto simp: refines_def)

lemma refines_case:
  "refines m m' \<Longrightarrow> (\<And>s a. refines (f s a) (f' s a)) \<Longrightarrow> (\<And>s e. refines (g s e) (g' s e)) \<Longrightarrow>
   refines (case m of Done s a \<Rightarrow> f s a | Fail s e \<Rightarrow> g s e | Stuck \<Rightarrow> Stuck)
           (case m' of Done s a \<Rightarrow> f' s a | Fail s e \<Rightarrow> g' s e | Stuck \<Rightarrow> Stuck)"
  by (cases m) (auto simp: refines_def)

lemma refines_wrap_other [intro]: "refines m m' \<Longrightarrow> refines (wrap_other d m) (wrap_other d m')"
  by (auto simp: refines_def wrap_other_def)

lemma refines_wrap_loop [intro]: "refines m m' \<Longrightarrow> refines (wrap_loop mode m) (wrap_loop mode m')"
  by (auto simp: refines_def wrap_loop_def)

lemma refines_finally [intro]: "refines m m' \<Longrightarrow> refines (finally_ctx f m) (finally_ctx f m')"
  by (auto simp: refines_def finally_ctx_def)

locale more_levels =
  fixes run run' :: runner
  assumes more: "refines (run s c) (run' s c)"
begin

lemma more_children: "refines (run_children run f ss c) (run_children run' f ss c)"
proof (induction ss arbitrary: c)
  case (Cons s ss)
  from more[of s c] Cons show ?case
    by (cases "run s c") (auto simp: Let_def split: option.splits)
qed simp

lemma more_execute_children: "refines (execute_children run s c) (execute_children run' s c)"
  by (simp add: execute_children_def more_children)

lemma more_round:
  "refines (execute_loop_round run mode e s no vs st) (execute_loop_round run' mode e s no vs st)"
proof -
  let ?c = "begin_round mode s no vs (fst st)"
  from more_execute_children[of s ?c] show ?thesis
    by (cases "execute_children run s ?c") (auto simp: execute_loop_round_def)
qed

lemma more_rounds: "refines (run_rounds run mode e s n rounds st) (run_rounds run' mode e s n rounds st)"
proof (induction rounds arbitrary: st)
  case (Cons p rounds)
  then show ?case by (cases p) (auto intro!: refines_bind more_round split: option.splits)
qed simp

lemma more_collection: "refines (run_collection_loop run mode e s rounds st) (run_collection_loop run' mode e s rounds st)"
  by (auto simp: run_collection_loop_def Let_def finish_rounds_def intro!: refines_bind more_rounds)

lemma more_condition_rounds:
  "refines (condition_rounds env run e s cond t st0 left st) (condition_rounds env run' e s cond t st0 left st)"
proof (induction left arbitrary: st)
  case 0
  show ?case by (subst (1 2) condition_rounds.simps)
      (auto simp: Let_def split: prod.splits outcome.splits option.splits)
next
  case (Suc left)
  show ?case by (subst (1 2) condition_rounds.simps)
      (auto simp: Let_def split: prod.splits outcome.splits option.splits intro!: refines_bind more_round Suc)
qed

lemma more_loop: "refines (execute_loop env run s st) (execute_loop env run' s st)"
  unfolding execute_loop_def execute_count_loop_def execute_list_loop_def execute_dict_loop_def
    execute_condition_loop_def finish_rounds_def
  by (auto simp: Let_def intro!: refines_wrap_other refines_wrap_loop refines_bind more_rounds more_collection
      more_condition_rounds split: option.splits loop_mode.splits prod.splits pyval.splits)

lemma more_branch: "refines (run_branch run s i b st) (run_branch run' s i b st)"
proof -
  let ?c = "add_log (LBranch (BranchMatched (br_type b))) (step_code (sdata s)) (fst st)"
  from more_children[of "\<lambda>_. step_code (sdata s)" "sort_steps (br_children b)" ?c] show ?thesis
    by (auto simp: refines_def run_branch_def Let_def)
qed

lemma more_condition: "refines (execute_condition env run s st) (execute_condition env run' s st)"
  by (auto simp: execute_condition_def Let_def more_branch split: outcome.splits option.splits)

lemma more_quote_steps: "refines (run_quote_steps run qk own ss st) (run_quote_steps run' qk own ss st)"
proof (induction ss arbitrary: st)
  case (Cons s ss)
  obtain c r where st: "st = (c, r)" by fastforce
  let ?s = "merge_and_override_fields qk own s"
  from more[of ?s c] Cons show ?case
    by (cases "run ?s c") (auto simp: st Let_def split: option.splits exn.splits)
qed simp

lemma more_quote: "refines (execute_quote env run qk s st) (execute_quote env run' qk s st)"
  unfolding execute_quote_def quote_scope_def quote_body_def
  by (auto simp: Let_def intro!: refines_finally refines_wrap_other refines_bind more_quote_steps
      split: quote_lookup.splits option.splits)

lemma more_body: "refines (execute_body env run s st) (execute_body env run' s st)"
  by (auto simp: execute_body_def more_loop more_condition more_quote split: step_type.splits)

lemma more_execute: "refines (create_and_execute env run s c) (create_and_execute env run' s c)"
proof -
  let ?st = "(prepare_defined env (sdata s) (begin_step (sdata s) c), new_result (sdata s) True None)"
  from more_body[of env s ?st] show ?thesis
    by (cases "execute_body env run s ?st")
       (auto simp: create_and_execute_def execute_def Let_def)
qed

end

lemma levels_suc: "more_levels (exec_step env n) (exec_step env (Suc n))"
proof (induction n)
  case 0
  show ?case by unfold_locales simp
next
  case (Suc n)
  show ?case
    using more_levels.more_execute[OF Suc] by unfold_locales simp
qed

interpretation deeper: more_levels "exec_step env n" "exec_step env (Suc n)" for env n
  by (rule levels_suc)

lemma exec_step_more_levels: "exec_step env n s c \<noteq> Stuck \<Longrightarrow> exec_step env (n + m) s c = exec_step env n s c"
proof (induction m)
  case (Suc m)
  then show ?case using deeper.more[of env "n + m" s c] by (auto simp: refines_def simp del: exec_step.simps)
qed simp

section \<open>Enough levels\<close>

text \<open>The nesting of a step, with the roots of the case it quotes, fits in so many levels, and no code
  of a Python step has a placeholder in quotes: the resolution of such a code may not return.\<close>

primrec fits :: "engine_env \<Rightarrow> nat \<Rightarrow> step \<Rightarrow> bool" where
  "fits env 0 s = False"
| "fits env (Suc n) s =
     (code_settles (sdata s) \<and> list_all (fits env n) (children s @ quote_steps s) \<and>
      list_all (\<lambda>b. list_all (fits env n) (br_children b)) (branch_items s) \<and>
      (is_quote (step_type (sdata s)) \<longrightarrow>
        (case quote_case_id (sdata s) of None \<Rightarrow> True
         | Some q \<Rightarrow> (case en_case_tree env q of None \<Rightarrow> True | Some roots \<Rightarrow> list_all (fits env n) roots))))"

text \<open>It does not depend on the fields a preparation or a merge changes.\<close>

lemma fits_prepare: "fits env n s \<Longrightarrow> fits env n (prepare_step s)"
proof (induction n arbitrary: s)
  case (Suc n)
  have b: "br_children (prepare_branch x) = map prepare_step (br_children x)" for x by (cases x) simp
  from Suc show ?case by (cases s) (auto simp: list_all_iff b code_settles_def split: option.splits)
qed simp

lemma fits_merge: "fits env n s \<Longrightarrow> fits env n (merge_and_override_fields qk own s)"
  by (cases n) (auto simp: merge_and_override_fields_def Let_def code_settles_def)

lemma sort_steps_set [simp]: "set (sort_steps ss) = set ss"
  by (simp add: sort_steps_def)

locale settled_runner =
  fixes run :: runner and small :: "step \<Rightarrow> bool"
  assumes settled: "small s \<Longrightarrow> run s c \<noteq> Stuck"
begin

lemma settled_children: "\<forall>s \<in> set ss. small s \<Longrightarrow> run_children run f ss c \<noteq> Stuck"
proof (induction ss arbitrary: c)
  case (Cons s ss)
  then have "bind (run_children run f ss c1) (\<lambda>c2 rs. Done c2 (g rs)) \<noteq> Stuck" for c1 g
    by (cases "run_children run f ss c1") (auto simp: bind_def)
  with Cons settled[of s c] show ?case by (auto simp: Let_def split: outcome.splits)
qed simp

lemma attach_not_stuck: "attach_children mode e s rs st \<noteq> Stuck"
  by (induction mode e s rs st rule: attach_children.induct) (auto simp: Let_def split: loop_strategy.splits)

lemma settled_round:
  "\<forall>x \<in> set (executor_children s). small x \<Longrightarrow> execute_loop_round run mode e s no vs st \<noteq> Stuck"
  using settled_children[of "executor_children s"]
  by (auto simp: execute_loop_round_def execute_children_def attach_not_stuck Let_def split: outcome.splits exn.splits)

lemma sleep_not_stuck: "ctx_sleep t c \<noteq> Stuck"
  by (auto simp: ctx_sleep_def split: option.splits)

lemma loop_sleep_not_stuck: "loop_sleep s st \<noteq> Stuck"
  by (auto simp: loop_sleep_def sleep_not_stuck split: option.splits)

lemma evaluate_not_stuck: "evaluate_condition env cond c \<noteq> Stuck"
  by (auto simp: evaluate_condition_def Let_def split: option.splits prod.splits sum.splits)

lemma settled_rounds:
  "\<forall>x \<in> set (executor_children s). small x \<Longrightarrow> run_rounds run mode e s n rounds st \<noteq> Stuck"
proof (induction rounds arbitrary: st)
  case (Cons p rounds)
  then show ?case
    by (cases p) (auto simp: settled_round loop_sleep_not_stuck split: option.splits)
qed simp

lemma settled_condition_rounds:
  "\<forall>x \<in> set (executor_children s). small x \<Longrightarrow> condition_rounds env run e s cond t st0 left st \<noteq> Stuck"
proof (induction left arbitrary: st)
  case 0
  show ?case by (subst condition_rounds.simps)
      (auto simp: Let_def evaluate_not_stuck split: prod.splits outcome.splits option.splits)
next
  case (Suc left)
  then show ?case by (subst condition_rounds.simps)
      (auto simp: Let_def evaluate_not_stuck loop_sleep_not_stuck settled_round
        split: prod.splits outcome.splits option.splits)
qed

lemma resolve_not_stuck: "resolve_loop_maximums env d c \<noteq> Stuck" "parse_iterable_source env src c \<noteq> Stuck"
  by (auto simp: resolve_loop_maximums_def parse_iterable_source_def Let_def
      split: option.splits prod.splits sum.splits var_exn.splits)

lemma settled_loop:
  "\<forall>x \<in> set (executor_children s). small x \<Longrightarrow> execute_loop env run s st \<noteq> Stuck"
  unfolding execute_loop_def execute_count_loop_def execute_list_loop_def execute_dict_loop_def
    execute_condition_loop_def finish_rounds_def run_collection_loop_def
  by (auto simp: Let_def settled_rounds settled_condition_rounds resolve_not_stuck
      split: option.splits loop_mode.splits prod.splits pyval.splits)

lemma find_branch_not_stuck: "find_branch env i bs c \<noteq> Stuck"
  by (induction bs arbitrary: i c) (auto simp: evaluate_not_stuck split: option.splits)

lemma find_branch_member: "find_branch env i bs c = Done c' (Some (j, b)) \<Longrightarrow> b \<in> set bs"
proof (induction bs arbitrary: i c)
  case (Cons x bs)
  show ?case
  proof (cases "br_type x = BR_ELSE \<or> br_conditions x = None")
    case True
    with Cons.prems show ?thesis by (auto split: if_splits)
  next
    case False
    then obtain cond where "br_conditions x = Some cond" by auto
    with False Cons show ?thesis
      by (cases "evaluate_condition env cond c") (auto split: if_splits)
  qed
qed simp

lemma settled_condition:
  "\<forall>b \<in> set (branch_items s). \<forall>x \<in> set (br_children b). small x \<Longrightarrow> execute_condition env run s st \<noteq> Stuck"
proof -
  assume a: "\<forall>b \<in> set (branch_items s). \<forall>x \<in> set (br_children b). small x"
  have "run_branch run s i b st1 \<noteq> Stuck" if "b \<in> set (branch_items s)" for i b st1
    using settled_children[of "sort_steps (br_children b)"] a that
    by (auto simp: run_branch_def Let_def split: outcome.splits)
  note branch = this
  show ?thesis
  proof (cases "find_branch env 0 (branch_items s) (fst st)")
    case (Done c q)
    show ?thesis
    proof (cases q)
      case (Some ib)
      then obtain i b where "ib = (i, b)" by fastforce
      moreover from this Some Done have "b \<in> set (branch_items s)" by (simp add: find_branch_member)
      ultimately show ?thesis using Some Done branch by (simp add: execute_condition_def Let_def)
    qed (simp add: Done execute_condition_def Let_def)
  qed (simp_all add: find_branch_not_stuck execute_condition_def Let_def)
qed

lemma settled_quote_steps:
  "\<forall>s \<in> set ss. small (merge_and_override_fields qk own s) \<Longrightarrow> run_quote_steps run qk own ss st \<noteq> Stuck"
proof (induction ss arbitrary: st)
  case (Cons s ss)
  then have "run (merge_and_override_fields qk own s) c \<noteq> Stuck" for c by (simp add: settled)
  with Cons show ?case
    by (cases st) (auto simp: Let_def split: outcome.splits option.splits exn.splits)
qed simp

lemma settled_quote:
  assumes "\<And>q roots s'. quote_case_id (sdata s) = Some q \<Longrightarrow> en_case_tree env q = Some roots \<Longrightarrow> s' \<in> set roots \<Longrightarrow>
    small (merge_and_override_fields qk (sdata s) (prepare_step s'))"
  shows "execute_quote env run qk s st \<noteq> Stuck"
proof -
  have "quote_body env run qk s roots (the (quote_case_id (sdata s))) st1 \<noteq> Stuck"
    if "truthy_id (quote_case_id (sdata s))" "en_case_tree env (the (quote_case_id (sdata s))) = Some roots" for roots st1
    using assms that
    by (auto simp: quote_body_def Let_def truthy_id_def settled_quote_steps)
  then show ?thesis
    unfolding execute_quote_def quote_scope_def
    by (auto simp: Let_def split: quote_lookup.splits option.splits)
qed

lemma settled_step:
  assumes "\<forall>x \<in> set (children s @ quote_steps s). small x"
    and "\<forall>b \<in> set (branch_items s). \<forall>x \<in> set (br_children b). small x"
    and "\<And>q roots qk s'. is_quote (step_type (sdata s)) \<Longrightarrow> quote_case_id (sdata s) = Some q \<Longrightarrow>
      en_case_tree env q = Some roots \<Longrightarrow> s' \<in> set roots \<Longrightarrow>
      small (merge_and_override_fields qk (sdata s) (prepare_step s'))"
    and "code_settles (sdata s)"
  shows "create_and_execute env run s c \<noteq> Stuck"
proof -
  have loop: "execute_loop env run s st \<noteq> Stuck" for st
    using assms(1) by (intro settled_loop) (auto simp: executor_children_def sort_steps_def)
  have cond: "execute_condition env run s st \<noteq> Stuck" for st
    using assms(2) by (rule settled_condition)
  have quote: "execute_quote env run qk s st \<noteq> Stuck" if "is_quote (step_type (sdata s))" for qk st
    using assms(3)[OF that] by (rule settled_quote)
  have python: "execute_python env s st \<noteq> Stuck" if "step_type (sdata s) = Some PYTHON" for st
    using that assms(4) by (rule python_not_stuck)
  have "execute_body env run s st \<noteq> Stuck" if "step_type (sdata s) \<noteq> None" for st
    using that loop cond quote python unfolding execute_body_def execute_wait_def execute_assert_def execute_extract_def
    by (auto simp: is_quote_def sleep_not_stuck apply_extract_and_assert_def Let_def network_not_stuck
        execute_user_variables_def requests_not_stuck
        split: step_type.splits option.splits prod.splits sum.splits)
  then show ?thesis
    by (cases "step_type (sdata s)")
       (auto simp: create_and_execute_def execute_def Let_def split: outcome.splits prod.splits)
qed

end

lemma fits_settled: "settled_runner (exec_step env n) (fits env n)"
proof (induction n)
  case 0
  show ?case by unfold_locales simp
next
  case (Suc n)
  show ?case
  proof
    fix s c
    assume f: "fits env (Suc n) s"
    show "exec_step env (Suc n) s c \<noteq> Stuck"
      unfolding exec_step.simps(2)
    proof (rule settled_runner.settled_step[OF Suc])
      fix q roots qk s'
      assume "is_quote (step_type (sdata s))" "quote_case_id (sdata s) = Some q" "en_case_tree env q = Some roots"
        "s' \<in> set roots"
      with f have "fits env n s'" by (auto simp: list_all_iff)
      then show "fits env n (merge_and_override_fields qk (sdata s) (prepare_step s'))"
        by (intro fits_merge fits_prepare)
    qed (use f in \<open>auto simp: list_all_iff\<close>)
  qed
qed

interpretation settled: settled_runner "exec_step env n" "fits env n" for env n
  by (rule fits_settled)

end
