(* ===== verification/Control.thy ===== *)
theory Control
  imports Levels
begin

text \<open>
  What the control steps guarantee: which results a round attaches under each error strategy, how
  many rounds a loop runs, which branch a condition takes, and what a quoted script may do to the
  variables of the case that quotes it.
\<close>

section \<open>Attaching the results of a round\<close>

definition final_state :: "('s, 'a) outcome \<Rightarrow> 's option" where
  "final_state m = (case m of Done s a \<Rightarrow> Some s | Fail s e \<Rightarrow> Some s | Stuck \<Rightarrow> None)"

lemma final_state_simps [simp]:
  "final_state (Done s a) = Some s" "final_state (Fail s e) = Some s" "final_state Stuck = None"
  by (simp_all add: final_state_def)

lemma rchildren_edits [simp]:
  "rchildren (add_child x r) = rchildren r @ [x]" "rchildren (set_failed r) = rchildren r"
  "rchildren (set_error e r) = rchildren r" "rchildren (set_request q r) = rchildren r"
  "rchildren (add_children xs r) = rchildren r @ xs" "rchildren (set_message ok m r) = rchildren r"
  by (simp_all add: add_child_def set_failed_def set_error_def set_request_def add_children_def set_message_def)

lemma success_edits [simp]:
  "res_success (add_child x r) = res_success r" "\<not> res_success (set_failed r)"
  "res_success (add_children xs r) = res_success r" "res_success (set_request q r) = res_success r"
  "res_success (set_message ok m r) = ok" "\<not> res_success (set_error e r)"
  by (simp_all add: add_child_def set_failed_def add_children_def set_request_def set_message_def set_error_def)

text \<open>What a strategy keeps of a round: everything, or up to the first failure.\<close>

definition kept :: "loop_strategy \<Rightarrow> step_result list \<Rightarrow> step_result list" where
  "kept on_error rs = (if on_error = LS_CONTINUE then rs
     else takeWhile res_success rs @ take 1 (dropWhile res_success rs))"

lemma kept_length: "length (kept on_error rs) \<le> length rs"
proof -
  have "length (takeWhile res_success rs) + length (dropWhile res_success rs) = length rs"
    by (metis length_append takeWhile_dropWhile_id)
  then show ?thesis by (auto simp: kept_def)
qed

lemma attach_children_state:
  "\<exists>c' r'. final_state (attach_children mode on_error s rs st) = Some (c', r') \<and>
     rchildren r' = rchildren (snd st) @ kept on_error rs \<and>
     res_success r' = (res_success (snd st) \<and> list_all res_success rs)"
proof (induction rs arbitrary: st)
  case Nil
  show ?case by (cases st) (simp add: kept_def)
next
  case (Cons x rs)
  obtain c r where st: "st = (c, r)" by fastforce
  show ?case
  proof (cases "res_success x")
    case True
    with Cons.IH[of "(c, add_child x r)"] st show ?thesis by (auto simp: Let_def kept_def)
  next
    case False
    with Cons.IH[of "(add_log (LChildFailed mode on_error (r_error (rinfo x))) (step_code (sdata s)) c,
        set_failed (add_child x r))"] st
    show ?thesis by (cases on_error) (auto simp: Let_def kept_def)
  qed
qed

lemma attach_continue:
  "attach_children mode LS_CONTINUE s rs st = Done st' b \<Longrightarrow> b"
  "attach_children mode LS_CONTINUE s rs st \<noteq> Fail st' e"
  by (induction rs arbitrary: st; auto simp: Let_def split: if_splits)+

section \<open>Rounds\<close>

definition active :: "step \<Rightarrow> step list" where
  "active s = filter (\<lambda>x. \<not> step_is_skipped (sdata x)) (executor_children s)"

definition step_ident :: "step \<Rightarrow> int option \<times> int option \<times> string option \<times> step_type option \<times> int option" where
  "step_ident s = (case_id (sdata s), step_id (sdata s), step_code (sdata s), step_type (sdata s), quote_case_id (sdata s))"

definition result_ident :: "step_result \<Rightarrow> int option \<times> int option \<times> string option \<times> step_type option \<times> int option" where
  "result_ident r = identity (rinfo r)"

lemma describes_idents:
  "list_all2 (\<lambda>s r. describes (sdata s) r \<and> P r) ss rs \<Longrightarrow> map result_ident rs = map step_ident ss"
  by (induction rule: list_all2_induct) (auto simp: describes_def step_ident_def result_ident_def)

text \<open>At most so many results are added by an outcome.\<close>

definition adds :: "nat \<Rightarrow> step_result \<Rightarrow> (xstate, 'a) outcome \<Rightarrow> bool" where
  "adds k r m = (\<forall>c' r'. final_state m = Some (c', r') \<longrightarrow> (\<exists>xs. rchildren r' = rchildren r @ xs \<and> length xs \<le> k))"

lemma adds_simps [simp]:
  "adds k r (Done st a) = (\<exists>xs. rchildren (snd st) = rchildren r @ xs \<and> length xs \<le> k)"
  "adds k r (Fail st e) = (\<exists>xs. rchildren (snd st) = rchildren r @ xs \<and> length xs \<le> k)"
  "adds k r Stuck"
  by (cases st; simp add: adds_def)+

lemma adds_bind:
  assumes "adds k r m" and "\<And>st a. m = Done st a \<Longrightarrow> adds l (snd st) (f st a)"
  shows "adds (k + l) r (bind m f)"
proof (cases m)
  case (Done st a)
  with assms(1) obtain xs where xs: "rchildren (snd st) = rchildren r @ xs" "length xs \<le> k" by auto
  from assms(2)[OF Done] have f: "adds l (snd st) (f st a)" .
  show ?thesis
  proof (cases "f st a")
    case d: (Done st2 b)
    with f obtain ys where "rchildren (snd st2) = rchildren (snd st) @ ys" "length ys \<le> l" by auto
    with xs Done d show ?thesis by (simp add: exI[of _ "xs @ ys"])
  next
    case d: (Fail st2 b)
    with f obtain ys where "rchildren (snd st2) = rchildren (snd st) @ ys" "length ys \<le> l" by auto
    with xs Done d show ?thesis by (simp add: exI[of _ "xs @ ys"])
  qed (simp add: Done)
qed (use assms(1) in fastforce)+

lemma adds_mono: "adds k r m \<Longrightarrow> k \<le> l \<Longrightarrow> adds l r m"
  by (fastforce simp: adds_def)

lemma adds_from: "rchildren r = rchildren q \<Longrightarrow> adds k r m = adds k q m"
  by (simp add: adds_def)

lemma adds_wrap: "adds k r m \<Longrightarrow> adds k r (wrap_other d m)" "adds k r m \<Longrightarrow> adds k r (wrap_loop mode m)"
  by (cases m; auto simp: wrap_other_def wrap_loop_def Let_def split: exn.splits)+

lemma adds_on_ctx: "adds 0 r (on_ctx m r)"
  by (cases m) auto

lemma adds_finish_rounds: "adds k r m \<Longrightarrow> adds k r (finish_rounds mode s n m)"
  by (cases m) (auto simp: finish_rounds_def)

lemma adds_sleep: "adds 0 (snd st) (loop_sleep s st)"
  by (cases st) (auto simp: loop_sleep_def adds_on_ctx split: option.splits)

context step_runner
begin

lemma round_attaches:
  "final_state (execute_loop_round run mode on_error s no vs st) = Some (c', r') \<Longrightarrow>
   \<exists>xs. rchildren r' = rchildren (snd st) @ xs \<and> length xs \<le> length (active s)"
proof -
  let ?c = "begin_round mode s no vs (fst st)"
  assume a: "final_state (execute_loop_round run mode on_error s no vs st) = Some (c', r')"
  show ?thesis
  proof (cases "execute_children run s ?c")
    case (Done c1 rs)
    have "length rs = length (active s)"
      using list_all2_lengthD[OF run_children_results[OF Done[unfolded execute_children_def]]]
      by (simp add: active_def)
    moreover have "rchildren r' = rchildren (snd st) @ kept on_error rs"
      using attach_children_state[of mode on_error s rs "(c1, snd st)"] a Done
      by (auto simp: execute_loop_round_def)
    ultimately show ?thesis using kept_length by metis
  next
    case (Fail c1 e)
    with a have "rchildren r' = rchildren (snd st)"
      by (cases e) (auto simp: execute_loop_round_def Let_def split: if_splits)
    then show ?thesis by simp
  next
    case Stuck
    with a show ?thesis by (simp add: execute_loop_round_def)
  qed
qed

lemma round_continues:
  assumes "execute_loop_round run mode LS_CONTINUE s no vs st = Done (c', r') b"
    and typed: "\<forall>x \<in> set (executor_children s). step_type (sdata x) \<noteq> None"
  shows "b \<and> (\<exists>xs. rchildren r' = rchildren (snd st) @ xs \<and> map result_ident xs = map step_ident (active s))"
proof -
  let ?c = "begin_round mode s no vs (fst st)"
  show ?thesis
  proof (cases "execute_children run s ?c")
    case (Done c1 rs)
    then have "map result_ident rs = map step_ident (active s)"
      using run_children_results by (auto simp: execute_children_def active_def intro!: describes_idents[where P = sound])
    moreover have a: "attach_children mode LS_CONTINUE s rs (c1, snd st) = Done (c', r') b"
      using assms(1) Done by (simp add: execute_loop_round_def)
    moreover have b using a by (rule attach_continue(1))
    ultimately show ?thesis
      using attach_children_state[of mode LS_CONTINUE s rs "(c1, snd st)"] by (auto simp: kept_def)
  next
    case (Fail c1 e)
    with run_children_typed[OF typed] show ?thesis by (simp add: execute_children_def)
  next
    case Stuck
    with assms(1) show ?thesis by (simp add: execute_loop_round_def)
  qed
qed

lemma loop_sleep_children: "final_state (loop_sleep s st) = Some st' \<Longrightarrow> snd st' = snd st"
proof -
  have "final_state (on_ctx m r) = Some st' \<Longrightarrow> snd st' = r" for m :: "(ctx, unit) outcome" and r
    by (cases m) auto
  then show "final_state (loop_sleep s st) = Some st' \<Longrightarrow> ?thesis"
    by (auto simp: loop_sleep_def split: option.splits if_splits)
qed

lemma rounds_continue:
  assumes "run_rounds run mode LS_CONTINUE s n rounds st = Done (c', r') b"
    and typed: "\<forall>x \<in> set (executor_children s). step_type (sdata x) \<noteq> None"
  shows "b \<and> (\<exists>xs. rchildren r' = rchildren (snd st) @ xs \<and>
    map result_ident xs = concat (replicate (length rounds) (map step_ident (active s))))"
  using assms(1)
proof (induction rounds arbitrary: st)
  case (Cons p rounds)
  obtain no kvs where p: "p = (no, kvs)" by fastforce
  with Cons.prems obtain vars where v: "all_some (map loop_var kvs) = Some vars" by (auto split: option.splits)
  obtain st1 go where r1: "execute_loop_round run mode LS_CONTINUE s no vars st = Done st1 go"
    using Cons.prems p v by (cases "execute_loop_round run mode LS_CONTINUE s no vars st") auto
  obtain c1 q1 where st1: "st1 = (c1, q1)" by fastforce
  from round_continues[OF r1[unfolded st1] typed] obtain xs where go: go and
    xs: "rchildren q1 = rchildren (snd st) @ xs" "map result_ident xs = map step_ident (active s)" by auto
  obtain st2 where r2: "(if no < n then loop_sleep s st1 else Done st1 ()) = Done st2 ()"
    and r3: "run_rounds run mode LS_CONTINUE s n rounds st2 = Done (c', r') b"
    using Cons.prems p v r1 go by (cases "if no < n then loop_sleep s st1 else Done st1 ()") auto
  from r2 loop_sleep_children[of s st1 st2] have "snd st2 = q1" by (auto simp: st1 split: if_splits)
  with Cons.IH[OF r3] xs show ?case by auto
qed simp

lemma rounds_bound:
  "final_state (run_rounds run mode on_error s n rounds st) = Some (c', r') \<Longrightarrow>
   \<exists>xs. rchildren r' = rchildren (snd st) @ xs \<and> length xs \<le> length rounds * length (active s)"
proof (induction rounds arbitrary: st)
  case (Cons p rounds)
  obtain no kvs where p: "p = (no, kvs)" by fastforce
  show ?case
  proof (cases "all_some (map loop_var kvs)")
    case (Some vars)
    let ?m = "execute_loop_round run mode on_error s no vars st"
    show ?thesis
    proof (cases "\<exists>st1. ?m = Done st1 True")
      case True
      then obtain c1 q1 where m: "?m = Done (c1, q1) True" by fastforce
      from round_attaches[of mode on_error s no vars st c1 q1] m obtain xs where
        xs: "rchildren q1 = rchildren (snd st) @ xs" "length xs \<le> length (active s)" by auto
      let ?w = "if no < n then loop_sleep s (c1, q1) else Done (c1, q1) ()"
      show ?thesis
      proof (cases ?w)
        case (Done st2 u)
        then have "snd st2 = q1" using loop_sleep_children[of s "(c1, q1)" st2] by (auto split: if_splits)
        with Cons.IH[of st2] Cons.prems m Done p Some xs show ?thesis by (fastforce split: if_splits)
      next
        case (Fail st2 e)
        then have "snd st2 = q1" using loop_sleep_children[of s "(c1, q1)" st2] by (auto split: if_splits)
        moreover have "(c', r') = st2" using Cons.prems m Fail p Some by (auto split: if_splits)
        ultimately show ?thesis using xs by auto
      next
        case Stuck
        with Cons.prems m p Some show ?thesis by (auto split: if_splits)
      qed
    next
      case False
      then have "final_state ?m = Some (c', r')"
        using Cons.prems p Some by (cases ?m) (auto split: if_splits)
      from round_attaches[OF this] show ?thesis by auto
    qed
  qed (use Cons.prems p in auto)
qed simp

lemma adds_round: "adds (length (active s)) (snd st) (execute_loop_round run mode on_error s no vs st)"
  using round_attaches by (auto simp: adds_def)

lemma adds_rounds: "adds (length rounds * length (active s)) (snd st) (run_rounds run mode on_error s n rounds st)"
  using rounds_bound by (auto simp: adds_def)

lemma adds_condition_rounds:
  "adds (left * length (active s)) (snd st) (condition_rounds env run on_error s cond t st0 left st)"
proof (induction left arbitrary: st)
  case 0
  show ?case by (subst condition_rounds.simps)
      (auto simp: Let_def split: prod.splits outcome.splits option.splits)
next
  case (Suc left)
  have "adds (length (active s) + (0 + left * length (active s))) r
      (bind (execute_loop_round run LM_CONDITION on_error s no vs (c, r)) (\<lambda>st1 go.
        if \<not> go then Done st1 m else bind (loop_sleep s st1)
          (\<lambda>st2 _. condition_rounds env run on_error s cond t st0 left st2)))" for no vs c r m
    using adds_round[of s "(c, r)"] adds_sleep
    by (intro adds_bind) (auto intro!: adds_bind[where k = 0, simplified] Suc)
  then show ?case
    by (subst condition_rounds.simps)
       (auto simp: Let_def split: prod.splits outcome.splits option.splits)
qed

end

lemma resolve_loop_maximums_bounds:
  "resolve_loop_maximums env d c = Done c' n \<Longrightarrow> 1 \<le> n \<and> n \<le> 100"
  unfolding resolve_loop_maximums_def Let_def
  by (auto split: option.splits if_splits prod.splits sum.splits var_exn.splits)

context step_runner
begin

lemma adds_count_loop: "adds (100 * length (active s)) (snd st) (execute_count_loop env run on_error s st)"
proof -
  have "adds (0 + 100 * length (active s)) (snd st) (execute_count_loop env run on_error s st)"
    unfolding execute_count_loop_def
  proof (rule adds_bind[OF adds_on_ctx])
    fix st1 n
    assume "on_ctx (resolve_loop_maximums env (sdata s) (fst st)) (snd st) = Done st1 n"
    then have n: "1 \<le> n \<and> n \<le> 100"
      by (cases "resolve_loop_maximums env (sdata s) (fst st)") (auto dest: resolve_loop_maximums_bounds)
    then have "length (count_rounds (sdata s) n) * length (active s) \<le> 100 * length (active s)"
      by (auto simp: count_rounds_def nat_le_iff)
    then show "adds (100 * length (active s)) (snd st1) (finish_rounds LM_COUNT s n
        (run_rounds run LM_COUNT on_error s n (count_rounds (sdata s) n)
          (log_step (LLoopStart LM_COUNT n) s (fst st1, set_request (ReqLoopMaximums n) (snd st1)))))"
      using adds_mono[OF adds_rounds[where rounds = "count_rounds (sdata s) n" and s = s
          and st = "log_step (LLoopStart LM_COUNT n) s (fst st1, set_request (ReqLoopMaximums n) (snd st1))"]]
      by (intro adds_finish_rounds) (simp add: adds_from[of "set_request _ _"])
  qed
  then show ?thesis by simp
qed

lemma adds_condition_loop: "adds (100 * length (active s)) (snd st) (execute_condition_loop env run on_error s st)"
proof (cases "loop_conditions (sdata s)")
  case (Some cond)
  obtain t c1 where cl: "clamp_timeout s (fst st) = (t, c1)" by fastforce
  obtain start c3 where n: "ctx_now env (add_log (LLoopStart LM_CONDITION 0) (step_code (sdata s)) c1) = (start, c3)"
    by fastforce
  let ?r = "set_request (ReqLoopConditions cond) (snd st)"
  have "adds (loop_guard_limit * length (active s) + 0) ?r
      (bind (condition_rounds env run on_error s cond t start loop_guard_limit (c3, ?r))
        (\<lambda>st2 no. Done (log_step (LLoopEnd LM_CONDITION no) s st2) ()))"
    using adds_condition_rounds[of loop_guard_limit s "(c3, ?r)"] by (intro adds_bind) auto
  then show ?thesis
    by (simp add: execute_condition_loop_def Some cl n Let_def loop_guard_limit_def adds_from[of "set_request _ _"])
qed (simp add: execute_condition_loop_def)

lemma adds_loop:
  "loop_mode_of (sdata s) \<in> {Some LM_COUNT, Some LM_CONDITION} \<Longrightarrow>
   adds (100 * length (active s)) (snd st) (execute_loop env run s st)"
  unfolding execute_loop_def
  by (rule adds_wrap) (auto simp: adds_count_loop adds_condition_loop split: option.splits)

text \<open>A counted loop that goes on after failures runs every child in every round.\<close>

lemma count_loop_continues:
  assumes "execute_count_loop env run LS_CONTINUE s (c, r) = Done (c', r') ()"
    and "\<forall>x \<in> set (executor_children s). step_type (sdata x) \<noteq> None"
  shows "\<exists>c1 n xs. resolve_loop_maximums env (sdata s) c = Done c1 n \<and> rchildren r' = rchildren r @ xs \<and>
    map result_ident xs = concat (replicate (nat n) (map step_ident (active s)))"
proof (cases "resolve_loop_maximums env (sdata s) c")
  case (Done c1 n)
  let ?st = "log_step (LLoopStart LM_COUNT n) s (c1, set_request (ReqLoopMaximums n) r)"
  obtain c2 r2 b where m: "run_rounds run LM_COUNT LS_CONTINUE s n (count_rounds (sdata s) n) ?st = Done (c2, r2) b"
    using assms(1) Done
    by (cases "run_rounds run LM_COUNT LS_CONTINUE s n (count_rounds (sdata s) n) ?st")
       (auto simp: execute_count_loop_def finish_rounds_def)
  then have "r' = r2" using assms(1) Done by (auto simp: execute_count_loop_def finish_rounds_def split: if_splits)
  with rounds_continue[OF m assms(2)] Done show ?thesis by (auto simp: count_rounds_def)
qed (use assms in \<open>auto simp: execute_count_loop_def\<close>)

section \<open>Branches\<close>

text \<open>The children of the chosen branch are run; how they end does not change the step's own state.\<close>

lemma branch_results:
  assumes "find_branch env 0 (branch_items s) c = Done c1 (Some (i, b))" "branch_items s \<noteq> []"
    and "execute_condition env run s (c, r) = Done (c', r') ()"
    and "\<forall>x \<in> set (br_children b). step_type (sdata x) \<noteq> None"
  shows "res_success r' \<and> (\<exists>xs. rchildren r' = rchildren r @ xs \<and>
    map result_ident xs = map step_ident (filter (\<lambda>x. \<not> step_is_skipped (sdata x)) (sort_steps (br_children b))))"
proof -
  let ?c2 = "add_log (LBranch (BranchMatched (br_type b))) (step_code (sdata s)) c1"
  let ?m = "run_children run (\<lambda>_. step_code (sdata s)) (sort_steps (br_children b)) ?c2"
  have t: "\<forall>x \<in> set (sort_steps (br_children b)). step_type (sdata x) \<noteq> None"
    using assms(4) by (simp add: sort_steps_def)
  have e: "run_branch run s i b (c1, set_request (ReqBranch None) r) = Done (c', r') ()"
    using assms(1-3) by (simp add: execute_condition_def Let_def)
  show ?thesis
  proof (cases ?m)
    case (Done c3 rs)
    with run_children_results[OF this] e show ?thesis
      by (auto simp: run_branch_def Let_def intro!: describes_idents[where P = sound])
  next
    case (Fail c3 x)
    with run_children_typed[OF t] show ?thesis by blast
  next
    case Stuck
    with e show ?thesis by (simp add: run_branch_def)
  qed
qed

end

lemma find_branch_first:
  "find_branch env i bs c = Done c' (Some (j, b)) \<Longrightarrow>
   i \<le> j \<and> j < i + length bs \<and> bs ! (j - i) = b \<and>
   (\<forall>k < j - i. br_type (bs ! k) \<noteq> BR_ELSE \<and> br_conditions (bs ! k) \<noteq> None)"
proof (induction bs arbitrary: i c)
  case (Cons x bs)
  show ?case
  proof (cases "br_type x = BR_ELSE")
    case True
    with Cons.prems show ?thesis by auto
  next
    case False
    then obtain cond where cond: "br_conditions x = Some cond" using Cons.prems by (cases "br_conditions x") auto
    with False Cons.prems obtain c1 m where m: "evaluate_condition env cond c = Done c1 m"
      by (cases "evaluate_condition env cond c") auto
    show ?thesis
    proof (cases m)
      case True
      with False cond m Cons.prems show ?thesis by auto
    next
      case n: False
      with False cond m Cons.prems have "find_branch env (Suc i) bs c1 = Done c' (Some (j, b))" by simp
      from Cons.IH[OF this] False cond show ?thesis
        by (auto simp: nth_Cons' less_diff_conv2)
    qed
  qed
qed simp

section \<open>Quoted scripts\<close>

lemma add_log_pools [simp]:
  "c_pools (add_log e k c) = c_pools c" "c_session (add_log e k c) = c_session c"
  "c_next_pool (add_log e k c) = c_next_pool c" "session (add_log e k c) = session c"
  by (simp_all add: add_log_def Let_def session_def)

lemma restore_pools [simp]:
  "c_pools (restore_quote a (restore_dataset b c)) = c_pools c"
  "session (restore_quote a (restore_dataset b c)) = session c"
  by (simp_all add: restore_quote_def restore_dataset_def session_def)

lemma final_wrap: "final_state (wrap_other d m) = Some (c', r') \<Longrightarrow>
    \<exists>r2 c2. final_state m = Some (c2, r2) \<and> c_pools c' = c_pools c2"
  by (cases m) (auto simp: wrap_other_def Let_def split: exn.splits)

lemma final_finally: "final_state (finally_ctx f m) = Some (c', r') \<longleftrightarrow>
    (\<exists>c2. final_state m = Some (c2, r') \<and> c' = f c2)"
  by (cases m) (auto simp: finally_ctx_def split: prod.splits)

lemma stays_final: "stays R s m \<Longrightarrow> final_state m = Some s' \<Longrightarrow> R s s'"
  by (cases m) auto

context step_runner
begin

text \<open>The host's pool object is not written while the script runs; at the end the host gets a new
  pool, its own variables overridden by those of the pool the script started with.\<close>

lemma quote_script_pool:
  assumes quoted: "truthy_id (quote_case_id (sdata s))"
      "en_find_case env (the (quote_case_id (sdata s))) PUBLIC_SCRIPT = CaseFound stored"
      "en_case_tree env (the (quote_case_id (sdata s))) = Some roots" "roots \<noteq> []"
    and fin: "final_state (execute_quote env run quote_script s (c, r)) = Some (c', r')"
    and ok: "c_session c < c_next_pool c"
  shows "session c' = merge_back_session_pool (session c) (c_pools c' (c_next_pool c))"
proof -
  let ?q = "the (quote_case_id (sdata s))"
  let ?c0 = "c\<lparr>c_quote_case := Some ?q, c_quote_parent := step_id (sdata s)\<rparr>"
  let ?c1 = "start_pool s stored roots ?c0"
  let ?body = "wrap_other (sdata s) (quote_body env run quote_script s roots ?q (?c1, r))"
  have c1: "c_session ?c1 = c_next_pool c" "c_next_pool ?c1 = Suc (c_next_pool c)"
    "c_pools ?c1 (c_session c) = session c"
    using ok by (simp_all add: start_pool_def Let_def install_session_def session_def)
  from fin quoted obtain c3 where c3: "final_state (finally_ctx (finish_pool s (c_session c) (c_next_pool c)) ?body) = Some (c3, r')"
    "c' = restore_quote c (restore_dataset c c3)"
    by (auto simp: execute_quote_def Let_def quote_scope_def quote_script_def final_finally c1(1))
  then obtain c2 where c2: "final_state ?body = Some (c2, r')" "c3 = finish_pool s (c_session c) (c_next_pool c) c2"
    by (auto simp: final_finally)
  have "lframe (?c1, r) (c2, r')"
    by (rule stays_final[OF wrap_other_loose[OF quote_body_stays] c2(1)])
  then have pf: "pools_frame ?c1 c2" by (simp add: lframe_def loose_def frame_def)
  with ok c1 have host: "c_pools c2 (c_session c) = session c" by (simp add: pools_frame_def)
  from pf c1 have "c_next_pool c \<noteq> c_next_pool c2" by (simp add: pools_frame_def)
  then have "session c3 = merge_back_session_pool (c_pools c2 (c_session c)) (c_pools c3 (c_next_pool c))"
    by (simp add: c2(2) finish_pool_def Let_def install_session_def session_def)
  with c3(2) host show ?thesis by simp
qed

end

end
