(* ===== verification/CaseRun.thy ===== *)
theory CaseRun
  imports Control "HOL-Library.Multiset"
begin

text \<open>
  A whole case: which root steps get a result, how the results are counted, and what the log of a
  root step holds.
\<close>

section \<open>Roots\<close>

lemma aggregate_frame: "step_frame c (aggregate_root_step_logs r k c)"
proof -
  have "logs_grow c (aggregate_root_step_logs r k c)"
    unfolding logs_grow_def
  proof
    fix j
    show "\<exists>l. logs_of (c_logs (aggregate_root_step_logs r k c)) j = logs_of (c_logs c) j @ l"
      by (cases "j = Some k") (auto simp: aggregate_root_step_logs_def logs_of_def map_of_update)
  qed
  moreover have "details_grow c (aggregate_root_step_logs r k c)"
    unfolding details_grow_def
    by (rule exI[of _ "[]"]) (simp add: option.map_ident aggregate_root_step_logs_def)
  ultimately show ?thesis
    by (auto simp: step_frame_def frame_def same_case_def same_marks_def pools_frame_def pool_ok_def
        aggregate_root_step_logs_def)
qed

lemma root_logs_frame: "step_frame c (add_root_logs d r c)"
  by (auto simp: add_root_logs_def aggregate_frame split: option.splits)

context step_runner
begin

lemma run_roots_stays: "stays step_frame c (run_roots run ss c)"
proof (induction ss arbitrary: c)
  case (Cons s ss)
  have "stays step_frame c1 (case r of None \<Rightarrow> run_roots run ss c1 | Some x \<Rightarrow>
      bind (run_roots run ss (add_root_logs (sdata s) x c1)) (\<lambda>c2 xs. Done c2 (x # xs)))" for c1 r
    by (cases r) (simp_all add: Cons ctxf.stays_from[OF root_logs_frame ctxf.stays_bind[OF Cons]])
  then show ?case unfolding run_roots.simps by (intro ctxf.stays_bind run_stays)
qed simp

text \<open>Every root that is not skipped has a result, whatever the others did.\<close>

lemma run_roots_results:
  "run_roots run ss c = Done c' rs \<Longrightarrow>
   list_all2 (\<lambda>s r. describes (sdata s) r \<and> sound r) (filter (\<lambda>s. \<not> step_is_skipped (sdata s)) ss) rs"
proof (induction ss arbitrary: c rs)
  case (Cons s ss)
  from Cons.prems obtain c1 r where r: "run s c = Done c1 r" by (cases "run s c") auto
  show ?case
  proof (cases r)
    case None
    with Cons r run_skips[OF r] show ?thesis by auto
  next
    case (Some x)
    let ?c2 = "add_root_logs (sdata s) x c1"
    from Cons.prems r Some obtain xs where "run_roots run ss ?c2 = Done c' xs" "rs = x # xs"
      by (cases "run_roots run ss ?c2") (auto simp: Let_def)
    with Cons.IH run_skips[OF r] run_result[OF r[unfolded Some]] Some show ?thesis by auto
  qed
qed simp

lemma run_roots_typed: "\<forall>s \<in> set ss. step_type (sdata s) \<noteq> None \<Longrightarrow> run_roots run ss c \<noteq> Fail c' e"
proof (induction ss arbitrary: c)
  case (Cons s ss)
  then have n: "run s c \<noteq> Fail c1 x" for c1 x using run_typed by simp
  show ?case
  proof (cases "run s c")
    case (Done c1 r)
    show ?thesis
    proof (cases r)
      case (Some x)
      let ?c2 = "add_root_logs (sdata s) x c1"
      from Cons have "run_roots run ss ?c2 \<noteq> Fail c' e" by simp
      then show ?thesis using Done Some by (cases "run_roots run ss ?c2") (auto simp: Let_def)
    qed (use Cons Done in auto)
  qed (use n in auto)
qed simp

end

lemma run_roots_settle:
  "\<forall>s \<in> set ss. fits env n s \<Longrightarrow> run_roots (exec_step env n) ss c \<noteq> Stuck"
proof (induction ss arbitrary: c)
  case (Cons s ss)
  with settled.settled[of env n s c] show ?case
    by (auto simp: Let_def split: option.splits)
qed simp

lemma roots_end:
  assumes "\<forall>s \<in> set steps. step_type (sdata s) \<noteq> None" "\<forall>s \<in> set steps. fits env n s"
  shows "\<exists>c rs. run_roots (exec_step env n) (sort_steps (map prepare_step steps)) c0 = Done c rs"
proof -
  let ?ss = "sort_steps (map prepare_step steps)"
  have p: "step_type (sdata (prepare_step s)) = step_type (sdata s)" for s by (cases s) simp
  have "run_roots (exec_step env n) ?ss c0 \<noteq> Stuck"
    using assms(2) by (intro run_roots_settle) (auto intro: fits_prepare)
  moreover have "run_roots (exec_step env n) ?ss c0 \<noteq> Fail c e" for c e
    using assms(1) by (intro engine.run_roots_typed) (auto simp: p)
  ultimately show ?thesis by (cases "run_roots (exec_step env n) ?ss c0") auto
qed

lemma case_ends:
  assumes "\<forall>s \<in> set steps. step_type (sdata s) \<noteq> None" "\<forall>s \<in> set steps. fits env n s"
  shows "\<exists>c out. execute_case env n cid cfg rc vars ds steps = Done c out"
  using roots_end[OF assms, of "init_ctx env cid cfg rc vars ds"] by (auto simp: execute_case_def)

section \<open>Statistics\<close>

definition counted_results :: "step_result list \<Rightarrow> result_info list" where
  "counted_results rs = map fst (filter counted (collect_all_results rs))"

lemma unique_states_keys:
  "distinct (map fst acc) \<Longrightarrow> distinct (map fst (unique_states is acc)) \<and>
   fst ` set (unique_states is acc) = fst ` set acc \<union> r_step_code ` set is"
proof (induction "is" arbitrary: acc)
  case (Cons i "is")
  let ?k = "r_step_code i"
  let ?a1 = "if map_of acc ?k = None then AList.update ?k True acc else acc"
  let ?a2 = "if r_success i then ?a1 else AList.update ?k False ?a1"
  have a1: "distinct (map fst ?a1)" "fst ` set ?a1 = insert ?k (fst ` set acc)"
    using Cons.prems by (auto simp: distinct_keys_update set_keys_update map_of_eq_None_iff)
  then have "distinct (map fst ?a2)" "fst ` set ?a2 = insert ?k (fst ` set acc)"
    by (auto simp: distinct_keys_update set_keys_update)
  with Cons.IH[of ?a2] show ?case by (auto simp: Let_def)
qed simp

lemma unique_states_value:
  "map_of (unique_states is acc) k =
     (if map_of acc k = None \<and> k \<notin> r_step_code ` set is then None
      else Some (map_of acc k \<noteq> Some False \<and> (\<forall>i \<in> set is. r_step_code i = k \<longrightarrow> r_success i)))"
proof (induction "is" arbitrary: acc)
  case Nil
  then show ?case by (cases "map_of acc k") auto
next
  case (Cons i "is")
  then show ?case by (auto simp: Let_def map_of_update)
qed

lemma states_of_keys:
  "distinct (map fst (states_of rs))" "fst ` set (states_of rs) = r_step_code ` set (counted_results rs)"
  using unique_states_keys[of "[]" "counted_results rs"] by (simp_all add: states_of_def counted_results_def)

lemma states_of_value:
  "map_of (states_of rs) k = (if k \<notin> r_step_code ` set (counted_results rs) then None
     else Some (\<forall>i \<in> set (counted_results rs). r_step_code i = k \<longrightarrow> r_success i))"
  using unique_states_value[of "counted_results rs" "[]" k] by (simp add: states_of_def counted_results_def)

definition codes_of :: "result_info list \<Rightarrow> string option set" where
  "codes_of is = r_step_code ` set is"

definition failed_codes :: "result_info list \<Rightarrow> string option set" where
  "failed_codes is = r_step_code ` set (filter (\<lambda>i. \<not> r_success i) is)"

lemma states_of_count:
  "length (states_of rs) = card (codes_of (counted_results rs))"
  "length (filter (\<lambda>p. \<not> snd p) (states_of rs)) = card (failed_codes (counted_results rs))"
proof -
  let ?s = "states_of rs"
  have d: "distinct (map fst ?s)" by (rule states_of_keys)
  show "length ?s = card (codes_of (counted_results rs))"
    using distinct_card[OF d] by (simp add: states_of_keys(2) codes_of_def)
  have "fst ` set (filter (\<lambda>p. \<not> snd p) ?s) = failed_codes (counted_results rs)"
  proof -
    have "k \<in> fst ` set (filter (\<lambda>p. \<not> snd p) ?s) \<longleftrightarrow> map_of ?s k = Some False" for k
      using d by (auto simp: image_iff map_of_eq_Some_iff)
    moreover have "map_of ?s k = Some False \<longleftrightarrow> k \<in> failed_codes (counted_results rs)" for k
      by (auto simp: states_of_value failed_codes_def intro: rev_image_eqI)
    ultimately show ?thesis by blast
  qed
  moreover have "distinct (map fst (filter (\<lambda>p. \<not> snd p) ?s))" using d by (rule distinct_map_filter)
  ultimately show "length (filter (\<lambda>p. \<not> snd p) ?s) = card (failed_codes (counted_results rs))"
    using distinct_card[of "map fst (filter (\<lambda>p. \<not> snd p) ?s)"] by simp
qed

lemma length_split: "length (filter P xs) + length (filter (\<lambda>x. \<not> P x) xs) = length xs"
  by (induction xs) auto

lemma statistics_counts:
  "total_steps (statistics_of (states_of rs)) = card (codes_of (counted_results rs))"
  "failed_steps (statistics_of (states_of rs)) = card (failed_codes (counted_results rs))"
  "success_steps (statistics_of (states_of rs)) + failed_steps (statistics_of (states_of rs)) =
     total_steps (statistics_of (states_of rs))"
  using length_split[of snd "states_of rs"] states_of_count[of rs]
  by (auto simp: statistics_of_def Let_def)

lemma failed_codes_empty: "card (failed_codes is) = 0 \<longleftrightarrow> (\<forall>i \<in> set is. r_success i)"
  by (auto simp: failed_codes_def)

section \<open>Logs of a root\<close>

text \<open>The lines a root log gains: for each code, its lines once for every result that has the code.\<close>

lemma filter_concat_count:
  "mset (concat (map f xs)) = sum_mset (image_mset (\<lambda>x. mset (f x)) (mset xs))"
  by (induction xs) auto

lemma aggregated_logs_mset:
  "mset (aggregated_logs ls r) = sum_mset (image_mset (\<lambda>k. mset (logs_of ls (Some k))) (mset (child_step_codes r)))"
  by (simp add: aggregated_logs_def filter_concat_count)

end
