(* ===== verification/StepSamples.thy ===== *)
theory StepSamples
  imports StepTree
begin

text \<open>
  The data of a step with every field empty, and of one with a number, a code and a type, from which the
  concrete steps of other theories are made.
\<close>

definition blank_data :: step_data where
  "blank_data = \<lparr>step_id = None, step_no = None, step_code = None, step_name = None, step_type = None,
     case_id = Some 1, quote_case_id = None, parent_step_id = None, step_is_skipped = False,
     request_url = None, request_port = None, request_method = None, request_text = None, args_type = None, tcp_radix = None, tcp_radix_length = None,
     tcp_datagram_length = None, tcp_request_end = None, tcp_response_end = None, tcp_connect = None, tcp_encoding = None,
     tcp_hex_string = False,
     request_body = PNone, request_header = PNone, request_params = PNone, request_form_data = PNone,
     request_form_urlencoded = PNone, request_form_file = PNone, request_project_id = None,
     request_config_name = None, database_operates = [], redis_operates = [], database_searched = False, redis_searched = False,
     compare_items = [], code_text = None,
     wait_seconds = None, loop_mode_of = None, loop_maximums = None, loop_interval = None,
     loop_iterable = None, loop_on_error = None, loop_timeout = None, loop_conditions = None,
     loop_index = None, loop_key = None, loop_value = None, data_source_id = None, session_vars = [],
     defined_vars = [], extract_rules = [], assert_rules = [], case_info = PNone, quote_case_info = PNone\<rparr>"

definition named :: "int \<Rightarrow> string \<Rightarrow> step_type \<Rightarrow> step_data" where
  "named no code t = blank_data\<lparr>step_no := Some no, step_id := Some no, step_code := Some code, step_type := Some t\<rparr>"

end
