(* ===== verification/Samples.thy ===== *)
theory Samples
  imports CaseRun StepSamples
begin

text \<open>
  Concrete steps, an environment and contexts on which the theorems of the development are applied:
  small cases whose executions evaluate.
\<close>

text \<open>A wait that succeeds, and one that fails because it has no duration.\<close>

definition wait_step :: "int \<Rightarrow> string \<Rightarrow> step" where
  "wait_step no code = Step ((named no code WAIT)\<lparr>wait_seconds := Some 0\<rparr>) [] [] []"

definition bad_wait :: "int \<Rightarrow> string \<Rightarrow> step" where
  "bad_wait no code = Step (named no code WAIT) [] [] []"

definition set_step :: "int \<Rightarrow> string \<Rightarrow> string \<Rightarrow> pyval \<Rightarrow> step" where
  "set_step no code k v = Step ((named no code USER_VARIABLES)\<lparr>session_vars := [mk_var k v]\<rparr>) [] [] []"

definition count_loop :: "int \<Rightarrow> string \<Rightarrow> string \<Rightarrow> loop_strategy \<Rightarrow> step list \<Rightarrow> step" where
  "count_loop no code maximum on_error cs =
     Step ((named no code LOOP)\<lparr>loop_mode_of := Some LM_COUNT, loop_maximums := Some maximum,
       loop_on_error := Some on_error, loop_index := Some ''i''\<rparr>) cs [] []"

definition else_branch :: "int \<Rightarrow> string \<Rightarrow> step list \<Rightarrow> step" where
  "else_branch no code cs = Step (named no code COND_BRANCH) [] [] [Branch BR_ELSE None None cs]"

definition quote_step :: "int \<Rightarrow> string \<Rightarrow> int \<Rightarrow> step list \<Rightarrow> step" where
  "quote_step no code q qs = Step ((named no code QUOTE_PUBLIC_SCRIPT)\<lparr>quote_case_id := Some q\<rparr>) [] qs []"

text \<open>An extraction of a pool variable under a new name.\<close>

definition copy_step :: "int \<Rightarrow> string \<Rightarrow> string \<Rightarrow> string \<Rightarrow> step" where
  "copy_step no code from to = Step ((named no code EXTRACT)\<lparr>extract_rules :=
     [\<lparr>ex_name = to, ex_source = ''session_variables'', ex_expr = Some (''$.'' @ from), ex_scope = None, ex_index = None\<rparr>]\<rparr>) [] [] []"

definition sample_ph :: ph_env where
  "sample_ph = \<lparr>ph_func = (\<lambda>n s. None), ph_loads = (\<lambda>s. None), ph_dumps = (\<lambda>v. Some ''{}'')\<rparr>"

text \<open>The JSON path of one member.\<close>

definition member_path :: "string \<Rightarrow> pyval \<Rightarrow> pyval list option" where
  "member_path e v = (case v of PDict d \<Rightarrow> Some (case map_of d (drop 2 e) of None \<Rightarrow> [] | Some x \<Rightarrow> [x]) | _ \<Rightarrow> None)"

definition sample_xml :: xml_lib where
  "sample_xml = \<lparr>xl_tree = (\<lambda>s. None), xl_spaces = (\<lambda>s. []), xl_print = (\<lambda>ns t. None), xl_findall = (\<lambda>p t. None)\<rparr>"

definition sample_xch :: xch_env where
  "sample_xch = \<lparr>xe_ph = sample_ph, xe_json_loads = (\<lambda>s. None), xe_jsonpath = member_path,
     xe_quote = (\<lambda>s. s), xe_xml = sample_xml, xe_regex = (\<lambda>e s. None), xe_pool_alias = ''pool'',
     xe_empty_text = ''empty'', xe_space_text = ''space''\<rparr>"

text \<open>Two public scripts: 1 quotes 2 and then copies \<^verbatim>\<open>y\<close> to \<^verbatim>\<open>z\<close>; 3 only copies.\<close>

definition sample_tree :: "int \<Rightarrow> step list option" where
  "sample_tree q = (if q = 1 then Some [quote_step 1 ''q2'' 2 [wait_step 1 ''w''], copy_step 2 ''c'' ''y'' ''z'']
     else if q = 2 then Some [wait_step 1 ''w'']
     else if q = 3 then Some [copy_step 1 ''c'' ''y'' ''z''] else None)"

text \<open>A database on which one statement fails and any other has one row.\<close>

definition sample_operate :: "operate_class \<Rightarrow> target \<Rightarrow> string \<Rightarrow> nat \<Rightarrow> err + pyval \<times> pyval" where
  "sample_operate cls t e n =
     (if e = ''fail'' then Inl (External ''lost'') else Inr (PList [PDict [(''id'', PInt 1)]], PInt 1))"

text \<open>A server that answers every request alike, and one that sends back what it gets.\<close>

definition sample_http :: "http_call \<Rightarrow> nat \<Rightarrow> http_failure + http_reply" where
  "sample_http call n = Inr \<lparr>hr_code = 200, hr_reason = ''OK'', hr_headers = [(''server'', ''s'')], hr_text = ''{}'',
     hr_cookies = [], hr_json = JsonValue (PDict [(''id'', PInt 7)])\<rparr>"

definition sample_env :: engine_env where
  "sample_env = \<lparr>en_xch = sample_xch, en_server = \<lparr>server_host = ''h'', server_port = ''1''\<rparr>,
     en_clock = (\<lambda>n. of_nat n), 
     en_find = (\<lambda>p v. Found (key_paths p v)), en_query = (\<lambda>p v. Inr (key_paths p v)), en_codec = latin_codec,
     en_quote = (\<lambda>s. s), en_unquote = (\<lambda>s. s), en_http = sample_http, en_tcp = (\<lambda>h p n bs. Some \<lparr>pe_chunks = [bs], pe_closes = True\<rparr>),
     en_find_case = (\<lambda>q t. if t = PUBLIC_SCRIPT then CaseFound [mk_var ''y'' (PInt 7)] else CaseMissing),
     en_case_tree = sample_tree, en_load_dataset = (\<lambda>i c n. None), en_detail_error = (\<lambda>d. None),
     en_find_project = (\<lambda>n. Inr None), en_operate = sample_operate, en_parse = (\<lambda>code. Some []),
     en_run_code = (\<lambda>code ctx n. Inr \<lparr>ce_functions = [], ce_result = None\<rparr>),
     en_label = (\<lambda>t. (''label'', None)), en_error_text = (\<lambda>i e. ''error''), en_json_ok = (\<lambda>s. False), en_xml_ok = (\<lambda>s. False)\<rparr>"

definition sample_ctx :: ctx where
  "sample_ctx = init_ctx sample_env 1 [] (Some ''rep'') [mk_var ''a'' (PInt 1)] None"

text \<open>A database step whose first statement fails.\<close>

definition two_statements :: step where
  "two_statements = Step ((named 1 ''db'' DATABASE)\<lparr>database_operates :=
     [\<lparr>op_name = ''a'', op_expr = ''fail'', op_project_id = Some 1, op_project_name = ''p'', op_variable_name = ''x'',
       op_config_name = ''c'', op_database_name = ''d''\<rparr>,
      \<lparr>op_name = ''b'', op_expr = ''select'', op_project_id = Some 1, op_project_name = ''p'', op_variable_name = ''y'',
       op_config_name = ''c'', op_database_name = ''d''\<rparr>]\<rparr>) [] [] []"

definition database_config :: exec_config where
  "database_config = \<lparr>env_name = ''e'', config_type = CFG_DB, config_name = ''c'', config_host = ''h'', config_port = ''1'',
     config_database = Some ''d''\<rparr>"

definition database_ctx :: ctx where
  "database_ctx = init_ctx sample_env 1 [(''1_@@0'', database_config), (''1_@@1'', database_config)] None [] None"

text \<open>Outcomes that evaluate.\<close>

definition is_done :: "('s, 'a) outcome \<Rightarrow> bool" where
  "is_done m = (case m of Done s a \<Rightarrow> True | _ \<Rightarrow> False)"

lemma is_doneE: "is_done m \<Longrightarrow> (\<And>s a. m = Done s a \<Longrightarrow> P) \<Longrightarrow> P"
  by (cases m) (auto simp: is_done_def)

definition done_state :: "('s, 'a) outcome \<Rightarrow> 's option" where
  "done_state m = (case m of Done s a \<Rightarrow> Some s | _ \<Rightarrow> None)"

lemmas sample_defs = blank_data_def named_def wait_step_def bad_wait_def set_step_def count_loop_def else_branch_def
  quote_step_def copy_step_def sample_ph_def member_path_def sample_xml_def sample_xch_def sample_tree_def sample_operate_def sample_http_def latin_codec_def key_paths_def sample_env_def sample_ctx_def

end
