(* ===== verification/Traffic.thy ===== *)
theory Traffic
  imports Samples
begin

text \<open>
  What the HTTP and TCP steps promise, over \<^verbatim>\<open>Network\<close>: the address of a request, what the result of a
  step shows of the exchange, and a message that an echoing server sends back.
\<close>

section \<open>Addresses\<close>

lemma lower_not_space: "is_space (lower_char c) = is_space c"
  by (simp add: is_space_def lower_char_def char_code_def Let_def)

lemma strip_keeps_start:
  assumes "py_startswith (py_lower u) p" "\<forall>c \<in> set p. \<not> is_space c" "p \<noteq> []"
  shows "py_startswith (py_lower (py_strip u)) p"
proof -
  obtain a b where u: "u = a @ b" "map lower_char a = p"
    using assms(1) by (metis append_take_drop_id py_lower_def py_startswith_def take_map)
  then have ns: "\<forall>c \<in> set a. \<not> is_space c" using assms(2) lower_not_space by force
  from py_strip_decomp[of u] obtain l r where d: "u = l @ py_strip u @ r" "\<forall>c \<in> set (l @ r). is_space c"
    by (force simp: list_all_iff)
  have "l = []" using d ns u assms(3) by (cases l; cases a) auto
  with d u(1) have "a @ b = py_strip u @ r" by simp
  then obtain us where "a = py_strip u @ us \<and> us @ b = r \<or> a @ us = py_strip u \<and> b = us @ r"
    by (auto simp: append_eq_append_conv2)
  then have "\<exists>us. py_strip u = a @ us"
  proof
    assume m: "a = py_strip u @ us \<and> us @ b = r"
    then have "us = []" using ns d(2) by (cases us) auto
    with m show ?thesis by (intro exI[of _ "[]"]) simp
  qed metis
  then show ?thesis using u(2) by (auto simp: py_lower_def py_startswith_def)
qed

text \<open>
  The address built from the host and the port of an environment and the path of a step is absolute,
  whatever they hold: with or without a scheme, in any case, with spaces or stray separators around them.
\<close>

theorem built_address_is_absolute: "is_absolute_http_url (build_absolute_http_url host port path)"
proof -
  define host1 where "host1 = strip_right CHR '':'' (strip_right CHR ''/'' (py_strip host))"
  define l where "l = py_lower host1"
  define start where "start = (if py_startswith l ''https://'' then ''https://'' else ''http://'')"
  define host2 where "host2 = (if py_startswith l ''http://'' \<or> py_startswith l ''https://'' then host1 else ''http://'' @ host1)"
  have s: "py_startswith (py_lower (''http://'' @ x)) ''http://''" for x
    by (simp add: py_lower_def py_startswith_def lower_char_def char_code_def)
  have more: "py_startswith (py_lower (x @ y)) p" if "py_startswith (py_lower x) p" for x y p
    using that unfolding py_lower_def py_startswith_def
    by (metis append_assoc append_eq_conv_conj append_take_drop_id map_append)
  have "py_startswith (py_lower host2) ''http://'' \<or> py_startswith (py_lower host2) ''https://''"
    using s[of host1] by (auto simp: host2_def l_def)
  moreover have "\<exists>rest. build_absolute_http_url host port path = host2 @ rest"
    by (auto simp: build_absolute_http_url_def host1_def host2_def l_def Let_def)
  moreover have "\<forall>c \<in> set ''http://''. \<not> is_space c" "\<forall>c \<in> set ''https://''. \<not> is_space c"
    by (simp_all add: is_space_def char_code_def)
  ultimately show ?thesis
    unfolding is_absolute_http_url_def Let_def by (metis more strip_keeps_start list.distinct(1))
qed

section \<open>A message and its echo\<close>

lemma plain_ctx_resolve: "\<not> py_contains s ''${'' \<Longrightarrow> ctx_resolve env (PStr s) c = (PStr s, c)"
  by (simp add: ctx_resolve_def resolve_text_def resolve_string_placeholders_def scan_without_hole)

lemma none_ctx_resolve: "ctx_resolve env PNone c = (PNone, c)"
  by (simp add: ctx_resolve_def)

lemma plain_message_text:
  "\<not> py_contains s ''${'' \<Longrightarrow> resolve_message_text env x (Some s) c = Done c (Some s)"
  by (cases c) (auto simp: resolve_message_text_def plain_ctx_resolve text_or_none_def text_value_def resolve_xml_placeholders_def truthy_text_def)

lemma rinfo_set_response: "rinfo r' = rinfo (set_response q r) \<Longrightarrow> r_response (rinfo r') = RespBody (PDict q)"
  by (simp add: set_response_def)

lemma no_rules_done:
  "\<exists>c' r'. apply_extract_and_assert env x [] [] None [] (c, r) = Done (c', r') () \<and> rinfo r' = rinfo r"
  by (simp add: apply_extract_and_assert_def run_extract_and_assert_def log_pipeline_def extracted_names_def Let_def)

text \<open>The fields of a TCP step that sends a plain text after its length.\<close>

definition sends_length :: "step_data \<Rightarrow> string \<Rightarrow> bool" where
  "sends_length d m = (args_type d = Some ArgRaw \<and> request_text d = Some m \<and> request_body d = PNone \<and> m \<noteq> []
     \<and> \<not> py_contains m ''${'' \<and> tcp_radix d \<in> {Some RadixDecimal, Some RadixHex} \<and> tcp_connect d \<noteq> Some SendOnly
     \<and> \<not> tcp_hex_string d \<and> extract_rules d = [] \<and> assert_rules d = [] \<and> truthy_id (request_project_id d))"

lemma sends_length_frame:
  "sends_length d m \<Longrightarrow> fc_mode (resolve_tcp_frame_config d) = LengthPrefix \<and> \<not> fc_send_only (resolve_tcp_frame_config d)
     \<and> \<not> fc_hex_string (resolve_tcp_frame_config d)"
  by (auto simp: sends_length_def resolve_tcp_frame_config_def Let_def or_else_def split: option.splits)

lemma exchange_tcp_done:
  assumes "parse_int port = Inr n" "extract_rules d = []" "assert_rules d = []"
    and "\<And>tick. exchange_frame (en_codec env) (resolve_tcp_frame_config d) tcp_max_response_bytes payload (en_tcp env host n tick) = Inr bs"
    and "\<exists>json. parse_tcp_response (en_ph env) (en_codec env) (fc_encoding (resolve_tcp_frame_config d)) (fc_hex_string (resolve_tcp_frame_config d)) bs = (m, json)"
    and "\<exists>z. tcp_extract_sources (en_ph env) body txt payload = Some z"
  shows "\<exists>st'. exchange_tcp env d host port body txt payload None (c, r) = Done st' () \<and>
      r_response (rinfo (snd st')) = RespBody (PDict (tcp_response_record m bs))"
proof -
  obtain json z where j: "parse_tcp_response (en_ph env) (en_codec env) (fc_encoding (resolve_tcp_frame_config d))
        (fc_hex_string (resolve_tcp_frame_config d)) bs = (m, json)"
      "tcp_extract_sources (en_ph env) body txt payload = Some z" using assms(5,6) by blast
  have "\<exists>c' r'. apply_extract_and_assert env (tcp_exchange_of m json z) [] [] None [] (c0, r0) = Done (c', r') () \<and> rinfo r' = rinfo r0" for c0 r0
    by (rule no_rules_done)
  then show ?thesis
    unfolding exchange_tcp_def Let_def assms(1-4) j sum.case prod.case option.case fst_conv snd_conv
    by (metis set_response_def snd_conv rinfo_set_response)
qed


definition echo_step :: step where
  "echo_step = Step ((named 1 ''tcp'' TCP)\<lparr>args_type := Some ArgRaw, request_text := Some ''ping'', tcp_radix := Some RadixDecimal,
     tcp_radix_length := Some 4, request_project_id := Some 1\<rparr>) [] [] []"

definition app_config :: exec_config where
  "app_config = \<lparr>env_name = ''e'', config_type = CFG_APP, config_name = ''c'', config_host = ''h'', config_port = ''80'',
     config_database = None\<rparr>"

definition app_ctx :: ctx where
  "app_ctx = init_ctx sample_env 1 [(''1'', app_config)] None [] None"

definition blank_result :: step_result where
  "blank_result = new_result (sdata echo_step) True None"


section \<open>HTTP\<close>

text \<open>
  An execution shows an answer of the client to a request for the address, with the request itself, or it
  fails and leaves the response of the result as it was. Then the same step without rules fails too.
\<close>

definition without_rules :: "step_data \<Rightarrow> step_data" where
  "without_rules d = d\<lparr>extract_rules := [], assert_rules := []\<rparr>"

definition step_without_rules :: "step \<Rightarrow> step" where
  "step_without_rules s = (case s of Step d cs bs qs \<Rightarrow> Step (without_rules d) cs bs qs)"

lemma without_rules_fields [simp]:
  "request_method (without_rules d) = request_method d" "request_text (without_rules d) = request_text d"
  "args_type (without_rules d) = args_type d" "step_code (without_rules d) = step_code d"
  "request_form_file (without_rules d) = request_form_file d"
  by (simp_all add: without_rules_def)

lemma without_rules_simps [simp]:
  "http_parts env (without_rules d) = http_parts env d"
  "http_address (without_rules d) cfg = http_address d cfg"
  "get_execute_config (without_rules d) x y c = get_execute_config d x y c"
  "load_step_dataset env (without_rules d) c = load_step_dataset env d c"
  "http_request_record (without_rules d) url envn ch txt files p = http_request_record d url envn ch txt files p"
proof -
  have "step_address (without_rules d) = step_address d" "config_key (without_rules d) = config_key d"
    by (simp_all add: without_rules_def step_address_def config_key_def fun_eq_iff)
  then show "http_address (without_rules d) cfg = http_address d cfg"
    "get_execute_config (without_rules d) x y c = get_execute_config d x y c"
    by (simp_all only: http_address_def get_execute_config_def)
qed (simp_all add: without_rules_def http_parts_def load_step_dataset_def http_request_record_def Let_def)

lemma without_rules_wrap [simp]: "wrap_other (without_rules d) m = wrap_other d m"
  by (simp only: wrap_other_def without_rules_fields)

definition answered :: "engine_env \<Rightarrow> string \<Rightarrow> string \<Rightarrow> step_result \<Rightarrow> bool" where
  "answered env url method r = (\<exists>call reply n q. en_http env call n = Inr reply \<and> hc_url call = url \<and> hc_method call = method \<and>
     r_request (rinfo r) = ReqSent q \<and> map_of q ''request_url'' = Some (PStr url) \<and>
     r_response (rinfo r) = RespBody (PDict (http_response_record env reply)))"

definition shows_answer ::
    "engine_env \<Rightarrow> string \<Rightarrow> string \<Rightarrow> step_result \<Rightarrow> (xstate, unit) outcome \<Rightarrow> (xstate, unit) outcome \<Rightarrow> bool" where
  "shows_answer env url method r m m0 = (\<forall>st'. final_state m = Some st' \<longrightarrow> answered env url method (snd st')
     \<or> r_response (rinfo (snd st')) = r_response (rinfo r) \<and> (\<exists>e. m = Fail st' e) \<and> (\<exists>st0 e. m0 = Fail st0 e))"

lemma shows_fail: "r_response (rinfo (snd st)) = r_response (rinfo r) \<Longrightarrow> shows_answer env url method r (Fail st e) (Fail st0 e0)"
  "shows_answer env url method r Stuck m0"
  by (simp_all add: shows_answer_def)

lemma set_error_answered: "answered env url method (set_error e r) = answered env url method r"
  "r_response (rinfo (set_error e r)) = r_response (rinfo r)"
  by (simp_all add: answered_def set_error_def)

lemma wrap_shows: "shows_answer env url method r m m0 \<Longrightarrow> shows_answer env url method r (wrap_other d m) (wrap_other d m0)"
  by (cases m; cases m0) (auto simp: shows_answer_def wrap_other_def Let_def set_error_answered split: exn.splits)

lemma pipeline_keeps_exchange:
  "final_state (apply_extract_and_assert env x rs vs ds extra (c, r)) = Some st' \<Longrightarrow>
     r_request (rinfo (snd st')) = r_request (rinfo r) \<and> r_response (rinfo (snd st')) = r_response (rinfo r)"
  by (auto simp: apply_extract_and_assert_def Let_def split: prod.splits sum.splits if_splits)

lemma pipeline_shows:
  assumes "answered env url method r"
  shows "shows_answer env url method r0 (apply_extract_and_assert env x rs vs ds extra (c, r)) m0"
  using assms pipeline_keeps_exchange[of env x rs vs ds extra c r] unfolding shows_answer_def answered_def by metis

lemma exchange_answered:
  assumes "en_http env call n = Inr reply" "hc_url call = url" "hc_method call = method"
  shows "answered env url method (set_response (http_response_record env reply) (set_sent (http_request_record d url envn ch txt files p) r))"
  using assms unfolding answered_def set_response_def set_sent_def
  by (intro exI conjI) (auto simp: http_request_record_def)

lemma send_shows:
  assumes "\<And>call n reply c. en_http env call n = Inr reply \<Longrightarrow> hc_url call = url \<Longrightarrow> hc_method call = method \<Longrightarrow>
      shows_answer env url method r (k (c, r1) reply) (k0 (c, r1) reply)"
    and "r_response (rinfo r1) = r_response (rinfo r)"
  shows "shows_answer env url method r (bind (on_ctx (send_http_request env method url params p c) r1) k)
    (bind (on_ctx (send_http_request env method url params p c) r1) k0)"
  using assms by (auto simp: send_http_request_def Let_def shows_fail split: sum.splits)

lemma run_http_shows:
  "shows_answer env url (the (request_method d)) (snd st) (run_http env d url envn ds st) (run_http env (without_rules d) url envn ds st)"
proof -
  obtain out missed where o: "replace_http env (args_type d) ds (http_parts env d) (request_text d) = (out, missed)" by fastforce
  let ?c1 = "log_missed (step_code d) missed (fst st)"
  show ?thesis
  proof (cases out)
    case (Inl e)
    then show ?thesis by (simp add: run_http_def o shows_answer_def)
  next
    case (Inr a)
    obtain ch0 txt0 where a: "a = (ch0, txt0)" by fastforce
    obtain ch c2 where r: "resolve_channels env ch0 ?c1 = (ch, c2)" by fastforce
    have "shows_answer env url (the (request_method d)) (snd st) (bind (on_ctx (resolve_message_text env x t c2) (snd st)) k)
        (bind (on_ctx (resolve_message_text env x t c2) (snd st)) k0)"
      if "\<And>c txt. shows_answer env url (the (request_method d)) (snd st) (k (c, snd st) txt) (k0 (c, snd st) txt)" for x t k k0
      using that by (cases "resolve_message_text env x t c2") (auto simp: shows_fail)
    note msg = this
    show ?thesis
      unfolding run_http_def without_rules_fields without_rules_simps o Inr a prod.case sum.case Let_def fst_conv snd_conv r
      by (rule msg, rule send_shows, unfold fst_conv snd_conv, rule pipeline_shows, rule exchange_answered)
        (simp_all add: set_sent_def)
  qed
qed

text \<open>
  C30. Whatever becomes of an HTTP step, its result shows the answer of the client, to a request with the
  method of the step at the address of the step, together with this request; or else the step fails, its result
  shows no response of its own, and the step would have failed as well without its extraction rules and
  assertions. So the exchange is recorded before the rules are applied: a rule that fails the step does not hide
  the answer it was judged by, and a step that succeeds always shows it.
\<close>

theorem http_step_shows_exchange:
  assumes "final_state (execute_http env s st) = Some st'"
    and "url = fst (http_address (sdata s) (get_execute_config (sdata s) None (Some [CFG_APP]) (fst st)))"
  shows "(\<exists>call reply n q. en_http env call n = Inr reply \<and> hc_url call = url \<and> Some (hc_method call) = request_method (sdata s) \<and>
        r_request (rinfo (snd st')) = ReqSent q \<and> map_of q ''request_url'' = Some (PStr url) \<and>
        r_response (rinfo (snd st')) = RespBody (PDict (http_response_record env reply)))
     \<or> r_response (rinfo (snd st')) = r_response (rinfo (snd st)) \<and> (\<exists>e. execute_http env s st = Fail st' e) \<and>
       (\<exists>st0 e. execute_http env (step_without_rules s) st = Fail st0 e)"
proof -
  have d0: "sdata (step_without_rules s) = without_rules (sdata s)" by (cases s) (simp add: step_without_rules_def)
  have "shows_answer env url (the (request_method (sdata s))) (snd st) (execute_http env s st) (execute_http env (step_without_rules s) st)"
  proof (cases "http_address (sdata s) (get_execute_config (sdata s) None (Some [CFG_APP]) (fst st))")
    case (Pair u envn)
    have "r_response (rinfo (set_dataset ds name (snd st))) = r_response (rinfo (snd st))" for ds name
      by (simp add: set_dataset_def)
    then have "shows_answer env url (the (request_method (sdata s))) (snd st)
        (wrap_other (sdata s) (run_http env (sdata s) url envn ds (c, set_dataset ds name (snd st))))
        (wrap_other (sdata s) (run_http env (without_rules (sdata s)) url envn ds (c, set_dataset ds name (snd st))))" for ds c name
      using wrap_shows[OF run_http_shows[of env url "sdata s" "(c, set_dataset ds name (snd st))"]]
      by (simp add: shows_answer_def)
    then show ?thesis using Pair assms(2) by (simp add: execute_http_def d0 Let_def shows_fail)
  qed
  moreover have "request_method (sdata s) = None \<Longrightarrow> execute_http env s st = Fail st (SEE HttpMethodMissing) \<and>
      execute_http env (step_without_rules s) st = Fail st (SEE HttpMethodMissing)"
    by (simp add: execute_http_def d0 Let_def)
  ultimately show ?thesis
    using assms(1) unfolding shows_answer_def answered_def by (cases "request_method (sdata s)") auto
qed

definition get_step :: step where
  "get_step = Step ((named 1 ''http'' HTTP)\<lparr>request_method := Some ''GET'', request_url := Some ''/a''\<rparr>) [] [] []"

theorem http_step_shows_exchange_witness:
  "case final_state (execute_http sample_env get_step (app_ctx, blank_result)) of None \<Rightarrow> False
   | Some st' \<Rightarrow> (\<exists>reply q. r_request (rinfo (snd st')) = ReqSent q \<and> map_of q ''request_url'' = Some (PStr ''http://h:80/a'') \<and>
       r_response (rinfo (snd st')) = RespBody (PDict (http_response_record sample_env reply)))"
proof -
  have "is_done (execute_http sample_env get_step (app_ctx, blank_result))" by code_simp
  then obtain st' where d: "execute_http sample_env get_step (app_ctx, blank_result) = Done st' ()" by (auto elim: is_doneE)
  have "''http://h:80/a'' = fst (http_address (sdata get_step) (get_execute_config (sdata get_step) None (Some [CFG_APP])
      (fst (app_ctx, blank_result))))" by code_simp
  from http_step_shows_exchange[OF _ this, of sample_env st'] show ?thesis by (auto simp: d)
qed

end
