(* ===== verification/Checked.thy ===== *)
theory Checked
  imports CaseRun ExecFields
begin

text \<open>
  The field checks made before a run and the executors agree: a step whose required fields are all
  present never ends with one of the executors' errors about a missing field.
\<close>

definition missing_field_error :: "err \<Rightarrow> bool" where
  "missing_field_error e = (e \<in> {WaitMissing, AssertRulesMissing, ExtractRulesMissing, QuoteIdMissing, NoLoopMode,
     NoErrorStrategy, IterableEmpty LM_LIST, IterableEmpty LM_DICT, LoopConditionsEmpty, BranchItemsEmpty,
     OperatesEmpty, CodeMissing})"

definition avoids :: "('s, 'a) outcome \<Rightarrow> bool" where
  "avoids m = (\<forall>st e. m = Fail st e \<longrightarrow> \<not> missing_field_error (exn_err e))"

lemma avoids_simps [simp]:
  "avoids (Done st a)" "avoids Stuck" "avoids (Fail st e) = (\<not> missing_field_error (exn_err e))"
  by (auto simp: avoids_def)

lemma avoids_bind: "avoids m \<Longrightarrow> (\<And>st a. avoids (f st a)) \<Longrightarrow> avoids (bind m f)"
  by (cases m) auto

lemma avoids_on_ctx: "avoids m \<Longrightarrow> avoids (on_ctx m r)"
  by (cases m) auto

lemma avoids_wrap: "avoids m \<Longrightarrow> avoids (wrap_other d m)" "avoids m \<Longrightarrow> avoids (wrap_loop mode m)"
  "avoids m \<Longrightarrow> avoids (finally_ctx f m)"
  by (cases m; auto simp: wrap_other_def wrap_loop_def finally_ctx_def missing_field_error_def Let_def
      split: exn.splits prod.splits)+

lemma avoids_sleep: "avoids (ctx_sleep t c)" "avoids (loop_sleep s st)"
proof -
  show a: "avoids (ctx_sleep t c)" for t c by (auto simp: ctx_sleep_def missing_field_error_def split: option.splits)
  show "avoids (loop_sleep s st)" by (auto simp: loop_sleep_def intro: avoids_on_ctx a split: option.splits)
qed

lemma avoids_attach: "avoids (attach_children mode e s rs st)"
  by (induction mode e s rs st rule: attach_children.induct)
     (auto simp: Let_def missing_field_error_def split: loop_strategy.splits)

lemma avoids_pipeline: "avoids (apply_extract_and_assert env x rules vs ds extra st)"
  by (auto simp: apply_extract_and_assert_def Let_def missing_field_error_def split: prod.splits sum.splits)

lemma avoids_resolve: "avoids (resolve_loop_maximums env d c)" "avoids (parse_iterable_source env src c)"
  by (auto simp: resolve_loop_maximums_def parse_iterable_source_def Let_def missing_field_error_def
      split: option.splits prod.splits sum.splits var_exn.splits pyval.splits)

lemma run_operate_error: "run_operate env cls idx pl op ro c = (Inl (SEE e), p, c') \<Longrightarrow> \<not> missing_field_error e"
  by (auto simp: run_operate_def operate_project_def operate_target_def missing_field_error_def
      split: sum.splits option.splits if_splits)

lemma avoids_run_operates: "avoids (run_operates env cls s idx ops st)"
proof (induction ops arbitrary: cls idx st)
  case (Cons op ops)
  have IH: "avoids (bind (run_operates env cls s k ops st1) (\<lambda>t (ms, rs). Done t (g ms rs)))" for cls k st1 g
    by (intro avoids_bind Cons) (auto split: prod.splits)
  show ?case
    by (auto simp: Let_def IH missing_field_error_def split: option.splits prod.splits sum.splits exn.splits
        dest: run_operate_error)
qed simp

lemma avoids_operates: "operates_of cls (sdata s) \<noteq> [] \<Longrightarrow> avoids (execute_operates env cls s st)"
  by (auto simp: execute_operates_def avoids_pipeline missing_field_error_def
      intro!: avoids_wrap avoids_bind avoids_run_operates split: option.splits)

lemma avoids_run_code: "avoids (run_python_code env code c)"
  by (auto simp: run_python_code_def code_fails_def accept_result_def missing_field_error_def Let_def
      split: sum.splits pyval.splits option.splits prod.splits)

lemma avoids_python: "truthy_text (code_text (sdata s)) \<Longrightarrow> avoids (execute_python env s st)"
  unfolding execute_python_def Let_def
  by (simp, intro avoids_wrap avoids_bind avoids_on_ctx avoids_run_code)
     (auto simp: avoids_pipeline missing_field_error_def split: option.splits prod.splits)

context step_runner
begin

lemma avoids_round: "avoids (execute_loop_round run mode e s no vs st)"
  by (auto simp: execute_loop_round_def execute_children_def avoids_attach Let_def missing_field_error_def
      split: outcome.splits exn.splits dest: run_children_fails)

lemma avoids_rounds: "avoids (run_rounds run mode e s n rounds st)"
proof (induction rounds arbitrary: st)
  case (Cons p rounds)
  then show ?case
    by (cases p) (auto intro!: avoids_bind simp: avoids_round avoids_sleep missing_field_error_def split: option.splits)
qed simp

lemma avoids_condition_rounds: "avoids (condition_rounds env run e s cond t st0 left st)"
proof (induction left arbitrary: st)
  case 0
  show ?case by (subst condition_rounds.simps)
      (auto simp: Let_def missing_field_error_def split: prod.splits outcome.splits option.splits)
next
  case (Suc left)
  then show ?case by (subst condition_rounds.simps)
      (auto simp: Let_def avoids_sleep avoids_round missing_field_error_def
        split: prod.splits outcome.splits option.splits intro!: avoids_bind)
qed

lemma avoids_loop:
  assumes "missing_of_loop (sdata s) = []"
  shows "avoids (execute_loop env run s st)"
proof -
  have col: "avoids (run_collection_loop run mode e s rounds st)" for mode e rounds st
    by (auto simp: run_collection_loop_def finish_rounds_def Let_def avoids_rounds intro!: avoids_bind)
  have l: "truthy_text (loop_iterable (sdata s)) \<Longrightarrow> avoids (execute_list_loop env run e s st)" for e
    by (auto simp: execute_list_loop_def col missing_field_error_def avoids_resolve
        intro!: avoids_wrap avoids_bind avoids_on_ctx split: option.splits)
  have d: "truthy_text (loop_iterable (sdata s)) \<Longrightarrow> avoids (execute_dict_loop env run e s st)" for e
    by (auto simp: execute_dict_loop_def col missing_field_error_def avoids_resolve
        intro!: avoids_wrap avoids_bind avoids_on_ctx split: pyval.splits)
  have k: "avoids (execute_count_loop env run e s st)" for e
    by (auto simp: execute_count_loop_def finish_rounds_def avoids_resolve avoids_rounds
        intro!: avoids_bind avoids_on_ctx)
  have c: "loop_conditions (sdata s) \<noteq> None \<Longrightarrow> avoids (execute_condition_loop env run e s st)" for e
    by (auto simp: execute_condition_loop_def Let_def avoids_condition_rounds intro!: avoids_bind split: prod.splits)
  from assms show ?thesis
    by (auto simp: execute_loop_def missing_of_loop_def need_def k intro!: avoids_wrap l d c
        split: loop_mode.splits if_splits option.splits)
qed

lemma avoids_quote_steps: "avoids (run_quote_steps run qk own ss st)"
proof (induction ss arbitrary: st)
  case (Cons s ss)
  obtain c r where st: "st = (c, r)" by fastforce
  let ?s = "merge_and_override_fields qk own s"
  show ?case
  proof (cases "run ?s c")
    case (Fail c1 e)
    with run_untyped[OF Fail] show ?thesis by (simp add: st missing_field_error_def)
  next
    case (Done c1 q)
    with Cons show ?thesis by (auto simp: st split: option.splits)
  qed (simp add: st)
qed simp

lemma avoids_quote: "truthy_id (quote_case_id (sdata s)) \<Longrightarrow> avoids (execute_quote env run qk s st)"
  unfolding execute_quote_def quote_scope_def quote_body_def
  by (auto simp: Let_def missing_field_error_def avoids_quote_steps intro!: avoids_wrap avoids_bind
      split: quote_lookup.splits option.splits)

lemma avoids_condition: "execute_condition env run s st \<noteq> Fail st' e"
  by (auto simp: execute_condition_def run_branch_def Let_def split: outcome.splits option.splits)

lemma avoids_body:
  assumes "missing_fields t (sdata s) (branch_items s) = []" "step_type (sdata s) = Some t"
    and "t \<in> {WAIT, ASSERT, EXTRACT, LOOP, COND_BRANCH, QUOTE_PUBLIC_SCRIPT, QUOTE_PUBLIC_API, USER_VARIABLES,
      DATABASE, REDIS, PYTHON}"
  shows "avoids (execute_body env run s st)"
proof -
  have w: "wait_seconds (sdata s) \<noteq> None \<Longrightarrow> avoids (execute_wait s st)"
    by (auto simp: execute_wait_def intro!: avoids_wrap avoids_on_ctx avoids_sleep)
  have a: "assert_rules (sdata s) \<noteq> [] \<Longrightarrow> avoids (execute_assert env s st)"
    by (auto simp: execute_assert_def intro!: avoids_wrap avoids_pipeline)
  have x: "extract_rules (sdata s) \<noteq> [] \<Longrightarrow> avoids (execute_extract env s st)"
    by (auto simp: execute_extract_def intro!: avoids_wrap avoids_pipeline)
  have u: "avoids (execute_user_variables env s st)"
    by (auto simp: execute_user_variables_def split: prod.splits)
  have o: "operates_of cls (sdata s) \<noteq> [] \<Longrightarrow> avoids (execute_operates env cls s st)" for cls
    by (rule avoids_operates)
  have p: "truthy_text (code_text (sdata s)) \<Longrightarrow> avoids (execute_python env s st)" by (rule avoids_python)
  have c: "avoids (execute_condition env run s st)" using avoids_condition by (auto simp: avoids_def)
  from assms show ?thesis
    by (auto simp: execute_body_def missing_fields_def missing_of_operates_def operates_of_def need_def u c
        split: if_splits intro!: w a x o p avoids_loop avoids_quote)
qed

text \<open>With its branches present and conditioned, a condition step reports neither as missing.\<close>

lemma find_branch_error:
  "find_branch env i bs c = Fail c' e \<Longrightarrow> \<forall>b \<in> set bs. br_type b = BR_ELSE \<or> br_conditions b \<noteq> None \<Longrightarrow>
   \<exists>c1 cond. evaluate_condition env cond c1 = Fail c' e"
proof (induction bs arbitrary: i c)
  case (Cons b bs)
  then obtain cond where cond: "br_conditions b = Some cond" "br_type b \<noteq> BR_ELSE" by (auto split: if_splits)
  then show ?case
    using Cons by (cases "evaluate_condition env cond c") (auto split: if_splits)
qed simp

end

section \<open>The check of a whole tree\<close>

primrec nodes :: "step \<Rightarrow> step list" and branch_nodes :: "branch \<Rightarrow> step list" where
  "nodes (Step d cs qs bs) = Step d cs qs bs # concat (map nodes cs) @ concat (map branch_nodes bs) @ concat (map nodes qs)"
| "branch_nodes (Branch t c desc cs) = concat (map nodes cs)"

definition complete :: "step \<Rightarrow> bool" where
  "complete s = (case step_type (sdata s) of None \<Rightarrow> False | Some t \<Rightarrow> missing_fields t (sdata s) (branch_items s) = [])"

lemma check_fields_complete:
  "check_fields s = [] \<longleftrightarrow> (\<forall>x \<in> set (nodes s). complete x)"
  "check_branch_fields b = [] \<longleftrightarrow> (\<forall>x \<in> set (branch_nodes b). complete x)"
proof (induction s and b rule: step.induct branch.induct)
  case (Step d cs qs bs)
  then show ?case by (auto simp: complete_def Let_def split: option.splits)
qed auto

end
