(* ===== verification/StepStore.thy ===== *)
theory StepStore
  imports StepTree
begin

text \<open>
  The tables of cases, steps and data sources, and how a submitted tree of steps is saved:
  \<^verbatim>\<open>autotest_step_crud.py\<close> (\<^verbatim>\<open>batch_update_or_create_steps\<close>, \<^verbatim>\<open>create_step\<close>) with the view
  \<^verbatim>\<open>update_or_create_tree\<close>, and \<^verbatim>\<open>autotest_data_source_crud.py\<close>.

  A table is the list of its rows in the order of insertion. An exception rolls the transaction back, so an
  operation returns an error or the new state. The creation of identifiers is a parameter: the key of a row
  counts up, its code is a function of the key.
\<close>

section \<open>Tables\<close>

record case_row =
  ca_id :: int
  ca_code :: string
  ca_type :: "case_type option"
  ca_project :: "int option"
  ca_session :: "step_var list"
  ca_transfer :: bool
  ca_columns :: "pyval dict"
  ca_removed :: bool

text \<open>The columns of a step are those of its schema; \<^verbatim>\<open>branch_items\<close> holds the branches without their
  steps. The key is apart, \<^verbatim>\<open>step_code\<close> is never null.\<close>

type_synonym branch_meta = "branch_type \<times> condition option \<times> string option"

record step_row =
  row_id :: int
  row_data :: step_data
  row_index :: "nat option"
  row_branches :: "branch_meta list"
  row_removed :: bool

record source_row =
  src_id :: int
  src_case :: int
  src_case_code :: string
  src_step :: int
  src_step_code :: string
  src_dataset :: pyval
  src_names :: "pyval list"
  src_frame :: pyval
  src_axis :: int
  src_removed :: bool

record store =
  st_cases :: "case_row list"
  st_steps :: "step_row list"
  st_sources :: "source_row list"
  st_next :: int
  st_next_source :: int

definition row_code :: "step_row \<Rightarrow> string" where
  "row_code r = (case step_code (row_data r) of None \<Rightarrow> [] | Some c \<Rightarrow> c)"

abbreviation row_case :: "step_row \<Rightarrow> int option" where
  "row_case r \<equiv> case_id (row_data r)"

abbreviation row_parent :: "step_row \<Rightarrow> int option" where
  "row_parent r \<equiv> parent_step_id (row_data r)"

definition get_step_by_id :: "store \<Rightarrow> int \<Rightarrow> step_row option" where
  "get_step_by_id st i = find (\<lambda>r. row_id r = i \<and> \<not> row_removed r) (st_steps st)"

definition get_step_by_code :: "store \<Rightarrow> string \<Rightarrow> step_row option" where
  "get_step_by_code st c = find (\<lambda>r. row_code r = c \<and> \<not> row_removed r) (st_steps st)"

definition get_case :: "store \<Rightarrow> int \<Rightarrow> case_row option" where
  "get_case st i = find (\<lambda>k. ca_id k = i \<and> \<not> ca_removed k) (st_cases st)"

section \<open>The submitted tree\<close>

text \<open>
  An item of the request: its values, the fields it gives a value, the fields it gives as null, and the
  steps below it. A field that is neither keeps its default, null, in the values.
\<close>

datatype item = Item (it_data: step_data) (it_index: "nat option") (it_set: "string list") (it_null: "string list")
    (it_children: "item list") (it_branches: "item_branch list")
  and item_branch = ItemBranch (ib_meta: branch_meta) (ib_children: "item list")

datatype store_err =
    NoStep int | NoStepCode string | StepOfOtherCase | CaseIdRequired | NumberRequired | TypeRequired
  | NoCase "int option" | NumberTaken "int option" "int option" | NoParent int | ParentOfOtherCase | ParentIsNoContainer
  | ParentIsItself | ParentIsBelow | FamilyQuotes | FamilyHasSource | ApiNeedsOneStep nat | ApiNeedsRequest
  | ApiHasChildren | CaseNotProcessed "int option" | BadTree tree_error | HasChildren nat

section \<open>Constraints of the public family\<close>

primrec iter_item :: "item \<Rightarrow> step_data list" and iter_branch :: "item_branch \<Rightarrow> step_data list" where
  "iter_item (Item d bi gs ns cs bs) = d # concat (map iter_item cs) @ concat (map iter_branch bs)"
| "iter_branch (ItemBranch m cs) = concat (map iter_item cs)"

definition iter_tree_steps :: "item list \<Rightarrow> step_data list" where
  "iter_tree_steps items = concat (map iter_item items)"

definition family_problem :: "step_data \<Rightarrow> store_err option" where
  "family_problem d =
     (if step_type d \<in> {Some QUOTE_PUBLIC_SCRIPT, Some QUOTE_PUBLIC_API} then Some FamilyQuotes
      else if truthy_id (data_source_id d) then Some FamilyHasSource else None)"

definition validate_public_api_tree :: "item list \<Rightarrow> store_err option" where
  "validate_public_api_tree items = (case items of
     [it] \<Rightarrow>
       if step_type (it_data it) \<notin> {Some HTTP, Some TCP} then Some ApiNeedsRequest
       else if it_children it \<noteq> [] \<or> it_branches it \<noteq> [] then Some ApiHasChildren
       else if truthy_id (data_source_id (it_data it)) then Some FamilyHasSource
       else None
   | _ \<Rightarrow> Some (ApiNeedsOneStep (length items)))"

text \<open>The application of the only step of a public interface is set to the one of the case.\<close>

definition align_project :: "int option \<Rightarrow> item \<Rightarrow> item" where
  "align_project p it =
     (if truthy_id p \<and> request_project_id (it_data it) \<noteq> p
      then Item ((it_data it)\<lparr>request_project_id := p\<rparr>) (it_index it) (List.insert ''request_project_id'' (it_set it))
        (removeAll ''request_project_id'' (it_null it)) (it_children it) (it_branches it)
      else it)"

definition validate_public_family_tree :: "case_type \<Rightarrow> int option \<Rightarrow> item list \<Rightarrow> store_err + item list" where
  "validate_public_family_tree t project items =
     (case (if t = PUBLIC_API then validate_public_api_tree items else None) of
        Some e \<Rightarrow> Inl e
      | None \<Rightarrow> (case first_error (map family_problem (iter_tree_steps items)) of
          Some e \<Rightarrow> Inl e
        | None \<Rightarrow> Inr (if t = PUBLIC_API then map (align_project project) items else items)))"

definition check_family :: "store \<Rightarrow> item list \<Rightarrow> store_err + item list" where
  "check_family st items = (case items of
     [] \<Rightarrow> Inr items
   | it # _ \<Rightarrow>
       (if \<not> truthy_id (case_id (it_data it)) then Inr items
        else (case get_case st (the (case_id (it_data it))) of
          None \<Rightarrow> Inr items
        | Some k \<Rightarrow> (case ca_type k of
            Some t \<Rightarrow> if t \<in> {PUBLIC_SCRIPT, PUBLIC_API} then validate_public_family_tree t (ca_project k) items else Inr items
          | None \<Rightarrow> Inr items))))"

section \<open>Data sources\<close>

text \<open>\<^verbatim>\<open>copy_data_source_for_step\<close>: the parsed data under the new step, without the file.\<close>

definition copy_data_source_for_step :: "store \<Rightarrow> int option \<Rightarrow> string \<Rightarrow> int \<Rightarrow> string \<Rightarrow> int \<Rightarrow> store \<times> int option" where
  "copy_data_source_for_step st case_key kcode step_key code source =
     (if \<not> truthy_id case_key \<or> py_strip code = [] then (st, None)
      else (case find (\<lambda>s. src_id s = source \<and> \<not> src_removed s) (st_sources st) of
        None \<Rightarrow> (st, None)
      | Some s \<Rightarrow>
          (st\<lparr>st_sources := st_sources st @ [s\<lparr>src_id := st_next_source st, src_case := the case_key, src_case_code := kcode,
               src_step := step_key, src_step_code := code\<rparr>],
              st_next_source := st_next_source st + 1\<rparr>, Some (st_next_source st))))"

text \<open>\<^verbatim>\<open>delete_step_create\<close>, the rows.\<close>

definition delete_sources :: "string list \<Rightarrow> store \<Rightarrow> store" where
  "delete_sources codes st = st\<lparr>st_sources := filter (\<lambda>s. src_step_code s \<notin> set codes) (st_sources st)\<rparr>"

definition get_dataset_scenario :: "store \<Rightarrow> int option \<Rightarrow> string \<Rightarrow> string \<Rightarrow> pyval option" where
  "get_dataset_scenario st case_key code name =
     (if py_strip name = [] then None
      else (case find (\<lambda>s. Some (src_case s) = case_key \<and> src_step_code s = py_strip code \<and> \<not> src_removed s) (st_sources st) of
        None \<Rightarrow> None
      | Some s \<Rightarrow> (case src_dataset s of PDict d \<Rightarrow> map_of d (py_strip name) | _ \<Rightarrow> None)))"

text \<open>\<^verbatim>\<open>_load_case_dataset_names\<close>: the scenarios of all sources of a case, without blank and repeated
  names. The rows are in the order of their creation.\<close>

definition load_case_dataset_names :: "store \<Rightarrow> int \<Rightarrow> string list" where
  "load_case_dataset_names st case_key =
     rev (fold (\<lambda>v seen. let n = py_strip (py_str v) in if n = [] \<or> n \<in> set seen then seen else n # seen)
       (concat (map src_names (filter (\<lambda>s. src_case s = case_key \<and> \<not> src_removed s) (st_sources st)))) [])"

end
