(* ===== verification/StepSave.thy ===== *)
theory StepSave
  imports StepStore
begin

text \<open>
  Saving a tree of steps: \<^verbatim>\<open>batch_update_or_create_steps\<close> with the creation and the update of one step,
  and the view \<^verbatim>\<open>update_or_create_tree\<close> that removes the steps a submission no longer has.
\<close>

section \<open>The columns of an update\<close>

text \<open>\<^verbatim>\<open>STEP_CLEARABLE_JSON_FIELDS\<close>: a null in the request empties these columns; it is ignored for the
  others.\<close>

definition clearable_fields :: "string list" where
  "clearable_fields =
     [''request_header'', ''request_params'', ''request_form_data'', ''request_form_urlencoded'', ''request_form_file'',
      ''request_body'', ''session_variables'', ''defined_variables'', ''extract_variables'', ''assert_validators'',
      ''database_operates'', ''redis_operates'', ''loop_conditions'', ''loop_index'', ''loop_key'', ''loop_value'',
      ''tcp_response_end_symbol'']"

definition pick :: "item \<Rightarrow> string \<Rightarrow> 'a \<Rightarrow> 'a \<Rightarrow> 'a \<Rightarrow> 'a" where
  "pick it f null new old =
     (if f \<in> set (it_set it) then new else if f \<in> set (it_null it) \<and> f \<in> set clearable_fields then null else old)"

text \<open>The update dictionary applied to a row. The branches of a condition step replace the stored ones
  and leave the loop condition as it is.\<close>

definition update_request_columns :: "item \<Rightarrow> step_data \<Rightarrow> step_data" where
  "update_request_columns it old = (let d = it_data it in old\<lparr>
     request_url := pick it ''request_url'' None (request_url d) (request_url old),
     request_port := pick it ''request_port'' None (request_port d) (request_port old),
     request_method := pick it ''request_method'' None (request_method d) (request_method old),
     request_text := pick it ''request_text'' None (request_text d) (request_text old),
     args_type := pick it ''request_args_type'' None (args_type d) (args_type old),
     tcp_radix := pick it ''tcp_radix'' None (tcp_radix d) (tcp_radix old),
     tcp_radix_length := pick it ''tcp_radix_length'' None (tcp_radix_length d) (tcp_radix_length old),
     tcp_datagram_length := pick it ''tcp_datagram_length'' None (tcp_datagram_length d) (tcp_datagram_length old),
     tcp_request_end := pick it ''tcp_request_end_symbol'' None (tcp_request_end d) (tcp_request_end old),
     tcp_response_end := pick it ''tcp_response_end_symbol'' None (tcp_response_end d) (tcp_response_end old),
     tcp_connect := pick it ''tcp_connect_type'' None (tcp_connect d) (tcp_connect old),
     tcp_encoding := pick it ''tcp_encoding'' None (tcp_encoding d) (tcp_encoding old),
     tcp_hex_string := pick it ''tcp_hex_string'' False (tcp_hex_string d) (tcp_hex_string old),
     request_body := pick it ''request_body'' PNone (request_body d) (request_body old),
     request_header := pick it ''request_header'' PNone (request_header d) (request_header old),
     request_params := pick it ''request_params'' PNone (request_params d) (request_params old),
     request_form_data := pick it ''request_form_data'' PNone (request_form_data d) (request_form_data old),
     request_form_urlencoded := pick it ''request_form_urlencoded'' PNone (request_form_urlencoded d) (request_form_urlencoded old),
     request_form_file := pick it ''request_form_file'' PNone (request_form_file d) (request_form_file old),
     request_project_id := pick it ''request_project_id'' None (request_project_id d) (request_project_id old),
     request_config_name := pick it ''request_config_name'' None (request_config_name d) (request_config_name old),
     database_operates := pick it ''database_operates'' [] (database_operates d) (database_operates old),
     redis_operates := pick it ''redis_operates'' [] (redis_operates d) (redis_operates old),
     database_searched := pick it ''database_searched'' False (database_searched d) (database_searched old),
     redis_searched := pick it ''redis_searched'' False (redis_searched d) (redis_searched old),
     compare_items := pick it ''datagram_field_compare'' [] (compare_items d) (compare_items old)\<rparr>)"

definition update_logic_columns :: "item \<Rightarrow> step_data \<Rightarrow> step_data" where
  "update_logic_columns it old = (let d = it_data it in old\<lparr>
     code_text := pick it ''code'' None (code_text d) (code_text old),
     wait_seconds := pick it ''wait'' None (wait_seconds d) (wait_seconds old),
     loop_mode_of := pick it ''loop_mode'' None (loop_mode_of d) (loop_mode_of old),
     loop_maximums := pick it ''loop_maximums'' None (loop_maximums d) (loop_maximums old),
     loop_interval := pick it ''loop_interval'' None (loop_interval d) (loop_interval old),
     loop_iterable := pick it ''loop_iterable'' None (loop_iterable d) (loop_iterable old),
     loop_on_error := pick it ''loop_on_error'' None (loop_on_error d) (loop_on_error old),
     loop_timeout := pick it ''loop_timeout'' None (loop_timeout d) (loop_timeout old),
     loop_conditions := pick it ''loop_conditions'' None (loop_conditions d) (loop_conditions old),
     loop_index := pick it ''loop_index'' None (loop_index d) (loop_index old),
     loop_key := pick it ''loop_key'' None (loop_key d) (loop_key old),
     loop_value := pick it ''loop_value'' None (loop_value d) (loop_value old),
     data_source_id := pick it ''data_source_id'' None (data_source_id d) (data_source_id old),
     session_vars := pick it ''session_variables'' [] (session_vars d) (session_vars old),
     defined_vars := pick it ''defined_variables'' [] (defined_vars d) (defined_vars old),
     extract_rules := pick it ''extract_variables'' [] (extract_rules d) (extract_rules old),
     assert_rules := pick it ''assert_validators'' [] (assert_rules d) (assert_rules old)\<rparr>)"

text \<open>The new value of \<^verbatim>\<open>parent_step_id\<close> in the update dictionary, if the dictionary has one.\<close>

definition parent_update :: "int option \<Rightarrow> item \<Rightarrow> int option option" where
  "parent_update parent it =
     (let f = ''parent_step_id''; given = (f \<in> set (it_set it)); null = (f \<in> set (it_null it)); p = parent_step_id (it_data it)
      in if \<not> given \<and> \<not> null \<and> parent \<noteq> None then Some parent
         else if given then Some p
         else if parent = None then Some None
         else None)"

definition update_columns :: "item \<Rightarrow> step_data \<Rightarrow> step_data" where
  "update_columns it old = (let d = it_data it in (update_logic_columns it (update_request_columns it old))\<lparr>
     step_no := pick it ''step_no'' None (step_no d) (step_no old),
     step_name := pick it ''step_name'' None (step_name d) (step_name old),
     step_type := pick it ''step_type'' None (step_type d) (step_type old),
     case_id := pick it ''case_id'' None (case_id d) (case_id old),
     quote_case_id := pick it ''quote_case_id'' None (quote_case_id d) (quote_case_id old)\<rparr>)"

definition update_row :: "int option \<Rightarrow> nat option \<Rightarrow> item \<Rightarrow> step_row \<Rightarrow> step_row" where
  "update_row parent bidx it r =
     (let d = it_data it; old = row_data r; is_if = (step_type d = Some COND_BRANCH); new = update_columns it old
      in r\<lparr>row_data := new\<lparr>step_is_skipped := step_is_skipped d,
             loop_conditions := (if is_if \<and> it_branches it \<noteq> [] then loop_conditions old else loop_conditions new),
             parent_step_id := (case parent_update parent it of None \<Rightarrow> parent_step_id old | Some p \<Rightarrow> p)\<rparr>,
           row_index := (if bidx \<noteq> None then bidx else if is_if then Some 0 else None),
           row_branches := (if is_if \<and> it_branches it \<noteq> [] then map ib_meta (it_branches it) else row_branches r)\<rparr>)"

section \<open>Checks\<close>

text \<open>Walks up from a parent; \<^verbatim>\<open>visited\<close> of the code are the rows taken out of the list.\<close>

function ancestor_hits :: "step_row list \<Rightarrow> int \<Rightarrow> int option \<Rightarrow> bool" where
  "ancestor_hits rows target cur =
     (if \<not> truthy_id cur then False
      else if cur = Some target then True
      else (case find (\<lambda>r. row_id r = the cur \<and> \<not> row_removed r) rows of
        None \<Rightarrow> False
      | Some r \<Rightarrow> ancestor_hits (filter (\<lambda>x. row_id x \<noteq> the cur) rows) target (row_parent r)))"
  by pat_completeness auto
termination
proof (relation "measure (\<lambda>(rows, target, cur). length rows)")
  fix rows :: "step_row list" and target :: int and cur :: "int option" and r
  assume "find (\<lambda>r. row_id r = the cur \<and> \<not> row_removed r) rows = Some r"
  then have "r \<in> set rows" "row_id r = the cur" by (auto simp: find_Some_iff)
  then have "length (filter (\<lambda>x. row_id x \<noteq> the cur) rows) < length rows" by (intro length_filter_less) auto
  then show "((filter (\<lambda>x. row_id x \<noteq> the cur) rows, target, row_parent r), (rows, target, cur))
      \<in> measure (\<lambda>(rows, target, cur). length rows)" by simp
qed simp

declare ancestor_hits.simps [simp del]

definition number_taken :: "store \<Rightarrow> int option \<Rightarrow> int option \<Rightarrow> bool" where
  "number_taken st k n = list_ex (\<lambda>r. row_case r = k \<and> step_no (row_data r) = n \<and> \<not> row_removed r) (st_steps st)"

definition container :: "step_row \<Rightarrow> bool" where
  "container r = (step_type (row_data r) \<in> {Some LOOP, Some COND_BRANCH})"

text \<open>The row of the parent: the instance handed down when it is the one.\<close>

definition parent_row :: "store \<Rightarrow> step_row option \<Rightarrow> int \<Rightarrow> step_row option" where
  "parent_row st pinst p = (case pinst of
     Some r \<Rightarrow> if row_id r = p then Some r else get_step_by_id st p
   | None \<Rightarrow> get_step_by_id st p)"

definition new_parent_problem :: "store \<Rightarrow> step_row option \<Rightarrow> int option \<Rightarrow> int option \<Rightarrow> store_err option" where
  "new_parent_problem st pinst final k =
     (if \<not> truthy_id final then None
      else (case parent_row st pinst (the final) of
        None \<Rightarrow> Some (NoParent (the final))
      | Some p \<Rightarrow> if row_case p \<noteq> k then Some ParentOfOtherCase
          else if \<not> container p then Some ParentIsNoContainer else None))"

definition old_parent_problem :: "store \<Rightarrow> step_row option \<Rightarrow> int \<Rightarrow> int \<Rightarrow> int option \<Rightarrow> store_err option" where
  "old_parent_problem st pinst i p k = (case parent_row st pinst p of
     None \<Rightarrow> Some (NoParent p)
   | Some r \<Rightarrow> if row_case r \<noteq> k then Some ParentOfOtherCase
       else if \<not> container r then Some ParentIsNoContainer
       else if row_id r = i then Some ParentIsItself
       else if ancestor_hits (st_steps st) i (row_parent r) then Some ParentIsBelow
       else None)"

section \<open>One step\<close>

definition new_row :: "(int \<Rightarrow> string) \<Rightarrow> int \<Rightarrow> int option \<Rightarrow> nat option \<Rightarrow> item \<Rightarrow> step_row" where
  "new_row fresh i final bidx it =
     (let d = it_data it; with_branches = (step_type d = Some COND_BRANCH \<and> it_branches it \<noteq> [])
      in \<lparr>row_id = i,
          row_data = d\<lparr>step_id := None, step_code := Some (fresh i), parent_step_id := final, case_info := PNone,
            quote_case_info := PNone, loop_conditions := (if with_branches then None else loop_conditions d)\<rparr>,
          row_index = (if bidx \<noteq> None then bidx else if step_type d = Some COND_BRANCH then Some 0 else it_index it),
          row_branches = (if with_branches then map ib_meta (it_branches it) else []),
          row_removed = False\<rparr>)"

definition put_row :: "step_row \<Rightarrow> store \<Rightarrow> store" where
  "put_row r st = st\<lparr>st_steps := map (\<lambda>x. if row_id x = row_id r then r else x) (st_steps st)\<rparr>"

definition add_row :: "step_row \<Rightarrow> store \<Rightarrow> store" where
  "add_row r st = st\<lparr>st_steps := st_steps st @ [r], st_next := st_next st + 1\<rparr>"

text \<open>A new step that carries a data source gets a copy of it, or none.\<close>

definition own_source :: "string \<Rightarrow> step_row \<Rightarrow> store \<Rightarrow> store \<times> step_row" where
  "own_source kcode r st =
     (if \<not> truthy_id (data_source_id (row_data r)) then (st, r)
      else (case copy_data_source_for_step st (row_case r) kcode (row_id r) (row_code r) (the (data_source_id (row_data r))) of
        (st1, new) \<Rightarrow> (let r1 = r\<lparr>row_data := (row_data r)\<lparr>data_source_id := new\<rparr>\<rparr> in (put_row r1 st1, r1))))"

definition create_one :: "(int \<Rightarrow> string) \<Rightarrow> int option \<Rightarrow> nat option \<Rightarrow> step_row option \<Rightarrow> item \<Rightarrow> store \<Rightarrow> store_err + store \<times> step_row" where
  "create_one fresh parent bidx pinst it st =
     (let d = it_data it; final = (if parent \<noteq> None then parent else parent_step_id d) in
      if \<not> truthy_id (case_id d) then Inl CaseIdRequired
      else if \<not> truthy_id (step_no d) then Inl NumberRequired
      else if step_type d = None then Inl TypeRequired
      else (case get_case st (the (case_id d)) of
        None \<Rightarrow> Inl (NoCase (case_id d))
      | Some k \<Rightarrow>
          if number_taken st (case_id d) (step_no d) then Inl (NumberTaken (case_id d) (step_no d))
          else (case new_parent_problem st pinst final (case_id d) of
            Some e \<Rightarrow> Inl e
          | None \<Rightarrow> (let r = new_row fresh (st_next st) final bidx it in Inr (own_source (ca_code k) r (add_row r st))))))"

text \<open>
  The update of a stored step. The result holds the value of the local variables \<^verbatim>\<open>parent_step_id\<close> and
  \<^verbatim>\<open>case_id\<close> afterwards: the code assigns both on the way.
\<close>

definition update_one ::
    "int option \<Rightarrow> nat option \<Rightarrow> step_row option \<Rightarrow> item \<Rightarrow> step_row \<Rightarrow> store \<Rightarrow> store_err + store \<times> step_row \<times> int option \<times> int option" where
  "update_one parent bidx pinst it old st =
     (let d = it_data it; r = update_row parent bidx it old; k = row_case r;
          moved = (case parent_update parent it of Some p \<Rightarrow> if truthy_id p then p else None | None \<Rightarrow> None);
          numbered = ''step_no'' \<in> set (it_set it); placed = ''case_id'' \<in> set (it_set it);
          kvar = (if numbered \<or> placed \<or> moved \<noteq> None then k else case_id d)
      in if numbered \<and> list_ex (\<lambda>x. row_case x = k \<and> step_no (row_data x) = step_no (row_data r) \<and> row_code x = row_code old
               \<and> \<not> row_removed x \<and> row_code x \<noteq> row_code old) (st_steps st)
         then Inl (NumberTaken k (step_no (row_data r)))
         else if placed \<and> (k = None \<or> get_case st (the k) = None) then Inl (NoCase k)
         else (case (case moved of None \<Rightarrow> None | Some p \<Rightarrow> old_parent_problem st pinst (row_id old) p k) of
           Some e \<Rightarrow> Inl e
         | None \<Rightarrow>
             if ''quote_case_id'' \<in> set (it_set it) \<and> truthy_id (quote_case_id d) \<and> get_case st (the (quote_case_id d)) = None
             then Inl (NoCase (quote_case_id d))
             else Inr (put_row r st, r, (if moved \<noteq> None then moved else parent), kvar)))"

datatype located = Stored step_row | Fresh

definition locate :: "store \<Rightarrow> item \<Rightarrow> store_err + located" where
  "locate st it =
     (let d = it_data it in
      case (if truthy_id (step_id d) then (case get_step_by_id st (the (step_id d)) of None \<Rightarrow> Inl (NoStep (the (step_id d))) | Some r \<Rightarrow> Inr (Stored r))
            else if truthy_text (step_code d) then
              (case get_step_by_code st (the (step_code d)) of None \<Rightarrow> Inl (NoStepCode (the (step_code d))) | Some r \<Rightarrow> Inr (Stored r))
            else Inr Fresh) of
        Inl e \<Rightarrow> Inl e
      | Inr Fresh \<Rightarrow> Inr Fresh
      | Inr (Stored r) \<Rightarrow>
          if truthy_id (case_id d) \<and> (case row_case r of None \<Rightarrow> 0 | Some k \<Rightarrow> k) \<noteq> the (case_id d) then Inl StepOfOtherCase
          else Inr (Stored r))"

text \<open>State, row, whether it was created, and the two variables.\<close>

definition save_one ::
    "(int \<Rightarrow> string) \<Rightarrow> int option \<Rightarrow> nat option \<Rightarrow> step_row option \<Rightarrow> item \<Rightarrow> store \<Rightarrow>
     store_err + store \<times> step_row \<times> bool \<times> int option \<times> int option" where
  "save_one fresh parent bidx pinst it st = (case locate st it of
     Inl e \<Rightarrow> Inl e
   | Inr Fresh \<Rightarrow> (case create_one fresh parent bidx pinst it st of
       Inl e \<Rightarrow> Inl e
     | Inr (st1, r) \<Rightarrow> Inr (st1, r, True, parent, case_id (it_data it)))
   | Inr (Stored old) \<Rightarrow> (case update_one parent bidx pinst it old st of
       Inl e \<Rightarrow> Inl e
     | Inr (st1, r, parent1, kvar) \<Rightarrow> Inr (st1, r, False, parent1, kvar)))"

section \<open>The tree\<close>

record summary =
  created_count :: nat
  updated_count :: nat
  process_detail :: "(int option \<times> string list) list"
  success_detail :: "(int \<times> bool) list"

definition no_summary :: summary where
  "no_summary = \<lparr>created_count = 0, updated_count = 0, process_detail = [], success_detail = []\<rparr>"

definition codes_for :: "int option \<Rightarrow> summary \<Rightarrow> string list" where
  "codes_for k sm = (case map_of (process_detail sm) k of None \<Rightarrow> [] | Some cs \<Rightarrow> cs)"

definition note_step :: "bool \<Rightarrow> step_row \<Rightarrow> summary \<Rightarrow> summary" where
  "note_step created r sm =
     sm\<lparr>created_count := created_count sm + (if created then 1 else 0), updated_count := updated_count sm + (if created then 0 else 1),
        process_detail := AList.update (row_case r) (List.insert (row_code r) (codes_for (row_case r) sm)) (process_detail sm),
        success_detail := success_detail sm @ [(row_id r, created)]\<rparr>"

text \<open>The result of the steps below, of which only the codes of one case are taken over; the case must
  have an entry already.\<close>

definition merge_result :: "int option \<Rightarrow> summary \<Rightarrow> summary \<Rightarrow> store_err + summary" where
  "merge_result k below sm = (case map_of (process_detail sm) k of
     None \<Rightarrow> Inl (CaseNotProcessed k)
   | Some cs \<Rightarrow> Inr (sm\<lparr>created_count := created_count sm + created_count below, updated_count := updated_count sm + updated_count below,
       process_detail := AList.update k (List.union (codes_for k below) cs) (process_detail sm),
       success_detail := success_detail sm @ success_detail below\<rparr>))"

text \<open>An updated condition step first loses the stored steps of its branches that are not submitted by
  their key.\<close>

definition drop_stale :: "int \<Rightarrow> item \<Rightarrow> store \<Rightarrow> store" where
  "drop_stale i it st =
     (let kept = List.map_filter (\<lambda>c. if truthy_id (step_id (it_data c)) then step_id (it_data c) else None)
            (concat (map ib_children (it_branches it)));
          stale = filter (\<lambda>r. row_parent r = Some i \<and> row_id r \<notin> set kept) (st_steps st)
      in if stale = [] then st
         else delete_sources (filter (\<lambda>c. c \<noteq> []) (map row_code stale))
           (st\<lparr>st_steps := filter (\<lambda>r. row_id r \<notin> set (map row_id stale)) (st_steps st)\<rparr>))"

fun save_steps :: "(int \<Rightarrow> string) \<Rightarrow> int option \<Rightarrow> nat option \<Rightarrow> step_row option \<Rightarrow> item list \<Rightarrow> store \<Rightarrow> summary \<Rightarrow> store_err + store \<times> summary"
  and save_branches :: "(int \<Rightarrow> string) \<Rightarrow> step_row \<Rightarrow> int option \<Rightarrow> nat \<Rightarrow> item_branch list \<Rightarrow> store \<Rightarrow> summary \<Rightarrow> store_err + store \<times> summary" where
  "save_steps fresh parent bidx pinst [] st sm = Inr (st, sm)"
| "save_steps fresh parent bidx pinst (Item d ix gs ns cs bs # rest) st sm =
     (case save_one fresh parent bidx pinst (Item d ix gs ns cs bs) st of
        Inl e \<Rightarrow> Inl e
      | Inr (st1, r, created, parent1, k) \<Rightarrow>
          (let sm1 = note_step created r sm in
           case (if step_type d = Some COND_BRANCH \<and> bs \<noteq> [] then
                   save_branches fresh r k 0 bs (if created then st1 else drop_stale (row_id r) (Item d ix gs ns cs bs) st1) sm1
                 else if cs \<noteq> [] then
                   (case save_steps fresh (Some (row_id r)) None (Some r) cs st1 no_summary of
                      Inl e \<Rightarrow> Inl e
                    | Inr (st2, below) \<Rightarrow> (case merge_result k below sm1 of Inl e \<Rightarrow> Inl e | Inr sm2 \<Rightarrow> Inr (st2, sm2)))
                 else Inr (st1, sm1)) of
             Inl e \<Rightarrow> Inl e
           | Inr (st3, sm3) \<Rightarrow> save_steps fresh parent1 bidx pinst rest st3 sm3))"
| "save_branches fresh r k i [] st sm = Inr (st, sm)"
| "save_branches fresh r k i (ItemBranch m cs # bs) st sm =
     (if cs = [] then save_branches fresh r k (Suc i) bs st sm
      else (case save_steps fresh (Some (row_id r)) (Some i) (Some r) cs st no_summary of
        Inl e \<Rightarrow> Inl e
      | Inr (st1, below) \<Rightarrow> (case merge_result k below sm of
          Inl e \<Rightarrow> Inl e
        | Inr sm1 \<Rightarrow> save_branches fresh r k (Suc i) bs st1 sm1)))"

definition batch_update_or_create_steps :: "(int \<Rightarrow> string) \<Rightarrow> item list \<Rightarrow> store \<Rightarrow> store_err + store \<times> summary" where
  "batch_update_or_create_steps fresh items st = (case check_family st items of
     Inl e \<Rightarrow> Inl e
   | Inr items1 \<Rightarrow> save_steps fresh None None None items1 st no_summary)"

section \<open>The view\<close>

primrec item_step :: "item \<Rightarrow> step" and item_branch_step :: "item_branch \<Rightarrow> branch" where
  "item_step (Item d ix gs ns cs bs) = Step d (map item_step cs) [] (map item_branch_step bs)"
| "item_branch_step (ItemBranch m cs) = Branch (fst m) (fst (snd m)) (snd (snd m)) (map item_step cs)"

primrec update_case_id :: "int \<Rightarrow> item \<Rightarrow> item" and update_branch_case_id :: "int \<Rightarrow> item_branch \<Rightarrow> item_branch" where
  "update_case_id k (Item d ix gs ns cs bs) =
     Item (d\<lparr>case_id := Some k\<rparr>) ix (List.insert ''case_id'' gs) (removeAll ''case_id'' ns) (map (update_case_id k) cs)
       (map (update_branch_case_id k) bs)"
| "update_branch_case_id k (ItemBranch m cs) = ItemBranch m (map (update_case_id k) cs)"

text \<open>The steps of a case that the submission does not have are deleted with their data sources.\<close>

definition drop_missing :: "int option \<Rightarrow> string list \<Rightarrow> store \<Rightarrow> store" where
  "drop_missing k codes st =
     (let missing = filter (\<lambda>c. c \<notin> set codes) (map row_code (filter (\<lambda>r. row_case r = k) (st_steps st))) in
      if missing = [] then st
      else delete_sources missing (st\<lparr>st_steps := filter (\<lambda>r. row_code r \<notin> set missing) (st_steps st)\<rparr>))"

definition drop_all :: "int \<Rightarrow> store \<Rightarrow> store" where
  "drop_all k st = delete_sources (map row_code (filter (\<lambda>r. row_case r = Some k) (st_steps st)))
     (st\<lparr>st_steps := filter (\<lambda>r. row_case r \<noteq> Some k) (st_steps st)\<rparr>)"

definition save_tree :: "(int \<Rightarrow> string) \<Rightarrow> int \<Rightarrow> item list \<Rightarrow> store \<Rightarrow> store_err + store \<times> summary" where
  "save_tree fresh k items st = (case validate_step_tree_structure (map item_step items) of
     Some e \<Rightarrow> Inl (BadTree e)
   | None \<Rightarrow> (case batch_update_or_create_steps fresh (map (update_case_id k) items) st of
       Inl e \<Rightarrow> Inl e
     | Inr (st1, sm) \<Rightarrow>
         Inr (if process_detail sm = [] then drop_all k st1
              else fold (\<lambda>(c, codes). drop_missing c codes) (process_detail sm) st1, sm)))"

text \<open>The fields of the request that have a value are written over a stored step.\<close>

definition restore_row :: "item \<Rightarrow> step_row \<Rightarrow> step_row" where
  "restore_row it r =
     (let d = it_data it; old = row_data r; given = Item d (it_index it) (it_set it) [] (it_children it) (it_branches it)
      in r\<lparr>row_data := (update_columns given old)\<lparr>
             step_code := (if step_code d = None then step_code old else step_code d),
             step_is_skipped := pick given ''step_is_skipped'' False (step_is_skipped d) (step_is_skipped old),
             parent_step_id := pick given ''parent_step_id'' None (parent_step_id d) (parent_step_id old)\<rparr>,
           row_index := (if it_index it = None then row_index r else it_index it),
           row_branches := (if it_branches it = [] then row_branches r else map ib_meta (it_branches it)),
           row_removed := False\<rparr>)"

text \<open>\<^verbatim>\<open>create_step\<close>: a step of the case with the same number, in use or not, is taken over.\<close>

definition create_step :: "(int \<Rightarrow> string) \<Rightarrow> item \<Rightarrow> store \<Rightarrow> store_err + store \<times> step_row" where
  "create_step fresh it st =
     (let d = it_data it in
      case (case case_id d of None \<Rightarrow> None | Some k \<Rightarrow> get_case st k) of
        None \<Rightarrow> Inl (NoCase (case_id d))
      | Some k \<Rightarrow>
          (case (if truthy_id (parent_step_id d) then
                   (case get_step_by_id st (the (parent_step_id d)) of None \<Rightarrow> Some (NoStep (the (parent_step_id d)))
                    | Some p \<Rightarrow> if row_case p \<noteq> case_id d then Some ParentOfOtherCase else None)
                 else None) of
             Some e \<Rightarrow> Inl e
           | None \<Rightarrow>
               if truthy_id (quote_case_id d) \<and> get_case st (the (quote_case_id d)) = None then Inl (NoCase (quote_case_id d))
               else (case find (\<lambda>r. row_case r = case_id d \<and> step_no (row_data r) = step_no d) (st_steps st) of
                 None \<Rightarrow> (let r = \<lparr>row_id = st_next st,
                       row_data = d\<lparr>step_id := None, step_code := Some (if step_code d = None then fresh (st_next st) else the (step_code d)),
                         case_info := PNone, quote_case_info := PNone\<rparr>,
                       row_index = it_index it, row_branches = map ib_meta (it_branches it), row_removed = False\<rparr>
                     in Inr (add_row r st, r))
               | Some r \<Rightarrow> (let r1 = restore_row it r in Inr (put_row r1 st, r1)))))"

end
