(* ===== verification/StoreSamples.thy ===== *)
theory StoreSamples
  imports StepSave StepSamples
begin

text \<open>
  A small table of steps and requests that change it, on which the theorems about saving are applied.
\<close>

definition sample_case :: case_row where
  "sample_case = \<lparr>ca_id = 5, ca_code = ''c5'', ca_type = Some PRIVATE_SCRIPT, ca_project = None, ca_session = [], ca_transfer = False,
     ca_columns = [], ca_removed = False\<rparr>"

definition stored_row :: "int \<Rightarrow> int \<Rightarrow> step_type \<Rightarrow> step_row" where
  "stored_row i no t = \<lparr>row_id = i, row_data = blank_data\<lparr>step_no := Some no, step_code := Some (int_str i), step_type := Some t, case_id := Some 5\<rparr>,
     row_index = None, row_branches = [], row_removed = False\<rparr>"

text \<open>A wait, a loop and a wait, numbered one after the other.\<close>

definition sample_store :: store where
  "sample_store = \<lparr>st_cases = [sample_case], st_steps = [stored_row 1 1 WAIT, stored_row 2 2 LOOP, stored_row 3 3 WAIT], st_sources = [],
     st_next = 4, st_next_source = 1\<rparr>"

definition new_step :: "int \<Rightarrow> step_type \<Rightarrow> item list \<Rightarrow> item" where
  "new_step no t cs = Item (blank_data\<lparr>step_no := Some no, step_type := Some t, case_id := Some 5\<rparr>) None
     [''step_no'', ''step_type'', ''case_id''] [] cs []"

definition change_step :: "int \<Rightarrow> int \<Rightarrow> step_type \<Rightarrow> item" where
  "change_step i no t = Item (blank_data\<lparr>step_id := Some i, step_no := Some no, step_type := Some t, case_id := Some 5\<rparr>) None
     [''step_id'', ''step_no'', ''step_type'', ''case_id''] [] [] []"

definition renumber_step :: "int \<Rightarrow> int \<Rightarrow> item" where
  "renumber_step i no = Item (blank_data\<lparr>step_id := Some i, step_no := Some no, step_type := Some WAIT, case_id := None\<rparr>) None
     [''step_id'', ''step_no'', ''step_type''] [] [] []"

definition move_step :: "int \<Rightarrow> int \<Rightarrow> item" where
  "move_step i p = Item (blank_data\<lparr>case_id := None, step_id := Some i, parent_step_id := Some p, step_type := Some WAIT\<rparr>) None
     [''step_id'', ''step_type'', ''parent_step_id''] [] [] []"

end
