(* ===== verification/StepLoad.thy ===== *)
theory StepLoad
  imports StepStore
begin

text \<open>
  Loading the tree of a case: \<^verbatim>\<open>get_case_tree\<close> of \<^verbatim>\<open>autotest_step_crud.py\<close> with the counting of steps,
  the copy of a tree (\<^verbatim>\<open>get_copy_tree\<close>), the trees of several cases in one list
  (\<^verbatim>\<open>get_cases_splice_tree\<close>) and the applications a tree uses (\<^verbatim>\<open>get_step_usage_projects\<close>).

  A step is built from its row and the rows below it. The recursion of the code has no bound; here it is
  given a number of levels, and \<^verbatim>\<open>TooDeep\<close> means that they did not suffice.
\<close>

datatype 'a load = Loaded 'a | Refused store_err | TooDeep

primrec and_then :: "'a load \<Rightarrow> ('a \<Rightarrow> 'b load) \<Rightarrow> 'b load" where
  "and_then (Loaded x) f = f x"
| "and_then (Refused e) f = Refused e"
| "and_then TooDeep f = TooDeep"

text \<open>The cases whose steps are in memory, in the order in which they were read, and the counters.\<close>

record load_state =
  ls_cases :: "int list"
  direct_steps :: nat
  child_steps :: nat
  quote_count :: nat
  step_total :: nat

definition case_dict :: "case_row \<Rightarrow> pyval" where
  "case_dict k = PDict ([(''case_id'', PInt (ca_id k)), (''case_code'', PStr (ca_code k))] @ ca_columns k)"

text \<open>The rows of a case in the order of the table: by number.\<close>

definition row_no :: "step_row \<Rightarrow> int" where
  "row_no r = (case step_no (row_data r) of None \<Rightarrow> 0 | Some n \<Rightarrow> n)"

definition case_rows :: "store \<Rightarrow> int \<Rightarrow> step_row list" where
  "case_rows st k = sort_key row_no (filter (\<lambda>r. row_case r = Some k \<and> \<not> row_removed r) (st_steps st))"

definition roots_by_case :: "store \<Rightarrow> int \<Rightarrow> step_row list" where
  "roots_by_case st k = sort_key row_no (filter (\<lambda>r. row_parent r = None) (case_rows st k))"

definition loaded_rows :: "store \<Rightarrow> load_state \<Rightarrow> step_row list" where
  "loaded_rows st ls = concat (map (case_rows st) (ls_cases ls))"

text \<open>Children are ordered by whether they have a branch index, the index, and the number.\<close>

definition index_or_0 :: "step_row \<Rightarrow> nat" where
  "index_or_0 r = (case row_index r of None \<Rightarrow> 0 | Some i \<Rightarrow> i)"

definition child_order :: "step_row list \<Rightarrow> step_row list" where
  "child_order rs = sort_key (\<lambda>r. row_index r \<noteq> None) (sort_key index_or_0 (sort_key row_no rs))"

definition children_of :: "store \<Rightarrow> load_state \<Rightarrow> int \<Rightarrow> step_row list" where
  "children_of st ls i = child_order (filter (\<lambda>r. row_parent r = Some i) (loaded_rows st ls))"

definition ensure_loaded :: "int \<Rightarrow> load_state \<Rightarrow> load_state" where
  "ensure_loaded k ls = (if k \<in> set (ls_cases ls) then ls else ls\<lparr>ls_cases := ls_cases ls @ [k]\<rparr>)"

definition count_step :: "bool \<Rightarrow> step_row \<Rightarrow> load_state \<Rightarrow> load_state" where
  "count_step is_quote r ls =
     (if truthy_id (quote_case_id (row_data r)) then ls
      else (let ls1 = ls\<lparr>step_total := Suc (step_total ls)\<rparr> in
        if is_quote then ls1\<lparr>quote_count := Suc (quote_count ls)\<rparr>
        else if row_parent r = None then ls1\<lparr>direct_steps := Suc (direct_steps ls)\<rparr>
        else ls1\<lparr>child_steps := Suc (child_steps ls)\<rparr>))"

fun load_all :: "('s \<Rightarrow> 'r \<Rightarrow> ('s \<times> 't) load) \<Rightarrow> 's \<Rightarrow> 'r list \<Rightarrow> ('s \<times> 't list) load" where
  "load_all f s [] = Loaded (s, [])"
| "load_all f s (r # rs) = and_then (f s r) (\<lambda>(s1, t). and_then (load_all f s1 rs) (\<lambda>(s2, ts). Loaded (s2, t # ts)))"

definition load_case_info :: "store \<Rightarrow> step_row \<Rightarrow> pyval load" where
  "load_case_info st r =
     (if \<not> truthy_id (row_case r) then Loaded PNone
      else (case get_case st (the (row_case r)) of None \<Rightarrow> Refused (NoCase (row_case r)) | Some k \<Rightarrow> Loaded (case_dict k)))"

text \<open>The branches of a condition step share its children out by branch index.\<close>

definition load_branches ::
    "(load_state \<Rightarrow> step_row list \<Rightarrow> (load_state \<times> step list) load) \<Rightarrow> step_row list \<Rightarrow> branch_meta list \<Rightarrow> load_state \<Rightarrow>
     (load_state \<times> branch list) load" where
  "load_branches build kids metas ls =
     load_all (\<lambda>s (i, m). and_then (build s (filter (\<lambda>r. index_or_0 r = i) kids))
       (\<lambda>(s1, ts). Loaded (s1, Branch (fst m) (fst (snd m)) (snd (snd m)) ts))) ls (enumerate 0 metas)"

primrec build_step_tree :: "nat \<Rightarrow> store \<Rightarrow> bool \<Rightarrow> load_state \<Rightarrow> step_row \<Rightarrow> (load_state \<times> step) load" where
  "build_step_tree 0 st is_quote ls r = TooDeep"
| "build_step_tree (Suc n) st is_quote ls r =
     and_then (load_case_info st r) (\<lambda>info.
       (let ls1 = count_step is_quote r ls; kids = children_of st ls1 (row_id r);
            by_branch = (step_type (row_data r) = Some COND_BRANCH \<and> row_branches r \<noteq> []);
            q = quote_case_id (row_data r) in
        and_then (load_branches (load_all (build_step_tree n st is_quote)) kids (if by_branch then row_branches r else []) ls1) (\<lambda>(ls2, bs).
        and_then (load_all (build_step_tree n st is_quote) ls2 (if by_branch then [] else kids)) (\<lambda>(ls3, cs).
        case (if truthy_id q then get_case st (the q) else None) of
          None \<Rightarrow> Loaded (ls3, Step ((row_data r)\<lparr>step_id := Some (row_id r), case_info := info, quote_case_info := PNone\<rparr>) cs [] bs)
        | Some k \<Rightarrow>
            and_then (load_all (build_step_tree n st True) (ensure_loaded (the q) ls3) (roots_by_case st (the q))) (\<lambda>(ls4, qs).
              Loaded (ls4, Step ((row_data r)\<lparr>step_id := Some (row_id r), case_info := info, quote_case_info := case_dict k\<rparr>) cs qs bs))))))"

definition no_steps :: load_state where
  "no_steps = \<lparr>ls_cases = [], direct_steps = 0, child_steps = 0, quote_count = 0, step_total = 0\<rparr>"

text \<open>The roots and the final counters; without roots the code returns the case alone.\<close>

definition get_case_tree :: "nat \<Rightarrow> store \<Rightarrow> int \<Rightarrow> (load_state \<times> step list) load" where
  "get_case_tree n st k = (case get_case st k of
     None \<Rightarrow> Refused (NoCase (Some k))
   | Some c \<Rightarrow> load_all (build_step_tree n st False) (ensure_loaded k no_steps) (roots_by_case st k))"

section \<open>Uses of a tree\<close>

primrec strip_step_for_copy :: "step \<Rightarrow> step" and strip_branch :: "branch \<Rightarrow> branch" where
  "strip_step_for_copy (Step d cs qs bs) =
     Step (d\<lparr>step_id := None, step_no := None, step_code := None, parent_step_id := None, data_source_id := None,
         case_info := (case case_info d of
            PDict m \<Rightarrow> PDict (AList.update ''case_code'' PNone (AList.update ''case_id'' PNone m)) | v \<Rightarrow> v)\<rparr>)
       (map strip_step_for_copy cs) (map strip_step_for_copy qs) (map strip_branch bs)"
| "strip_branch (Branch t c desc cs) = Branch t c desc (map strip_step_for_copy cs)"

definition get_copy_tree :: "nat \<Rightarrow> store \<Rightarrow> int \<Rightarrow> step list load" where
  "get_copy_tree n st k = and_then (get_case_tree n st k) (\<lambda>(ls, ts). Loaded (map strip_step_for_copy ts))"

text \<open>The applications used by the requests and operations of a step and of its children and quoted
  steps, without those of its branches.\<close>

definition own_projects :: "step_data \<Rightarrow> int list" where
  "own_projects d = List.map_filter (\<lambda>p. if truthy_id p then p else None)
     (case step_type d of
        Some HTTP \<Rightarrow> [request_project_id d] | Some TCP \<Rightarrow> [request_project_id d]
      | Some DATABASE \<Rightarrow> map op_project_id (database_operates d)
      | Some REDIS \<Rightarrow> map op_project_id (redis_operates d)
      | _ \<Rightarrow> [])"

primrec require_project_ids :: "step \<Rightarrow> int list" where
  "require_project_ids (Step d cs qs bs) =
     own_projects d @ concat (map require_project_ids cs) @ concat (map require_project_ids qs)"

definition get_step_usage_projects :: "nat \<Rightarrow> store \<Rightarrow> int \<Rightarrow> int list load" where
  "get_step_usage_projects n st k = and_then (get_case_tree n st k)
     (\<lambda>(ls, ts). Loaded (sort (remdups (concat (map require_project_ids ts)))))"

text \<open>The trees of several cases, each case once, with the positions of its roots in the list. A case
  without steps has one entry for itself.\<close>

fun splice :: "nat \<Rightarrow> store \<Rightarrow> int list \<Rightarrow> (step option list \<times> (int \<times> nat list) list \<times> nat) load" where
  "splice n st [] = Loaded ([], [], 0)"
| "splice n st (k # ks) = and_then (get_case_tree n st k) (\<lambda>(ls, ts).
     and_then (splice n st ks) (\<lambda>(ds, ixs, total_count).
       (let own = (if ts = [] then [None] else map Some ts) in
        Loaded (own @ ds, (k, [0..<length own]) # map (\<lambda>(c, ps). (c, map ((+) (length own)) ps)) ixs, step_total ls + total_count))))"

definition get_cases_splice_tree :: "nat \<Rightarrow> store \<Rightarrow> int list \<Rightarrow> (step option list \<times> (int \<times> nat list) list \<times> nat) load" where
  "get_cases_splice_tree n st ids = splice n st (rev (remdups (rev ids)))"

end
