(* ===== verification/SavedTree.thy ===== *)
theory SavedTree
  imports StoreSamples StepLoad
begin

text \<open>
  A tree of new steps that is saved is loaded back as it was. The rows written for a tree are described by
  a function of the tree, the save is shown to append exactly these rows, and the load is shown to find the
  children of each row again.
\<close>

section \<open>The rows of a tree\<close>

primrec weight :: "item \<Rightarrow> nat" and branch_weight :: "item_branch \<Rightarrow> nat" where
  "weight (Item d ix gs ns cs bs) =
     Suc (if step_type d = Some COND_BRANCH \<and> bs \<noteq> [] then sum_list (map branch_weight bs) else sum_list (map weight cs))"
| "branch_weight (ItemBranch m cs) = sum_list (map weight cs)"

abbreviation weights :: "item list \<Rightarrow> nat" where
  "weights items \<equiv> sum_list (map weight items)"

fun rows_of :: "(int \<Rightarrow> string) \<Rightarrow> int \<Rightarrow> int option \<Rightarrow> nat option \<Rightarrow> item list \<Rightarrow> step_row list"
  and branch_rows :: "(int \<Rightarrow> string) \<Rightarrow> int \<Rightarrow> int \<Rightarrow> nat \<Rightarrow> item_branch list \<Rightarrow> step_row list" where
  "rows_of fresh i parent bidx [] = []"
| "rows_of fresh i parent bidx (Item d ix gs ns cs bs # rest) =
     new_row fresh i parent bidx (Item d ix gs ns cs bs) #
     (if step_type d = Some COND_BRANCH \<and> bs \<noteq> [] then branch_rows fresh (i + 1) i 0 bs else rows_of fresh (i + 1) (Some i) None cs)
     @ rows_of fresh (i + int (weight (Item d ix gs ns cs bs))) parent bidx rest"
| "branch_rows fresh i p b [] = []"
| "branch_rows fresh i p b (ItemBranch m cs # bs) =
     rows_of fresh i (Some p) (Some b) cs @ branch_rows fresh (i + int (weights cs)) p (Suc b) bs"

text \<open>The rows of the items themselves.\<close>

fun heads :: "(int \<Rightarrow> string) \<Rightarrow> int \<Rightarrow> int option \<Rightarrow> nat option \<Rightarrow> item list \<Rightarrow> step_row list" where
  "heads fresh i parent bidx [] = []"
| "heads fresh i parent bidx (it # rest) = new_row fresh i parent bidx it # heads fresh (i + int (weight it)) parent bidx rest"

fun branch_heads :: "(int \<Rightarrow> string) \<Rightarrow> int \<Rightarrow> int \<Rightarrow> nat \<Rightarrow> item_branch list \<Rightarrow> step_row list" where
  "branch_heads fresh i p b [] = []"
| "branch_heads fresh i p b (ItemBranch m cs # bs) =
     heads fresh i (Some p) (Some b) cs @ branch_heads fresh (i + int (weights cs)) p (Suc b) bs"

lemma new_row_simps [simp]:
  "row_id (new_row fresh i p b it) = i" "row_parent (new_row fresh i p b it) = p" "row_case (new_row fresh i p b it) = case_id (it_data it)"
  "\<not> row_removed (new_row fresh i p b it)" "step_no (row_data (new_row fresh i p b it)) = step_no (it_data it)"
  "step_type (row_data (new_row fresh i p b it)) = step_type (it_data it)" "row_code (new_row fresh i p b it) = fresh i"
  "quote_case_id (row_data (new_row fresh i p b it)) = quote_case_id (it_data it)"
  "data_source_id (row_data (new_row fresh i p b it)) = data_source_id (it_data it)"
  by (simp_all add: new_row_def Let_def row_code_def)

text \<open>Parents of the rows: the given one, or a row of the tree itself.\<close>

definition inner_weight :: "item \<Rightarrow> nat" where
  "inner_weight it = (if step_type (it_data it) = Some COND_BRANCH \<and> it_branches it \<noteq> []
     then sum_list (map branch_weight (it_branches it)) else weights (it_children it))"

lemma weight_inner: "weight it = Suc (inner_weight it)"
  by (cases it) (simp add: inner_weight_def)

declare weight.simps [simp del]

definition below_rows :: "(int \<Rightarrow> string) \<Rightarrow> int \<Rightarrow> item \<Rightarrow> step_row list" where
  "below_rows fresh i it = (if step_type (it_data it) = Some COND_BRANCH \<and> it_branches it \<noteq> []
     then branch_rows fresh (i + 1) i 0 (it_branches it) else rows_of fresh (i + 1) (Some i) None (it_children it))"

lemma rows_of_Cons: "rows_of fresh i parent bidx (it # rest) =
    new_row fresh i parent bidx it # below_rows fresh i it @ rows_of fresh (i + int (weight it)) parent bidx rest"
  by (cases it) (simp add: below_rows_def)

declare rows_of.simps(2) [simp del]

text \<open>Induction over the rows of a tree: items, and branches.\<close>

lemma rows_induct [case_names items_nil items_cons branch_nil branch_cons]:
  assumes "\<And>i parent bidx. P i parent bidx []"
    and "\<And>i parent bidx it rest.
      (step_type (it_data it) = Some COND_BRANCH \<and> it_branches it \<noteq> [] \<Longrightarrow> Q (i + 1) i 0 (it_branches it)) \<Longrightarrow>
      (\<not> (step_type (it_data it) = Some COND_BRANCH \<and> it_branches it \<noteq> []) \<Longrightarrow> P (i + 1) (Some i) None (it_children it)) \<Longrightarrow>
      P (i + int (weight it)) parent bidx rest \<Longrightarrow> P i parent bidx (it # rest)"
    and "\<And>i p b. Q i p b []"
    and "\<And>i p b m cs bs. P i (Some p) (Some b) cs \<Longrightarrow> Q (i + int (weights cs)) p (Suc b) bs \<Longrightarrow> Q i p b (ItemBranch m cs # bs)"
  shows "P i parent bidx items" and "Q j p b bs"
proof -
  have "P i parent bidx items" and "Q j p b bs" for fresh :: "int \<Rightarrow> string"
  proof (induction fresh i parent bidx items and fresh j p b bs rule: rows_of_branch_rows.induct)
    case (2 fresh i parent bidx d ix gs ns cs bs rest)
    then show ?case by (intro assms(2)) auto
  qed (auto intro: assms)
  then show "P i parent bidx items" "Q j p b bs" by blast+
qed

definition inside :: "int \<Rightarrow> nat \<Rightarrow> step_row \<Rightarrow> bool" where
  "inside i w r = (\<exists>q. row_parent r = Some q \<and> i \<le> q \<and> q < i + int w)"

lemma inside_mono: "inside i w r \<Longrightarrow> j \<le> i \<Longrightarrow> i + int w \<le> j + int v \<Longrightarrow> inside j v r"
  by (auto simp: inside_def)

lemma rows_of_parents:
  "\<forall>r \<in> set (rows_of fresh i parent bidx items). row_parent r = parent \<or> inside i (weights items) r"
  "\<forall>r \<in> set (branch_rows fresh j p b bs). row_parent r = Some p \<or> inside j (sum_list (map branch_weight bs)) r"
proof (induction i parent bidx items and j p b bs rule: rows_induct)
  case (items_cons i parent bidx it rest)
  have "row_parent r = Some i \<or> inside (i + 1) (inner_weight it) r" if "r \<in> set (below_rows fresh i it)" for r
    using that items_cons(1,2) by (auto simp: below_rows_def inner_weight_def split: if_splits)
  then have "inside i (weights (it # rest)) r" if "r \<in> set (below_rows fresh i it)" for r
    using that by (force simp: inside_def weight_inner)
  moreover have "inside i (weights (it # rest)) r" if "inside (i + int (weight it)) (weights rest) r" for r
    using that by (rule inside_mono) auto
  ultimately show ?case using items_cons(3) by (auto simp: rows_of_Cons)
next
  case (branch_cons i p b m cs bs)
  have "inside i (weights cs + v) r" if "inside (i + int (weights cs)) v r" for r v
    using that by (rule inside_mono) auto
  moreover have "inside i (weights cs + v) r" if "inside i (weights cs) r" for r v
    using that by (rule inside_mono) auto
  ultimately show ?case using branch_cons by auto
qed auto

lemma rows_of_child:
  "q < i \<Longrightarrow> filter (\<lambda>r. row_parent r = Some q) (rows_of fresh i parent bidx items) = (if parent = Some q then heads fresh i parent bidx items else [])"
  "q < j \<Longrightarrow> filter (\<lambda>r. row_parent r = Some q) (branch_rows fresh j p b bs) = (if p = q then branch_heads fresh j p b bs else [])"
proof (induction i parent bidx items and j p b bs rule: rows_induct)
  case (items_cons i parent bidx it rest)
  have "filter (\<lambda>r. row_parent r = Some q) (below_rows fresh i it) = []"
    using items_cons(1,2,4) by (auto simp: below_rows_def)
  with items_cons(3,4) show ?case by (auto simp: rows_of_Cons)
qed auto

section \<open>Loading the rows\<close>

text \<open>The steps of a tree without what the tables give them: keys, codes and information of the case.\<close>

definition bare :: "step_data \<Rightarrow> step_data" where
  "bare d = d\<lparr>step_id := None, step_code := None, parent_step_id := None, case_info := PNone, quote_case_info := PNone\<rparr>"

primrec bare_step :: "step \<Rightarrow> step" and bare_branch :: "branch \<Rightarrow> branch" where
  "bare_step (Step d cs qs bs) = Step (bare d) (map bare_step cs) (map bare_step qs) (map bare_branch bs)"
| "bare_branch (Branch t c desc cs) = Branch t c desc (map bare_step cs)"

definition index_of :: "nat option \<Rightarrow> item \<Rightarrow> nat option" where
  "index_of bidx it = (if bidx \<noteq> None then bidx else if step_type (it_data it) = Some COND_BRANCH then Some 0 else it_index it)"

definition item_no :: "item \<Rightarrow> int" where
  "item_no it = (case step_no (it_data it) of None \<Rightarrow> 0 | Some n \<Rightarrow> n)"

text \<open>Steps beside each other are in the order in which they are loaded: by number, and below a loop those
  with a branch index, condition steps among them, after the others.\<close>

definition in_load_order :: "nat option \<Rightarrow> item list \<Rightarrow> bool" where
  "in_load_order bidx items =
     (sorted (map item_no items) \<and> sorted (map (\<lambda>it. index_of bidx it \<noteq> None) items)
      \<and> sorted (map (\<lambda>it. case index_of bidx it of None \<Rightarrow> 0 | Some i \<Rightarrow> i) items))"

text \<open>An item of a new step of the case, and all below it.\<close>

definition new_data :: "int \<Rightarrow> step_data \<Rightarrow> bool" where
  "new_data k d = (\<not> truthy_id (step_id d) \<and> \<not> truthy_text (step_code d) \<and> case_id d = Some k \<and> truthy_id (step_no d)
     \<and> step_type d \<noteq> None \<and> \<not> truthy_id (quote_case_id d) \<and> \<not> truthy_id (data_source_id d) \<and> parent_step_id d = None)"

primrec new_item :: "int \<Rightarrow> item \<Rightarrow> bool" and new_branch :: "int \<Rightarrow> item_branch \<Rightarrow> bool" where
  "new_item k (Item d ix gs ns cs bs) =
     (new_data k d \<and> list_all (new_item k) cs \<and> list_all (new_branch k) bs \<and> in_load_order None cs \<and>
      (bs \<noteq> [] \<longrightarrow> step_type d = Some COND_BRANCH \<and> cs = [] \<and> loop_conditions d = None) \<and>
      (cs \<noteq> [] \<longrightarrow> step_type d \<in> {Some LOOP, Some COND_BRANCH}))"
| "new_branch k (ItemBranch m cs) = (list_all (new_item k) cs \<and> sorted (map item_no cs))"

lemma sort_key_level: "sorted (map f xs) \<Longrightarrow> sort_key f xs = xs"
  by (simp add: sort_key_id_if_sorted)

lemma child_order_keys:
  assumes "sorted (map row_no rs)" "sorted (map (\<lambda>r. row_index r \<noteq> None) rs)" "sorted (map index_or_0 rs)"
  shows "child_order rs = rs"
  using assms by (simp add: child_order_def sort_key_level)

lemma child_order_filter: "child_order (filter P (sort_key row_no rs)) = child_order (filter P rs)"
  by (simp add: child_order_def filter_sort[symmetric] sort_key_level)

lemma filter_child_order: "filter P (child_order rs) = child_order (filter P rs)"
  by (simp add: child_order_def filter_sort)

lemma heads_keys:
  "map row_no (heads fresh i parent bidx items) = map item_no items"
  "map (\<lambda>r. row_index r \<noteq> None) (heads fresh i parent bidx items) = map (\<lambda>it. index_of bidx it \<noteq> None) items"
  "map index_or_0 (heads fresh i parent bidx items) = map (\<lambda>it. case index_of bidx it of None \<Rightarrow> 0 | Some i \<Rightarrow> i) items"
  by (induction items arbitrary: i)
    (auto simp: row_no_def item_no_def index_or_0_def index_of_def new_row_def Let_def split: option.splits)

lemma heads_in_order: "in_load_order bidx items \<Longrightarrow> child_order (heads fresh i parent bidx items) = heads fresh i parent bidx items"
  unfolding in_load_order_def by (intro child_order_keys; unfold heads_keys) blast+

lemma heads_index: "r \<in> set (heads fresh i parent (Some b) items) \<Longrightarrow> row_index r = Some b"
  by (induction items arbitrary: i) (auto simp: new_row_def Let_def)

lemma branch_heads_index: "r \<in> set (branch_heads fresh i p b bs) \<Longrightarrow> \<exists>c. row_index r = Some c \<and> b \<le> c"
  by (induction fresh i p b bs rule: branch_heads.induct) (fastforce dest: heads_index)+

lemma branch_order:
  "sorted (map item_no cs) \<Longrightarrow> child_order (heads fresh i parent (Some b) cs) = heads fresh i parent (Some b) cs"
  by (intro heads_in_order) (simp add: in_load_order_def index_of_def sorted_iff_nth_mono)

text \<open>The rows of a list with a parent within an interval are those of a given list.\<close>

definition part :: "step_row list \<Rightarrow> int \<Rightarrow> nat \<Rightarrow> step_row list \<Rightarrow> bool" where
  "part R i w S = (\<forall>p. i \<le> p \<longrightarrow> p < i + int w \<longrightarrow> filter (\<lambda>r. row_parent r = Some p) R = filter (\<lambda>r. row_parent r = Some p) S)"

definition outside :: "int option \<Rightarrow> int \<Rightarrow> bool" where
  "outside parent i = (case parent of None \<Rightarrow> True | Some p \<Rightarrow> p < i)"

lemma none_inside:
  assumes "\<forall>r \<in> set S. row_parent r = parent \<or> inside j w r" "parent \<noteq> Some p" "p < j \<or> j + int w \<le> p"
  shows "filter (\<lambda>r. row_parent r = Some p) S = []"
  using assms by (fastforce simp: inside_def filter_empty_conv)

lemma below_rows_parents: "\<forall>r \<in> set (below_rows fresh i it). row_parent r = Some i \<or> inside (i + 1) (inner_weight it) r"
  using rows_of_parents(1)[of fresh "i + 1" "Some i" None "it_children it"] rows_of_parents(2)[of fresh "i + 1" i 0 "it_branches it"]
  by (auto simp: below_rows_def inner_weight_def split: if_splits)

lemma part_Cons:
  assumes "part R i (weights (it # rest)) (rows_of fresh i parent bidx (it # rest))" "outside parent i"
  shows "part R i (weight it) (below_rows fresh i it)"
    and "part R (i + int (weight it)) (weights rest) (rows_of fresh (i + int (weight it)) parent bidx rest)"
proof -
  have o: "parent \<noteq> Some p" if "i \<le> p" for p using that assms(2) by (auto simp: outside_def split: option.splits)
  have rest: "filter (\<lambda>r. row_parent r = Some p) (rows_of fresh (i + int (weight it)) parent bidx rest) = []"
    if "i \<le> p" "p < i + int (weight it)" for p
    using none_inside[OF rows_of_parents(1) o[OF that(1)]] that(2) by blast
  have below: "filter (\<lambda>r. row_parent r = Some p) (below_rows fresh i it) = []" if "i + int (weight it) \<le> p" for p
    using none_inside[OF below_rows_parents[of fresh i it], of p] that by (simp add: weight_inner)
  show "part R i (weight it) (below_rows fresh i it)"
    using assms(1) o rest by (auto simp: part_def rows_of_Cons)
  show "part R (i + int (weight it)) (weights rest) (rows_of fresh (i + int (weight it)) parent bidx rest)"
    using assms(1) o below by (auto simp: part_def rows_of_Cons)
qed

lemma part_branch:
  assumes "part R i (sum_list (map branch_weight (ItemBranch m cs # bs))) (branch_rows fresh i p b (ItemBranch m cs # bs))" "p < i"
  shows "part R i (weights cs) (rows_of fresh i (Some p) (Some b) cs)"
    and "part R (i + int (weights cs)) (sum_list (map branch_weight bs)) (branch_rows fresh (i + int (weights cs)) p (Suc b) bs)"
proof -
  have rest: "filter (\<lambda>r. row_parent r = Some q) (branch_rows fresh (i + int (weights cs)) p (Suc b) bs) = []"
    if "i \<le> q" "q < i + int (weights cs)" for q
    using that assms(2) by (intro none_inside[OF rows_of_parents(2)]) auto
  have first: "filter (\<lambda>r. row_parent r = Some q) (rows_of fresh i (Some p) (Some b) cs) = []" if "i + int (weights cs) \<le> q" for q
    using that assms(2) by (intro none_inside[OF rows_of_parents(1)]) auto
  show "part R i (weights cs) (rows_of fresh i (Some p) (Some b) cs)"
    using assms(1) rest by (auto simp: part_def)
  show "part R (i + int (weights cs)) (sum_list (map branch_weight bs)) (branch_rows fresh (i + int (weights cs)) p (Suc b) bs)"
    using assms(1) first by (auto simp: part_def)
qed

text \<open>What is in memory is the one case, with the given rows.\<close>

definition holds :: "store \<Rightarrow> int \<Rightarrow> step_row list \<Rightarrow> load_state \<Rightarrow> bool" where
  "holds st k R ls = (ls_cases ls = [k] \<and> filter (\<lambda>r. row_case r = Some k \<and> \<not> row_removed r) (st_steps st) = R \<and> get_case st k \<noteq> None \<and> k \<noteq> 0)"

lemma holds_count [simp]: "holds st k R (count_step q r ls) = holds st k R ls"
  by (simp add: holds_def count_step_def Let_def)

lemma children_found:
  "holds st k R ls \<Longrightarrow> children_of st ls p = child_order (filter (\<lambda>r. row_parent r = Some p) R)"
  by (simp add: holds_def children_of_def loaded_rows_def case_rows_def child_order_filter)

lemma index_of_heads:
  "filter (\<lambda>r. index_or_0 r = b) (heads fresh i parent (Some b) cs) = heads fresh i parent (Some b) cs"
  by (auto simp: filter_id_conv index_or_0_def dest: heads_index)

lemma other_heads:
  "c \<noteq> b \<Longrightarrow> filter (\<lambda>r. index_or_0 r = c) (heads fresh i parent (Some b) cs) = []"
  by (auto simp: filter_empty_conv index_or_0_def dest: heads_index)

lemma later_heads: "filter (\<lambda>r. index_or_0 r = b) (branch_heads fresh i p (Suc b) bs) = []"
  by (force simp: filter_empty_conv index_or_0_def dest: branch_heads_index)

definition loads :: "store \<Rightarrow> int \<Rightarrow> step_row list \<Rightarrow> (load_state \<times> 'a) load \<Rightarrow> ('a \<Rightarrow> bool) \<Rightarrow> bool" where
  "loads st k R m P = (\<exists>ls' x. m = Loaded (ls', x) \<and> holds st k R ls' \<and> P x)"

lemma loads_then:
  assumes "loads st k R m P" "\<And>ls' x. holds st k R ls' \<Longrightarrow> P x \<Longrightarrow> loads st k R (f (ls', x)) Q"
  shows "loads st k R (and_then m f) Q"
  using assms by (fastforce simp: loads_def)

lemma loads_Loaded: "holds st k R ls' \<Longrightarrow> P x \<Longrightarrow> loads st k R (Loaded (ls', x)) P"
  by (simp add: loads_def)

lemma loads_mono: "loads st k R m P \<Longrightarrow> (\<And>x. P x \<Longrightarrow> Q x) \<Longrightarrow> loads st k R m Q"
  by (fastforce simp: loads_def)

lemma loads_Cons:
  assumes "loads st k R (f s r) P" "\<And>s'. holds st k R s' \<Longrightarrow> loads st k R (load_all f s' rs) Q"
  shows "loads st k R (load_all f s (r # rs)) (\<lambda>ts. \<exists>t ts'. ts = t # ts' \<and> P t \<and> Q ts')"
proof -
  obtain s1 t where t: "f s r = Loaded (s1, t)" "holds st k R s1" "P t" using assms(1) by (auto simp: loads_def)
  obtain s2 ts where "load_all f s1 rs = Loaded (s2, ts)" "holds st k R s2" "Q ts" using assms(2)[OF t(2)] by (auto simp: loads_def)
  with t show ?thesis by (simp add: loads_def)
qed

lemma load_case_found: "holds st k R ls \<Longrightarrow> row_case r = Some k \<Longrightarrow> \<exists>info. load_case_info st r = Loaded info"
  by (auto simp: load_case_info_def holds_def truthy_id_def)

definition loads_items :: "(int \<Rightarrow> string) \<Rightarrow> store \<Rightarrow> int \<Rightarrow> step_row list \<Rightarrow> int \<Rightarrow> int option \<Rightarrow> nat option \<Rightarrow> item list \<Rightarrow> bool" where
  "loads_items fresh st k R i parent bidx items =
     (list_all (new_item k) items \<longrightarrow> outside parent i \<longrightarrow> part R i (weights items) (rows_of fresh i parent bidx items) \<longrightarrow>
      (\<forall>n ls. weights items \<le> n \<longrightarrow> holds st k R ls \<longrightarrow>
        loads st k R (load_all (build_step_tree n st False) ls (heads fresh i parent bidx items))
          (\<lambda>ts. map bare_step ts = map (\<lambda>it. bare_step (item_step it)) items)))"

definition loads_branches :: "(int \<Rightarrow> string) \<Rightarrow> store \<Rightarrow> int \<Rightarrow> step_row list \<Rightarrow> int \<Rightarrow> int \<Rightarrow> nat \<Rightarrow> item_branch list \<Rightarrow> bool" where
  "loads_branches fresh st k R j p b bs =
     (list_all (new_branch k) bs \<longrightarrow> p < j \<longrightarrow> part R j (sum_list (map branch_weight bs)) (branch_rows fresh j p b bs) \<longrightarrow>
      (\<forall>n ls kids. sum_list (map branch_weight bs) \<le> n \<longrightarrow> holds st k R ls \<longrightarrow>
        (\<forall>c \<ge> b. filter (\<lambda>r. index_or_0 r = c) kids = child_order (filter (\<lambda>r. index_or_0 r = c) (branch_heads fresh j p b bs))) \<longrightarrow>
        loads st k R (load_all (\<lambda>s (i, m). and_then (load_all (build_step_tree n st False) s (filter (\<lambda>r. index_or_0 r = i) kids))
            (\<lambda>(s1, ts). Loaded (s1, Branch (fst m) (fst (snd m)) (snd (snd m)) ts))) ls (enumerate b (map ib_meta bs)))
          (\<lambda>ts. map bare_branch ts = map (\<lambda>x. bare_branch (item_branch_step x)) bs)))"

lemma loads_itemsD:
  assumes "loads_items fresh st k R i parent bidx items" "list_all (new_item k) items" "outside parent i"
    "part R i (weights items) (rows_of fresh i parent bidx items)" "weights items \<le> n" "holds st k R ls"
  shows "loads st k R (load_all (build_step_tree n st False) ls (heads fresh i parent bidx items))
      (\<lambda>ts. map bare_step ts = map (\<lambda>it. bare_step (item_step it)) items)"
  using assms unfolding loads_items_def by blast

lemma loads_branchesD:
  assumes "loads_branches fresh st k R j p b bs" "list_all (new_branch k) bs" "p < j"
    "part R j (sum_list (map branch_weight bs)) (branch_rows fresh j p b bs)" "sum_list (map branch_weight bs) \<le> n" "holds st k R ls"
    "\<And>c. b \<le> c \<Longrightarrow> filter (\<lambda>r. index_or_0 r = c) kids = child_order (filter (\<lambda>r. index_or_0 r = c) (branch_heads fresh j p b bs))"
  shows "loads st k R (load_all (\<lambda>s (i, m). and_then (load_all (build_step_tree n st False) s (filter (\<lambda>r. index_or_0 r = i) kids))
            (\<lambda>(s1, ts). Loaded (s1, Branch (fst m) (fst (snd m)) (snd (snd m)) ts))) ls (enumerate b (map ib_meta bs)))
          (\<lambda>ts. map bare_branch ts = map (\<lambda>x. bare_branch (item_branch_step x)) bs)"
  using assms unfolding loads_branches_def by blast

lemma bare_new_row:
  "new_item k it \<Longrightarrow> bare ((row_data (new_row fresh i parent bidx it))\<lparr>step_id := Some i, case_info := info, quote_case_info := PNone\<rparr>)
     = bare (it_data it)"
  by (cases it) (simp add: new_row_def bare_def Let_def)

lemma row_branches_new:
  "row_branches (new_row fresh i parent bidx it) =
     (if step_type (it_data it) = Some COND_BRANCH \<and> it_branches it \<noteq> [] then map ib_meta (it_branches it) else [])"
  by (simp add: new_row_def Let_def)

lemma build_new_row:
  assumes new: "new_item k it" and here: "part R i (weight it) (below_rows fresh i it)" and n: "weight it \<le> n" and h: "holds st k R ls"
    and branches: "step_type (it_data it) = Some COND_BRANCH \<and> it_branches it \<noteq> [] \<Longrightarrow>
        loads_branches fresh st k R (i + 1) i 0 (it_branches it)"
    and kids: "\<not> (step_type (it_data it) = Some COND_BRANCH \<and> it_branches it \<noteq> []) \<Longrightarrow>
        loads_items fresh st k R (i + 1) (Some i) None (it_children it)"
  shows "loads st k R (build_step_tree n st False ls (new_row fresh i parent bidx it)) (\<lambda>t. bare_step t = bare_step (item_step it))"
proof -
  let ?r = "new_row fresh i parent bidx it" and ?by = "step_type (it_data it) = Some COND_BRANCH \<and> it_branches it \<noteq> []"
  obtain d ix gs ns cs bs where it: "it = Item d ix gs ns cs bs" by (cases it)
  obtain m where m: "n = Suc m" "inner_weight it \<le> m" using n by (cases n) (auto simp: weight_inner)
  have d: "case_id (it_data it) = Some k" "\<not> truthy_id (quote_case_id (it_data it))" using new by (simp_all add: it new_data_def)
  obtain info where info: "load_case_info st ?r = Loaded info" using load_case_found[OF h, of ?r] d by auto
  let ?ls = "count_step False ?r ls"
  have h1: "holds st k R ?ls" using h by simp
  have nb: "row_branches ?r = (if ?by then map ib_meta (it_branches it) else [])" by (rule row_branches_new)
  have build: "build_step_tree n st False ls ?r =
      and_then (load_branches (load_all (build_step_tree m st False)) (children_of st ?ls i) (row_branches ?r) ?ls) (\<lambda>(ls2, bs).
        and_then (load_all (build_step_tree m st False) ls2 (if ?by then [] else children_of st ?ls i)) (\<lambda>(ls3, cs).
          Loaded (ls3, Step ((row_data ?r)\<lparr>step_id := Some i, case_info := info, quote_case_info := PNone\<rparr>) cs [] bs)))"
    by (simp add: m(1) info Let_def d nb)
  have bare_it: "bare_step (Step ((row_data ?r)\<lparr>step_id := Some i, case_info := info, quote_case_info := PNone\<rparr>) cs' [] bs') = bare_step (item_step it)"
    if "map bare_step cs' = map (\<lambda>x. bare_step (item_step x)) cs" "map bare_branch bs' = map (\<lambda>x. bare_branch (item_branch_step x)) bs" for cs' bs'
    using that bare_new_row[OF new] by (simp add: it)
  have R: "filter (\<lambda>r. row_parent r = Some i) R = filter (\<lambda>r. row_parent r = Some i) (below_rows fresh i it)"
    using here by (simp add: part_def weight_inner)
  have part: "part R (i + 1) (inner_weight it) (below_rows fresh i it)"
    using here by (auto simp: part_def weight_inner)
  show ?thesis
  proof (cases ?by)
    case True
    have it_branches_it: "it_branches it = bs" "cs = []" using new True by (auto simp: it)
    have R': "children_of st ?ls i = child_order (branch_heads fresh (i + 1) i 0 (it_branches it))"
      using R True rows_of_child(2)[of i "i + 1" fresh i 0 "it_branches it"] by (simp add: children_found[OF h1] below_rows_def)
    have "loads st k R (load_branches (load_all (build_step_tree m st False)) (children_of st ?ls i) (row_branches ?r) ?ls)
        (\<lambda>ts. map bare_branch ts = map (\<lambda>x. bare_branch (item_branch_step x)) (it_branches it))"
      unfolding load_branches_def row_branches_new if_P[OF True] R'
      by (rule loads_branchesD[OF branches[OF True] _ _ _ _ h1])
        (use part m(2) new True in \<open>simp_all add: it inner_weight_def below_rows_def filter_child_order\<close>)
    then show ?thesis
      unfolding build if_P[OF True]
      by (rule loads_then) (use new True in \<open>auto simp: it_branches_it intro!: loads_Loaded bare_it\<close>)
  next
    case False
    have bs: "bs = []" using False new by (auto simp: it)
    have cs: "it_children it = cs" by (simp add: it)
    have "children_of st ?ls i = child_order (heads fresh (i + 1) (Some i) None cs)"
      using R False rows_of_child(1)[of i "i + 1" fresh "Some i" None cs] by (simp add: children_found[OF h1] below_rows_def cs)
    then have R': "children_of st ?ls i = heads fresh (i + 1) (Some i) None cs"
      using new by (simp add: it heads_in_order)
    have "loads st k R (load_all (build_step_tree m st False) ?ls (children_of st ?ls i))
        (\<lambda>ts. map bare_step ts = map (\<lambda>x. bare_step (item_step x)) cs)"
      unfolding R' by (rule loads_itemsD)
        (use kids[OF False] part m(2) h1 new False in \<open>simp_all add: it inner_weight_def below_rows_def outside_def bs\<close>)
    then have "loads st k R (and_then (load_all (build_step_tree m st False) ?ls (children_of st ?ls i)) (\<lambda>(ls3, cs).
          Loaded (ls3, Step ((row_data ?r)\<lparr>step_id := Some i, case_info := info, quote_case_info := PNone\<rparr>) cs [] [])))
        (\<lambda>t. bare_step t = bare_step (item_step it))"
      by (rule loads_then) (auto simp: bs intro!: loads_Loaded bare_it)
    then show ?thesis
      unfolding build nb if_not_P[OF False] by (simp add: load_branches_def)
  qed
qed

lemma tree_loads:
  "loads_items fresh st k R i parent bidx items"
  "loads_branches fresh st k R j p b bs"
proof (induction i parent bidx items and j p b bs rule: rows_induct)
  case (items_nil i parent bidx)
  then show ?case by (simp add: loads_items_def loads_Loaded)
next
  case (items_cons i parent bidx it rest)
  show ?case
    unfolding loads_items_def
  proof (intro impI allI)
    fix n ls
    assume a: "list_all (new_item k) (it # rest)" "outside parent i" "part R i (weights (it # rest)) (rows_of fresh i parent bidx (it # rest))"
      "weights (it # rest) \<le> n" "holds st k R ls"
    note p = part_Cons[OF a(3,2)]
    have o: "outside parent (i + int (weight it))" using a(2) by (auto simp: outside_def split: option.splits)
    have "loads st k R (build_step_tree n st False ls (new_row fresh i parent bidx it)) (\<lambda>t. bare_step t = bare_step (item_step it))"
      by (rule build_new_row[OF _ p(1) _ a(5)]) (use a items_cons(1,2) in simp_all)
    moreover have "loads st k R (load_all (build_step_tree n st False) ls' (heads fresh (i + int (weight it)) parent bidx rest))
        (\<lambda>ts. map bare_step ts = map (\<lambda>it. bare_step (item_step it)) rest)" if "holds st k R ls'" for ls'
      by (rule loads_itemsD[OF items_cons(3) _ o p(2) _ that]) (use a in simp_all)
    ultimately show "loads st k R (load_all (build_step_tree n st False) ls (heads fresh i parent bidx (it # rest)))
        (\<lambda>ts. map bare_step ts = map (\<lambda>it. bare_step (item_step it)) (it # rest))"
      unfolding heads.simps by (intro loads_mono[OF loads_Cons]) auto
  qed
next
  case (branch_nil j p b)
  then show ?case by (simp add: loads_branches_def loads_Loaded)
next
  case (branch_cons i p b m cs bs)
  show ?case
    unfolding loads_branches_def
  proof (intro impI allI)
    fix n ls kids
    let ?w = "\<lambda>bs. sum_list (map branch_weight bs)"
    assume a: "list_all (new_branch k) (ItemBranch m cs # bs)" "p < i" "part R i (?w (ItemBranch m cs # bs)) (branch_rows fresh i p b (ItemBranch m cs # bs))"
      "?w (ItemBranch m cs # bs) \<le> n" "holds st k R ls"
      "\<forall>c\<ge>b. filter (\<lambda>r. index_or_0 r = c) kids = child_order (filter (\<lambda>r. index_or_0 r = c) (branch_heads fresh i p b (ItemBranch m cs # bs)))"
    note q = part_branch[OF a(3,2)]
    have mine: "filter (\<lambda>r. index_or_0 r = b) kids = heads fresh i (Some p) (Some b) cs"
      using a(1,6) by (simp add: index_of_heads later_heads branch_order)
    have later: "filter (\<lambda>r. index_or_0 r = c) kids = child_order (filter (\<lambda>r. index_or_0 r = c) (branch_heads fresh (i + int (weights cs)) p (Suc b) bs))"
      if "Suc b \<le> c" for c
      using a(6) that by (simp add: other_heads)
    let ?f = "\<lambda>s (i, m). and_then (load_all (build_step_tree n st False) s (filter (\<lambda>r. index_or_0 r = i) kids))
            (\<lambda>(s1, ts). Loaded (s1, Branch (fst m) (fst (snd m)) (snd (snd m)) ts))"
    have "loads st k R (load_all (build_step_tree n st False) ls (heads fresh i (Some p) (Some b) cs))
        (\<lambda>ts. map bare_step ts = map (\<lambda>it. bare_step (item_step it)) cs)"
      by (rule loads_itemsD[OF branch_cons(1) _ _ q(1) _ a(5)]) (use a in \<open>simp_all add: outside_def\<close>)
    then have "loads st k R (?f ls (b, m)) (\<lambda>t. bare_branch t = bare_branch (item_branch_step (ItemBranch m cs)))"
      unfolding mine prod.case by (rule loads_then) (auto intro: loads_Loaded)
    moreover have "loads st k R (load_all ?f ls' (enumerate (Suc b) (map ib_meta bs)))
        (\<lambda>ts. map bare_branch ts = map (\<lambda>x. bare_branch (item_branch_step x)) bs)" if "holds st k R ls'" for ls'
      using branch_cons(2) a(1,2,4) q(2) that later unfolding loads_branches_def by simp
    ultimately show "loads st k R (load_all ?f ls (enumerate b (map ib_meta (ItemBranch m cs # bs))))
        (\<lambda>ts. map bare_branch ts = map (\<lambda>x. bare_branch (item_branch_step x)) (ItemBranch m cs # bs))"
      unfolding list.map item_branch.sel enumerate_simps by (intro loads_mono[OF loads_Cons]) auto
  qed
qed

section \<open>Saving the rows\<close>

primrec tree_numbers :: "item \<Rightarrow> int option list" and branch_numbers :: "item_branch \<Rightarrow> int option list" where
  "tree_numbers (Item d ix gs ns cs bs) =
     step_no d # (if step_type d = Some COND_BRANCH \<and> bs \<noteq> [] then concat (map branch_numbers bs) else concat (map tree_numbers cs))"
| "branch_numbers (ItemBranch m cs) = concat (map tree_numbers cs)"

lemma tree_numbers_unfold: "tree_numbers it = step_no (it_data it) #
    (if step_type (it_data it) = Some COND_BRANCH \<and> it_branches it \<noteq> [] then concat (map branch_numbers (it_branches it))
     else concat (map tree_numbers (it_children it)))"
  by (cases it) simp

declare tree_numbers.simps [simp del]

lemma rows_of_numbers:
  "map (\<lambda>r. step_no (row_data r)) (rows_of fresh i parent bidx items) = concat (map tree_numbers items)"
  "map (\<lambda>r. step_no (row_data r)) (branch_rows fresh j p b bs) = concat (map branch_numbers bs)"
proof (induction i parent bidx items and j p b bs rule: rows_induct)
  case (items_cons i parent bidx it rest)
  then show ?case by (simp add: rows_of_Cons below_rows_def tree_numbers_unfold[of it])
qed simp_all

lemma new_item_data: "new_item k it \<Longrightarrow> new_data k (it_data it)"
  by (cases it) simp

lemma new_item_below:
  "new_item k it \<Longrightarrow> list_all (new_item k) (it_children it) \<and> list_all (new_branch k) (it_branches it)"
  by (cases it) simp

lemma rows_of_case:
  "list_all (new_item k) items \<longrightarrow> (\<forall>r \<in> set (rows_of fresh i parent bidx items). row_case r = Some k \<and> \<not> row_removed r)"
  "list_all (new_branch k) bs \<longrightarrow> (\<forall>r \<in> set (branch_rows fresh j p b bs). row_case r = Some k \<and> \<not> row_removed r)"
proof (induction i parent bidx items and j p b bs rule: rows_induct)
  case (items_cons i parent bidx it rest)
  then show ?case
    using new_item_data[of k it] new_item_below[of k it]
    by (auto simp: rows_of_Cons below_rows_def new_data_def split: if_splits)
qed auto

lemma number_taken_mem:
  "number_taken st (Some k) n \<longleftrightarrow> n \<in> set (map (\<lambda>r. step_no (row_data r)) (filter (\<lambda>r. row_case r = Some k \<and> \<not> row_removed r) (st_steps st)))"
  by (auto simp: number_taken_def list_ex_iff)

lemma find_case_steps: "get_case (st\<lparr>st_steps := rs, st_next := n\<rparr>) k = get_case st k"
  by (simp add: get_case_def)

text \<open>The numbers of the tree are free in the store and do not repeat.\<close>

definition free_numbers :: "store \<Rightarrow> int \<Rightarrow> int option list \<Rightarrow> bool" where
  "free_numbers st k ns = (distinct ns \<and> (\<forall>n \<in> set ns. \<not> number_taken st (Some k) n))"

lemma free_numbers_after:
  assumes "free_numbers st k (xs @ ys)" "map (\<lambda>r. step_no (row_data r)) rs = xs"
  shows "free_numbers (st\<lparr>st_steps := st_steps st @ rs, st_next := n\<rparr>) k ys"
proof -
  have "set xs = (\<lambda>r. step_no (row_data r)) ` set rs" using assms(2) by (metis list.set_map)
  then show ?thesis using assms(1) unfolding free_numbers_def number_taken_mem by auto
qed

definition parent_handed :: "int \<Rightarrow> int option \<Rightarrow> step_row option \<Rightarrow> bool" where
  "parent_handed k parent pinst = (case parent of None \<Rightarrow> True
     | Some p \<Rightarrow> (\<exists>r. pinst = Some r \<and> row_id r = p \<and> row_case r = Some k \<and> container r))"

lemma save_one_new:
  assumes "new_item k it" "k \<noteq> 0" "get_case st k \<noteq> None" "\<not> number_taken st (Some k) (step_no (it_data it))" "parent_handed k parent pinst"
  shows "save_one fresh parent bidx pinst it st =
    Inr (add_row (new_row fresh (st_next st) parent bidx it) st, new_row fresh (st_next st) parent bidx it, True, parent, Some k)"
proof -
  have d: "new_data k (it_data it)" using assms(1) by (rule new_item_data)
  have "new_parent_problem st pinst parent (Some k) = None"
    using assms(5) by (auto simp: new_parent_problem_def parent_handed_def parent_row_def truthy_id_def split: option.splits)
  moreover obtain c where "get_case st k = Some c" using assms(3) by blast
  moreover have "(if parent \<noteq> None then parent else parent_step_id (it_data it)) = parent" using d by (simp add: new_data_def)
  moreover have "locate st it = Inr Fresh" using d by (simp add: locate_def new_data_def Let_def)
  moreover have "truthy_id (Some k)" using assms(2) by (simp add: truthy_id_def)
  ultimately show ?thesis
    using d assms(4) by (auto simp: save_one_def new_data_def create_one_def Let_def own_source_def)
qed

lemma note_step_has: "map_of (process_detail (note_step c r sm)) (row_case r) \<noteq> None"
  by (simp add: note_step_def update_conv')

lemma merge_result_ok:
  assumes "map_of (process_detail sm) k \<noteq> None"
  shows "\<exists>sm'. merge_result k below sm = Inr sm' \<and> map_of (process_detail sm') k \<noteq> None"
  using assms by (auto simp: merge_result_def update_conv')

definition grown :: "store \<Rightarrow> step_row list \<Rightarrow> int \<Rightarrow> store" where
  "grown st rs n = st\<lparr>st_steps := st_steps st @ rs, st_next := n\<rparr>"

lemma grown_grown: "grown (grown st rs n) rs' n' = grown st (rs @ rs') n'"
  by (simp add: grown_def)

lemma grown_simps [simp]: "st_next (grown st rs n) = n" "get_case (grown st rs n) k = get_case st k"
  by (simp_all add: grown_def get_case_def)

definition saves_items :: "(int \<Rightarrow> string) \<Rightarrow> int \<Rightarrow> int \<Rightarrow> int option \<Rightarrow> nat option \<Rightarrow> item list \<Rightarrow> bool" where
  "saves_items fresh k i parent bidx items =
     (list_all (new_item k) items \<longrightarrow> (\<forall>st sm pinst. st_next st = i \<longrightarrow> get_case st k \<noteq> None \<longrightarrow>
        free_numbers st k (concat (map tree_numbers items)) \<longrightarrow> parent_handed k parent pinst \<longrightarrow>
        (\<exists>sm'. save_steps fresh parent bidx pinst items st sm =
            Inr (grown st (rows_of fresh i parent bidx items) (i + int (weights items)), sm'))))"

definition saves_branches :: "(int \<Rightarrow> string) \<Rightarrow> int \<Rightarrow> int \<Rightarrow> int \<Rightarrow> nat \<Rightarrow> item_branch list \<Rightarrow> bool" where
  "saves_branches fresh k j p b bs =
     (list_all (new_branch k) bs \<longrightarrow> (\<forall>st sm r. st_next st = j \<longrightarrow> get_case st k \<noteq> None \<longrightarrow>
        free_numbers st k (concat (map branch_numbers bs)) \<longrightarrow> parent_handed k (Some p) (Some r) \<longrightarrow>
        map_of (process_detail sm) (Some k) \<noteq> None \<longrightarrow>
        (\<exists>sm'. save_branches fresh r (Some k) b bs st sm =
            Inr (grown st (branch_rows fresh j p b bs) (j + int (sum_list (map branch_weight bs))), sm'))))"

lemma saves_itemsD:
  assumes "saves_items fresh k i parent bidx items" "list_all (new_item k) items" "st_next st = i" "get_case st k \<noteq> None"
    "free_numbers st k (concat (map tree_numbers items))" "parent_handed k parent pinst"
  obtains sm' where "save_steps fresh parent bidx pinst items st sm =
      Inr (grown st (rows_of fresh i parent bidx items) (i + int (weights items)), sm')"
  using assms(1)[unfolded saves_items_def, rule_format, OF assms(2-6)] that by blast

lemma saves_branchesD:
  assumes "saves_branches fresh k j p b bs" "list_all (new_branch k) bs" "st_next st = j" "get_case st k \<noteq> None"
    "free_numbers st k (concat (map branch_numbers bs))" "parent_handed k (Some p) (Some r)" "map_of (process_detail sm) (Some k) \<noteq> None"
  obtains sm' where "save_branches fresh r (Some k) b bs st sm =
      Inr (grown st (branch_rows fresh j p b bs) (j + int (sum_list (map branch_weight bs))), sm')"
  using assms(1)[unfolded saves_branches_def, rule_format, OF assms(2-7)] that by blast

lemma grown_add: "add_row r st = grown st [r] (st_next st + 1)"
  by (simp add: add_row_def grown_def)

lemma free_numbers_grown:
  "free_numbers st k (xs @ ys) \<Longrightarrow> map (\<lambda>r. step_no (row_data r)) rs = xs \<Longrightarrow> free_numbers (grown st rs n) k ys"
  unfolding grown_def by (rule free_numbers_after)

lemma parent_handed_row: "new_item k it \<Longrightarrow> it_children it \<noteq> [] \<or> it_branches it \<noteq> [] \<Longrightarrow>
    parent_handed k (Some i) (Some (new_row fresh i parent bidx it))"
  by (cases it) (auto simp: parent_handed_def container_def new_data_def)

lemma free_numbers_part: "free_numbers st k (xs @ ys) \<Longrightarrow> free_numbers st k xs"
  by (simp add: free_numbers_def)

lemma tree_saves:
  "k \<noteq> 0 \<Longrightarrow> saves_items fresh k i parent bidx items"
  "k \<noteq> 0 \<Longrightarrow> saves_branches fresh k j p b bs"
proof (induction i parent bidx items and j p b bs rule: rows_induct)
  case (items_cons i parent bidx it rest)
  show ?case
    unfolding saves_items_def
  proof (intro impI allI)
    fix st sm pinst
    assume new: "list_all (new_item k) (it # rest)" and i: "st_next st = i" and k: "get_case st k \<noteq> None"
      and free: "free_numbers st k (concat (map tree_numbers (it # rest)))" and parent: "parent_handed k parent pinst"
    obtain d ix gs ns cs bs where it: "it = Item d ix gs ns cs bs" by (cases it)
    let ?r = "new_row fresh i parent bidx it" and ?by = "step_type d = Some COND_BRANCH \<and> bs \<noteq> []"
    let ?below = "if ?by then concat (map branch_numbers bs) else concat (map tree_numbers cs)"
    have free': "free_numbers st k ((step_no d # ?below) @ concat (map tree_numbers rest))"
      using free by (simp add: it tree_numbers.simps)
    have "\<not> number_taken st (Some k) (step_no (it_data it))" using free' by (simp add: free_numbers_def it)
    then have one: "save_one fresh parent bidx pinst it st = Inr (grown st [?r] (i + 1), ?r, True, parent, Some k)"
      using save_one_new[of k it st parent pinst fresh bidx] new items_cons.prems k parent i by (simp add: grown_add)
    have "free_numbers st k ([step_no d] @ ?below)"
      by (rule free_numbers_part[of _ _ _ "concat (map tree_numbers rest)"]) (use free' in simp)
    then have fb: "free_numbers (grown st [?r] (i + 1)) k ?below" by (rule free_numbers_grown) (simp add: it)
    define sm1 where "sm1 = note_step True ?r sm"
    have key: "map_of (process_detail sm1) (Some k) \<noteq> None"
      using note_step_has[of True ?r sm] new new_item_data[of k it] by (simp add: sm1_def new_data_def)
    have here: "new_item k (Item d ix gs ns cs bs)" using new by (simp add: it)
    have below: "\<exists>sm3. (if ?by then save_branches fresh ?r (Some k) 0 bs (grown st [?r] (i + 1)) sm1
         else if cs \<noteq> [] then (case save_steps fresh (Some (row_id ?r)) None (Some ?r) cs (grown st [?r] (i + 1)) no_summary of
              Inl e \<Rightarrow> Inl e
            | Inr (st2, below) \<Rightarrow> (case merge_result (Some k) below sm1 of Inl e \<Rightarrow> Inl e | Inr sm2 \<Rightarrow> Inr (st2, sm2)))
         else Inr (grown st [?r] (i + 1), sm1)) =
         Inr (grown st (?r # below_rows fresh i it) (i + int (weight it)), sm3)"
    proof (cases ?by)
      case True
      have "new_item k it" using here by (simp only: it)
      then have ph: "parent_handed k (Some i) (Some ?r)" by (rule parent_handed_row) (use True in \<open>simp add: it\<close>)
      from items_cons(1) True items_cons.prems have "saves_branches fresh k (i + 1) i 0 bs" by (simp add: it)
      then obtain sm2 where "save_branches fresh ?r (Some k) 0 bs (grown st [?r] (i + 1)) sm1 =
          Inr (grown (grown st [?r] (i + 1)) (branch_rows fresh (i + 1) i 0 bs) (i + 1 + int (sum_list (map branch_weight bs))), sm2)"
        by (rule saves_branchesD[where st = "grown st [?r] (i + 1)" and sm = sm1]) (use here True fb ph key k in simp_all)
      with True show ?thesis by (simp add: grown_grown below_rows_def it weight.simps ac_simps)
    next
      case False
      show ?thesis
      proof (cases "cs = []")
        case True
        with False here show ?thesis by (auto simp: below_rows_def it weight.simps)
      next
        case cs: False
        have "new_item k it" using here by (simp only: it)
        then have ph: "parent_handed k (Some i) (Some ?r)" by (rule parent_handed_row) (use cs in \<open>simp add: it\<close>)
        from items_cons(2) False items_cons.prems have "saves_items fresh k (i + 1) (Some i) None cs" by (simp add: it)
        then obtain sm2 where sm2: "save_steps fresh (Some i) None (Some ?r) cs (grown st [?r] (i + 1)) no_summary =
            Inr (grown (grown st [?r] (i + 1)) (rows_of fresh (i + 1) (Some i) None cs) (i + 1 + int (weights cs)), sm2)"
          by (rule saves_itemsD[where st = "grown st [?r] (i + 1)" and sm = no_summary, OF _ _ _ _ fb[unfolded if_not_P[OF False]] ph])
            (use here k in simp_all)
        obtain sm3 where "merge_result (Some k) sm2 sm1 = Inr sm3" using merge_result_ok[OF key] by blast
        with sm2 False cs show ?thesis by (auto simp: grown_grown below_rows_def it weight.simps ac_simps)
      qed
    qed
    moreover have step: "save_steps fresh parent bidx pinst (it # rest) st sm =
        (case (if ?by then save_branches fresh ?r (Some k) 0 bs (grown st [?r] (i + 1)) sm1
         else if cs \<noteq> [] then (case save_steps fresh (Some (row_id ?r)) None (Some ?r) cs (grown st [?r] (i + 1)) no_summary of
              Inl e \<Rightarrow> Inl e
            | Inr (st2, below) \<Rightarrow> (case merge_result (Some k) below sm1 of Inl e \<Rightarrow> Inl e | Inr sm2 \<Rightarrow> Inr (st2, sm2)))
         else Inr (grown st [?r] (i + 1), sm1)) of Inl e \<Rightarrow> Inl e
         | Inr (st3, sm3) \<Rightarrow> save_steps fresh parent bidx pinst rest st3 sm3)"
      unfolding sm1_def by (simp only: it save_steps.simps one[unfolded it] sum.case prod.case Let_def if_True)
    ultimately obtain sm3 where sm3: "save_steps fresh parent bidx pinst (it # rest) st sm =
        save_steps fresh parent bidx pinst rest (grown st (?r # below_rows fresh i it) (i + int (weight it))) sm3"
      by auto
    have "map (\<lambda>r. step_no (row_data r)) (below_rows fresh i it) = ?below"
      using rows_of_numbers by (simp add: below_rows_def it)
    then have fr: "free_numbers (grown st (?r # below_rows fresh i it) (i + int (weight it))) k (concat (map tree_numbers rest))"
      by (intro free_numbers_grown[OF free']) (simp add: it)
    from items_cons(3)[OF items_cons.prems] obtain sm' where
      "save_steps fresh parent bidx pinst rest (grown st (?r # below_rows fresh i it) (i + int (weight it))) sm3 =
        Inr (grown (grown st (?r # below_rows fresh i it) (i + int (weight it)))
          (rows_of fresh (i + int (weight it)) parent bidx rest) (i + int (weight it) + int (weights rest)), sm')"
      by (rule saves_itemsD[where st = "grown st (?r # below_rows fresh i it) (i + int (weight it))" and sm = sm3 and pinst = pinst])
        (use new fr k parent in simp_all)
    then show "\<exists>sm'. save_steps fresh parent bidx pinst (it # rest) st sm =
        Inr (grown st (rows_of fresh i parent bidx (it # rest)) (i + int (weights (it # rest))), sm')"
      using sm3 by (simp add: rows_of_Cons grown_grown add.assoc)
  qed
next
  case (branch_cons i p b m cs bs)
  show ?case
    unfolding saves_branches_def
  proof (intro impI allI)
    fix st and sm :: summary and r
    assume a: "list_all (new_branch k) (ItemBranch m cs # bs)" "st_next st = i" "get_case st k \<noteq> None"
      "free_numbers st k (concat (map branch_numbers (ItemBranch m cs # bs)))" "parent_handed k (Some p) (Some r)"
      "map_of (process_detail sm) (Some k) \<noteq> None"
    have p: "row_id r = p" using a(5) by (simp add: parent_handed_def)
    have f1: "free_numbers st k (concat (map tree_numbers cs))" using a(4) by (auto intro: free_numbers_part)
    have f2: "free_numbers (grown st (rows_of fresh i (Some p) (Some b) cs) n) k (concat (map branch_numbers bs))" for n
      by (rule free_numbers_grown[of _ _ "concat (map tree_numbers cs)"]) (use a(4) in \<open>simp_all add: rows_of_numbers\<close>)
    have rest: "\<exists>sm'. save_branches fresh r (Some k) (Suc b) bs (grown st (rows_of fresh i (Some p) (Some b) cs) (i + int (weights cs))) sm2 =
        Inr (grown (grown st (rows_of fresh i (Some p) (Some b) cs) (i + int (weights cs))) (branch_rows fresh (i + int (weights cs)) p (Suc b) bs)
          (i + int (weights cs) + int (sum_list (map branch_weight bs))), sm')" if "map_of (process_detail sm2) (Some k) \<noteq> None" for sm2
      by (rule saves_branchesD[OF branch_cons(2)[OF branch_cons.prems], of "grown st (rows_of fresh i (Some p) (Some b) cs) (i + int (weights cs))" r sm2])
        (use a(1,3,5) f2 that in auto)
    obtain sm2 where sm2: "save_steps fresh (Some p) (Some b) (Some r) cs st no_summary =
        Inr (grown st (rows_of fresh i (Some p) (Some b) cs) (i + int (weights cs)), sm2)"
      by (rule saves_itemsD[OF branch_cons(1)[OF branch_cons.prems], of st "Some r" no_summary]) (use a(1-3,5) f1 in auto)
    obtain sm3 where sm3: "merge_result (Some k) sm2 sm = Inr sm3" "map_of (process_detail sm3) (Some k) \<noteq> None"
      using merge_result_ok[OF a(6)] by blast
    show "\<exists>sm'. save_branches fresh r (Some k) b (ItemBranch m cs # bs) st sm =
        Inr (grown st (branch_rows fresh i p b (ItemBranch m cs # bs)) (i + int (sum_list (map branch_weight (ItemBranch m cs # bs)))), sm')"
    proof (cases "cs = []")
      case True
      then show ?thesis using rest[OF a(6)] a(2) by (auto simp: grown_def)
    next
      case False
      then show ?thesis using rest[OF sm3(2)] sm2 sm3(1) p by (auto simp: grown_grown add.assoc)
    qed
  qed
qed (auto simp: saves_items_def saves_branches_def grown_def)

section \<open>There and back\<close>

lemma rows_of_roots:
  "filter (\<lambda>r. row_parent r = None) (rows_of fresh i parent bidx items) = (if parent = None then heads fresh i parent bidx items else [])"
  "filter (\<lambda>r. row_parent r = None) (branch_rows fresh j p b bs) = []"
proof (induction i parent bidx items and j p b bs rule: rows_induct)
  case (items_cons i parent bidx it rest)
  then have "filter (\<lambda>r. row_parent r = None) (below_rows fresh i it) = []" by (auto simp: below_rows_def)
  with items_cons(3) show ?case by (auto simp: rows_of_Cons)
qed auto



text \<open>A loop with a condition step of number 2 before a wait of number 3: the wait is loaded first.\<close>

theorem condition_child_moves_last:
  "case batch_update_or_create_steps int_str [new_step 1 LOOP [new_step 2 COND_BRANCH [], new_step 3 WAIT []]] (sample_store\<lparr>st_steps := []\<rparr>) of
     Inl e \<Rightarrow> False
   | Inr (st', sm) \<Rightarrow> (case get_case_tree 9 st' 5 of
       Loaded (ls, ts) \<Rightarrow> map (\<lambda>s. (step_no (sdata s), map (\<lambda>x. step_no (sdata x)) (children s))) ts = [(Some 1, [Some 3, Some 2])]
     | _ \<Rightarrow> False)"
  by code_simp

end
