(* ===== verification/StoreRules.thy ===== *)
theory StoreRules
  imports StoreSamples
begin

text \<open>
  What saving steps keeps of the table, and what it does against its intent: the check of step numbers, the
  parent that is handed on, and the steps a submission no longer has.
\<close>

section \<open>Keys, codes and parents\<close>

text \<open>Keys do not repeat and lie below the next one; the code of a step is the one made for its key.\<close>

definition store_ok :: "(int \<Rightarrow> string) \<Rightarrow> store \<Rightarrow> bool" where
  "store_ok fresh st = (distinct (map row_id (st_steps st)) \<and> (\<forall>r \<in> set (st_steps st). row_id r < st_next st \<and> row_code r = fresh (row_id r)))"

lemma update_row_keeps [simp]: "row_id (update_row parent bidx it r) = row_id r" "row_code (update_row parent bidx it r) = row_code r"
  "row_removed (update_row parent bidx it r) = row_removed r"
  by (simp_all add: update_row_def row_code_def update_columns_def update_logic_columns_def update_request_columns_def Let_def)

lemma new_row_keys [simp]: "row_id (new_row fresh i p b it) = i" "row_code (new_row fresh i p b it) = fresh i"
  by (simp_all add: new_row_def row_code_def Let_def)

lemma put_row_ok: "store_ok fresh st \<Longrightarrow> row_code r = fresh (row_id r) \<Longrightarrow> store_ok fresh (put_row r st)"
  by (auto simp: store_ok_def put_row_def comp_def if_distrib cong: if_cong)

lemma add_row_ok: "store_ok fresh st \<Longrightarrow> row_id r = st_next st \<Longrightarrow> row_code r = fresh (row_id r) \<Longrightarrow> store_ok fresh (add_row r st)"
  by (auto simp: store_ok_def add_row_def)

lemma fewer_rows_ok: "store_ok fresh st \<Longrightarrow> store_ok fresh (st\<lparr>st_steps := filter P (st_steps st)\<rparr>)"
  by (auto simp: store_ok_def distinct_map_filter)

lemma delete_sources_ok [simp]: "store_ok fresh (delete_sources codes st) = store_ok fresh st"
  by (simp add: store_ok_def delete_sources_def)

lemma copy_source_ok: "copy_data_source_for_step st k kc i c s = (st', n) \<Longrightarrow> store_ok fresh st' = store_ok fresh st"
  by (auto simp: copy_data_source_for_step_def store_ok_def split: if_splits option.splits)

lemma own_source_ok:
  "own_source kc r st = (st', r') \<Longrightarrow> store_ok fresh st \<Longrightarrow> row_code r = fresh (row_id r) \<Longrightarrow> store_ok fresh st' \<and> row_id r' = row_id r"
  by (auto simp: own_source_def Let_def row_code_def copy_source_ok intro!: put_row_ok split: if_splits prod.splits)

lemma create_one_ok: "create_one fresh parent bidx pinst it st = Inr (st', r) \<Longrightarrow> store_ok fresh st \<Longrightarrow> store_ok fresh st'"
  unfolding create_one_def Let_def
  by (auto split: if_splits option.splits dest!: own_source_ok[where fresh = fresh] intro: add_row_ok)

lemma update_one_put: "update_one parent bidx pinst it old st = Inr (st', r, p, k) \<Longrightarrow>
    r = update_row parent bidx it old \<and> st' = put_row r st"
  unfolding update_one_def Let_def by (auto split: if_splits option.splits)

lemma locate_stored: "locate st it = Inr (Stored old) \<Longrightarrow> old \<in> set (st_steps st) \<and> \<not> row_removed old"
  unfolding locate_def Let_def get_step_by_id_def get_step_by_code_def
  by (auto simp: find_Some_iff split: if_splits option.splits)

lemma save_one_ok:
  assumes "save_one fresh parent bidx pinst it st = Inr (st', r, c, p, k)" "store_ok fresh st"
  shows "store_ok fresh st'"
proof (cases "locate st it")
  case (Inr l)
  show ?thesis
  proof (cases l)
    case (Stored old)
    then have "row_code old = fresh (row_id old)" using Inr locate_stored assms(2) by (auto simp: store_ok_def)
    with assms Inr Stored show ?thesis
      by (auto simp: save_one_def intro!: put_row_ok dest!: update_one_put split: sum.splits)
  next
    case Fresh
    with assms Inr show ?thesis by (auto simp: save_one_def intro: create_one_ok split: sum.splits)
  qed
qed (use assms in \<open>simp add: save_one_def\<close>)

lemma drop_stale_ok: "store_ok fresh st \<Longrightarrow> store_ok fresh (drop_stale i it st)"
  by (simp add: drop_stale_def Let_def fewer_rows_ok)

lemma drop_missing_ok: "store_ok fresh st \<Longrightarrow> store_ok fresh (drop_missing k codes st)"
  by (simp add: drop_missing_def Let_def fewer_rows_ok)

lemma save_steps_ok:
  "save_steps fresh parent bidx pinst items st sm = Inr (st', sm') \<Longrightarrow> store_ok fresh st \<Longrightarrow> store_ok fresh st'"
  "save_branches fresh r k i bs st sm = Inr (st', sm') \<Longrightarrow> store_ok fresh st \<Longrightarrow> store_ok fresh st'"
proof (induction fresh parent bidx pinst items st sm and fresh r k i bs st sm arbitrary: st' sm' and st' sm' rule: save_steps_save_branches.induct)
  case (2 fresh parent bidx pinst d ix gs ns cs bs rest st sm)
  obtain st1 r c p k where one: "save_one fresh parent bidx pinst (Item d ix gs ns cs bs) st = Inr (st1, r, c, p, k)"
    using "2.prems"(1) by (auto split: sum.splits prod.splits)
  have ok1: "store_ok fresh st1" by (rule save_one_ok[OF one "2.prems"(2)])
  let ?m = "if step_type d = Some COND_BRANCH \<and> bs \<noteq> [] then
                   save_branches fresh r k 0 bs (if c then st1 else drop_stale (row_id r) (Item d ix gs ns cs bs) st1) (note_step c r sm)
                 else if cs \<noteq> [] then
                   (case save_steps fresh (Some (row_id r)) None (Some r) cs st1 no_summary of
                      Inl e \<Rightarrow> Inl e
                    | Inr (st2, below) \<Rightarrow> (case merge_result k below (note_step c r sm) of Inl e \<Rightarrow> Inl e | Inr sm2 \<Rightarrow> Inr (st2, sm2)))
                 else Inr (st1, note_step c r sm)"
  obtain st3 sm3 where m: "?m = Inr (st3, sm3)" "save_steps fresh p bidx pinst rest st3 sm3 = Inr (st', sm')"
    using "2.prems"(1) by (auto simp: one Let_def split: sum.splits prod.splits)
  have "store_ok fresh st3"
    using m(1) "2.IH"(1,2)[OF one refl refl refl refl refl] ok1 drop_stale_ok by (auto split: if_splits sum.splits)
  with "2.IH"(3)[OF one refl refl refl refl refl m(1)] m(2) show ?case by auto
next
  case (4 fresh r k i m cs bs st sm)
  then show ?case by (auto split: if_splits sum.splits prod.splits)
qed auto

lemma saving_keeps_keys:
  assumes "save_tree fresh k items st = Inr (st', sm)" "store_ok fresh st"
  shows "store_ok fresh st'"
proof -
  have drop: "store_ok fresh s \<Longrightarrow> store_ok fresh (fold (\<lambda>(c, codes). drop_missing c codes) ps s)" for s ps
    by (induction ps arbitrary: s) (auto simp: drop_missing_ok)
  have all: "store_ok fresh s \<Longrightarrow> store_ok fresh (drop_all k s)" for s
    by (simp add: drop_all_def fewer_rows_ok)
  show ?thesis
    using assms by (auto simp: save_tree_def batch_update_or_create_steps_def drop all
        dest!: save_steps_ok(1) split: option.splits sum.splits if_splits)
qed

text \<open>The parent relation of the steps in use.\<close>

definition parents :: "step_row list \<Rightarrow> (int \<times> int) set" where
  "parents rows = {(row_id r, p) | r p. r \<in> set rows \<and> \<not> row_removed r \<and> row_parent r = Some p \<and> p \<noteq> 0}"

lemma parents_filter:
  "(x, y) \<in> parents rows \<Longrightarrow> x \<noteq> c \<Longrightarrow> (x, y) \<in> parents (filter (\<lambda>r. row_id r \<noteq> c) rows)"
  by (auto simp: parents_def)

lemma find_row:
  assumes "distinct (map row_id rows)" "r \<in> set rows" "\<not> row_removed r"
  shows "find (\<lambda>x. row_id x = row_id r \<and> \<not> row_removed x) rows = Some r"
  using assms by (induction rows) (auto simp: image_iff)

text \<open>Without cycles the walk finds every ancestor, although it takes the rows out on its way.\<close>

lemma ancestor_found:
  assumes "(c, t) \<in> (parents rows)\<^sup>*" "acyclic (parents rows)" "distinct (map row_id rows)" "c \<noteq> 0"
  shows "ancestor_hits rows t (Some c)"
  using assms
proof (induction "length rows" arbitrary: rows c rule: less_induct)
  case less
  show ?case
  proof (cases "c = t")
    case True
    with less.prems(4) show ?thesis by (subst ancestor_hits.simps) (simp add: truthy_id_def)
  next
    case False
    then obtain p where p: "(c, p) \<in> parents rows" "(p, t) \<in> (parents rows)\<^sup>*"
      using less.prems(1) by (metis converse_rtranclE)
    then obtain r where r: "r \<in> set rows" "\<not> row_removed r" "row_id r = c" "row_parent r = Some p" "p \<noteq> 0"
      by (auto simp: parents_def)
    let ?rest = "filter (\<lambda>x. row_id x \<noteq> c) rows"
    have "(p, x) \<in> (parents rows)\<^sup>* \<Longrightarrow> (p, x) \<in> (parents ?rest)\<^sup>*" for x
    proof (induction rule: rtrancl_induct)
      case (step y z)
      have "y \<noteq> c"
      proof
        assume "y = c"
        with step(1) p(1) have "(c, c) \<in> (parents rows)\<^sup>+" by (metis rtrancl_into_trancl2)
        with less.prems(2) show False by (simp add: acyclic_def)
      qed
      with step(2) have "(y, z) \<in> parents ?rest" by (rule parents_filter)
      with step(3) show ?case by simp
    qed simp
    with p(2) have "(p, t) \<in> (parents ?rest)\<^sup>*" by blast
    moreover have "parents ?rest \<subseteq> parents rows" by (auto simp: parents_def)
    then have "acyclic (parents ?rest)" using less.prems(2) acyclic_subset by blast
    moreover have "length ?rest < length rows" using r by (intro length_filter_less) auto
    ultimately have "ancestor_hits ?rest t (Some p)"
      using less.hyps[of ?rest p] less.prems(3) r(5) by (simp add: distinct_map_filter)
    then show ?thesis
      using find_row[OF less.prems(3) r(1,2)] r False less.prems(4)
      by (subst ancestor_hits.simps) (simp add: truthy_id_def)
  qed
qed

text \<open>
  C6. An update of a step on the top level of a submission, where no parent's row is handed down, never makes a
  step its own ancestor, whatever parent it asks for: when it is accepted and the stored steps had no cycle, neither
  have they after it. For the steps below another one this is false, as the next theorem shows.
\<close>

theorem update_closes_no_cycle:
  assumes "update_one parent bidx None it old st = Inr (st', r, p, k)" "locate st it = Inr (Stored old)"
    and "store_ok fresh st" "acyclic (parents (st_steps st))"
  shows "acyclic (parents (st_steps st'))"
proof -
  have old: "old \<in> set (st_steps st)" "\<not> row_removed old" using locate_stored[OF assms(2)] by simp_all
  have dist: "distinct (map row_id (st_steps st))" using assms(3) by (simp add: store_ok_def)
  from update_one_put[OF assms(1)] have r: "r = update_row parent bidx it old" and st': "st' = put_row r st" by simp_all
  have same: "x = old" if "x \<in> set (st_steps st)" "row_id x = row_id old" for x
    using dist that old(1) by (metis distinct_map inj_onD)
  have sub: "parents (st_steps st') \<subseteq> {(row_id old, q) | q. row_parent r = Some q \<and> q \<noteq> 0} \<union> {e \<in> parents (st_steps st). fst e \<noteq> row_id old}"
    unfolding st' r by (auto simp: parents_def put_row_def)
  have par: "row_parent r = (case parent_update parent it of None \<Rightarrow> row_parent old | Some q \<Rightarrow> q)"
    by (simp add: r update_row_def Let_def)
  show ?thesis
  proof (cases "\<exists>q. parent_update parent it = Some (Some q) \<and> q \<noteq> 0")
    case False
    then have "parents (st_steps st') \<subseteq> parents (st_steps st)"
      using sub old par by (auto simp: parents_def split: option.splits) blast+
    with assms(4) show ?thesis by (rule acyclic_subset)
  next
    case True
    then obtain q where q: "parent_update parent it = Some (Some q)" "q \<noteq> 0" by blast
    then have "old_parent_problem st None (row_id old) q (row_case r) = None"
      using assms(1) unfolding update_one_def by (auto simp: Let_def truthy_id_def r split: if_splits option.splits)
    then obtain pr where pr: "get_step_by_id st q = Some pr" "row_id pr \<noteq> row_id old" "\<not> ancestor_hits (st_steps st) (row_id old) (row_parent pr)"
      by (auto simp: old_parent_problem_def parent_row_def split: option.splits if_splits)
    then have prow: "pr \<in> set (st_steps st)" "row_id pr = q" "\<not> row_removed pr" by (auto simp: get_step_by_id_def find_Some_iff)
    have "(q, row_id old) \<notin> (parents (st_steps st))\<^sup>*"
    proof
      assume "(q, row_id old) \<in> (parents (st_steps st))\<^sup>*"
      then obtain z where z: "(q, z) \<in> parents (st_steps st)" "(z, row_id old) \<in> (parents (st_steps st))\<^sup>*"
        using pr(2) prow(2) by (metis converse_rtranclE)
      have "z \<noteq> 0" "row_parent pr = Some z"
        using z(1) dist prow by (auto simp: parents_def) (metis distinct_map inj_onD option.inject)
      with ancestor_found[OF z(2) assms(4) dist] pr(3) show False by simp
    qed
    then have "acyclic (insert (row_id old, q) (parents (st_steps st)))" using assms(4) by (simp add: acyclic_insert)
    moreover have "parents (st_steps st') \<subseteq> insert (row_id old, q) (parents (st_steps st))" using sub q par by auto
    ultimately show ?thesis using acyclic_subset by blast
  qed
qed

theorem update_closes_no_cycle_witness:
  "\<exists>st' r p k. update_one None None None (move_step 1 2) (stored_row 1 1 WAIT) sample_store = Inr (st', r, p, k) \<and> acyclic (parents (st_steps st'))"
proof -
  let ?m = "update_one None None None (move_step 1 2) (stored_row 1 1 WAIT) sample_store"
  have "(case ?m of Inl e \<Rightarrow> False | Inr x \<Rightarrow> True)" by code_simp
  then obtain st' r p k where m: "?m = Inr (st', r, p, k)" by (cases ?m) auto
  have "locate sample_store (move_step 1 2) = Inr (Stored (stored_row 1 1 WAIT))"
    by (simp add: move_step_def sample_store_def stored_row_def locate_def get_step_by_id_def truthy_id_def blank_data_def)
  moreover have "store_ok int_str sample_store" by (simp add: store_ok_def sample_store_def stored_row_def row_code_def)
  moreover have "parents (st_steps sample_store) = {}" by (auto simp: parents_def sample_store_def stored_row_def blank_data_def)
  ultimately show ?thesis using update_closes_no_cycle[OF m] m by (metis acyclic_def empty_iff trancl_empty)
qed

lemma parents_iff:
  "(x, y) \<in> parents rows \<longleftrightarrow> (\<exists>r \<in> set rows. row_id r = x \<and> \<not> row_removed r \<and> row_parent r = Some y \<and> y \<noteq> 0)"
  by (auto simp: parents_def)

lemma parents_put:
  assumes "distinct (map row_id (st_steps st))" "old \<in> set (st_steps st)" "\<not> row_removed old" "row_id r = row_id old"
    and "\<not> row_removed r" "row_parent r = Some p" "p \<noteq> 0"
  shows "(row_id old, p) \<in> parents (st_steps (put_row r st))"
    and "(x, y) \<in> parents (st_steps st) \<Longrightarrow> x \<noteq> row_id old \<Longrightarrow> (x, y) \<in> parents (st_steps (put_row r st))"
proof -
  have "r \<in> set (st_steps (put_row r st))" using assms(2,4) by (force simp: put_row_def)
  then show "(row_id old, p) \<in> parents (st_steps (put_row r st))"
    unfolding parents_iff using assms(4-7) by auto
  assume "(x, y) \<in> parents (st_steps st)" "x \<noteq> row_id old"
  then obtain z where "z \<in> set (st_steps st)" "row_id z = x" "\<not> row_removed z" "row_parent z = Some y" "y \<noteq> 0"
    unfolding parents_iff by blast
  moreover from this \<open>x \<noteq> row_id old\<close> have "z \<in> set (st_steps (put_row r st))" using assms(4) by (force simp: put_row_def)
  ultimately show "(x, y) \<in> parents (st_steps (put_row r st))" unfolding parents_iff by blast
qed

text \<open>A path to a node does not need the edges that leave the node.\<close>

lemma path_without_exit: "(x, t) \<in> R\<^sup>* \<Longrightarrow> (x, t) \<in> {e \<in> R. fst e \<noteq> t}\<^sup>*"
proof (induction rule: converse_rtrancl_induct)
  case (step y z)
  then show ?case
  proof (cases "y = t")
    case False
    with step(1) have "(y, z) \<in> {e \<in> R. fst e \<noteq> t}" by simp
    then show ?thesis using step(3) by (rule converse_rtrancl_into_rtrancl)
  qed simp
qed simp


definition move_loop :: "int \<Rightarrow> int \<Rightarrow> item" where
  "move_loop i p = Item (blank_data\<lparr>case_id := None, step_id := Some i, parent_step_id := Some p, step_type := Some LOOP\<rparr>) None
     [''step_id'', ''step_type'', ''parent_step_id''] [] [] []"

definition two_loops :: "int option \<Rightarrow> store" where
  "two_loops p = \<lparr>st_cases = [sample_case], st_steps = [(stored_row 1 1 LOOP)\<lparr>row_data := (row_data (stored_row 1 1 LOOP))\<lparr>parent_step_id := p\<rparr>\<rparr>,
     stored_row 2 2 LOOP], st_sources = [], st_next = 3, st_next_source = 1\<rparr>"


text \<open>
  A whole submission that does this: below the first loop it names the first loop again, by its code and to be
  moved below the second loop, and then the second loop, to be moved below the first.
\<close>

definition crossing_tree :: "item list" where
  "crossing_tree = [Item (blank_data\<lparr>case_id := None, step_id := Some 1, step_type := Some LOOP\<rparr>) None [''step_id'', ''step_type''] []
     [Item (blank_data\<lparr>case_id := None, step_code := Some ''1'', parent_step_id := Some 2, step_type := Some LOOP\<rparr>) None
        [''step_code'', ''step_type'', ''parent_step_id''] [] [] [],
      move_loop 2 1] []]"

theorem saved_tree_closes_cycle:
  "case save_tree int_str 5 crossing_tree (two_loops None) of
     Inl e \<Rightarrow> False
   | Inr (st', sm) \<Rightarrow> map (\<lambda>r. (row_id r, row_parent r)) (st_steps st') = [(1, Some 2), (2, Some 1)]"
  by code_simp

section \<open>Numbers, parents and what is no longer submitted\<close>

text \<open>
  A new step that takes the place of a stored one cannot be saved: the number it is given is still that
  of the step that is to follow it, which the rest of the same submission would have renumbered.
\<close>

theorem inserted_step_is_refused:
  assumes "locate st it = Inr Fresh" "case_id (it_data it) = Some k" "k \<noteq> 0" "step_type (it_data it) \<noteq> None"
    and "get_case st k = Some c" "r \<in> set (st_steps st)" "row_case r = Some k" "\<not> row_removed r"
    and "step_no (row_data r) = step_no (it_data it)" "truthy_id (step_no (it_data it))"
  shows "save_steps fresh parent bidx pinst (it # rest) st sm = Inl (NumberTaken (Some k) (step_no (it_data it)))"
proof -
  have "number_taken st (Some k) (step_no (it_data it))" using assms(6-9) by (auto simp: number_taken_def list_ex_iff)
  moreover have "truthy_id (Some k)" using assms(3) by (simp add: truthy_id_def)
  ultimately have "save_one fresh parent bidx pinst it st = Inl (NumberTaken (Some k) (step_no (it_data it)))"
    using assms(1,2,4,5,10) by (simp add: save_one_def create_one_def Let_def)
  then show ?thesis by (cases it) simp
qed

theorem inserted_step_is_refused_witness:
  "save_steps int_str None None None [new_step 2 WAIT [], change_step 2 3 LOOP, change_step 3 4 WAIT] sample_store no_summary
     = Inl (NumberTaken (Some 5) (Some 2))"
proof -
  have "step_no (it_data (new_step 2 WAIT [])) = Some 2" by (simp add: new_step_def)
  moreover have "save_steps int_str None None None (new_step 2 WAIT [] # [change_step 2 3 LOOP, change_step 3 4 WAIT]) sample_store no_summary
      = Inl (NumberTaken (Some 5) (step_no (it_data (new_step 2 WAIT []))))"
    by (rule inserted_step_is_refused[where r = "stored_row 2 2 LOOP" and c = sample_case])
      (simp_all add: sample_store_def stored_row_def new_step_def locate_def truthy_id_def truthy_text_def blank_data_def get_case_def sample_case_def)
  ultimately show ?thesis by simp
qed

lemma no_number_clash: "\<not> list_ex (\<lambda>x. P x \<and> Q x \<and> row_code x = c \<and> \<not> row_removed x \<and> row_code x \<noteq> c) xs"
  by (induction xs) auto

text \<open>
  The check of the number of an updated step never refuses: an update can give a step the number of
  another step of its case, and both are stored with it.
\<close>

theorem update_takes_any_number:
  assumes "locate st it = Inr (Stored old)" "it_set it = [''step_id'', ''step_no'', ''step_type'']" "it_null it = []"
    and "x \<in> set (st_steps st)" "row_id x \<noteq> row_id old" "row_case x = row_case old" "step_no (row_data x) = step_no (it_data it)"
  shows "\<exists>st' r k. update_one None bidx pinst it old st = Inr (st', r, None, k) \<and> x \<in> set (st_steps st') \<and> r \<in> set (st_steps st') \<and>
    row_id r \<noteq> row_id x \<and> row_case r = row_case x \<and> step_no (row_data r) = step_no (row_data x)"
proof -
  let ?r = "update_row None bidx it old"
  have p: "parent_update None it = Some None" using assms(2,3) by (simp add: parent_update_def Let_def)
  have r: "row_case ?r = row_case old" "step_no (row_data ?r) = step_no (it_data it)"
    using assms(2,3) by (simp_all add: update_row_def Let_def update_columns_def pick_def)
  have up: "update_one None bidx pinst it old st = Inr (put_row ?r st, ?r, None, row_case old)"
    using assms(2,3) by (simp add: update_one_def Let_def p r truthy_id_def no_number_clash)
  have old: "old \<in> set (st_steps st)" using locate_stored[OF assms(1)] by simp
  have "x \<in> set (st_steps (put_row ?r st))" using assms(4,5) by (force simp: put_row_def)
  moreover have "?r \<in> set (st_steps (put_row ?r st))" using old by (force simp: put_row_def)
  ultimately show ?thesis using up r assms(5-7) by auto
qed

theorem update_takes_any_number_witness:
  "\<exists>st' r k. update_one None None None (renumber_step 3 1) (stored_row 3 3 WAIT) sample_store = Inr (st', r, None, k) \<and>
     stored_row 1 1 WAIT \<in> set (st_steps st') \<and> r \<in> set (st_steps st') \<and> row_id r \<noteq> row_id (stored_row 1 1 WAIT) \<and>
     row_case r = row_case (stored_row 1 1 WAIT) \<and> step_no (row_data r) = step_no (row_data (stored_row 1 1 WAIT))"
  by (rule update_takes_any_number)
    (simp_all add: sample_store_def stored_row_def renumber_step_def locate_def get_step_by_id_def truthy_id_def blank_data_def)

lemma save_steps_leaf:
  assumes "it_children it = []" "it_branches it = []"
  shows "save_steps fresh parent bidx pinst (it # rest) st sm = (case save_one fresh parent bidx pinst it st of
     Inl e \<Rightarrow> Inl e | Inr (st1, r, c, p1, k) \<Rightarrow> save_steps fresh p1 bidx pinst rest st1 (note_step c r sm))"
  using assms by (cases it) (auto simp: Let_def split: sum.split)

lemma update_one_parent:
  assumes "update_one parent bidx pinst it old st = Inr (st', r, p1, k)" "parent_update parent it = Some (Some q)" "q \<noteq> 0"
  shows "p1 = Some q"
  using assms by (auto simp: update_one_def Let_def truthy_id_def split: if_splits option.splits)

lemma own_source_keeps:
  assumes "own_source kc r (add_row r st) = (st', q)"
  shows "q \<in> set (st_steps st') \<and> row_id q = row_id r \<and> row_parent q = row_parent r"
proof -
  have steps: "copy_data_source_for_step s k kcode i c src = (s1, n) \<Longrightarrow> st_steps s1 = st_steps s" for s k kcode i c src s1 n
    by (auto simp: copy_data_source_for_step_def split: if_splits option.splits)
  show ?thesis
    using assms by (auto simp: own_source_def Let_def add_row_def put_row_def dest!: steps split: if_splits prod.splits)
qed

lemma create_one_row:
  assumes "create_one fresh parent bidx pinst it st = Inr (st', r)"
  shows "r \<in> set (st_steps st') \<and> row_id r = st_next st \<and> row_parent r = (if parent \<noteq> None then parent else parent_step_id (it_data it))"
proof -
  let ?n = "new_row fresh (st_next st) (if parent \<noteq> None then parent else parent_step_id (it_data it)) bidx it"
  obtain kc where o: "own_source kc ?n (add_row ?n st) = (st', r)"
    using assms unfolding create_one_def Let_def by (auto split: if_splits option.splits)
  have "row_id ?n = st_next st" "row_parent ?n = (if parent \<noteq> None then parent else parent_step_id (it_data it))"
    by (simp_all add: new_row_def Let_def)
  then show ?thesis using own_source_keeps[OF o] by simp
qed

text \<open>
  The parent of an updated step is handed on: a step that is submitted after it on the same level, and
  names no parent, is created below that parent.
\<close>

theorem parent_is_handed_on:
  assumes "locate st a = Inr (Stored old)" "''parent_step_id'' \<in> set (it_set a)" "parent_step_id (it_data a) = Some p" "p \<noteq> 0"
    and "it_children a = []" "it_branches a = []" "it_children b = []" "it_branches b = []"
    and "\<And>s. locate s b = Inr Fresh" "parent_step_id (it_data b) = None"
    and "save_steps fresh None None None [a, b] st sm = Inr (st', sm')"
  shows "\<exists>r \<in> set (st_steps st'). row_id r = st_next st \<and> row_parent r = Some p"
proof -
  obtain st1 r p1 k where one: "update_one None None None a old st = Inr (st1, r, p1, k)"
    "save_steps fresh p1 None None [b] st1 (note_step False r sm) = Inr (st', sm')"
    using assms(11) unfolding save_steps_leaf[OF assms(5,6)] save_one_def assms(1)
    by (auto split: sum.splits prod.splits)
  have "parent_update None a = Some (Some p)" using assms(2,3) by (simp add: parent_update_def Let_def)
  from update_one_parent[OF one(1) this assms(4)] have p1: "p1 = Some p" .
  have next1: "st_next st1 = st_next st" using update_one_put[OF one(1)] by (simp add: put_row_def)
  obtain r2 where "create_one fresh (Some p) None None b st1 = Inr (st', r2)"
    using one(2) unfolding p1 save_steps_leaf[OF assms(7,8)] save_one_def assms(9) by (auto split: sum.splits prod.splits)
  from create_one_row[OF this] next1 show ?thesis by auto
qed

theorem parent_is_handed_on_witness:
  "\<exists>st' sm'. save_steps int_str None None None [move_step 1 2, new_step 4 WAIT []] sample_store no_summary = Inr (st', sm') \<and>
     (\<exists>r \<in> set (st_steps st'). row_id r = 4 \<and> row_parent r = Some 2)"
proof -
  let ?m = "save_steps int_str None None None [move_step 1 2, new_step 4 WAIT []] sample_store no_summary"
  have "(case ?m of Inl e \<Rightarrow> False | Inr x \<Rightarrow> True)" by code_simp
  then obtain st' sm' where m: "?m = Inr (st', sm')" by (cases ?m) auto
  have "locate s (new_step 4 WAIT []) = Inr Fresh" for s
    by (simp add: locate_def new_step_def blank_data_def truthy_id_def truthy_text_def)
  with m have "\<exists>r \<in> set (st_steps st'). row_id r = st_next sample_store \<and> row_parent r = Some 2"
    by (intro parent_is_handed_on[of _ "move_step 1 2" "stored_row 1 1 WAIT" 2 "new_step 4 WAIT []"])
      (simp_all add: move_step_def new_step_def blank_data_def sample_store_def stored_row_def locate_def get_step_by_id_def truthy_id_def)
  with m show ?thesis by (auto simp: sample_store_def)
qed

text \<open>
  The creation of a single step with a number that is in use takes that step over, removed or not: the
  row is written over in place under its own key, and the table has no more rows than before.
\<close>

theorem created_step_takes_over:
  assumes "create_step fresh it st = Inr (st', r')" "r \<in> set (st_steps st)" "row_case r = case_id (it_data it)"
    and "step_no (row_data r) = step_no (it_data it)"
  shows "length (st_steps st') = length (st_steps st) \<and>
    (\<exists>old \<in> set (st_steps st). row_id r' = row_id old \<and> step_no (row_data old) = step_no (it_data it))"
proof -
  let ?P = "\<lambda>r. row_case r = case_id (it_data it) \<and> step_no (row_data r) = step_no (it_data it)"
  obtain old where old: "find ?P (st_steps st) = Some old" using assms(2-4) by (cases "find ?P (st_steps st)") (auto simp: find_None_iff)
  then have "old \<in> set (st_steps st)" "step_no (row_data old) = step_no (it_data it)" by (auto simp: find_Some_iff)
  moreover have "r' = restore_row it old" "st' = put_row (restore_row it old) st"
    using assms(1) old unfolding create_step_def Let_def by (auto split: option.splits if_splits)
  ultimately show ?thesis by (force simp: restore_row_def Let_def put_row_def)
qed

theorem created_step_takes_over_witness:
  "\<exists>st' r'. create_step int_str (new_step 3 HTTP []) sample_store = Inr (st', r') \<and> length (st_steps st') = 3 \<and>
     row_id r' \<in> row_id ` set (st_steps sample_store)"
proof -
  let ?m = "create_step int_str (new_step 3 HTTP []) sample_store"
  have "(case ?m of Inl e \<Rightarrow> False | Inr x \<Rightarrow> True)" by code_simp
  then obtain st' r' where m: "?m = Inr (st', r')" by (cases ?m) auto
  have "length (st_steps st') = length (st_steps sample_store) \<and>
      (\<exists>old \<in> set (st_steps sample_store). row_id r' = row_id old \<and> step_no (row_data old) = step_no (it_data (new_step 3 HTTP [])))"
    by (rule created_step_takes_over[OF m, of "stored_row 3 3 WAIT"])
      (simp_all add: sample_store_def stored_row_def new_step_def blank_data_def)
  with m show ?thesis by (auto simp: sample_store_def)
qed

end
