(* ===== verification/CaseContents.thy ===== *)
theory CaseContents
  imports StoreRules
begin

text \<open>
  What a case holds after its tree is saved: the log of the save names a row for every submitted step, and the
  rows of the case are those of the log. The proof follows the two loops of \<^verbatim>\<open>batch_update_or_create_steps\<close>
  with one relation, \<^verbatim>\<open>progress\<close>, between the tables and summaries before and after some of the steps.
\<close>

section \<open>Submitted steps\<close>

text \<open>The steps that are saved, in this order: a condition step with branches has no other children.\<close>

primrec saved_item :: "item \<Rightarrow> step_data list" and saved_branch :: "item_branch \<Rightarrow> step_data list" where
  "saved_item (Item d ix gs ns cs bs) = d #
     (if step_type d = Some COND_BRANCH \<and> bs \<noteq> [] then concat (map saved_branch bs) else concat (map saved_item cs))"
| "saved_branch (ItemBranch m cs) = concat (map saved_item cs)"

abbreviation saved_items :: "item list \<Rightarrow> step_data list" where
  "saved_items items \<equiv> concat (map saved_item items)"

text \<open>A step without a key and a code is new; another one names the row of its key, or else of its code.\<close>

definition names_none :: "step_data \<Rightarrow> bool" where
  "names_none d = (\<not> truthy_id (step_id d) \<and> \<not> truthy_text (step_code d))"

definition names_row :: "(int \<Rightarrow> string) \<Rightarrow> step_data \<Rightarrow> int \<Rightarrow> bool" where
  "names_row fresh d i = (if truthy_id (step_id d) then step_id d = Some i else step_code d = Some (fresh i))"

definition entry_for :: "(int \<Rightarrow> string) \<Rightarrow> step_data \<Rightarrow> int \<times> bool \<Rightarrow> bool" where
  "entry_for fresh d e = (snd e = names_none d \<and> (snd e \<or> names_row fresh d (fst e)))"

text \<open>Every step of the item belongs to the case, by a field of the request.\<close>

primrec placed :: "int \<Rightarrow> item \<Rightarrow> bool" and placed_branch :: "int \<Rightarrow> item_branch \<Rightarrow> bool" where
  "placed k (Item d ix gs ns cs bs) = (case_id d = Some k \<and> ''case_id'' \<in> set gs \<and> list_all (placed k) cs \<and> list_all (placed_branch k) bs)"
| "placed_branch k (ItemBranch m cs) = list_all (placed k) cs"

lemma placed_update: "placed k (update_case_id k it)" "placed_branch k (update_branch_case_id k b)"
  by (induction it and b) (auto simp: list_all_iff)

text \<open>Neither the number of the case nor the application of a public interface changes what is named.\<close>

definition same_naming :: "step_data \<Rightarrow> step_data \<Rightarrow> bool" where
  "same_naming d e = (step_id d = step_id e \<and> step_code d = step_code e \<and> step_type d = step_type e)"

lemma same_naming_refl [simp]: "same_naming d d"
  by (simp add: same_naming_def)

lemma same_naming_case [simp]: "same_naming d (d\<lparr>case_id := x\<rparr>)"
  by (simp add: same_naming_def)

lemma naming_update:
  "list_all2 same_naming (saved_item it) (saved_item (update_case_id k it))"
  "list_all2 same_naming (saved_branch b) (saved_branch (update_branch_case_id k b))"
proof (induction it and b)
  case (Item d ix gs ns cs bs)
  have "list_all2 same_naming (saved_items cs) (saved_items (map (update_case_id k) cs))"
    using Item(1) by (induction cs) (auto intro: list_all2_appendI)
  moreover have "list_all2 same_naming (concat (map saved_branch bs)) (concat (map saved_branch (map (update_branch_case_id k) bs)))"
    using Item(2) by (induction bs) (auto intro: list_all2_appendI)
  ultimately show ?case by (simp del: map_map)
next
  case (ItemBranch m cs)
  then show ?case by (induction cs) (auto intro: list_all2_appendI)
qed

lemma naming_items: "list_all2 same_naming (saved_items items) (saved_items (map (update_case_id k) items))"
  by (induction items) (auto intro: list_all2_appendI naming_update)

lemma align_placed: "placed k it \<Longrightarrow> placed k (align_project p it)"
  by (cases it) (simp add: align_project_def)

lemma align_naming: "list_all2 same_naming (saved_item it) (saved_item (align_project p it))"
  by (cases it) (auto simp: align_project_def same_naming_def list_all2_same)

lemma family_keeps:
  assumes "check_family st items = Inr items1" "list_all (placed k) items"
  shows "list_all (placed k) items1 \<and> list_all2 same_naming (saved_items items) (saved_items items1)"
proof -
  have "list_all2 same_naming (saved_items xs) (saved_items (map (align_project p) xs))" for xs p
    by (induction xs) (auto intro: list_all2_appendI align_naming)
  moreover have "list_all2 same_naming xs xs" for xs by (simp add: list_all2_same)
  moreover obtain p where "items1 = items \<or> items1 = map (align_project p) items"
    using assms(1) by (auto simp: check_family_def validate_public_family_tree_def split: list.splits option.splits if_splits)
  ultimately show ?thesis using assms(2) by (auto simp: list_all_iff align_placed)
qed

lemma entry_same: "same_naming d e \<Longrightarrow> entry_for fresh d = entry_for fresh e"
  by (simp add: same_naming_def entry_for_def names_none_def names_row_def fun_eq_iff)

lemma entries_same: "list_all2 (entry_for fresh) ys lg \<Longrightarrow> list_all2 same_naming xs ys \<Longrightarrow> list_all2 (entry_for fresh) xs lg"
  unfolding list_all2_conv_all_nth by (metis entry_same)

section \<open>Saving some steps\<close>

text \<open>The keys of the rows of a case, and the cases that have an entry in a summary.\<close>

definition keys_of :: "int \<Rightarrow> store \<Rightarrow> int set" where
  "keys_of k st = {row_id r | r. r \<in> set (st_steps st) \<and> row_case r = Some k}"

definition cases_in :: "summary \<Rightarrow> int option set" where
  "cases_in sm = fst ` set (process_detail sm)"

text \<open>A stored condition step whose branches are submitted loses steps before they are saved.\<close>

definition keeps_branches :: "step_data list \<Rightarrow> bool" where
  "keeps_branches ds = (\<forall>d \<in> set ds. step_type d = Some COND_BRANCH \<longrightarrow> names_none d)"

definition progress :: "(int \<Rightarrow> string) \<Rightarrow> int \<Rightarrow> step_data list \<Rightarrow> store \<times> summary \<Rightarrow> store \<times> summary \<Rightarrow> bool" where
  "progress fresh k ds a b = (store_ok fresh (fst a) \<longrightarrow> store_ok fresh (fst b) \<and> st_next (fst a) \<le> st_next (fst b) \<and>
     (\<exists>lg. success_detail (snd b) = success_detail (snd a) @ lg \<and> list_all2 (entry_for fresh) ds lg \<and>
        map fst (filter snd lg) = [st_next (fst a)..st_next (fst b) - 1] \<and>
        set (codes_for (Some k) (snd b)) = set (codes_for (Some k) (snd a)) \<union> fresh ` fst ` set lg \<and>
        cases_in (snd b) = cases_in (snd a) \<union> (if lg = [] then {} else {Some k}) \<and>
        (keeps_branches ds \<longrightarrow> keys_of k (fst a) \<subseteq> keys_of k (fst b) \<and> fst ` set lg \<subseteq> keys_of k (fst b))))"

lemma progress_nil: "progress fresh k [] a a"
  by (simp add: progress_def)

lemma progress_append:
  assumes "progress fresh k ds a b" "progress fresh k es b c"
  shows "progress fresh k (ds @ es) a c"
  unfolding progress_def
proof
  assume "store_ok fresh (fst a)"
  with assms(1) obtain l1 where l1: "store_ok fresh (fst b)" "st_next (fst a) \<le> st_next (fst b)"
    "success_detail (snd b) = success_detail (snd a) @ l1" "list_all2 (entry_for fresh) ds l1"
    "map fst (filter snd l1) = [st_next (fst a)..st_next (fst b) - 1]"
    "set (codes_for (Some k) (snd b)) = set (codes_for (Some k) (snd a)) \<union> fresh ` fst ` set l1"
    "cases_in (snd b) = cases_in (snd a) \<union> (if l1 = [] then {} else {Some k})"
    "keeps_branches ds \<Longrightarrow> keys_of k (fst a) \<subseteq> keys_of k (fst b) \<and> fst ` set l1 \<subseteq> keys_of k (fst b)"
    unfolding progress_def by blast
  from assms(2) l1(1) obtain l2 where l2: "store_ok fresh (fst c)" "st_next (fst b) \<le> st_next (fst c)"
    "success_detail (snd c) = success_detail (snd b) @ l2" "list_all2 (entry_for fresh) es l2"
    "map fst (filter snd l2) = [st_next (fst b)..st_next (fst c) - 1]"
    "set (codes_for (Some k) (snd c)) = set (codes_for (Some k) (snd b)) \<union> fresh ` fst ` set l2"
    "cases_in (snd c) = cases_in (snd b) \<union> (if l2 = [] then {} else {Some k})"
    "keeps_branches es \<Longrightarrow> keys_of k (fst b) \<subseteq> keys_of k (fst c) \<and> fst ` set l2 \<subseteq> keys_of k (fst c)"
    unfolding progress_def by blast
  show "store_ok fresh (fst c) \<and> st_next (fst a) \<le> st_next (fst c) \<and>
     (\<exists>lg. success_detail (snd c) = success_detail (snd a) @ lg \<and> list_all2 (entry_for fresh) (ds @ es) lg \<and>
        map fst (filter snd lg) = [st_next (fst a)..st_next (fst c) - 1] \<and>
        set (codes_for (Some k) (snd c)) = set (codes_for (Some k) (snd a)) \<union> fresh ` fst ` set lg \<and>
        cases_in (snd c) = cases_in (snd a) \<union> (if lg = [] then {} else {Some k}) \<and>
        (keeps_branches (ds @ es) \<longrightarrow> keys_of k (fst a) \<subseteq> keys_of k (fst c) \<and> fst ` set lg \<subseteq> keys_of k (fst c)))"
  proof (intro conjI exI[of _ "l1 @ l2"])
    have "[st_next (fst a)..st_next (fst c) - 1] = [st_next (fst a)..st_next (fst b) - 1] @ [st_next (fst b)..st_next (fst c) - 1]"
      using l1(2) l2(2) upto_split1[of "st_next (fst a)" "st_next (fst b)" "st_next (fst c) - 1"]
      by (cases "st_next (fst b) = st_next (fst c)") auto
    then show "map fst (filter snd (l1 @ l2)) = [st_next (fst a)..st_next (fst c) - 1]" using l1(5) l2(5) by simp
    show "keeps_branches (ds @ es) \<longrightarrow> keys_of k (fst a) \<subseteq> keys_of k (fst c) \<and> fst ` set (l1 @ l2) \<subseteq> keys_of k (fst c)"
    proof
      assume "keeps_branches (ds @ es)"
      then have "keeps_branches ds" "keeps_branches es" by (simp_all add: keeps_branches_def)
      from l1(8)[OF this(1)] l2(8)[OF this(2)] show "keys_of k (fst a) \<subseteq> keys_of k (fst c) \<and> fst ` set (l1 @ l2) \<subseteq> keys_of k (fst c)"
        unfolding set_append image_Un by blast
    qed
    show "list_all2 (entry_for fresh) (ds @ es) (l1 @ l2)" using l1(4) l2(4) by (rule list_all2_appendI)
    show "set (codes_for (Some k) (snd c)) = set (codes_for (Some k) (snd a)) \<union> fresh ` fst ` set (l1 @ l2)"
      unfolding l2(6) l1(6) by auto
    show "cases_in (snd c) = cases_in (snd a) \<union> (if l1 @ l2 = [] then {} else {Some k})" unfolding l2(7) l1(7) by auto
    show "store_ok fresh (fst c)" "success_detail (snd c) = success_detail (snd a) @ l1 @ l2" using l1(3) l2(1,3) by simp_all
    show "st_next (fst a) \<le> st_next (fst c)" using l1(2) l2(2) by (rule order_trans)
  qed
qed

text \<open>One step, before the steps below it.\<close>

lemma keys_put: "row_id r \<in> keys_of k st \<Longrightarrow> row_case r = Some k \<Longrightarrow> keys_of k (put_row r st) = keys_of k st"
  by (auto simp: keys_of_def put_row_def image_iff)

lemma keys_add: "row_case r = Some k \<Longrightarrow> keys_of k (add_row r st) = insert (row_id r) (keys_of k st)"
  by (auto simp: keys_of_def add_row_def)

lemma copy_source_keys:
  "copy_data_source_for_step st k0 kc i c s = (st', n) \<Longrightarrow> keys_of k st' = keys_of k st \<and> st_next st' = st_next st"
  by (auto simp: copy_data_source_for_step_def keys_of_def split: if_splits option.splits)

lemma own_source_keys:
  assumes "own_source kc r st = (st', r')" "row_id r \<in> keys_of k st" "row_case r = Some k"
  shows "keys_of k st' = keys_of k st \<and> st_next st' = st_next st \<and> row_case r' = Some k \<and> row_code r' = row_code r"
proof (cases "truthy_id (data_source_id (row_data r))")
  case True
  obtain st1 n where c: "copy_data_source_for_step st (row_case r) kc (row_id r) (row_code r) (the (data_source_id (row_data r))) = (st1, n)"
    by fastforce
  let ?r = "r\<lparr>row_data := (row_data r)\<lparr>data_source_id := n\<rparr>\<rparr>"
  have "keys_of k (put_row ?r st1) = keys_of k st1"
    using copy_source_keys[OF c, of k] assms(2,3) by (intro keys_put) auto
  moreover have "st' = put_row ?r st1" "r' = ?r" using assms(1) True c by (auto simp: own_source_def Let_def)
  ultimately show ?thesis using copy_source_keys[OF c, of k] assms(3) by (simp add: row_code_def put_row_def)
qed (use assms in \<open>simp add: own_source_def\<close>)

lemma saved_one:
  assumes "save_one fresh parent bidx pinst it st = Inr (st1, r, created, p, kv)" "placed k it" "k \<noteq> 0" "store_ok fresh st"
  shows "kv = Some k \<and> row_case r = Some k \<and> row_code r = fresh (row_id r) \<and> row_id r \<in> keys_of k st1 \<and> keys_of k st \<subseteq> keys_of k st1
    \<and> entry_for fresh (it_data it) (row_id r, created) \<and> st_next st1 = st_next st + (if created then 1 else 0)
    \<and> (created \<longrightarrow> row_id r = st_next st)"
proof -
  have d: "case_id (it_data it) = Some k" "''case_id'' \<in> set (it_set it)" "truthy_id (Some k)"
    using assms(2,3) by (cases it, simp add: truthy_id_def)+
  show ?thesis
  proof (cases "locate st it")
    case (Inr l)
    show ?thesis
    proof (cases l)
      case (Stored old)
      with Inr assms(1) have u: "update_one parent bidx pinst it old st = Inr (st1, r, p, kv)" "\<not> created"
        by (auto simp: save_one_def split: sum.splits)
      have old: "old \<in> set (st_steps st)" using locate_stored Inr Stored by blast
      have names: "names_row fresh (it_data it) (row_id old)" "\<not> names_none (it_data it)" "row_case old = Some k"
        using Inr Stored old assms(3,4) d
        by (auto simp: locate_def Let_def names_row_def names_none_def get_step_by_id_def get_step_by_code_def find_Some_iff truthy_id_def
            truthy_text_def store_ok_def split: if_splits option.splits)
      have r: "r = update_row parent bidx it old" "st1 = put_row r st" using update_one_put[OF u(1)] by simp_all
      have case_r: "row_case r = Some k"
        unfolding r update_row_def Let_def using d by (simp add: update_columns_def Let_def pick_def)
      have kv: "kv = Some k" using u(1) d(2) case_r by (auto simp: update_one_def Let_def r split: if_splits option.splits)
      have key: "row_id r = row_id old" "row_code r = row_code old" unfolding r by simp_all
      have "row_id r \<in> keys_of k st" using old names(3) key by (auto simp: keys_of_def)
      then have "keys_of k st1 = keys_of k st" unfolding r(2) using case_r by (rule keys_put)
      with \<open>row_id r \<in> keys_of k st\<close> kv case_r key names u(2) old assms(4) show ?thesis
        by (auto simp: entry_for_def store_ok_def r(2) put_row_def)
    next
      case Fresh
      with Inr assms(1) have u: "create_one fresh parent bidx pinst it st = Inr (st1, r)" "created" "kv = Some k"
        using d by (auto simp: save_one_def split: sum.splits)
      let ?n = "new_row fresh (st_next st) (if parent \<noteq> None then parent else parent_step_id (it_data it)) bidx it"
      obtain kc where o: "own_source kc ?n (add_row ?n st) = (st1, r)"
        using u(1) unfolding create_one_def Let_def by (auto split: if_splits option.splits)
      have n: "row_case ?n = Some k" using d by (simp add: new_row_def Let_def)
      have keys: "keys_of k (add_row ?n st) = insert (st_next st) (keys_of k st)" using keys_add[OF n] by simp
      note s = own_source_keys[OF o _ n] 
      have "names_none (it_data it)" using Inr Fresh by (auto simp: locate_def names_none_def Let_def split: if_splits option.splits)
      then show ?thesis using s keys create_one_row[OF u(1)] u(2,3)
        by (auto simp: entry_for_def add_row_def)
    qed
  qed (use assms in \<open>simp add: save_one_def\<close>)
qed

lemma codes_note:
  "row_case r = Some k \<Longrightarrow> set (codes_for (Some k) (note_step c r sm)) = insert (row_code r) (set (codes_for (Some k) sm))"
  by (simp add: note_step_def codes_for_def map_of_update)

lemma cases_note: "cases_in (note_step c r sm) = insert (row_case r) (cases_in sm)"
  by (simp add: note_step_def cases_in_def update_conv' flip: dom_map_of_conv_image_fst)

lemma progress_one:
  assumes "save_one fresh parent bidx pinst it st = Inr (st1, r, created, p, kv)" "placed k it" "k \<noteq> 0"
  shows "progress fresh k [it_data it] (st, sm) (st1, note_step created r sm)"
  unfolding progress_def fst_conv snd_conv
proof
  assume ok: "store_ok fresh st"
  note s = saved_one[OF assms ok]
  have "success_detail (note_step created r sm) = success_detail sm @ [(row_id r, created)]" by (simp add: note_step_def)
  moreover have "map fst (filter snd [(row_id r, created)]) = [st_next st..st_next st1 - 1]" using s by auto
  moreover have "set (codes_for (Some k) (note_step created r sm)) = set (codes_for (Some k) sm) \<union> fresh ` fst ` set [(row_id r, created)]"
    using s codes_note[of r k created sm] by simp
  moreover have "cases_in (note_step created r sm) = cases_in sm \<union> {Some k}" using s by (simp add: cases_note)
  ultimately show "store_ok fresh st1 \<and> st_next st \<le> st_next st1 \<and>
     (\<exists>lg. success_detail (note_step created r sm) = success_detail sm @ lg \<and> list_all2 (entry_for fresh) [it_data it] lg \<and>
        map fst (filter snd lg) = [st_next st..st_next st1 - 1] \<and>
        set (codes_for (Some k) (note_step created r sm)) = set (codes_for (Some k) sm) \<union> fresh ` fst ` set lg \<and>
        cases_in (note_step created r sm) = cases_in sm \<union> (if lg = [] then {} else {Some k}) \<and>
        (keeps_branches [it_data it] \<longrightarrow> keys_of k st \<subseteq> keys_of k st1 \<and> fst ` set lg \<subseteq> keys_of k st1))"
    using s save_one_ok[OF assms(1) ok] by (intro conjI exI[of _ "[(row_id r, created)]"]) auto
qed

text \<open>The steps below a step are saved on their own; their codes are those of the case.\<close>

lemma progress_merge:
  assumes "progress fresh k ds (st, no_summary) (st1, below)" "merge_result (Some k) below sm = Inr sm1"
  shows "progress fresh k ds (st, sm) (st1, sm1)"
  unfolding progress_def fst_conv snd_conv
proof
  assume ok: "store_ok fresh st"
  obtain cs where cs: "map_of (process_detail sm) (Some k) = Some cs"
    "sm1 = sm\<lparr>created_count := created_count sm + created_count below, updated_count := updated_count sm + updated_count below,
       process_detail := AList.update (Some k) (List.union (codes_for (Some k) below) cs) (process_detail sm),
       success_detail := success_detail sm @ success_detail below\<rparr>"
    using assms(2) by (auto simp: merge_result_def split: option.splits)
  have codes: "set (codes_for (Some k) sm1) = set (codes_for (Some k) below) \<union> set (codes_for (Some k) sm)"
    using cs by (simp add: codes_for_def map_of_update)
  have "Some k \<in> cases_in sm" using cs(1) by (force simp: cases_in_def dest: map_of_SomeD)
  then have cases: "cases_in sm1 = cases_in sm"
    using cs by (auto simp add: cases_in_def update_conv' simp flip: dom_map_of_conv_image_fst)
  from assms(1) ok obtain lg where lg: "store_ok fresh st1" "st_next st \<le> st_next st1" "success_detail below = lg"
    "list_all2 (entry_for fresh) ds lg" "map fst (filter snd lg) = [st_next st..st_next st1 - 1]"
    "set (codes_for (Some k) below) = fresh ` fst ` set lg"
    "keeps_branches ds \<longrightarrow> keys_of k st \<subseteq> keys_of k st1 \<and> fst ` set lg \<subseteq> keys_of k st1"
    unfolding progress_def by (auto simp: no_summary_def codes_for_def)
  then have "success_detail sm1 = success_detail sm @ lg" using cs(2) by simp
  moreover have "set (codes_for (Some k) sm1) = set (codes_for (Some k) sm) \<union> fresh ` fst ` set lg" using codes lg(6) by auto
  moreover have "cases_in sm1 = cases_in sm \<union> (if lg = [] then {} else {Some k})" using cases \<open>Some k \<in> cases_in sm\<close> by auto
  ultimately show "store_ok fresh st1 \<and> st_next st \<le> st_next st1 \<and>
     (\<exists>lg. success_detail sm1 = success_detail sm @ lg \<and> list_all2 (entry_for fresh) ds lg \<and>
        map fst (filter snd lg) = [st_next st..st_next st1 - 1] \<and>
        set (codes_for (Some k) sm1) = set (codes_for (Some k) sm) \<union> fresh ` fst ` set lg \<and>
        cases_in sm1 = cases_in sm \<union> (if lg = [] then {} else {Some k}) \<and>
        (keeps_branches ds \<longrightarrow> keys_of k st \<subseteq> keys_of k st1 \<and> fst ` set lg \<subseteq> keys_of k st1))"
    using lg(1,2,4,5,7) by (intro conjI exI[of _ lg])
qed

text \<open>A condition step loses old steps of its branches only when it is a stored one.\<close>

lemma progress_drop:
  assumes "progress fresh k [it_data it] (st, sm) (st1, sm1)" "\<not> names_none (it_data it)" "step_type (it_data it) = Some COND_BRANCH"
  shows "progress fresh k [it_data it] (st, sm) (drop_stale i it st1, sm1)"
proof -
  have "store_ok fresh st1 \<Longrightarrow> store_ok fresh (drop_stale i it st1)" "st_next (drop_stale i it st1) = st_next st1"
    by (simp_all add: drop_stale_ok) (simp add: drop_stale_def delete_sources_def Let_def)
  moreover have "\<not> keeps_branches [it_data it]" using assms(2,3) by (simp add: keeps_branches_def)
  ultimately show ?thesis using assms(1) unfolding progress_def by auto
qed

lemma created_names: "save_one fresh parent bidx pinst it st = Inr (st1, r, created, p, kv) \<Longrightarrow> created = names_none (it_data it)"
  by (auto simp: save_one_def locate_def names_none_def Let_def split: sum.splits located.splits option.splits if_splits)

lemma save_steps_progress:
  "save_steps fresh parent bidx pinst items st sm = Inr (st', sm') \<Longrightarrow> list_all (placed k) items \<Longrightarrow> k \<noteq> 0 \<Longrightarrow>
    progress fresh k (saved_items items) (st, sm) (st', sm')"
  "save_branches fresh r kv i bs st sm = Inr (st', sm') \<Longrightarrow> list_all (placed_branch k) bs \<Longrightarrow> k \<noteq> 0 \<Longrightarrow> kv = Some k \<Longrightarrow>
    progress fresh k (concat (map saved_branch bs)) (st, sm) (st', sm')"
proof (induction fresh parent bidx pinst items st sm and fresh r kv i bs st sm arbitrary: st' sm' and st' sm' rule: save_steps_save_branches.induct)
  case (1 fresh parent bidx pinst st sm)
  then show ?case by (simp add: progress_nil)
next
  case (2 fresh parent bidx pinst d ix gs ns cs bs rest st sm)
  let ?it = "Item d ix gs ns cs bs"
  obtain st1 r c p kv where one: "save_one fresh parent bidx pinst ?it st = Inr (st1, r, c, p, kv)"
    using "2.prems"(1) by (auto split: sum.splits prod.splits)
  let ?below = "step_type d = Some COND_BRANCH \<and> bs \<noteq> []"
  let ?m = "if ?below then save_branches fresh r kv 0 bs (if c then st1 else drop_stale (row_id r) ?it st1) (note_step c r sm)
            else if cs \<noteq> [] then
              (case save_steps fresh (Some (row_id r)) None (Some r) cs st1 no_summary of
                 Inl e \<Rightarrow> Inl e
               | Inr (st2, below) \<Rightarrow> (case merge_result kv below (note_step c r sm) of Inl e \<Rightarrow> Inl e | Inr sm2 \<Rightarrow> Inr (st2, sm2)))
            else Inr (st1, note_step c r sm)"
  obtain st3 sm3 where m: "?m = Inr (st3, sm3)" "save_steps fresh p bidx pinst rest st3 sm3 = Inr (st', sm')"
    using "2.prems"(1) by (auto simp: one Let_def split: sum.splits prod.splits)
  have p: "placed k ?it" "list_all (placed k) cs" "list_all (placed_branch k) bs" "list_all (placed k) rest" using "2.prems"(2) by simp_all
  have first: "progress fresh k [d] (st, sm) (st1, note_step c r sm)" using progress_one[OF one p(1) "2.prems"(3)] by simp
  have own: "progress fresh k (saved_item ?it) (st, sm) (st3, sm3)" if ok: "store_ok fresh st"
  proof -
    have kv: "kv = Some k" using saved_one[OF one p(1) "2.prems"(3) ok] by simp
    show ?thesis
    proof (cases ?below)
      case True
      let ?st1 = "if c then st1 else drop_stale (row_id r) ?it st1"
      have "progress fresh k [d] (st, sm) (?st1, note_step c r sm)"
        using first progress_drop[of fresh k ?it st sm st1 "note_step c r sm" "row_id r"] created_names[OF one] True by auto
      moreover have "progress fresh k (concat (map saved_branch bs)) (?st1, note_step c r sm) (st3, sm3)"
        using "2.IH"(1)[OF one refl refl refl refl refl True _ p(3) "2.prems"(3) kv] m(1) True by simp
      ultimately show ?thesis using progress_append[of fresh k "[d]"] True by simp
    next
      case False
      show ?thesis
      proof (cases "cs = []")
        case True
        with m(1) False first show ?thesis by (auto simp only: saved_item.simps if_False list.map concat.simps simp_thms refl if_True)
      next
        case cs: False
        with m(1) False obtain below where b: "save_steps fresh (Some (row_id r)) None (Some r) cs st1 no_summary = Inr (st3, below)"
          "merge_result kv below (note_step c r sm) = Inr sm3" by (auto split: sum.splits if_splits)
        have "progress fresh k (saved_items cs) (st1, no_summary) (st3, below)"
          by (rule "2.IH"(2)[OF one refl refl refl refl refl False cs b(1) p(2) "2.prems"(3)])
        from progress_append[OF first progress_merge[OF this b(2)[unfolded kv]]] show ?thesis using False by auto
      qed
    qed
  qed
  have "progress fresh k (saved_items rest) (st3, sm3) (st', sm')"
    using "2.IH"(3)[OF one refl refl refl refl refl m(1) refl m(2) p(4) "2.prems"(3)] .
  then have rest: "progress fresh k (saved_items rest) (st3, sm3) (st', sm')" .
  show ?case
  proof (cases "store_ok fresh st")
    case True
    from progress_append[OF own[OF True] rest] show ?thesis by simp
  qed (simp add: progress_def)
next
  case (3 fresh r kv i st sm)
  then show ?case by (simp add: progress_nil)
next
  case (4 fresh r kv i m cs bs st sm)
  show ?case
  proof (cases "cs = []")
    case True
    with "4.IH"(1) "4.prems" show ?thesis by simp
  next
    case False
    with "4.prems"(1) obtain st1 below sm1 where b: "save_steps fresh (Some (row_id r)) (Some i) (Some r) cs st no_summary = Inr (st1, below)"
      "merge_result kv below sm = Inr sm1" "save_branches fresh r kv (Suc i) bs st1 sm1 = Inr (st', sm')"
      by (auto split: sum.splits)
    have "progress fresh k (saved_items cs) (st, no_summary) (st1, below)"
      using "4.IH"(2)[OF False b(1)] "4.prems"(2,3) by simp
    moreover have "progress fresh k (concat (map saved_branch bs)) (st1, sm1) (st', sm')"
      using "4.IH"(3)[OF False b(1) refl b(2,3)] "4.prems"(2-4) by simp
    ultimately show ?thesis using progress_merge[OF _ b(2)[unfolded "4.prems"(4)]] progress_append by fastforce
  qed
qed

section \<open>The saved tree\<close>

lemma keeps_same: "list_all2 same_naming xs ys \<Longrightarrow> keeps_branches xs \<Longrightarrow> keeps_branches ys"
  by (induction rule: list_all2_induct) (simp_all add: keeps_branches_def same_naming_def names_none_def)

text \<open>A summary has one entry per case.\<close>

lemma merge_entries: "merge_result k below sm = Inr sm1 \<Longrightarrow> distinct (map fst (process_detail sm)) \<Longrightarrow> distinct (map fst (process_detail sm1))"
  by (auto simp: merge_result_def distinct_update split: option.splits)

lemma save_steps_entries:
  "save_steps fresh parent bidx pinst items st sm = Inr (st', sm') \<Longrightarrow> distinct (map fst (process_detail sm)) \<Longrightarrow>
    distinct (map fst (process_detail sm'))"
  "save_branches fresh r kv i bs st sm = Inr (st', sm') \<Longrightarrow> distinct (map fst (process_detail sm)) \<Longrightarrow>
    distinct (map fst (process_detail sm'))"
proof (induction fresh parent bidx pinst items st sm and fresh r kv i bs st sm arbitrary: st' sm' and st' sm' rule: save_steps_save_branches.induct)
  case (2 fresh parent bidx pinst d ix gs ns cs bs rest st sm)
  obtain st1 r c p k where one: "save_one fresh parent bidx pinst (Item d ix gs ns cs bs) st = Inr (st1, r, c, p, k)"
    using "2.prems"(1) by (auto split: sum.splits prod.splits)
  have own: "distinct (map fst (process_detail (note_step c r sm)))"
    using "2.prems"(2) by (simp add: note_step_def distinct_update)
  let ?m = "if step_type d = Some COND_BRANCH \<and> bs \<noteq> [] then
                   save_branches fresh r k 0 bs (if c then st1 else drop_stale (row_id r) (Item d ix gs ns cs bs) st1) (note_step c r sm)
                 else if cs \<noteq> [] then
                   (case save_steps fresh (Some (row_id r)) None (Some r) cs st1 no_summary of
                      Inl e \<Rightarrow> Inl e
                    | Inr (st2, below) \<Rightarrow> (case merge_result k below (note_step c r sm) of Inl e \<Rightarrow> Inl e | Inr sm2 \<Rightarrow> Inr (st2, sm2)))
                 else Inr (st1, note_step c r sm)"
  obtain st3 sm3 where m: "?m = Inr (st3, sm3)" "save_steps fresh p bidx pinst rest st3 sm3 = Inr (st', sm')"
    using "2.prems"(1) by (auto simp: one Let_def split: sum.splits prod.splits)
  have "distinct (map fst (process_detail sm3))"
    using m(1) "2.IH"(1)[OF one refl refl refl refl refl] own
    by (auto dest: merge_entries split: if_splits sum.splits)
  from "2.IH"(3)[OF one refl refl refl refl refl m(1) refl m(2) this] show ?case .
next
  case (4 fresh r kv i m cs bs st sm)
  show ?case
  proof (cases "cs = []")
    case True
    with "4.IH"(1) "4.prems" show ?thesis by simp
  next
    case False
    with "4.prems"(1) obtain st1 below sm1 where b: "save_steps fresh (Some (row_id r)) (Some i) (Some r) cs st no_summary = Inr (st1, below)"
      "merge_result kv below sm = Inr sm1" "save_branches fresh r kv (Suc i) bs st1 sm1 = Inr (st', sm')"
      by (auto split: sum.splits)
    from "4.IH"(3)[OF False b(1) refl b(2,3) merge_entries[OF b(2) "4.prems"(2)]] show ?thesis .
  qed
qed simp_all

lemma drop_missing_keys:
  "set (st_steps (drop_missing (Some k) codes st)) = {r \<in> set (st_steps st). row_case r = Some k \<longrightarrow> row_code r \<in> set codes}"
  if "\<And>r x. r \<in> set (st_steps st) \<Longrightarrow> x \<in> set (st_steps st) \<Longrightarrow> row_code r = row_code x \<Longrightarrow> r = x"
proof -
  let ?missing = "filter (\<lambda>c. c \<notin> set codes) (map row_code (filter (\<lambda>r. row_case r = Some k) (st_steps st)))"
  have "row_code r \<in> set ?missing \<longleftrightarrow> row_case r = Some k \<and> row_code r \<notin> set codes" if "r \<in> set (st_steps st)" for r
    using that \<open>\<And>r x. r \<in> set (st_steps st) \<Longrightarrow> x \<in> set (st_steps st) \<Longrightarrow> row_code r = row_code x \<Longrightarrow> r = x\<close> by fastforce
  then show ?thesis
    unfolding drop_missing_def Let_def by (cases "?missing = []") (auto simp: delete_sources_def)
qed

lemma save_tree_keys:
  assumes save: "save_tree fresh k items st = Inr (st', sm)" and k: "k \<noteq> 0" and ok: "store_ok fresh st" and inj: "inj fresh"
  shows "list_all2 (entry_for fresh) (saved_items items) (success_detail sm)"
    "map fst (filter snd (success_detail sm)) = [st_next st..st_next st' - 1]"
    "keys_of k st' \<subseteq> fst ` set (success_detail sm)"
    "keeps_branches (saved_items items) \<Longrightarrow> fst ` set (success_detail sm) \<subseteq> keys_of k st'"
proof -
  let ?items = "map (update_case_id k) items"
  obtain items1 st1 where s: "check_family st ?items = Inr items1" "save_steps fresh None None None items1 st no_summary = Inr (st1, sm)"
    "st' = (if process_detail sm = [] then drop_all k st1 else fold (\<lambda>(c, codes). drop_missing c codes) (process_detail sm) st1)"
    using save by (auto simp: save_tree_def batch_update_or_create_steps_def split: option.splits sum.splits)
  have pl: "list_all (placed k) items1" and names: "list_all2 same_naming (saved_items items) (saved_items items1)"
    using family_keeps[OF s(1), of k] naming_items[of items k] list_all2_trans[of same_naming same_naming same_naming]
    by (auto simp: list_all_iff placed_update same_naming_def)
  from save_steps_progress(1)[OF s(2) pl k] ok have pr: "store_ok fresh st1"
    "list_all2 (entry_for fresh) (saved_items items1) (success_detail sm)"
    "map fst (filter snd (success_detail sm)) = [st_next st..st_next st1 - 1]"
    "set (codes_for (Some k) sm) = fresh ` fst ` set (success_detail sm)"
    "cases_in sm = (if success_detail sm = [] then {} else {Some k})"
    "keeps_branches (saved_items items1) \<Longrightarrow> fst ` set (success_detail sm) \<subseteq> keys_of k st1"
    by (auto simp: progress_def no_summary_def codes_for_def cases_in_def)
  show "list_all2 (entry_for fresh) (saved_items items) (success_detail sm)" by (rule entries_same[OF pr(2) names])
  have code: "r = x" if "r \<in> set (st_steps st1)" "x \<in> set (st_steps st1)" "row_code r = row_code x" for r x
  proof -
    have "fresh (row_id r) = fresh (row_id x)" using pr(1) that by (simp add: store_ok_def)
    then have "row_id r = row_id x" using inj by (simp add: injD)
    with pr(1) that(1,2) show ?thesis by (auto simp: store_ok_def distinct_map dest: inj_onD)
  qed
  have keys: "keys_of k st' = keys_of k st1 \<inter> fst ` set (success_detail sm) \<and> st_next st' = st_next st1"
  proof (cases "process_detail sm = []")
    case True
    then have "success_detail sm = []" using pr(5) by (auto simp: cases_in_def split: if_splits)
    with True show ?thesis by (auto simp: s(3) drop_all_def keys_of_def delete_sources_def)
  next
    case False
    then have single: "c = Some k" if "(c, codes) \<in> set (process_detail sm)" for c codes
      using pr(5) that by (force simp: cases_in_def split: if_splits)
    have "distinct (map fst (process_detail sm))" using save_steps_entries(1)[OF s(2)] by (simp add: no_summary_def)
    then have one_entry: "process_detail sm = [(Some k, codes)]" if "process_detail sm = (c, codes) # rest" for c codes rest
      using that single[of c codes] single[of "fst (hd rest)" "snd (hd rest)"] by (cases rest) auto
    obtain e rest where "process_detail sm = e # rest" using False by (cases "process_detail sm") auto
    then obtain codes where "process_detail sm = [(Some k, codes)]" using one_entry[of "fst e" "snd e" rest] by auto
    then have st': "st' = drop_missing (Some k) codes st1" and codes: "set codes = fresh ` fst ` set (success_detail sm)"
      using s(3) pr(4) by (simp_all add: codes_for_def)
    have "row_code r \<in> set codes \<longleftrightarrow> row_id r \<in> fst ` set (success_detail sm)" if "r \<in> set (st_steps st1)" for r
      using pr(1) that inj_image_mem_iff[OF inj] unfolding codes by (simp add: store_ok_def)
    moreover have "set (st_steps st') = {r \<in> set (st_steps st1). row_case r = Some k \<longrightarrow> row_code r \<in> set codes}"
      unfolding st' by (rule drop_missing_keys) (rule code)
    ultimately have "keys_of k st' = {row_id r | r. r \<in> set (st_steps st1) \<and> row_case r = Some k \<and> row_id r \<in> fst ` set (success_detail sm)}"
      unfolding keys_of_def by blast
    also have "\<dots> = keys_of k st1 \<inter> fst ` set (success_detail sm)" unfolding keys_of_def by blast
    finally have "keys_of k st' = keys_of k st1 \<inter> fst ` set (success_detail sm)" .
    moreover have "st_next st' = st_next st1" by (simp add: st' drop_missing_def delete_sources_def Let_def)
    ultimately show ?thesis by simp
  qed
  show "map fst (filter snd (success_detail sm)) = [st_next st..st_next st' - 1]" using pr(3) keys by simp
  show "keys_of k st' \<subseteq> fst ` set (success_detail sm)" using keys by blast
  show "fst ` set (success_detail sm) \<subseteq> keys_of k st'" if "keeps_branches (saved_items items)"
    using pr(6)[OF keeps_same[OF names that]] keys by simp
qed


lemma int_str_inj: "inj int_str"
proof (rule injI)
  fix i j :: int
  have minus: "CHR ''-'' # s \<noteq> pos_str n" if "0 \<le> n" for s n
  proof
    assume "CHR ''-'' # s = pos_str n"
    then have "dec_value 0 (CHR ''-'' # s) = Some n" using dec_value_pos_str[OF that] by simp
    then show False by (simp add: is_decimal_def char_code_def)
  qed
  have pos: "a = b" if "pos_str a = pos_str b" "0 \<le> a" "0 \<le> b" for a b
  proof -
    have "Some a = dec_value 0 (pos_str a)" by (rule dec_value_pos_str[OF that(2), symmetric])
    also have "\<dots> = Some b" unfolding that(1) by (rule dec_value_pos_str[OF that(3)])
    finally show ?thesis by simp
  qed
  assume "int_str i = int_str j"
  then consider "i < 0" "j < 0" "pos_str (- i) = pos_str (- j)" | "\<not> i < 0" "\<not> j < 0" "pos_str i = pos_str j"
    | "\<not> j < 0" "CHR ''-'' # pos_str (- i) = pos_str j" | "\<not> i < 0" "CHR ''-'' # pos_str (- j) = pos_str i"
    unfolding int_str_def by (cases "i < 0"; cases "j < 0") auto
  then show "i = j"
  proof cases
    case 1
    from pos[OF 1(3)] 1(1,2) show ?thesis by simp
  next
    case 2
    from pos[OF 2(3)] 2(1,2) show ?thesis by simp
  next
    case 3
    from minus[of j] 3 show ?thesis by simp
  next
    case 4
    from minus[of i] 4 show ?thesis by simp
  qed
qed


end
