(* ===== verification/Batch.thy ===== *)
theory Batch
  imports CaseRun StepLoad
begin

text \<open>
  Runs of stored cases: \<^verbatim>\<open>execute_single_case\<close>, \<^verbatim>\<open>_execute_one_case\<close>, \<^verbatim>\<open>_aggregate_case_runs\<close> and
  \<^verbatim>\<open>batch_execute_cases\<close> of \<^verbatim>\<open>autotest_step_crud.py\<close>, over the tables of \<^verbatim>\<open>StepStore\<close> and the engine.

  A run has a number, which selects the clock and the answers of servers it meets and whether its
  transaction is refused by the database. What a run writes stays when a later one fails.
\<close>

section \<open>The tables as the engine reads them\<close>

text \<open>\<^verbatim>\<open>normalize_dataset_record\<close>: the four parts of a scenario, empty where they are not objects.\<close>

definition section_of :: "pyval dict \<Rightarrow> string \<Rightarrow> pyval dict" where
  "section_of d key = (case map_of d key of Some (PDict m) \<Rightarrow> m | _ \<Rightarrow> [])"

definition normalize_dataset_record :: "pyval \<Rightarrow> dataset" where
  "normalize_dataset_record v = (let d = (case v of PDict m \<Rightarrow> m | _ \<Rightarrow> []) in
     \<lparr>ds_head = section_of d ''head'', ds_body = section_of d ''body'', ds_assert_head = section_of d ''assert_head'',
      ds_assert_body = section_of d ''assert_body''\<rparr>)"

text \<open>\<^verbatim>\<open>load_dataset_for_request_step\<close>, outside a quoted case.\<close>

definition load_dataset :: "store \<Rightarrow> int option \<Rightarrow> string option \<Rightarrow> string \<Rightarrow> dataset option" where
  "load_dataset st k code name =
     (if name = [] \<or> \<not> truthy_text code then None
      else (case get_dataset_scenario st k (the code) name of
        Some (PDict d) \<Rightarrow> Some (normalize_dataset_record (PDict d))
      | _ \<Rightarrow> None))"

definition find_quoted_case :: "store \<Rightarrow> int \<Rightarrow> case_type \<Rightarrow> quote_lookup" where
  "find_quoted_case st q t = (case get_case st q of
     None \<Rightarrow> CaseMissing
   | Some k \<Rightarrow> if ca_type k = Some t then CaseFound (ca_session k) else CaseMissing)"

text \<open>A tree that cannot be loaded makes the quoting step fail.\<close>

definition quoted_tree :: "nat \<Rightarrow> store \<Rightarrow> int \<Rightarrow> step list option" where
  "quoted_tree n st q = (case get_case_tree n st q of Loaded (ls, ts) \<Rightarrow> Some ts | _ \<Rightarrow> None)"

definition stored_env :: "nat \<Rightarrow> store \<Rightarrow> engine_env \<Rightarrow> engine_env" where
  "stored_env n st env = env\<lparr>en_find_case := find_quoted_case st, en_case_tree := quoted_tree n st, en_load_dataset := load_dataset st\<rparr>"

section \<open>What a run leaves behind\<close>

record saved_report =
  sr_report :: report
  sr_task_code :: "string option"
  sr_batch_code :: "string option"
  sr_round :: "int option"

record run_world =
  w_store :: store
  w_reports :: "saved_report list"
  w_details :: "detail list"
  w_case_states :: "(int \<times> bool) list"
  w_runs :: nat

record platform =
  pf_env :: "nat \<Rightarrow> engine_env"
  pf_refused :: "nat \<Rightarrow> bool"
  pf_report_code :: "nat \<Rightarrow> string"
  pf_levels :: nat

datatype run_error = EmptyTree | NoRoots | CaseNotLoaded store_err | TreeTooDeep | EngineRaised exn | SavingRefused | CountOverflow

datatype 'a attempt = Returned 'a | Threw run_error | Hung

record run_result =
  rr_success :: bool
  rr_total :: nat
  rr_succeeded :: nat
  rr_failed :: nat
  rr_ratio :: pyfloat
  rr_report_code :: string
  rr_case_id :: int
  rr_case_code :: string
  rr_session :: "step_var list"
  rr_transfer :: bool

text \<open>The parameters all runs of a batch share.\<close>

record batch_args =
  ba_initial :: "step_var list"
  ba_task_code :: "string option"
  ba_batch_code :: "string option"

section \<open>One run\<close>

definition initial_pool :: "case_row \<Rightarrow> step list \<Rightarrow> step_var list \<Rightarrow> step_var list \<Rightarrow> step_var list" where
  "initial_pool k steps initial inherited =
     merge_session_variables [ca_session k, collect_session_variables steps, initial, inherited]"

definition save_run ::
    "batch_args \<Rightarrow> case_row \<Rightarrow> int option \<Rightarrow> case_outcome \<Rightarrow> run_world \<Rightarrow> run_world" where
  "save_run args k rno out w =
     w\<lparr>w_reports := w_reports w @ (case co_report out of None \<Rightarrow> []
         | Some r \<Rightarrow> [\<lparr>sr_report = r, sr_task_code = ba_task_code args, sr_batch_code = ba_batch_code args,
             sr_round = (if truthy_id rno then rno else None)\<rparr>]),
       w_details := w_details w @ (case co_details out of None \<Rightarrow> [] | Some ds \<Rightarrow> ds),
       w_case_states := AList.update (ca_id k) (failed_steps (co_statistics out) = 0) (w_case_states w)\<rparr>"

definition result_of :: "case_row \<Rightarrow> string \<Rightarrow> case_outcome \<Rightarrow> run_result" where
  "result_of k code out =
     (let s = co_statistics out in
      \<lparr>rr_success = (failed_steps s = 0), rr_total = total_steps s, rr_succeeded = success_steps s, rr_failed = failed_steps s,
       rr_ratio = passed_ratio s, rr_report_code = code, rr_case_id = ca_id k, rr_case_code = ca_code k,
       rr_session = co_session out, rr_transfer = ca_transfer k\<rparr>)"

definition execute_single_case ::
    "platform \<Rightarrow> batch_args \<Rightarrow> exec_config dict \<Rightarrow> string option \<Rightarrow> int option \<Rightarrow> step_var list \<Rightarrow>
     case_row \<Rightarrow> load_state \<times> step list \<Rightarrow> run_world \<Rightarrow> run_world \<times> run_result attempt" where
  "execute_single_case pf args cfg dsname rno inherited k loaded w =
     (case loaded of (ls, steps) \<Rightarrow>
       (let roots = filter (\<lambda>s. parent_step_id (sdata s) = None) steps; i = w_runs w; w1 = w\<lparr>w_runs := Suc i\<rparr>;
            code = pf_report_code pf i in
        if step_total ls = 0 then (w, Threw EmptyTree)
        else if roots = [] then (w, Threw NoRoots)
        else (case execute_case (stored_env (pf_levels pf) (w_store w) (pf_env pf i)) (pf_levels pf) (ca_id k) cfg (Some code)
                     (initial_pool k steps (ba_initial args) inherited) dsname roots of
               Fail c e \<Rightarrow> (w1, Threw (EngineRaised e))
             | Stuck \<Rightarrow> (w1, Hung)
             | Done c out \<Rightarrow> if pf_refused pf i then (w1, Threw SavingRefused)
                 else (save_run args k rno out w1, Returned (result_of k code out)))))"

section \<open>The runs of a case\<close>

record case_config =
  cc_steps :: "exec_config dict option"
  cc_count :: "pyval option"

text \<open>\<^verbatim>\<open>execute_count\<close>: a number between 1 and 9999, or 1 when the value is none; an infinite float raises.\<close>

definition clamp_count :: "int \<Rightarrow> int" where
  "clamp_count n = max 1 (min n 9999)"

definition execute_count :: "case_config option \<Rightarrow> int attempt" where
  "execute_count cfg = (case (case cfg of None \<Rightarrow> None | Some c \<Rightarrow> cc_count c) of
     None \<Rightarrow> Returned 1
   | Some v \<Rightarrow> (case py_int v of
       Inr n \<Rightarrow> Returned (clamp_count n)
     | Inl e \<Rightarrow> if e = OverflowError then Threw CountOverflow else Returned 1))"

definition steps_config :: "case_config option \<Rightarrow> exec_config dict option \<Rightarrow> exec_config dict" where
  "steps_config cfg shared = (case (case cfg of None \<Rightarrow> None | Some c \<Rightarrow> cc_steps c) of
     Some d \<Rightarrow> d | None \<Rightarrow> (case shared of None \<Rightarrow> [] | Some d \<Rightarrow> d))"

type_synonym run_fn = "string option \<Rightarrow> int option \<Rightarrow> step_var list \<Rightarrow> run_world \<Rightarrow> run_world \<times> run_result attempt"

text \<open>One round over the data sets: what a run leaves in its pool is handed to the next one when the case
  transfers it, and is taken out of the result.\<close>

fun run_datasets :: "run_fn \<Rightarrow> int \<Rightarrow> step_var list \<Rightarrow> string list \<Rightarrow> run_world \<Rightarrow> run_result list \<Rightarrow> run_world \<times> run_result list attempt" where
  "run_datasets run rno inherited [] w acc = (w, Returned acc)"
| "run_datasets run rno inherited (n # ns) w acc = (case run (Some n) (Some rno) inherited w of
     (w1, Returned one) \<Rightarrow>
       run_datasets run rno (if rr_transfer one then rr_session one else []) ns w1 (acc @ [one\<lparr>rr_session := []\<rparr>])
   | (w1, Threw e) \<Rightarrow> (w1, Threw e)
   | (w1, Hung) \<Rightarrow> (w1, Hung))"

fun run_case_rounds :: "run_fn \<Rightarrow> string list \<Rightarrow> int list \<Rightarrow> run_world \<Rightarrow> run_result list \<Rightarrow> run_world \<times> run_result list attempt" where
  "run_case_rounds run names [] w acc = (w, Returned acc)"
| "run_case_rounds run names (i # is) w acc = (case run_datasets run i [] names w acc of
     (w1, Returned acc1) \<Rightarrow> run_case_rounds run names is w1 acc1
   | (w1, Threw e) \<Rightarrow> (w1, Threw e)
   | (w1, Hung) \<Rightarrow> (w1, Hung))"

fun run_times :: "run_fn \<Rightarrow> int list \<Rightarrow> run_world \<Rightarrow> run_result list \<Rightarrow> run_world \<times> run_result list attempt" where
  "run_times run [] w acc = (w, Returned acc)"
| "run_times run (i # is) w acc = (case run None (Some i) [] w of
     (w1, Returned one) \<Rightarrow> run_times run is w1 (acc @ [one])
   | (w1, Threw e) \<Rightarrow> (w1, Threw e)
   | (w1, Hung) \<Rightarrow> (w1, Hung))"

record case_summary =
  cs_case_id :: int
  cs_success :: bool
  cs_error :: "run_error option"
  cs_saved :: bool
  cs_runs :: nat
  cs_total :: nat
  cs_succeeded :: nat
  cs_failed :: nat
  cs_ratio :: pyfloat
  cs_report_code :: "string option"

text \<open>\<^verbatim>\<open>round(a / b * 100, 2)\<close>.\<close>

definition percent :: "nat \<Rightarrow> nat \<Rightarrow> pyfloat" where
  "percent a b = (if b = 0 then FFin 0 else round2 (f_mul (f_div (round_double (of_nat a)) (round_double (of_nat b))) (FFin 100)))"

definition aggregate_case_runs :: "int \<Rightarrow> run_result list \<Rightarrow> bool \<Rightarrow> run_error option \<Rightarrow> case_summary" where
  "aggregate_case_runs cid rs ok e =
     (if rs = [] then \<lparr>cs_case_id = cid, cs_success = False, cs_error = e, cs_saved = False, cs_runs = 0, cs_total = 0,
        cs_succeeded = 0, cs_failed = 0, cs_ratio = FFin 0, cs_report_code = None\<rparr>
      else (let total_sum = sum_list (map rr_total rs); good = sum_list (map rr_succeeded rs) in
        \<lparr>cs_case_id = rr_case_id (last rs), cs_success = ok, cs_error = None, cs_saved = True, cs_runs = length rs, cs_total = total_sum,
         cs_succeeded = good, cs_failed = sum_list (map rr_failed rs), cs_ratio = percent good total_sum,
         cs_report_code = Some (rr_report_code (last rs))\<rparr>))"

definition case_runs ::
    "platform \<Rightarrow> batch_args \<Rightarrow> exec_config dict option \<Rightarrow> (int \<Rightarrow> case_config option) \<Rightarrow> bool \<Rightarrow> int \<Rightarrow> run_world \<Rightarrow>
     run_world \<times> run_result list attempt" where
  "case_runs pf args shared cfgs datasets cid w =
     (let names = (if datasets then filter (\<lambda>n. py_strip n \<noteq> []) (load_case_dataset_names (w_store w) cid) else []) in
      case execute_count (cfgs cid) of
        Threw e \<Rightarrow> (w, Threw e)
      | Hung \<Rightarrow> (w, Hung)
      | Returned runs \<Rightarrow>
          (case get_case (w_store w) cid of
             None \<Rightarrow> (w, Threw (CaseNotLoaded (NoCase (Some cid))))
           | Some k \<Rightarrow> (case get_case_tree (pf_levels pf) (w_store w) cid of
               Refused e \<Rightarrow> (w, Threw (CaseNotLoaded e))
             | TooDeep \<Rightarrow> (w, Threw TreeTooDeep)
             | Loaded loaded \<Rightarrow>
                 (let run = (\<lambda>dsname rno inherited. execute_single_case pf args (steps_config (cfgs cid) shared) dsname rno inherited k loaded)
                  in if names \<noteq> [] then run_case_rounds run names [1..runs] w [] else run_times run [1..runs] w []))))"

definition execute_one_case ::
    "platform \<Rightarrow> batch_args \<Rightarrow> exec_config dict option \<Rightarrow> (int \<Rightarrow> case_config option) \<Rightarrow> bool \<Rightarrow> int \<Rightarrow> run_world \<Rightarrow>
     run_world \<times> case_summary attempt" where
  "execute_one_case pf args shared cfgs datasets cid w = (case case_runs pf args shared cfgs datasets cid w of
     (w1, Returned rs) \<Rightarrow> (w1, Returned (aggregate_case_runs cid rs (rs \<noteq> [] \<and> list_all rr_success rs) None))
   | (w1, Threw e) \<Rightarrow> (w1, Returned (aggregate_case_runs cid [] False (Some e)))
   | (w1, Hung) \<Rightarrow> (w1, Hung))"

section \<open>The batch\<close>

text \<open>The cases one after the other; a run that does not end ends nothing.\<close>

fun run_cases :: "(int \<Rightarrow> run_world \<Rightarrow> run_world \<times> case_summary attempt) \<Rightarrow> int list \<Rightarrow> run_world \<Rightarrow> (run_world \<times> case_summary list) option" where
  "run_cases run [] w = Some (w, [])"
| "run_cases run (c # cs) w = (case run c w of
     (w1, Returned x) \<Rightarrow> (case run_cases run cs w1 of None \<Rightarrow> None | Some (w2, xs) \<Rightarrow> Some (w2, x # xs))
   | _ \<Rightarrow> None)"

record batch_summary =
  bs_total :: nat
  bs_success :: nat
  bs_failed :: nat
  bs_rate :: pyfloat
  bs_results :: "case_summary list"

definition batch_execute_cases ::
    "platform \<Rightarrow> batch_args \<Rightarrow> exec_config dict option \<Rightarrow> (int \<Rightarrow> case_config option) \<Rightarrow> bool \<Rightarrow> int list \<Rightarrow> run_world \<Rightarrow>
     (run_world \<times> batch_summary) option" where
  "batch_execute_cases pf args shared cfgs datasets cids w =
     (case run_cases (execute_one_case pf args shared cfgs datasets) cids w of
        None \<Rightarrow> None
      | Some (w1, rs) \<Rightarrow>
          (let good = length (filter cs_success rs) in
           Some (w1, \<lparr>bs_total = length cids, bs_success = good, bs_failed = length rs - good, bs_rate = percent good (length cids),
             bs_results = rs\<rparr>)))"

end
