(* ===== verification/BatchRules.thy ===== *)
theory BatchRules
  imports Batch Samples StoreSamples
begin

text \<open>
  What a batch of cases promises: it accounts for every case, runs every data set once in every round, and
  hands variables on by precedence. The interface \<^verbatim>\<open>case_runner\<close> states what the loops over rounds and data
  sets use of a single run.
\<close>

section \<open>A single run\<close>

text \<open>What a saved report says of its run: the code, the round and the data set.\<close>

definition report_mark :: "saved_report \<Rightarrow> string \<times> int option \<times> string option" where
  "report_mark r = (rp_code (sr_report r), sr_round r, rp_dataset_name (sr_report r))"

definition run_adds_up :: "int \<Rightarrow> run_result \<Rightarrow> bool" where
  "run_adds_up cid r = (rr_case_id r = cid \<and> rr_total r = rr_succeeded r + rr_failed r \<and> rr_success r = (rr_failed r = 0))"

text \<open>Runs that are saved, or are not where the database refuses the transaction.\<close>

definition saves_unless :: "(nat \<Rightarrow> bool) \<Rightarrow> store \<Rightarrow> run_fn \<Rightarrow> bool" where
  "saves_unless refused s run = (\<forall>d r inh w. w_store w = s \<longrightarrow>
     (\<exists>w'. w_store w' = s \<and> w_runs w' = Suc (w_runs w) \<and>
        (if refused (w_runs w) then run d r inh w = (w', Threw SavingRefused) \<and> length (w_reports w') = length (w_reports w)
         else (\<exists>one. run d r inh w = (w', Returned one)) \<and> length (w_reports w') = Suc (length (w_reports w)))))"

locale case_runner =
  fixes run :: run_fn and good :: "run_result \<Rightarrow> bool"
  assumes run_store: "run d r inh w = (w', x) \<Longrightarrow> w_store w' = w_store w"
    and run_good: "run d r inh w = (w', Returned one) \<Longrightarrow> good one"
    and good_session: "good one \<Longrightarrow> good (one\<lparr>rr_session := vs\<rparr>)"
    and run_saves: "\<lbrakk>run d (Some i) inh w = (w', Returned one); rr_report_code one \<noteq> []; i \<noteq> 0; d \<noteq> Some []\<rbrakk> \<Longrightarrow>
      map report_mark (w_reports w') = map report_mark (w_reports w) @ [(rr_report_code one, Some i, d)]"
begin

definition marks_of :: "run_result list \<Rightarrow> (int option \<times> string option) list \<Rightarrow> run_world \<Rightarrow> run_world \<Rightarrow> bool" where
  "marks_of new plan w w' = (length new = length plan \<and> (\<forall>one \<in> set new. good one) \<and> w_store w' = w_store w \<and>
     ((\<forall>one \<in> set new. rr_report_code one \<noteq> []) \<longrightarrow>
       map report_mark (w_reports w') = map report_mark (w_reports w) @ zip (map rr_report_code new) plan))"

lemma marks_append: "marks_of a p w w1 \<Longrightarrow> marks_of b q w1 w2 \<Longrightarrow> marks_of (a @ b) (p @ q) w w2"
  by (auto simp: marks_of_def)

lemma marks_nil: "marks_of [] [] w w"
  by (simp add: marks_of_def)

lemma marks_run:
  "run d (Some i) inh w = (w', Returned one) \<Longrightarrow> i \<noteq> 0 \<Longrightarrow> d \<noteq> Some [] \<Longrightarrow> marks_of [one] [(Some i, d)] w w'"
  using run_saves[of d i inh w w' one] run_good[of d "Some i" inh w w' one] run_store[of d "Some i" inh w w']
  by (auto simp: marks_of_def)

lemma marks_session: "marks_of [one] p w w' \<Longrightarrow> marks_of [one\<lparr>rr_session := vs\<rparr>] p w w'"
  using good_session by (auto simp: marks_of_def)

lemma run_datasets_marks:
  "\<lbrakk>run_datasets run i inh ns w acc = (w', Returned rs); i \<noteq> 0; [] \<notin> set ns\<rbrakk> \<Longrightarrow>
   \<exists>new. rs = acc @ new \<and> marks_of new (map (\<lambda>n. (Some i, Some n)) ns) w w'"
proof (induction ns arbitrary: inh w acc)
  case Nil
  then show ?case using marks_nil by simp
next
  case (Cons n ns)
  from Cons.prems(1) obtain w1 one where one: "run (Some n) (Some i) inh w = (w1, Returned one)"
    by (cases "run (Some n) (Some i) inh w"; cases "snd (run (Some n) (Some i) inh w)") auto
  have m: "marks_of [one\<lparr>rr_session := []\<rparr>] [(Some i, Some n)] w w1"
    using marks_session[OF marks_run[OF one]] Cons.prems(2,3) by auto
  from Cons.IH[OF _ Cons.prems(2)] Cons.prems(1,3) one obtain new where
    "rs = (acc @ [one\<lparr>rr_session := []\<rparr>]) @ new" "marks_of new (map (\<lambda>n. (Some i, Some n)) ns) w1 w'"
    by fastforce
  with marks_append[OF m this(2)] show ?case by auto
qed

lemma run_rounds_marks:
  "\<lbrakk>run_case_rounds run ns is w acc = (w', Returned rs); 0 \<notin> set is; [] \<notin> set ns\<rbrakk> \<Longrightarrow>
   \<exists>new. rs = acc @ new \<and> marks_of new [(Some i, Some n). i \<leftarrow> is, n \<leftarrow> ns] w w'"
proof (induction "is" arbitrary: w acc)
  case Nil
  then show ?case using marks_nil by simp
next
  case (Cons i "is")
  from Cons.prems(1) obtain w1 acc1 where one: "run_datasets run i [] ns w acc = (w1, Returned acc1)"
    by (cases "run_datasets run i [] ns w acc"; cases "snd (run_datasets run i [] ns w acc)") auto
  with Cons.prems run_datasets_marks[OF one] obtain a where
    a: "acc1 = acc @ a" "marks_of a (map (\<lambda>n. (Some i, Some n)) ns) w w1" by auto
  from Cons.IH[of w1 acc1] Cons.prems one obtain b where
    b: "rs = acc1 @ b" "marks_of b [(Some i, Some n). i \<leftarrow> is, n \<leftarrow> ns] w1 w'" by auto
  from marks_append[OF a(2) b(2)] a(1) b(1) show ?case by auto
qed

lemma run_times_marks:
  "\<lbrakk>run_times run is w acc = (w', Returned rs); 0 \<notin> set is\<rbrakk> \<Longrightarrow>
   \<exists>new. rs = acc @ new \<and> marks_of new (map (\<lambda>i. (Some i, None)) is) w w'"
proof (induction "is" arbitrary: w acc)
  case Nil
  then show ?case using marks_nil by simp
next
  case (Cons i "is")
  from Cons.prems(1) obtain w1 one where one: "run None (Some i) [] w = (w1, Returned one)"
    by (cases "run None (Some i) [] w"; cases "snd (run None (Some i) [] w)") auto
  have m: "marks_of [one] [(Some i, None)] w w1" using marks_run[OF one] Cons.prems(2) by auto
  from Cons.IH[of w1 "acc @ [one]"] Cons.prems one obtain b where
    b: "rs = (acc @ [one]) @ b" "marks_of b (map (\<lambda>i. (Some i, None)) is) w1 w'" by auto
  from marks_append[OF m b(2)] b(1) show ?case by auto
qed

text \<open>The tables are as before, however a loop over runs ends.\<close>

lemma run_datasets_store: "run_datasets run i inh ns w acc = (w', x) \<Longrightarrow> w_store w' = w_store w"
proof (induction ns arbitrary: inh w acc)
  case (Cons n ns)
  obtain w1 q where q: "run (Some n) (Some i) inh w = (w1, q)" by fastforce
  with run_store[OF q] Cons show ?case by (cases q) auto
qed simp

lemma run_rounds_store: "run_case_rounds run ns is w acc = (w', x) \<Longrightarrow> w_store w' = w_store w"
proof (induction "is" arbitrary: w acc)
  case (Cons i "is")
  obtain w1 q where q: "run_datasets run i [] ns w acc = (w1, q)" by fastforce
  with run_datasets_store[OF q] Cons show ?case by (cases q) auto
qed simp

lemma run_times_store: "run_times run is w acc = (w', x) \<Longrightarrow> w_store w' = w_store w"
proof (induction "is" arbitrary: w acc)
  case (Cons i "is")
  obtain w1 q where q: "run None (Some i) [] w = (w1, q)" by fastforce
  with run_store[OF q] Cons show ?case by (cases q) auto
qed simp

text \<open>A loop hangs only where a run does.\<close>

lemma run_datasets_hung:
  assumes "\<And>d r inh w w'. w_store w = s \<Longrightarrow> run d r inh w \<noteq> (w', Hung)" "w_store w = s"
  shows "run_datasets run i inh ns w acc \<noteq> (w', Hung)"
  using assms(2)
proof (induction ns arbitrary: inh w acc)
  case (Cons n ns)
  obtain w1 q where q: "run (Some n) (Some i) inh w = (w1, q)" by fastforce
  with run_store[OF q] assms(1)[OF Cons.prems] Cons show ?case by (cases q) auto
qed simp

lemma run_rounds_hung:
  assumes "\<And>d r inh w w'. w_store w = s \<Longrightarrow> run d r inh w \<noteq> (w', Hung)" "w_store w = s"
  shows "run_case_rounds run ns is w acc \<noteq> (w', Hung)"
  using assms(2)
proof (induction "is" arbitrary: w acc)
  case (Cons i "is")
  obtain w1 q where q: "run_datasets run i [] ns w acc = (w1, q)" by fastforce
  with run_datasets_store[OF q] run_datasets_hung[OF assms(1) Cons.prems] Cons show ?case by (cases q) auto
qed simp

lemma run_times_hung:
  assumes "\<And>d r inh w w'. w_store w = s \<Longrightarrow> run d r inh w \<noteq> (w', Hung)" "w_store w = s"
  shows "run_times run is w acc \<noteq> (w', Hung)"
  using assms(2)
proof (induction "is" arbitrary: w acc)
  case (Cons i "is")
  obtain w1 q where q: "run None (Some i) [] w = (w1, q)" by fastforce
  with run_store[OF q] assms(1)[OF Cons.prems] Cons show ?case by (cases q) auto
qed simp

text \<open>When every run returns, the loops return.\<close>

lemma run_datasets_returns:
  assumes "\<And>d r inh w. w_store w = s \<Longrightarrow> \<exists>w' one. run d r inh w = (w', Returned one)" "w_store w = s"
  shows "\<exists>w' rs. run_datasets run i inh ns w acc = (w', Returned rs)"
  using assms(2)
proof (induction ns arbitrary: inh w acc)
  case (Cons n ns)
  from assms(1)[OF Cons.prems] obtain w1 one where q: "run (Some n) (Some i) inh w = (w1, Returned one)" by blast
  with run_store[OF q] Cons show ?case by auto
qed simp

lemma run_rounds_returns:
  assumes "\<And>d r inh w. w_store w = s \<Longrightarrow> \<exists>w' one. run d r inh w = (w', Returned one)" "w_store w = s"
  shows "\<exists>w' rs. run_case_rounds run ns is w acc = (w', Returned rs)"
  using assms(2)
proof (induction "is" arbitrary: w acc)
  case (Cons i "is")
  from run_datasets_returns[OF assms(1) Cons.prems] obtain w1 acc1 where
    q: "run_datasets run i [] ns w acc = (w1, Returned acc1)" by blast
  with run_datasets_store[OF q] Cons show ?case by auto
qed simp

text \<open>Up to the first refused transaction every run is saved, and with it the loop ends.\<close>

lemma run_is_saved:
  assumes "saves_unless refused s run" "w_store w = s" "\<not> refused (w_runs w)"
  obtains w' one where "run d r inh w = (w', Returned one)" "w_store w' = s" "w_runs w' = Suc (w_runs w)"
    "length (w_reports w') = Suc (length (w_reports w))"
  using assms unfolding saves_unless_def by metis

lemma run_is_refused:
  assumes "saves_unless refused s run" "w_store w = s" "refused (w_runs w)"
  obtains w' where "run d r inh w = (w', Threw SavingRefused)" "length (w_reports w') = length (w_reports w)"
  using assms unfolding saves_unless_def by metis

lemma run_datasets_saved:
  assumes "saves_unless refused s run"
  shows "w_store w = s \<Longrightarrow> \<forall>m < length ns. \<not> refused (w_runs w + m) \<Longrightarrow>
    \<exists>w' rs. run_datasets run i inh ns w acc = (w', Returned rs) \<and> w_store w' = s \<and> w_runs w' = w_runs w + length ns \<and>
      length (w_reports w') = length (w_reports w) + length ns"
proof (induction ns arbitrary: inh w acc)
  case (Cons n ns)
  have "\<not> refused (w_runs w)" using Cons.prems(2)[rule_format, of 0] by simp
  from run_is_saved[OF assms Cons.prems(1) this] obtain w1 one where q: "run (Some n) (Some i) inh w = (w1, Returned one)"
    "w_store w1 = s" "w_runs w1 = Suc (w_runs w)" "length (w_reports w1) = Suc (length (w_reports w))" .
  moreover have "\<not> refused (w_runs w1 + m)" if "m < length ns" for m
    using Cons.prems(2)[rule_format, of "Suc m"] that q(3) by simp
  ultimately show ?case using Cons.IH[OF q(2)] by fastforce
qed simp

lemma run_datasets_refused:
  assumes "saves_unless refused s run"
  shows "w_store w = s \<Longrightarrow> j < length ns \<Longrightarrow> \<forall>m < j. \<not> refused (w_runs w + m) \<Longrightarrow> refused (w_runs w + j) \<Longrightarrow>
    \<exists>w'. run_datasets run i inh ns w acc = (w', Threw SavingRefused) \<and> length (w_reports w') = length (w_reports w) + j"
proof (induction ns arbitrary: j inh w acc)
  case (Cons n ns)
  show ?case
  proof (cases j)
    case 0
    with run_is_refused[OF assms Cons.prems(1), of "Some n" "Some i" inh] Cons.prems(4) show ?thesis by fastforce
  next
    case (Suc k)
    have "\<not> refused (w_runs w)" using Cons.prems(3)[rule_format, of 0] Suc by simp
    from run_is_saved[OF assms Cons.prems(1) this] obtain w1 one where
      q: "run (Some n) (Some i) inh w = (w1, Returned one)" "w_store w1 = s" "w_runs w1 = Suc (w_runs w)"
        "length (w_reports w1) = Suc (length (w_reports w))" .
    have "\<forall>m < k. \<not> refused (w_runs w1 + m)" "refused (w_runs w1 + k)" "k < length ns"
      using Cons.prems(2-4) Suc q(3) by auto
    from Cons.IH[OF q(2) this(3,1,2)] q Suc show ?thesis by force
  qed
qed simp

lemma run_rounds_saved:
  assumes "saves_unless refused s run"
  shows "w_store w = s \<Longrightarrow> \<forall>m < length is * length ns. \<not> refused (w_runs w + m) \<Longrightarrow>
    \<exists>w' rs. run_case_rounds run ns is w acc = (w', Returned rs)"
proof (induction "is" arbitrary: w acc)
  case (Cons i "is")
  have "\<forall>m < length ns. \<not> refused (w_runs w + m)" using Cons.prems(2) by simp
  from run_datasets_saved[OF assms Cons.prems(1) this, of i "[]" acc] obtain w1 acc1 where
    q: "run_datasets run i [] ns w acc = (w1, Returned acc1)" "w_store w1 = s" "w_runs w1 = w_runs w + length ns" by blast
  have "\<not> refused (w_runs w1 + m)" if "m < length is * length ns" for m
    using Cons.prems(2)[rule_format, of "length ns + m"] that q(3) by (simp add: algebra_simps)
  then have "\<forall>m < length is * length ns. \<not> refused (w_runs w1 + m)" by blast
  from Cons.IH[OF q(2) this, of acc1] q(1) show ?case by simp
qed simp

lemma run_rounds_refused:
  assumes "saves_unless refused s run"
  shows "w_store w = s \<Longrightarrow> j < length is * length ns \<Longrightarrow> \<forall>m < j. \<not> refused (w_runs w + m) \<Longrightarrow> refused (w_runs w + j) \<Longrightarrow>
    \<exists>w'. run_case_rounds run ns is w acc = (w', Threw SavingRefused) \<and> length (w_reports w') = length (w_reports w) + j"
proof (induction "is" arbitrary: j w acc)
  case (Cons i "is")
  show ?case
  proof (cases "j < length ns")
    case True
    from run_datasets_refused[OF assms Cons.prems(1) True Cons.prems(3,4), of i "[]" acc] show ?thesis by auto
  next
    case False
    with Cons.prems(3) have "\<forall>m < length ns. \<not> refused (w_runs w + m)" by auto
    from run_datasets_saved[OF assms Cons.prems(1) this, of i "[]" acc] obtain w1 acc1 where
      q: "run_datasets run i [] ns w acc = (w1, Returned acc1)" "w_store w1 = s" "w_runs w1 = w_runs w + length ns"
        "length (w_reports w1) = length (w_reports w) + length ns" by blast
    have "\<not> refused (w_runs w1 + m)" if "m < j - length ns" for m
      using Cons.prems(3)[rule_format, of "length ns + m"] that q(3) by (simp add: algebra_simps)
    moreover have "refused (w_runs w1 + (j - length ns))" "j - length ns < length is * length ns"
      using Cons.prems(2,4) False q(3) by simp_all
    ultimately obtain w' where "run_case_rounds run ns is w1 acc1 = (w', Threw SavingRefused)"
      "length (w_reports w') = length (w_reports w1) + (j - length ns)" using Cons.IH[OF q(2)] by meson
    then show ?thesis using q False by simp
  qed
qed simp

lemma run_times_refused:
  assumes "saves_unless refused s run"
  shows "w_store w = s \<Longrightarrow> j < length is \<Longrightarrow> \<forall>m < j. \<not> refused (w_runs w + m) \<Longrightarrow> refused (w_runs w + j) \<Longrightarrow>
    \<exists>w'. run_times run is w acc = (w', Threw SavingRefused) \<and> length (w_reports w') = length (w_reports w) + j"
proof (induction "is" arbitrary: j w acc)
  case (Cons i "is")
  show ?case
  proof (cases j)
    case 0
    with run_is_refused[OF assms Cons.prems(1), of None "Some i" "[]"] Cons.prems(4) show ?thesis by fastforce
  next
    case (Suc k)
    have "\<not> refused (w_runs w)" using Cons.prems(3)[rule_format, of 0] Suc by simp
    from run_is_saved[OF assms Cons.prems(1) this] obtain w1 one where
      q: "run None (Some i) [] w = (w1, Returned one)" "w_store w1 = s" "w_runs w1 = Suc (w_runs w)"
        "length (w_reports w1) = Suc (length (w_reports w))" .
    have "\<forall>m < k. \<not> refused (w_runs w1 + m)" "refused (w_runs w1 + k)" "k < length is"
      using Cons.prems(2-4) Suc q(3) by auto
    from Cons.IH[OF q(2) this(3,1,2)] q Suc show ?thesis by force
  qed
qed simp

end

section \<open>Runs of the engine\<close>

lemma single_done:
  assumes "execute_single_case pf args cfg d r inh k loaded w = (w', Returned one)"
  obtains ls steps c out where "loaded = (ls, steps)"
    "execute_case (stored_env (pf_levels pf) (w_store w) (pf_env pf (w_runs w))) (pf_levels pf) (ca_id k) cfg (Some (pf_report_code pf (w_runs w)))
       (initial_pool k steps (ba_initial args) inh) d (filter (\<lambda>s. parent_step_id (sdata s) = None) steps) = Done c out"
    "w' = save_run args k r out (w\<lparr>w_runs := Suc (w_runs w)\<rparr>)" "one = result_of k (pf_report_code pf (w_runs w)) out"
  using assms by (cases loaded) (auto simp: execute_single_case_def Let_def split: if_splits outcome.splits)

lemma outcome_of:
  assumes "execute_case env n cid cfg (Some code) vars ds steps = Done c out"
  shows "success_steps (co_statistics out) + failed_steps (co_statistics out) = total_steps (co_statistics out)"
    and "code \<noteq> [] \<Longrightarrow> \<exists>rp. co_report out = Some rp \<and> rp_code rp = code \<and> rp_dataset_name rp = (if truthy_text ds then ds else None)"
proof -
  let ?c0 = "init_ctx env cid cfg (Some code) vars ds"
  let ?m = "run_roots (exec_step env n) (sort_steps (map prepare_step steps)) ?c0"
  from assms(1) obtain rs where m: "?m = Done c rs" "out = finish_case rs c"
    by (cases ?m) (auto simp: execute_case_def)
  have "step_frame ?c0 c" using engine.run_roots_stays[of ?c0 env n] m(1) by (metis stays_simps(1))
  then have c: "c_report_code c = Some code" "c_dataset_name c = ds"
    by (simp_all add: step_frame_def frame_def same_case_def init_ctx_def split: prod.splits)
  show "success_steps (co_statistics out) + failed_steps (co_statistics out) = total_steps (co_statistics out)"
    using statistics_counts(3)[of rs] m(2) by (simp add: finish_case_def Let_def)
  show "code \<noteq> [] \<Longrightarrow> \<exists>rp. co_report out = Some rp \<and> rp_code rp = code \<and> rp_dataset_name rp = (if truthy_text ds then ds else None)"
    using m(2) c by (simp add: finish_case_def Let_def make_report_def truthy_text_def)
qed

lemma save_run_simps [simp]:
  "w_store (save_run args k r out w) = w_store w" "w_runs (save_run args k r out w) = w_runs w"
  by (simp_all add: save_run_def)

lemma single_store: "execute_single_case pf args cfg d r inh k loaded w = (w', x) \<Longrightarrow> w_store w' = w_store w"
  by (cases loaded) (auto simp: execute_single_case_def Let_def split: if_splits outcome.splits)

lemma single_good:
  assumes "execute_single_case pf args cfg d r inh k loaded w = (w', Returned one)"
  shows "run_adds_up (ca_id k) one \<and> rr_report_code one \<in> range (pf_report_code pf)"
proof -
  from assms obtain c out ls steps where o: "execute_case (stored_env (pf_levels pf) (w_store w) (pf_env pf (w_runs w))) (pf_levels pf) (ca_id k) cfg
       (Some (pf_report_code pf (w_runs w))) (initial_pool k steps (ba_initial args) inh) d (filter (\<lambda>s. parent_step_id (sdata s) = None) steps) = Done c out"
    "one = result_of k (pf_report_code pf (w_runs w)) out"
    by (rule single_done)
  from outcome_of(1)[OF o(1)] o(2) show ?thesis by (auto simp: result_of_def Let_def run_adds_up_def)
qed

lemma single_saves:
  assumes "execute_single_case pf args cfg d (Some i) inh k loaded w = (w', Returned one)"
    and "rr_report_code one \<noteq> []" "i \<noteq> 0" "d \<noteq> Some []"
  shows "map report_mark (w_reports w') = map report_mark (w_reports w) @ [(rr_report_code one, Some i, d)]"
proof -
  from assms(1) obtain c out ls steps where o: "execute_case (stored_env (pf_levels pf) (w_store w) (pf_env pf (w_runs w))) (pf_levels pf) (ca_id k) cfg
       (Some (pf_report_code pf (w_runs w))) (initial_pool k steps (ba_initial args) inh) d (filter (\<lambda>s. parent_step_id (sdata s) = None) steps) = Done c out"
    "w' = save_run args k (Some i) out (w\<lparr>w_runs := Suc (w_runs w)\<rparr>)" "one = result_of k (pf_report_code pf (w_runs w)) out"
    by (rule single_done)
  have code: "rr_report_code one = pf_report_code pf (w_runs w)" using o(3) by (simp add: result_of_def Let_def)
  from outcome_of(2)[OF o(1)] assms(2) code obtain rp where "co_report out = Some rp" "rp_code rp = rr_report_code one"
    "rp_dataset_name rp = (if truthy_text d then d else None)" by auto
  then show ?thesis using o(2) assms(3,4)
    by (cases d) (auto simp: save_run_def report_mark_def truthy_id_def truthy_text_def)
qed

interpretation single: case_runner "\<lambda>d r inh. execute_single_case pf args cfg d r inh k loaded"
    "\<lambda>one. run_adds_up (ca_id k) one \<and> rr_report_code one \<in> range (pf_report_code pf)" for pf args cfg k loaded
  by unfold_locales (auto simp: single_good single_saves run_adds_up_def dest: single_store single_good)

section \<open>The runs of a case\<close>

abbreviation set_names :: "store \<Rightarrow> int \<Rightarrow> string list" where
  "set_names st cid \<equiv> filter (\<lambda>n. py_strip n \<noteq> []) (load_case_dataset_names st cid)"

lemma get_case_id: "get_case st q = Some k \<Longrightarrow> ca_id k = q"
  by (auto simp: get_case_def find_Some_iff)

lemma execute_count_range: "execute_count cfg = Returned n \<Longrightarrow> 1 \<le> n \<and> n \<le> 9999"
  by (auto simp: execute_count_def clamp_count_def split: option.splits sum.splits if_splits)

text \<open>The runs of a case, as the loop over rounds and data sets or over rounds alone.\<close>

lemma case_runs_cases:
  assumes "case_runs pf args shared cfgs datasets cid w = (w', x)"
  obtains (stops) e where "w' = w" "x = Threw e"
  | (rounds) k loaded n where "get_case (w_store w) cid = Some k" "get_case_tree (pf_levels pf) (w_store w) cid = Loaded loaded"
      "execute_count (cfgs cid) = Returned n" "datasets" "set_names (w_store w) cid \<noteq> []"
      "run_case_rounds (\<lambda>d r inh. execute_single_case pf args (steps_config (cfgs cid) shared) d r inh k loaded) (set_names (w_store w) cid) [1..n] w [] = (w', x)"
  | (times) k loaded n where "get_case (w_store w) cid = Some k" "get_case_tree (pf_levels pf) (w_store w) cid = Loaded loaded"
      "execute_count (cfgs cid) = Returned n" "\<not> datasets \<or> set_names (w_store w) cid = []"
      "run_times (\<lambda>d r inh. execute_single_case pf args (steps_config (cfgs cid) shared) d r inh k loaded) [1..n] w [] = (w', x)"
proof -
  have no: "execute_count (cfgs cid) \<noteq> Hung" by (auto simp: execute_count_def split: option.splits sum.splits)
  show thesis
    using assms no stops unfolding case_runs_def Let_def
    by (auto split: attempt.splits option.splits load.splits if_splits intro: rounds times stops)
qed

lemma case_runs_results:
  assumes "case_runs pf args shared cfgs datasets cid w = (w', Returned rs)"
  shows "\<forall>one \<in> set rs. run_adds_up cid one"
  using assms
proof (cases rule: case_runs_cases)
  case (rounds k loaded n)
  from single.run_rounds_marks[OF rounds(6)] show ?thesis
    using get_case_id[OF rounds(1)] by (auto simp: single.marks_of_def)
next
  case (times k loaded n)
  from single.run_times_marks[OF times(5)] show ?thesis
    using get_case_id[OF times(1)] by (auto simp: single.marks_of_def)
qed simp

lemma case_runs_store:
  assumes "case_runs pf args shared cfgs datasets cid w = (w', x)"
  shows "w_store w' = w_store w"
  using assms by (cases rule: case_runs_cases) (auto dest: single.run_rounds_store single.run_times_store)

section \<open>A platform\<close>

text \<open>The sample case with two data sets, on a platform that refuses the second transaction or none.\<close>

definition sample_platform :: "bool \<Rightarrow> platform" where
  "sample_platform b = \<lparr>pf_env = (\<lambda>i. sample_env), pf_refused = (\<lambda>i. b \<and> i = 1), pf_report_code = (\<lambda>i. ''r''), pf_levels = 3\<rparr>"

definition sample_source :: source_row where
  "sample_source = \<lparr>src_id = 1, src_case = 5, src_case_code = ''c5'', src_step = 1, src_step_code = ''1'', src_dataset = PDict [],
     src_names = [PStr ''a'', PStr ''b''], src_frame = PNone, src_axis = 0, src_removed = False\<rparr>"

definition sample_world :: run_world where
  "sample_world = \<lparr>w_store = sample_store\<lparr>st_sources := [sample_source]\<rparr>, w_reports = [], w_details = [], w_case_states = [], w_runs = 0\<rparr>"

definition sample_args :: batch_args where
  "sample_args = \<lparr>ba_initial = [], ba_task_code = None, ba_batch_code = Some ''b''\<rparr>"

definition sample_tree_loaded :: "load_state \<times> step list" where
  "sample_tree_loaded = (case get_case_tree 3 (w_store sample_world) 5 of Loaded x \<Rightarrow> x | _ \<Rightarrow> (no_steps, []))"

lemma sample_platform_simps [simp]:
  "pf_env (sample_platform b) i = sample_env" "pf_refused (sample_platform b) i = (b \<and> i = 1)"
  "pf_report_code (sample_platform b) i = ''r''" "pf_levels (sample_platform b) = 3"
  by (simp_all add: sample_platform_def)

lemma sample_loads:
  "get_case_tree 3 (w_store sample_world) 5 = Loaded sample_tree_loaded"
  "get_case (w_store sample_world) 5 = Some sample_case" "set_names (w_store sample_world) 5 = [''a'', ''b'']"
  "step_total (fst sample_tree_loaded) = 3" "filter (\<lambda>s. parent_step_id (sdata s) = None) (snd sample_tree_loaded) \<noteq> []"
  by code_simp+

lemma sample_fits:
  "list_all (\<lambda>s. step_type (sdata s) \<noteq> None \<and> fits (stored_env 3 (w_store sample_world) sample_env) 3 s) (snd sample_tree_loaded)"
  by code_simp

lemmas sample_steps = sample_fits[unfolded list_all_iff]

lemma sample_step:
  assumes "sample_tree_loaded = (ls, ts)" "s \<in> set ts"
  shows "step_type (sdata s) \<noteq> None \<and> fits (stored_env 3 (w_store sample_world) sample_env) 3 s"
proof -
  have "s \<in> set (snd sample_tree_loaded)" unfolding assms(1) snd_conv by (rule assms(2))
  with sample_steps show ?thesis by blast
qed

lemma sample_world_simps [simp]: "w_reports sample_world = []" "w_runs sample_world = 0"
  by (simp_all add: sample_world_def)

lemma sample_run:
  assumes "w_store v = w_store sample_world"
  shows "\<exists>w' one. execute_single_case (sample_platform False) sample_args cfg d r inh sample_case sample_tree_loaded v = (w', Returned one)"
proof -
  let ?ts = "snd sample_tree_loaded"
  have "\<exists>c out. execute_case (stored_env 3 (w_store sample_world) sample_env) 3 (ca_id sample_case) cfg (Some ''r'')
      (initial_pool sample_case ?ts (ba_initial sample_args) inh) d (filter (\<lambda>s. parent_step_id (sdata s) = None) ?ts) = Done c out"
    using sample_steps by (intro case_ends) auto
  then show ?thesis
    using sample_loads assms by (auto simp: execute_single_case_def Let_def split_beta)
qed

lemma sample_case_runs:
  "\<exists>w' rs. case_runs (sample_platform False) sample_args None (\<lambda>_. None) True 5 sample_world = (w', Returned rs)"
proof -
  let ?run = "\<lambda>d r inh. execute_single_case (sample_platform False) sample_args (steps_config None None) d r inh sample_case sample_tree_loaded"
  have "\<exists>w' rs. run_case_rounds ?run (set_names (w_store sample_world) 5) [1..1] sample_world [] = (w', Returned rs)"
    by (rule single.run_rounds_returns[OF sample_run refl])
  then show ?thesis by (simp add: case_runs_def sample_loads execute_count_def)
qed

section \<open>Properties\<close>

text \<open>How many runs a case asks for, and what a tree needs so that each of them comes to an end.\<close>

definition planned_runs :: "bool \<Rightarrow> run_world \<Rightarrow> int \<Rightarrow> int \<Rightarrow> nat" where
  "planned_runs datasets w cid n =
     nat n * (if datasets \<and> set_names (w_store w) cid \<noteq> [] then length (set_names (w_store w) cid) else 1)"

definition tree_runs :: "platform \<Rightarrow> store \<Rightarrow> load_state \<times> step list \<Rightarrow> bool" where
  "tree_runs pf st loaded = (step_total (fst loaded) \<noteq> 0 \<and> (\<exists>s \<in> set (snd loaded). parent_step_id (sdata s) = None) \<and>
     (\<forall>s \<in> set (snd loaded). step_type (sdata s) \<noteq> None \<and> (\<forall>i. fits (stored_env (pf_levels pf) st (pf_env pf i)) (pf_levels pf) s)))"

lemma single_saves_unless:
  assumes "tree_runs pf st loaded" "\<And>i. pf_report_code pf i \<noteq> []"
  shows "saves_unless (pf_refused pf) st (\<lambda>d r inh. execute_single_case pf args cfg d r inh k loaded)"
  unfolding saves_unless_def
proof (intro allI impI)
  fix d r inh and w :: run_world assume w: "w_store w = st"
  obtain ls ts where l: "loaded = (ls, ts)" by fastforce
  let ?roots = "filter (\<lambda>s. parent_step_id (sdata s) = None) ts"
  have roots: "?roots \<noteq> []" "step_total ls \<noteq> 0" using assms(1) l by (auto simp: tree_runs_def filter_empty_conv)
  have "\<exists>c out. execute_case (stored_env (pf_levels pf) (w_store w) (pf_env pf (w_runs w))) (pf_levels pf) (ca_id k) cfg
      (Some (pf_report_code pf (w_runs w))) (initial_pool k ts (ba_initial args) inh) d ?roots = Done c out"
    using assms(1) l w by (intro case_ends) (auto simp: tree_runs_def)
  then obtain c out where e: "execute_case (stored_env (pf_levels pf) (w_store w) (pf_env pf (w_runs w))) (pf_levels pf) (ca_id k) cfg
      (Some (pf_report_code pf (w_runs w))) (initial_pool k ts (ba_initial args) inh) d ?roots = Done c out" by blast
  obtain rp where rp: "co_report out = Some rp" using outcome_of(2)[OF e] assms(2) by auto
  show "\<exists>w'. w_store w' = st \<and> w_runs w' = Suc (w_runs w) \<and>
      (if pf_refused pf (w_runs w) then execute_single_case pf args cfg d r inh k loaded w = (w', Threw SavingRefused) \<and>
         length (w_reports w') = length (w_reports w)
       else (\<exists>one. execute_single_case pf args cfg d r inh k loaded w = (w', Returned one)) \<and>
         length (w_reports w') = Suc (length (w_reports w)))"
    using e roots w l rp
    by (cases "pf_refused pf (w_runs w)") (simp_all add: execute_single_case_def Let_def save_run_def)
qed


lemma sample_tree_runs: "tree_runs (sample_platform b) (w_store sample_world) sample_tree_loaded"
  using sample_steps sample_loads(4,5) by (auto simp: tree_runs_def filter_empty_conv)


lemma sum_adds_up: "\<forall>r \<in> set rs. run_adds_up cid r \<Longrightarrow>
  sum_list (map rr_total rs) = sum_list (map rr_succeeded rs) + sum_list (map rr_failed rs)"
  by (induction rs) (auto simp: run_adds_up_def)

definition summary_adds_up :: "int \<Rightarrow> case_summary \<Rightarrow> bool" where
  "summary_adds_up cid x = (cs_case_id x = cid \<and> cs_total x = cs_succeeded x + cs_failed x \<and>
     (cs_success x \<longrightarrow> cs_failed x = 0 \<and> cs_runs x > 0 \<and> cs_error x = None))"

lemma one_case_adds_up:
  assumes "execute_one_case pf args shared cfgs datasets cid w = (w', Returned x)"
  shows "summary_adds_up cid x \<and> w_store w' = w_store w"
proof -
  obtain q where q: "case_runs pf args shared cfgs datasets cid w = (w', q)"
    using assms by (auto simp: execute_one_case_def split: prod.splits attempt.splits)
  have empty: "summary_adds_up cid (aggregate_case_runs cid [] False e)" for e
    by (simp add: aggregate_case_runs_def summary_adds_up_def)
  show ?thesis
  proof (cases q)
    case (Returned rs)
    note g = case_runs_results[OF q[unfolded Returned]]
    have "summary_adds_up cid (aggregate_case_runs cid rs (rs \<noteq> [] \<and> list_all rr_success rs) None)"
      using g sum_adds_up[OF g]
      by (auto simp: aggregate_case_runs_def Let_def summary_adds_up_def run_adds_up_def list_all_iff)
    then show ?thesis using assms q Returned case_runs_store[OF q] by (simp add: execute_one_case_def)
  next
    case (Threw e)
    then show ?thesis using assms q case_runs_store[OF q] empty[of "Some e"] by (auto simp: execute_one_case_def)
  qed (use assms q in \<open>simp add: execute_one_case_def\<close>)
qed

lemma run_cases_adds_up:
  "run_cases (execute_one_case pf args shared cfgs datasets) cids w = Some (w', xs) \<Longrightarrow>
   list_all2 summary_adds_up cids xs \<and> w_store w' = w_store w"
proof (induction cids arbitrary: w xs)
  case (Cons c cs)
  then obtain w1 x ys where one: "execute_one_case pf args shared cfgs datasets c w = (w1, Returned x)" "xs = x # ys"
    "run_cases (execute_one_case pf args shared cfgs datasets) cs w1 = Some (w', ys)"
    by (auto split: prod.splits attempt.splits option.splits)
  with Cons.IH[OF one(3)] one_case_adds_up[OF one(1)] show ?case by simp
qed simp

text \<open>
  C9. A batch accounts for every case: it has one summary per case in the given order, whatever the cases
  before it did, and passed and failed cases add up to all of them. In each summary the passed and failed
  steps add up, and a case that has passed has no failed step. No run changes the stored steps.
\<close>

theorem batch_accounts_for_cases:
  assumes "batch_execute_cases pf args shared cfgs datasets cids w = Some (w', s)"
  shows "list_all2 summary_adds_up cids (bs_results s) \<and> bs_total s = length cids \<and>
    bs_success s + bs_failed s = bs_total s \<and> bs_success s = length (filter cs_success (bs_results s)) \<and> w_store w' = w_store w"
proof -
  from assms obtain rs where r: "run_cases (execute_one_case pf args shared cfgs datasets) cids w = Some (w', rs)"
    "bs_results s = rs" "bs_total s = length cids" "bs_success s = length (filter cs_success rs)"
    "bs_failed s = length rs - length (filter cs_success rs)"
    by (auto simp: batch_execute_cases_def Let_def split: option.splits)
  from run_cases_adds_up[OF r(1)] r(2-) show ?thesis
    using length_filter_le[of cs_success rs] by (auto dest: list_all2_lengthD)
qed

theorem batch_accounts_for_cases_witness:
  "\<exists>w' s. batch_execute_cases (sample_platform True) sample_args None (\<lambda>_. None) True [6, 7] sample_world = Some (w', s) \<and>
     list_all2 summary_adds_up [6, 7] (bs_results s) \<and> bs_success s + bs_failed s = 2"
proof -
  have "\<exists>w' s. batch_execute_cases (sample_platform True) sample_args None (\<lambda>_. None) True [6, 7] sample_world = Some (w', s)"
    by (simp add: batch_execute_cases_def execute_one_case_def case_runs_def execute_count_def get_case_def sample_world_def
        sample_store_def sample_case_def Let_def)
  then obtain w' s where b: "batch_execute_cases (sample_platform True) sample_args None (\<lambda>_. None) True [6, 7] sample_world = Some (w', s)"
    by blast
  from batch_accounts_for_cases[OF b] b show ?thesis by auto
qed

lemma single_ends:
  assumes "\<forall>s \<in> set (snd loaded). step_type (sdata s) \<noteq> None"
    and "\<And>i. \<forall>s \<in> set (snd loaded). fits (stored_env (pf_levels pf) st (pf_env pf i)) (pf_levels pf) s" "w_store w = st"
  shows "execute_single_case pf args cfg d r inh k loaded w \<noteq> (w', Hung)"
proof (cases loaded)
  case (Pair ls steps)
  let ?roots = "filter (\<lambda>s. parent_step_id (sdata s) = None) steps"
  have "\<exists>c out. execute_case (stored_env (pf_levels pf) (w_store w) (pf_env pf (w_runs w))) (pf_levels pf) (ca_id k) cfg (Some (pf_report_code pf (w_runs w)))
      (initial_pool k steps (ba_initial args) inh) d ?roots = Done c out"
    using assms Pair by (intro case_ends) auto
  then show ?thesis using Pair by (auto simp: execute_single_case_def Let_def split: if_splits)
qed

lemma one_case_ends:
  assumes "\<And>ls ts i. get_case_tree (pf_levels pf) (w_store w) cid = Loaded (ls, ts) \<Longrightarrow>
    \<forall>s \<in> set ts. step_type (sdata s) \<noteq> None \<and> fits (stored_env (pf_levels pf) (w_store w) (pf_env pf i)) (pf_levels pf) s"
  shows "\<exists>w' x. execute_one_case pf args shared cfgs datasets cid w = (w', Returned x)"
proof -
  obtain w' q where q: "case_runs pf args shared cfgs datasets cid w = (w', q)" by fastforce
  have ends: "w_store v = w_store w \<Longrightarrow> execute_single_case pf args cfg d r inh k loaded v \<noteq> (v', Hung)"
    if "get_case_tree (pf_levels pf) (w_store w) cid = Loaded loaded" for cfg d r inh k loaded v v'
    using assms[of "fst loaded" "snd loaded"] that by (intro single_ends) auto
  have "q \<noteq> Hung"
    using q
  proof (cases rule: case_runs_cases)
    case (rounds k loaded n)
    from single.run_rounds_hung[of "w_store w" pf args _ k loaded, OF ends[OF rounds(2)] refl] rounds(6) show ?thesis by auto
  next
    case (times k loaded n)
    from single.run_times_hung[of "w_store w" pf args _ k loaded, OF ends[OF times(2)] refl] times(5) show ?thesis by auto
  qed simp
  with q show ?thesis by (cases q) (auto simp: execute_one_case_def)
qed



section \<open>A run that fails after others were saved\<close>

text \<open>
  The variables a run starts with are looked up in this order: what the run of the data set before left
  behind, the variables of the batch, those of the steps, those of the case.
\<close>

theorem initial_variables_by_precedence:
  "get_item_from_list (initial_pool k steps initial inherited) key =
     (case get_item_from_list inherited key of Some v \<Rightarrow> Some v
      | None \<Rightarrow> (case get_item_from_list initial key of Some v \<Rightarrow> Some v
        | None \<Rightarrow> (case get_item_from_list (collect_session_variables steps) key of Some v \<Rightarrow> Some v
          | None \<Rightarrow> get_item_from_list (ca_session k) key)))"
  by (simp add: initial_pool_def merge_session_variables_def get_merge_by_key get_append split: option.split)



end
