(* ===== verification/Calendar.thy ===== *)
theory Calendar
  imports Prelude
begin

text \<open>
  The Gregorian calendar of Python's \<^verbatim>\<open>datetime\<close>, as far as the schedules of tasks use it: a day is its
  ordinal (1 is the first day of the year 1), a moment is a number of microseconds since the day 0.
\<close>

section \<open>Years and months\<close>

definition leap :: "int \<Rightarrow> bool" where
  "leap y = (y mod 4 = 0 \<and> (y mod 100 \<noteq> 0 \<or> y mod 400 = 0))"

definition days_before_year :: "int \<Rightarrow> int" where
  "days_before_year y = (y - 1) * 365 + (y - 1) div 4 - (y - 1) div 100 + (y - 1) div 400"

definition year_length :: "int \<Rightarrow> int" where
  "year_length y = (if leap y then 366 else 365)"

definition month_lengths :: "int \<Rightarrow> int list" where
  "month_lengths y = [31, if leap y then 29 else 28, 31, 30, 31, 30, 31, 31, 30, 31, 30, 31]"

definition month_length :: "int \<Rightarrow> int \<Rightarrow> int" where
  "month_length y m = month_lengths y ! nat (m - 1)"

text \<open>\<^verbatim>\<open>_ord2ymd\<close>: cycles of 400, 100, 4 and 1 years; the last day of a long cycle is the 366th of its year.\<close>

definition year_and_day :: "int \<Rightarrow> int \<times> int" where
  "year_and_day n =
     (let a = (n - 1) div 146097; r1 = (n - 1) mod 146097; b = r1 div 36524; r2 = r1 mod 36524;
          c = r2 div 1461; r3 = r2 mod 1461; e = r3 div 365; r4 = r3 mod 365; y = 400 * a + 100 * b + 4 * c + e + 1
      in if e = 4 \<or> b = 4 then (y - 1, 365) else (y, r4))"

fun find_month :: "int list \<Rightarrow> int \<Rightarrow> int \<Rightarrow> int \<times> int" where
  "find_month [] m r = (m, r + 1)"
| "find_month (l # ls) m r = (if r < l then (m, r + 1) else find_month ls (m + 1) (r - l))"

definition date_of :: "int \<Rightarrow> int \<times> int \<times> int" where
  "date_of n = (case year_and_day n of (y, r) \<Rightarrow> (y, find_month (month_lengths y) 1 r))"

definition ordinal_of :: "int \<Rightarrow> int \<Rightarrow> int \<Rightarrow> int" where
  "ordinal_of y m d = days_before_year y + sum_list (take (nat (m - 1)) (month_lengths y)) + d"

definition valid_date :: "int \<Rightarrow> int \<Rightarrow> int \<Rightarrow> bool" where
  "valid_date y m d = (1 \<le> m \<and> m \<le> 12 \<and> 1 \<le> d \<and> d \<le> month_length y m)"

definition day_of_month :: "int \<Rightarrow> int" where
  "day_of_month n = snd (snd (date_of n))"

text \<open>1 is Monday, 7 is Sunday.\<close>

definition isoweekday :: "int \<Rightarrow> int" where
  "isoweekday n = (if n mod 7 = 0 then 7 else n mod 7)"

section \<open>Years\<close>

lemma leap_sum:
  fixes y A B C A0 B0 C0 :: int
  assumes "A = A0 + (if P then 1 else 0)" "B = B0 + (if Q then 1 else 0)" "C = C0 + (if R then 1 else 0)" "Q \<longrightarrow> P" "R \<longrightarrow> Q"
  shows "y * 365 + A - B + C = (y - 1) * 365 + A0 - B0 + C0 + (if P \<and> (\<not> Q \<or> R) then 366 else 365)"
  using assms by (cases P; cases Q; cases R) auto

lemma year_step: "days_before_year (y + 1) = days_before_year y + year_length y"
proof -
  have s: "y div k = (y - 1) div k + (if y mod k = 0 then 1 else 0)" if "0 < k" for k :: int
  proof -
    have d: "y = k * (y div k) + y mod k" and r: "0 \<le> y mod k" "y mod k < k" using that by simp_all
    show ?thesis
    proof (cases "y mod k = 0")
      case True
      have "y - 1 = k * (y div k - 1) + (k - 1)" using d True by (simp add: right_diff_distrib)
      from int_div_pos_eq[OF this] show ?thesis using that True by simp
    next
      case False
      have "y - 1 = k * (y div k) + (y mod k - 1)" using d by simp
      from int_div_pos_eq[OF this] show ?thesis using r False by simp
    qed
  qed
  have m: "y mod 4 = 0" if "y mod 100 = 0"
    using dvd_trans[of 4 100 y] that by (simp add: dvd_eq_mod_eq_0)
  have m2: "y mod 100 = 0" if "y mod 400 = 0"
    using dvd_trans[of 100 400 y] that by (simp add: dvd_eq_mod_eq_0)
  have "days_before_year (y + 1) = y * 365 + y div 4 - y div 100 + y div 400" by (simp add: days_before_year_def)
  also have "\<dots> = days_before_year y + year_length y"
    unfolding days_before_year_def year_length_def leap_def
    by (rule leap_sum[OF s[of 4] s[of 100] s[of 400]]) (use m m2 in simp_all)
  finally show ?thesis .
qed

lemma year_length_pos: "0 < year_length y"
  by (simp add: year_length_def)

lemma days_before_year_mono: "y < z \<Longrightarrow> days_before_year y + year_length y \<le> days_before_year z"
proof (induction "nat (z - y)" arbitrary: z)
  case (Suc k)
  show ?case
  proof (cases "z = y + 1")
    case True
    then show ?thesis by (simp add: year_step)
  next
    case False
    with Suc.prems Suc.hyps(2) have "y < z - 1" "k = nat (z - 1 - y)" by auto
    with Suc.hyps(1)[of "z - 1"] show ?thesis using year_step[of "z - 1"] year_length_pos[of "z - 1"] by simp
  qed
qed simp

lemma days_before_cycles:
  assumes "0 \<le> b" "b < 4" "0 \<le> c" "c < 25" "0 \<le> e" "e < 4"
  shows "days_before_year (400 * a + 100 * b + 4 * c + e + 1) = 146097 * a + 36524 * b + 1461 * c + 365 * e"
proof -
  let ?y = "400 * a + 100 * b + 4 * c + e"
  have "?y div 4 = 100 * a + 25 * b + c" by (rule int_div_pos_eq[where r = e]) (use assms in auto)
  moreover have "?y div 100 = 4 * a + b" by (rule int_div_pos_eq[where r = "4 * c + e"]) (use assms in auto)
  moreover have "?y div 400 = a" by (rule int_div_pos_eq[where r = "100 * b + 4 * c + e"]) (use assms in auto)
  ultimately show ?thesis by (simp add: days_before_year_def)
qed

lemma year_and_day_correct:
  assumes "year_and_day n = (y, r)"
  shows "days_before_year y + r + 1 = n \<and> 0 \<le> r \<and> r < year_length y"
proof -
  define a r1 where "a = (n - 1) div 146097" and "r1 = (n - 1) mod 146097"
  define b r2 where "b = r1 div 36524" and "r2 = r1 mod 36524"
  define c r3 where "c = r2 div 1461" and "r3 = r2 mod 1461"
  define e r4 where "e = r3 div 365" and "r4 = r3 mod 365"
  have n: "n - 1 = 146097 * a + r1" "r1 = 36524 * b + r2" "r2 = 1461 * c + r3" "r3 = 365 * e + r4"
    by (simp_all add: a_def r1_def b_def r2_def c_def r3_def e_def r4_def)
  have r: "0 \<le> r1" "r1 < 146097" "0 \<le> r2" "r2 < 36524" "0 \<le> r3" "r3 < 1461" "0 \<le> r4" "r4 < 365"
    by (simp_all add: r1_def r2_def r3_def r4_def)
  have bounds: "0 \<le> b" "b \<le> 4" "0 \<le> c" "c \<le> 24" "0 \<le> e" "e \<le> 4" using n r by auto
  let ?y = "400 * a + 100 * b + 4 * c + e + 1"
  have y: "(y, r) = (if e = 4 \<or> b = 4 then (?y - 1, 365) else (?y, r4))"
    unfolding assms[symmetric] by (simp add: year_and_day_def Let_def a_def b_def c_def e_def r1_def r2_def r3_def r4_def)
  consider (plain) "e \<le> 3" "b \<le> 3" | (leap_day) "e = 4" "b \<le> 3" | (last_day) "b = 4" using bounds by fastforce
  then show ?thesis
  proof cases
    case plain
    then have "y = ?y" "r = r4" using y by auto
    moreover have "days_before_year ?y = 146097 * a + 36524 * b + 1461 * c + 365 * e"
      using plain bounds by (intro days_before_cycles) auto
    ultimately show ?thesis using n r by (auto simp: year_length_def)
  next
    case leap_day
    then have l: "r4 = 0" "r3 = 1460" using n r by auto
    have v: "y = 400 * a + 100 * b + 4 * c + 3 + 1" "r = 365" using y leap_day by auto
    have d: "days_before_year y = 146097 * a + 36524 * b + 1461 * c + 365 * 3"
      unfolding v(1) using leap_day bounds by (intro days_before_cycles) auto
    have "c \<noteq> 24" using n r l by auto
    then have c: "0 \<le> 4 * c + 4" "4 * c + 4 < 100" using bounds by auto
    have "y = 4 * (100 * a + 25 * b + c + 1)" using v(1) by simp
    then have "y mod 4 = 0" by simp
    moreover have "y mod 100 = 4 * c + 4" by (rule int_mod_pos_eq[where q = "4 * a + b"]) (use v(1) c in auto)
    ultimately have "leap y" using bounds by (simp add: leap_def)
    then show ?thesis using d v n l by (simp add: year_length_def leap_day)
  next
    case last_day
    then have l: "r2 = 0" "r3 = 0" "r4 = 0" "c = 0" "e = 0" using n r bounds by auto
    have v: "y = 400 * a + 100 * 3 + 4 * 24 + 3 + 1" "r = 365" using y last_day l by auto
    have d: "days_before_year y = 146097 * a + 36524 * 3 + 1461 * 24 + 365 * 3"
      unfolding v(1) by (rule days_before_cycles) auto
    have "leap y" using v(1) by (simp add: leap_def)
    then show ?thesis using d v n l last_day by (simp add: year_length_def)
  qed
qed

lemma year_and_day_unique:
  assumes "0 \<le> r" "r < year_length y"
  shows "year_and_day (days_before_year y + r + 1) = (y, r)"
proof -
  obtain y' r' where o: "year_and_day (days_before_year y + r + 1) = (y', r')" by fastforce
  from year_and_day_correct[OF o] have e: "days_before_year y' + r' = days_before_year y + r" "0 \<le> r'" "r' < year_length y'" by auto
  have "\<not> y < y'" "\<not> y' < y" using days_before_year_mono[of y y'] days_before_year_mono[of y' y] e assms by auto
  then have "y' = y" by simp
  with e o show ?thesis by simp
qed

section \<open>Months\<close>

lemma month_cases:
  assumes "1 \<le> m" "m \<le> (12 :: int)"
  obtains "m = 1" | "m = 2" | "m = 3" | "m = 4" | "m = 5" | "m = 6" | "m = 7" | "m = 8" | "m = 9" | "m = 10" | "m = 11" | "m = 12"
proof -
  have "m \<in> {1, 2, 3, 4, 5, 6, 7, 8, 9, 10, 11, 12}" using assms by simp arith
  with that show ?thesis by auto
qed

lemma find_month_split:
  assumes "i < length ls" "\<forall>l \<in> set ls. 0 \<le> l" "0 \<le> r" "r < ls ! i"
  shows "find_month ls m (sum_list (take i ls) + r) = (m + int i, r + 1)"
  using assms
proof (induction ls arbitrary: i m)
  case (Cons l ls)
  show ?case
  proof (cases i)
    case 0
    then show ?thesis using Cons.prems by simp
  next
    case (Suc j)
    have "0 \<le> sum_list (take j ls)" using Cons.prems by (intro sum_list_nonneg) (auto dest: in_set_takeD)
    then show ?thesis using Cons Suc by simp
  qed
qed simp

lemma find_month_sound:
  assumes "0 \<le> r" "r < sum_list ls" "\<forall>l \<in> set ls. 0 \<le> l"
  shows "\<exists>i < length ls. \<exists>q. find_month ls m r = (m + int i, q + 1) \<and> r = sum_list (take i ls) + q \<and> 0 \<le> q \<and> q < ls ! i"
  using assms
proof (induction ls arbitrary: m r)
  case (Cons l ls)
  show ?case
  proof (cases "r < l")
    case True
    then show ?thesis using Cons.prems by (intro exI[of _ 0]) auto
  next
    case False
    with Cons.prems have "0 \<le> r - l" "r - l < sum_list ls" "\<forall>l \<in> set ls. 0 \<le> l" by auto
    from Cons.IH[OF this, of "m + 1"] obtain i q where
      "i < length ls" "find_month ls (m + 1) (r - l) = (m + 1 + int i, q + 1)" "r - l = sum_list (take i ls) + q" "0 \<le> q" "q < ls ! i"
      by blast
    then show ?thesis using False by (intro exI[of _ "Suc i"]) (auto intro!: exI[of _ q])
  qed
qed simp

lemma month_lengths_facts:
  "length (month_lengths y) = 12" "\<forall>l \<in> set (month_lengths y). 0 \<le> l" "sum_list (month_lengths y) = year_length y"
  by (simp_all add: month_lengths_def year_length_def)

lemma date_of_ordinal:
  assumes "valid_date y m d"
  shows "date_of (ordinal_of y m d) = (y, m, d)"
proof -
  let ?i = "nat (m - 1)"
  let ?before = "sum_list (take ?i (month_lengths y))"
  have i: "?i < 12" "0 \<le> d - 1" "d - 1 < month_lengths y ! ?i" using assms by (auto simp: valid_date_def month_length_def)
  have b: "0 \<le> ?before" using month_lengths_facts(2) by (intro sum_list_nonneg) (auto dest: in_set_takeD)
  have "sum_list (month_lengths y) = ?before + sum_list (drop ?i (month_lengths y))"
    by (metis append_take_drop_id sum_list_append)
  moreover have "drop ?i (month_lengths y) = month_lengths y ! ?i # drop (Suc ?i) (month_lengths y)"
    using i(1) month_lengths_facts(1) by (simp add: Cons_nth_drop_Suc)
  moreover have "0 \<le> sum_list (drop (Suc ?i) (month_lengths y))"
    using month_lengths_facts(2) by (intro sum_list_nonneg) (auto dest: in_set_dropD)
  ultimately have "?before + (d - 1) < year_length y" using i(3) month_lengths_facts(3)[of y] by simp
  then have "year_and_day (days_before_year y + (?before + (d - 1)) + 1) = (y, ?before + (d - 1))"
    using b i by (intro year_and_day_unique) auto
  moreover have "days_before_year y + (?before + (d - 1)) + 1 = ordinal_of y m d" by (simp add: ordinal_of_def)
  moreover have "find_month (month_lengths y) 1 (?before + (d - 1)) = (m, d)"
    using find_month_split[of ?i "month_lengths y" "d - 1" 1] i month_lengths_facts assms by (auto simp: valid_date_def)
  ultimately show ?thesis by (simp add: date_of_def)
qed

lemma date_of_valid:
  assumes "date_of n = (y, m, d)"
  shows "valid_date y m d \<and> ordinal_of y m d = n"
proof -
  obtain r where yr: "year_and_day n = (y, r)" "find_month (month_lengths y) 1 r = (m, d)"
    using assms by (auto simp: date_of_def split: prod.splits)
  from year_and_day_correct[OF yr(1)] have r: "days_before_year y + r + 1 = n" "0 \<le> r" "r < sum_list (month_lengths y)"
    using month_lengths_facts(3) by auto
  from find_month_sound[OF r(2,3) month_lengths_facts(2), of 1] yr(2) obtain i q where
    "i < 12" "m = 1 + int i" "d = q + 1" "r = sum_list (take i (month_lengths y)) + q" "0 \<le> q" "q < month_lengths y ! i"
    by (auto simp: month_lengths_facts)
  then show ?thesis using r(1) by (auto simp: valid_date_def month_length_def ordinal_of_def)
qed

section \<open>Every day of the month comes back\<close>

text \<open>The month before: at most one of two neighbours is shorter than 31 days.\<close>

definition month_before :: "int \<Rightarrow> int \<Rightarrow> int \<times> int" where
  "month_before y m = (if m = 1 then (y - 1, 12) else (y, m - 1))"

lemma month_before_ordinal:
  assumes "1 \<le> m" "m \<le> 12" "month_before y m = (y', m')"
  shows "1 \<le> m' \<and> m' \<le> 12 \<and> ordinal_of y' m' (d + month_length y' m') = ordinal_of y m d"
proof (cases "m = 1")
  case True
  then have e: "y' = y - 1" "m' = 12" using assms(3) by (auto simp: month_before_def)
  have "days_before_year y = days_before_year y' + year_length y'" using year_step[of y'] e by simp
  then show ?thesis using e True
    by (simp add: ordinal_of_def month_length_def month_lengths_def year_length_def)
next
  case False
  then have e: "y' = y" "m' = m - 1" using assms(3) by (auto simp: month_before_def)
  have i: "nat (m - 1) = Suc (nat (m - 2))" "nat (m - 2) < length (month_lengths y)" "nat (m - 1 - 1) = nat (m - 2)"
    using assms False by (auto simp: month_lengths_facts)
  have "sum_list (take (nat (m - 1)) (month_lengths y)) = sum_list (take (nat (m - 2)) (month_lengths y)) + month_length y m'"
    unfolding i(1) take_Suc_conv_app_nth[OF i(2)] by (simp add: month_length_def e i(3))
  then show ?thesis using e assms False by (simp add: ordinal_of_def i(3))
qed

lemma month_length_bounds: "1 \<le> m \<Longrightarrow> m \<le> 12 \<Longrightarrow> 28 \<le> month_length y m \<and> month_length y m \<le> 31"
  by (erule month_cases) (auto simp: month_length_def month_lengths_def)

lemma short_month_after_long:
  assumes "1 \<le> m" "m \<le> 12" "month_length y m < 31" "month_before y m = (y', m')"
  shows "month_length y' m' = 31"
  using assms(3,4) by (rule_tac month_cases[OF assms(1,2)]) (auto simp: month_length_def month_lengths_def month_before_def)

lemma day_of_month_range: "1 \<le> day_of_month n \<and> day_of_month n \<le> 31"
proof -
  obtain y m d where o: "date_of n = (y, m, d)" by (metis prod.exhaust)
  from date_of_valid[OF o] have "valid_date y m d" by simp
  then show ?thesis using month_length_bounds[of m y] o by (auto simp: day_of_month_def valid_date_def)
qed

lemma every_day_of_month_within:
  assumes "1 \<le> k" "k \<le> 31"
  shows "\<exists>ago. 0 \<le> ago \<and> ago \<le> 61 \<and> day_of_month (n - ago) = k"
proof -
  obtain y m d where o: "date_of n = (y, m, d)" by (metis prod.exhaust)
  from date_of_valid[OF o] have v: "1 \<le> m" "m \<le> 12" "1 \<le> d" "d \<le> month_length y m" and n: "ordinal_of y m d = n"
    by (auto simp: valid_date_def)
  have hit: "day_of_month (ordinal_of y m k) = k" if "valid_date y m k" for y m
    using date_of_ordinal[OF that] by (simp add: day_of_month_def)
  obtain y1 m1 where b1: "month_before y m = (y1, m1)" by fastforce
  from month_before_ordinal[OF v(1,2) b1, of d] n have m1: "1 \<le> m1" "m1 \<le> 12" and n1: "ordinal_of y1 m1 (d + month_length y1 m1) = n" by auto
  obtain y2 m2 where b2: "month_before y1 m1 = (y2, m2)" by fastforce
  from month_before_ordinal[OF m1 b2, of "d + month_length y1 m1"] n1
  have m2: "1 \<le> m2" "m2 \<le> 12" and n2: "ordinal_of y2 m2 (d + month_length y1 m1 + month_length y2 m2) = n" by auto
  have diff: "ordinal_of y m k = ordinal_of y m e - (e - k)" for y m e by (simp add: ordinal_of_def)
  consider (this_month) "k \<le> d" | (last_month) "d < k" "k \<le> month_length y1 m1" | (before) "d < k" "month_length y1 m1 < k" by linarith
  then show ?thesis
  proof cases
    case this_month
    then have "valid_date y m k" using v assms by (simp add: valid_date_def)
    from hit[OF this] this_month show ?thesis
      using n diff[of y m d] month_length_bounds[OF v(1,2), of y] v assms by (intro exI[of _ "d - k"]) auto
  next
    case last_month
    then have "valid_date y1 m1 k" using m1 assms by (simp add: valid_date_def)
    from hit[OF this] last_month show ?thesis
      using n1 diff[of y1 m1 "d + month_length y1 m1"] month_length_bounds[OF m1, of y1] assms v
      by (intro exI[of _ "d + month_length y1 m1 - k"]) auto
  next
    case before
    then have l: "month_length y2 m2 = 31" using short_month_after_long[OF m1 _ b2] assms by simp
    then have "valid_date y2 m2 k" using m2 assms by (simp add: valid_date_def)
    from hit[OF this] before l show ?thesis
      using n2 diff[of y2 m2 "d + month_length y1 m1 + month_length y2 m2"] month_length_bounds[OF m1, of y1] assms v
      by (intro exI[of _ "d + month_length y1 m1 + month_length y2 m2 - k"]) auto
  qed
qed

section \<open>Weekdays\<close>

lemma isoweekday_range: "1 \<le> isoweekday n \<and> isoweekday n \<le> 7"
  unfolding isoweekday_def by presburger

lemma every_weekday_within:
  assumes "1 \<le> k" "k \<le> 7"
  shows "\<exists>ago. 0 \<le> ago \<and> ago \<le> 6 \<and> isoweekday (n - ago) = k"
proof -
  let ?ago = "(n - k) mod 7"
  have "(n - ?ago) mod 7 = k mod 7" by (simp add: mod_diff_right_eq)
  then have "isoweekday (n - ?ago) = k" using assms by (cases "k = 7") (auto simp: isoweekday_def)
  then show ?thesis using pos_mod_bound[of 7 "n - k"] pos_mod_sign[of 7 "n - k"] by (intro exI[of _ ?ago]) auto
qed

end
