(* ===== verification/Schedule.thy ===== *)
theory Schedule
  imports Calendar AssertCompare
begin

text \<open>
  The schedules of tasks: \<^verbatim>\<open>autotest_task_schedule.py\<close>. A schedule is stored as a JSON object; it is checked and
  normalised when a task is saved, and read again, forgiving faults, by every scan.

  A moment counts microseconds; a time of day counts seconds. The texts of the two modes of a task are
  the constructors of \<^verbatim>\<open>periodic_mode\<close>: a mode is never another text.
\<close>

section \<open>Dates and times as texts\<close>

type_synonym moment = int

definition combine :: "int \<Rightarrow> int \<Rightarrow> moment" where
  "combine day tod = (day * 86400 + tod) * 1000000"

definition day_part :: "moment \<Rightarrow> int" where
  "day_part t = t div 86400000000"

text \<open>\<^verbatim>\<open>strptime\<close>: a field of one or two digits, the time, and the date with its blanks.\<close>

definition number_field :: "int \<Rightarrow> int \<Rightarrow> string \<Rightarrow> int option" where
  "number_field low high s =
     (if s = [] \<or> length s > 2 then None
      else (case dec_value 0 s of None \<Rightarrow> None | Some n \<Rightarrow> if low \<le> n \<and> n \<le> high then Some n else None))"

definition clock_text :: "string \<Rightarrow> int option" where
  "clock_text s = (case py_split (CHR '':'') s of
     [h, m, sec] \<Rightarrow> (case (number_field 0 23 h, number_field 0 59 m, number_field 0 59 sec) of
       (Some a, Some b, Some c) \<Rightarrow> Some (a * 3600 + b * 60 + c)
     | _ \<Rightarrow> None)
   | _ \<Rightarrow> None)"

definition year_field :: "string \<Rightarrow> int option" where
  "year_field s = (if length s = 4 then (case dec_value 0 s of Some y \<Rightarrow> if 1 \<le> y then Some y else None | None \<Rightarrow> None) else None)"

text \<open>The day of a date: one or two digits, or a blank and one digit.\<close>

definition day_digits :: "string \<Rightarrow> string \<times> string" where
  "day_digits s = (case s of
     c # d # r \<Rightarrow> if c = CHR '' '' \<and> is_decimal d then ([d], r) else (takeWhile is_decimal s, dropWhile is_decimal s)
   | _ \<Rightarrow> (takeWhile is_decimal s, dropWhile is_decimal s))"

definition moment_of :: "int \<Rightarrow> int \<Rightarrow> int \<Rightarrow> int \<Rightarrow> moment option" where
  "moment_of y m d tod = (if valid_date y m d then Some (combine (ordinal_of y m d) tod) else None)"

definition moment_text :: "string \<Rightarrow> moment option" where
  "moment_text s =
     (let ytext = py_before (CHR ''-'') s; r1 = py_after (CHR ''-'') s;
          mtext = py_before (CHR ''-'') r1; r2 = py_after (CHR ''-'') r1;
          dtext = fst (day_digits r2); r3 = snd (day_digits r2)
      in case (year_field ytext, number_field 1 12 mtext, number_field 1 31 dtext) of
           (Some y, Some m, Some d) \<Rightarrow>
             if r3 = [] \<or> \<not> is_space (hd r3) then None
             else (case clock_text (dropWhile is_space r3) of None \<Rightarrow> None | Some tod \<Rightarrow> moment_of y m d tod)
         | _ \<Rightarrow> None)"

definition parse_fire_time :: "pyval \<Rightarrow> moment option" where
  "parse_fire_time v = (case v of PStr s \<Rightarrow> moment_text (py_strip s) | _ \<Rightarrow> None)"

definition parse_time_of_day :: "pyval \<Rightarrow> int option" where
  "parse_time_of_day v = (case v of PStr s \<Rightarrow> clock_text (py_strip s) | _ \<Rightarrow> None)"

text \<open>\<^verbatim>\<open>strftime\<close>. The year is not padded.\<close>

definition pad2 :: "int \<Rightarrow> string" where
  "pad2 n = [digit_char (n div 10), digit_char (n mod 10)]"

definition format_time :: "int \<Rightarrow> string" where
  "format_time tod = pad2 (tod div 3600) @ '':'' @ pad2 (tod div 60 mod 60) @ '':'' @ pad2 (tod mod 60)"

definition format_moment :: "moment \<Rightarrow> string" where
  "format_moment t = (case date_of (day_part t) of (y, m, d) \<Rightarrow>
     int_str y @ ''-'' @ pad2 m @ ''-'' @ pad2 d @ '' '' @ format_time (t div 1000000 mod 86400))"

section \<open>Normalising a schedule\<close>

datatype periodic_mode = ONLY_ONCE | UNBOUNDED

datatype cycle_type = DAILY | WEEKLY | MONTHLY

primrec cycle_text :: "cycle_type \<Rightarrow> string" where
  "cycle_text DAILY = ''daily''"
| "cycle_text WEEKLY = ''weekly''"
| "cycle_text MONTHLY = ''monthly''"

datatype schedule_error =
    ScheduleNotObject | DatesRequired | BadDate pyval | NumbersRequired string | BadNumber string pyval
  | NumberOutOfRange string pyval | TimesRequired | TooManyTimes | BadTime pyval | CycleRequired | NumberRaised py_exc

definition field_of :: "pyval dict \<Rightarrow> string \<Rightarrow> pyval" where
  "field_of d k = (case map_of d k of None \<Rightarrow> PNone | Some v \<Rightarrow> v)"

definition enum_value :: "pyval \<Rightarrow> string option" where
  "enum_value v = (if v = PNone then None else Some (py_strip (py_str v)))"

definition cycle_of :: "pyval \<Rightarrow> cycle_type option" where
  "cycle_of v = find (\<lambda>c. enum_value v = Some (cycle_text c)) [DAILY, WEEKLY, MONTHLY]"

definition max_trigger_times :: nat where
  "max_trigger_times = 3"

text \<open>A set of numbers as the sorted list of its members.\<close>

definition sorted_set :: "int list \<Rightarrow> int list" where
  "sorted_set xs = sort (remdups xs)"

fun number_set :: "pyval list \<Rightarrow> int \<Rightarrow> int \<Rightarrow> string \<Rightarrow> schedule_error + int list" where
  "number_set [] low high f = Inr []"
| "number_set (v # vs) low high f = (case py_int v of
     Inl e \<Rightarrow> if e = OverflowError then Inl (NumberRaised e) else Inl (BadNumber f v)
   | Inr n \<Rightarrow> if low \<le> n \<and> n \<le> high then map_sum id ((#) n) (number_set vs low high f) else Inl (NumberOutOfRange f v))"

definition normalize_int_set :: "pyval \<Rightarrow> int \<Rightarrow> int \<Rightarrow> string \<Rightarrow> schedule_error + int list" where
  "normalize_int_set raw low high f = (case raw of
     PList (v # vs) \<Rightarrow> map_sum id sorted_set (number_set (v # vs) low high f)
   | _ \<Rightarrow> Inl (NumbersRequired f))"

fun parse_each :: "(pyval \<Rightarrow> int option) \<Rightarrow> (pyval \<Rightarrow> schedule_error) \<Rightarrow> pyval list \<Rightarrow> schedule_error + int list" where
  "parse_each parse bad [] = Inr []"
| "parse_each parse bad (v # vs) = (case parse v of
     None \<Rightarrow> Inl (bad v) | Some n \<Rightarrow> map_sum id ((#) n) (parse_each parse bad vs))"

definition normalize_trigger_times :: "pyval dict \<Rightarrow> schedule_error + int list" where
  "normalize_trigger_times d = (case field_of d ''trigger_times'' of
     PList vs \<Rightarrow>
       if vs = [] then Inl TimesRequired
       else if length vs > max_trigger_times then Inl TooManyTimes
       else map_sum id sorted_set (parse_each parse_time_of_day BadTime vs)
   | _ \<Rightarrow> Inl TimesRequired)"

abbreviation times_json :: "int list \<Rightarrow> pyval" where
  "times_json ts \<equiv> PList (map (\<lambda>t. PStr (format_time t)) ts)"

abbreviation numbers_json :: "int list \<Rightarrow> pyval" where
  "numbers_json ns \<equiv> PList (map PInt ns)"

definition normalize_once :: "pyval dict \<Rightarrow> schedule_error + pyval dict" where
  "normalize_once d = (case field_of d ''trigger_dates'' of
     PList (v # vs) \<Rightarrow>
       (case parse_each parse_fire_time BadDate (v # vs) of
          Inl e \<Rightarrow> Inl e
        | Inr ds \<Rightarrow> (case normalize_int_set (field_of d ''trigger_month'') 1 31 ''trigger_month'' of
            Inl e \<Rightarrow> Inl e
          | Inr ms \<Rightarrow> (case normalize_trigger_times d of
              Inl e \<Rightarrow> Inl e
            | Inr ts \<Rightarrow> Inr [(''trigger_dates'', PList (map (\<lambda>t. PStr (format_moment t)) (sorted_set ds))),
                (''trigger_month'', numbers_json ms), (''trigger_times'', times_json ts)])))
   | _ \<Rightarrow> Inl DatesRequired)"

definition normalize_cycle :: "pyval dict \<Rightarrow> schedule_error + pyval dict" where
  "normalize_cycle d = (case cycle_of (field_of d ''trigger_cycle'') of
     None \<Rightarrow> Inl CycleRequired
   | Some c \<Rightarrow> (case normalize_trigger_times d of
       Inl e \<Rightarrow> Inl e
     | Inr ts \<Rightarrow>
         (let base = [(''trigger_cycle'', PStr (cycle_text c)), (''trigger_times'', times_json ts)] in
          case c of
            DAILY \<Rightarrow> Inr base
          | WEEKLY \<Rightarrow> map_sum id (\<lambda>ws. base @ [(''trigger_weeks'', numbers_json ws)]) (normalize_int_set (field_of d ''trigger_weeks'') 1 7 ''trigger_weeks'')
          | MONTHLY \<Rightarrow> map_sum id (\<lambda>ms. base @ [(''trigger_month'', numbers_json ms)]) (normalize_int_set (field_of d ''trigger_month'') 1 31 ''trigger_month''))))"

definition normalize_schedule :: "periodic_mode option \<Rightarrow> pyval \<Rightarrow> schedule_error + pyval dict option" where
  "normalize_schedule mode v = (case v of
     PNone \<Rightarrow> Inr None
   | PDict d \<Rightarrow> if d = [] then Inr None else map_sum id Some (if mode = Some ONLY_ONCE then normalize_once d else normalize_cycle d)
   | _ \<Rightarrow> Inl ScheduleNotObject)"

section \<open>Reading a schedule\<close>

record task_schedule =
  ts_once :: bool
  ts_dates :: "moment list"
  ts_cycle :: cycle_type
  ts_times :: "int list"
  ts_weeks :: "int set"
  ts_month :: "int set"

text \<open>A digit text that \<^verbatim>\<open>int\<close> does not take makes the reading fail, two signs for example.\<close>

fun defensive_numbers :: "pyval list \<Rightarrow> py_exc + int set" where
  "defensive_numbers [] = Inr {}"
| "defensive_numbers (v # vs) =
     (if py_isdigit (dropWhile (\<lambda>c. c = CHR ''-'') (py_str v))
      then (case py_int v of Inl e \<Rightarrow> Inl e | Inr n \<Rightarrow> map_sum id (insert n) (defensive_numbers vs))
      else defensive_numbers vs)"

definition defensive_int_set :: "pyval \<Rightarrow> py_exc + int set" where
  "defensive_int_set raw = (case raw of PList vs \<Rightarrow> defensive_numbers vs | _ \<Rightarrow> Inr {})"

text \<open>\<^verbatim>\<open>for raw in schedule.get(key) or []\<close>.\<close>

definition entries_of :: "pyval \<Rightarrow> py_exc + pyval list" where
  "entries_of v = (if \<not> py_truthy v then Inr [] else (case v of
     PList vs \<Rightarrow> Inr vs | PStr s \<Rightarrow> Inr (map (\<lambda>c. PStr [c]) s) | PDict d \<Rightarrow> Inr (map (\<lambda>p. PStr (fst p)) d) | _ \<Rightarrow> Inl TypeError))"

definition from_expr :: "periodic_mode option \<Rightarrow> pyval \<Rightarrow> py_exc + task_schedule option" where
  "from_expr mode v = (case v of
     PDict d \<Rightarrow>
       if d = [] then Inr None
       else if mode = Some ONLY_ONCE then
         (case entries_of (field_of d ''trigger_dates'') of
            Inl e \<Rightarrow> Inl e
          | Inr raw \<Rightarrow> (let ds = sorted_set (List.map_filter parse_fire_time raw) in
              Inr (if ds = [] then None
                   else Some \<lparr>ts_once = True, ts_dates = ds, ts_cycle = DAILY, ts_times = [], ts_weeks = {}, ts_month = {}\<rparr>)))
       else (case cycle_of (field_of d ''trigger_cycle'') of
            None \<Rightarrow> Inr None
          | Some c \<Rightarrow> (case entries_of (field_of d ''trigger_times'') of
              Inl e \<Rightarrow> Inl e
            | Inr raw \<Rightarrow> (let ts = sorted_set (List.map_filter parse_time_of_day raw) in
                if ts = [] then Inr None
                else (case defensive_int_set (field_of d ''trigger_weeks'') of
                  Inl e \<Rightarrow> Inl e
                | Inr ws \<Rightarrow> (case defensive_int_set (field_of d ''trigger_month'') of
                    Inl e \<Rightarrow> Inl e
                  | Inr ms \<Rightarrow> Inr (if c = WEEKLY \<and> ws = {} \<or> c = MONTHLY \<and> ms = {} then None
                      else Some \<lparr>ts_once = False, ts_dates = [], ts_cycle = c, ts_times = ts, ts_weeks = ws, ts_month = ms\<rparr>))))))
   | _ \<Rightarrow> Inr None)"

section \<open>When a task fires\<close>

definition match_day :: "task_schedule \<Rightarrow> int \<Rightarrow> bool" where
  "match_day s day = (case ts_cycle s of
     DAILY \<Rightarrow> True | WEEKLY \<Rightarrow> isoweekday day \<in> ts_weeks s | MONTHLY \<Rightarrow> day_of_month day \<in> ts_month s)"

text \<open>\<^verbatim>\<open>DEDUCE_TRIGGER_TIMETABLE\<close>: how many days the search looks back.\<close>

primrec look_back :: "cycle_type \<Rightarrow> nat" where
  "look_back DAILY = 2"
| "look_back WEEKLY = 8"
| "look_back MONTHLY = 62"

fun latest_date :: "moment \<Rightarrow> moment option \<Rightarrow> moment list \<Rightarrow> moment option" where
  "latest_date now latest [] = latest"
| "latest_date now latest (t # ts) = (if t \<le> now then latest_date now (Some t) ts else latest)"

definition candidates :: "task_schedule \<Rightarrow> moment \<Rightarrow> nat \<Rightarrow> moment list" where
  "candidates s now ago =
     (let day = day_part now - int ago in filter (\<lambda>t. ago > 0 \<or> t \<le> now) (map (combine day) (ts_times s)))"

fun search_back :: "task_schedule \<Rightarrow> moment \<Rightarrow> nat list \<Rightarrow> moment option" where
  "search_back s now [] = None"
| "search_back s now (ago # bs) =
     (if match_day s (day_part now - int ago) \<and> candidates s now ago \<noteq> [] then Some (Max (set (candidates s now ago)))
      else search_back s now bs)"

definition prev_fire_time :: "task_schedule \<Rightarrow> moment \<Rightarrow> moment option" where
  "prev_fire_time s now =
     (if ts_once s then latest_date now None (ts_dates s) else search_back s now [0..<Suc (look_back (ts_cycle s))])"

text \<open>The preview: the limit is checked after a moment has been added.\<close>

fun add_times :: "nat \<Rightarrow> moment \<Rightarrow> int \<Rightarrow> int list \<Rightarrow> moment list \<Rightarrow> moment list \<times> bool" where
  "add_times limit now day [] acc = (acc, False)"
| "add_times limit now day (t # ts) acc =
     (if combine day t \<ge> now
      then (if length acc + 1 \<ge> limit then (acc @ [combine day t], True) else add_times limit now day ts (acc @ [combine day t]))
      else add_times limit now day ts acc)"

fun preview_days :: "task_schedule \<Rightarrow> nat \<Rightarrow> moment \<Rightarrow> int list \<Rightarrow> moment list \<Rightarrow> moment list" where
  "preview_days s limit now [] acc = acc"
| "preview_days s limit now (day # days) acc =
     (if match_day s day
      then (case add_times limit now day (ts_times s) acc of
              (acc1, True) \<Rightarrow> acc1
            | (acc1, False) \<Rightarrow> preview_days s limit now days acc1)
      else preview_days s limit now days acc)"

definition preview_moments :: "task_schedule \<Rightarrow> moment \<Rightarrow> nat \<Rightarrow> moment list" where
  "preview_moments s now limit =
     (if ts_once s then take limit (filter (\<lambda>t. now \<le> t) (ts_dates s))
      else preview_days s limit now (map (\<lambda>ahead. day_part now + int ahead) [0..<800]) [])"

definition preview_fire_times :: "task_schedule \<Rightarrow> moment \<Rightarrow> nat \<Rightarrow> string list" where
  "preview_fire_times s now limit = map format_moment (preview_moments s now limit)"

definition is_completed :: "task_schedule \<Rightarrow> moment \<Rightarrow> bool" where
  "is_completed s t = (ts_once s \<and> ts_dates s \<noteq> [] \<and> last (ts_dates s) \<le> t)"

section \<open>Whether a task is due\<close>

text \<open>The time of the last run as the database gives it, or as a text; an unreadable text counts as none.\<close>

datatype stamp = At moment | Stamp string

definition fraction_text :: "string \<Rightarrow> moment option" where
  "fraction_text s = (case py_split (CHR ''.'') s of
     [t, f] \<Rightarrow> if f = [] \<or> length f > 6 then None
       else (case (moment_text t, dec_value 0 (f @ replicate (6 - length f) (CHR ''0''))) of
         (Some a, Some b) \<Rightarrow> Some (a + b) | _ \<Rightarrow> None)
   | _ \<Rightarrow> None)"

definition stamp_moment :: "stamp \<Rightarrow> moment option" where
  "stamp_moment st = (case st of
     At t \<Rightarrow> Some t
   | Stamp s \<Rightarrow>
       if CHR ''.'' \<in> set s
       then (case fraction_text (take 26 s) of Some t \<Rightarrow> Some t | None \<Rightarrow> moment_text (take 26 s))
       else moment_text (take 19 s))"

definition last_run :: "stamp option \<Rightarrow> stamp option \<Rightarrow> moment option" where
  "last_run executed created = (case (if executed \<noteq> None \<and> executed \<noteq> Some (Stamp []) then executed else created) of
     None \<Rightarrow> None | Some st \<Rightarrow> stamp_moment st)"

definition is_task_due :: "periodic_mode option \<Rightarrow> pyval \<Rightarrow> stamp option \<Rightarrow> stamp option \<Rightarrow> moment \<Rightarrow> py_exc + bool" where
  "is_task_due mode expr executed created now = (case from_expr mode expr of
     Inl e \<Rightarrow> Inl e
   | Inr None \<Rightarrow> Inr False
   | Inr (Some s) \<Rightarrow> (case prev_fire_time s now of
       None \<Rightarrow> Inr False
     | Some prev \<Rightarrow> Inr (case last_run executed created of None \<Rightarrow> True | Some t \<Rightarrow> t < prev)))"

end
