(* ===== verification/Tasks.thy ===== *)
theory Tasks
  imports Schedule Batch
begin

text \<open>
  Tasks and their runs: \<^verbatim>\<open>claim_execution\<close>, \<^verbatim>\<open>is_execution_running\<close> and the operations on a task in
  \<^verbatim>\<open>autotest_task_crud.py\<close>, and the worker and the scan of \<^verbatim>\<open>task_autotest_case.py\<close>.

  The table of tasks is a list of rows. A run keeps the row it has read when it started; what it saves later are
  single columns. The steps of workers, of the scan and of users are put together in \<^verbatim>\<open>service_step\<close>, a relation on
  the state of the whole service.
\<close>

section \<open>Rows of tasks\<close>

datatype task_status = PENDING | RUNNING | SUCCESS | FAILURE | PARTIAL_SUCCESS

record task_row =
  tk_id :: int
  tk_state :: int
  tk_created_user :: "string option"
  tk_updated_user :: "string option"
  tk_updated_time :: "moment option"
  tk_created_time :: "moment option"
  tk_code :: string
  tk_cases :: "int list"
  tk_mode :: "periodic_mode option"
  tk_expr :: pyval
  tk_enabled :: bool
  tk_schedulable :: bool
  tk_dataset :: bool
  tk_initial :: "step_var list"
  tk_config :: "int \<Rightarrow> case_config option"
  tk_last_time :: "moment option"
  tk_last_state :: "task_status option"
  tk_last_user :: "string option"

definition find_task :: "int \<Rightarrow> task_row list \<Rightarrow> task_row option" where
  "find_task i rows = find (\<lambda>r. tk_id r = i) rows"

definition change_task :: "int \<Rightarrow> (task_row \<Rightarrow> task_row) \<Rightarrow> task_row list \<Rightarrow> task_row list" where
  "change_task i f rows = map (\<lambda>r. if tk_id r = i then f r else r) rows"

section \<open>The configuration of a task\<close>

text \<open>The entries of cases; the keys of the environment stand beside them.\<close>

definition case_entries :: "pyval dict \<Rightarrow> pyval list" where
  "case_entries d = map snd (filter (\<lambda>p. fst p \<notin> {''env_mode'', ''env_name''}) d)"

definition involved_envs :: "pyval \<Rightarrow> string list" where
  "involved_envs v = (case v of
     PDict m \<Rightarrow> (case field_of m ''involve_envs'' of PList xs \<Rightarrow> map py_str (filter (\<lambda>x. x \<noteq> PNone \<and> x \<noteq> PStr []) xs) | _ \<Rightarrow> [])
   | _ \<Rightarrow> [])"

definition extract_task_involve_envs :: "pyval \<Rightarrow> string list" where
  "extract_task_involve_envs v = (case v of
     PDict d \<Rightarrow> sort (remdups (concat (map involved_envs (case_entries d)))) | _ \<Rightarrow> [])"

definition add_step_env :: "string \<times> pyval \<Rightarrow> (string \<times> string) list \<Rightarrow> (string \<times> string) list" where
  "add_step_env p envs = (case snd p of
     PDict m \<Rightarrow> (let e = field_of m ''env_name'' in if e = PNone \<or> e = PStr [] then envs else AList.update (fst p) (py_str e) envs)
   | _ \<Rightarrow> envs)"

definition add_case_envs :: "pyval \<Rightarrow> (string \<times> string) list \<Rightarrow> (string \<times> string) list" where
  "add_case_envs v envs = (case v of
     PDict m \<Rightarrow> (case field_of m ''steps_execute_config'' of PDict d \<Rightarrow> fold add_step_env d envs | _ \<Rightarrow> envs)
   | _ \<Rightarrow> envs)"

definition extract_steps_execute_envs :: "pyval \<Rightarrow> (string \<times> string) list" where
  "extract_steps_execute_envs v = (case v of PDict d \<Rightarrow> fold add_case_envs (case_entries d) [] | _ \<Rightarrow> [])"

definition normalize_task_kwargs :: "pyval \<Rightarrow> pyval" where
  "normalize_task_kwargs v = (case v of PNone \<Rightarrow> PNone | PDict d \<Rightarrow> PDict d | _ \<Rightarrow> PDict [])"

section \<open>The right to run\<close>

text \<open>\<^verbatim>\<open>AUTOTEST_TASK_TIME_LIMIT\<close> and the grace, in microseconds.\<close>

definition run_limit :: int where
  "run_limit = 28800 * 1000000"

definition stale_run_before :: "moment \<Rightarrow> moment" where
  "stale_run_before now = now - (28800 + 60) * 1000000"

definition may_claim :: "moment \<Rightarrow> task_row \<Rightarrow> bool" where
  "may_claim now r = (tk_last_state r = None \<or> tk_last_state r \<noteq> Some RUNNING \<or> tk_last_time r = None \<or>
     (case tk_last_time r of None \<Rightarrow> False | Some t \<Rightarrow> t < stale_run_before now))"

text \<open>The names of accounts are stored in capital letters; they are ASCII.\<close>

definition upper_user :: "string option \<Rightarrow> string option" where
  "upper_user u = map_option (map upper_ascii_char) u"

definition claim_execution :: "int \<Rightarrow> string option \<Rightarrow> moment \<Rightarrow> moment \<Rightarrow> task_row list \<Rightarrow> task_row list \<times> bool" where
  "claim_execution i user started now rows =
     (let hit = (\<lambda>r. tk_id r = i \<and> may_claim now r) in
      (map (\<lambda>r. if hit r then r\<lparr>tk_last_state := Some RUNNING, tk_last_time := Some started, tk_last_user := upper_user user\<rparr> else r) rows,
       list_ex hit rows))"

definition is_execution_running :: "moment \<Rightarrow> int \<Rightarrow> task_row list \<Rightarrow> bool" where
  "is_execution_running now i rows = (case find_task i rows of
     None \<Rightarrow> False
   | Some r \<Rightarrow> tk_last_state r = Some RUNNING \<and> (case tk_last_time r of None \<Rightarrow> False | Some t \<Rightarrow> stale_run_before now \<le> t))"

section \<open>The worker\<close>

text \<open>A run that is not asked for by a user counts as one of the schedule.\<close>

datatype trigger = Asked | Planned

record task_run =
  tr_row :: task_row
  tr_trigger :: trigger

datatype begin_result = TaskMissing | TaskBusy | TaskNoCases | Started task_run

definition worker_user :: "string option \<Rightarrow> task_row \<Rightarrow> string option" where
  "worker_user user r = (if truthy_text user then user else if truthy_text (tk_updated_user r) then tk_updated_user r else None)"

definition save_state :: "int \<Rightarrow> task_status \<Rightarrow> task_row list \<Rightarrow> task_row list" where
  "save_state i s = change_task i (\<lambda>r. r\<lparr>tk_last_state := Some s\<rparr>)"

definition begin_run ::
    "int \<Rightarrow> trigger \<Rightarrow> string option \<Rightarrow> moment \<Rightarrow> moment \<Rightarrow> task_row list \<Rightarrow> task_row list \<times> begin_result" where
  "begin_run i trigger user started now rows = (case find_task i rows of
     None \<Rightarrow> (rows, TaskMissing)
   | Some r \<Rightarrow>
       (let who = worker_user user r in
        case claim_execution i who started now rows of
          (rows1, False) \<Rightarrow> (rows1, TaskBusy)
        | (rows1, True) \<Rightarrow>
            if tk_cases r = [] then (save_state i FAILURE rows1, TaskNoCases)
            else (rows1, Started \<lparr>tr_row = r\<lparr>tk_last_time := Some started, tk_last_state := Some RUNNING, tk_last_user := who\<rparr>, tr_trigger = trigger\<rparr>)))"

definition should_close_schedule :: "task_row \<Rightarrow> py_exc + bool" where
  "should_close_schedule r = (case from_expr (tk_mode r) (tk_expr r) of
     Inl e \<Rightarrow> Inl e
   | Inr None \<Rightarrow> Inr False
   | Inr (Some s) \<Rightarrow> Inr (ts_once s \<and> (case tk_last_time r of None \<Rightarrow> False | Some t \<Rightarrow> is_completed s t)))"

definition close_schedule :: "task_run \<Rightarrow> task_row list \<Rightarrow> py_exc + task_row list" where
  "close_schedule run rows =
     (if tr_trigger run \<noteq> Planned then Inr rows
      else (case should_close_schedule (tr_row run) of
        Inl e \<Rightarrow> Inl e
      | Inr close \<Rightarrow> Inr (if close then change_task (tk_id (tr_row run)) (\<lambda>r. r\<lparr>tk_enabled := False\<rparr>) rows else rows)))"

text \<open>The batch has returned its counts, or has raised: the soft time limit, or a lost connection.\<close>

datatype batch_end = Counted nat nat | Interrupted

datatype run_end = Finished | FailedWith py_exc | Failed

definition state_of_counts :: "nat \<Rightarrow> nat \<Rightarrow> task_status" where
  "state_of_counts n ok = (if 0 < n \<and> n = ok then SUCCESS else if ok \<ge> 1 then PARTIAL_SUCCESS else FAILURE)"

definition fail_run :: "task_run \<Rightarrow> run_end \<Rightarrow> task_row list \<Rightarrow> task_row list \<times> run_end" where
  "fail_run run how rows =
     (let rows1 = save_state (tk_id (tr_row run)) FAILURE rows in
      case close_schedule run rows1 of Inl e \<Rightarrow> (rows1, FailedWith e) | Inr rows2 \<Rightarrow> (rows2, how))"

definition end_run :: "task_run \<Rightarrow> batch_end \<Rightarrow> task_row list \<Rightarrow> task_row list \<times> run_end" where
  "end_run run how rows = (case how of
     Interrupted \<Rightarrow> fail_run run Failed rows
   | Counted n ok \<Rightarrow>
       (let rows1 = save_state (tk_id (tr_row run)) (state_of_counts n ok) rows in
        case close_schedule run rows1 of Inl e \<Rightarrow> fail_run run (FailedWith e) rows1 | Inr rows2 \<Rightarrow> (rows2, Finished)))"

text \<open>A task whose cases run one after the other, with no other step in between. \<^verbatim>\<open>None\<close> is a run that never ends.\<close>

definition serial_batch :: "platform \<Rightarrow> string option \<Rightarrow> task_row \<Rightarrow> run_world \<Rightarrow> (run_world \<times> batch_summary) option" where
  "serial_batch pf code r w = batch_execute_cases pf \<lparr>ba_initial = tk_initial r, ba_task_code = Some (tk_code r), ba_batch_code = code\<rparr>
     None (tk_config r) (tk_dataset r) (tk_cases r) w"

datatype task_result = NotRun begin_result | Ran batch_summary run_end

definition run_autotest_task ::
    "platform \<Rightarrow> string option \<Rightarrow> int \<Rightarrow> trigger \<Rightarrow> string option \<Rightarrow> moment \<Rightarrow> moment \<Rightarrow> task_row list \<Rightarrow> run_world \<Rightarrow>
     (task_row list \<times> run_world \<times> task_result) option" where
  "run_autotest_task pf code i trigger user started now rows w = (case begin_run i trigger user started now rows of
     (rows1, Started run) \<Rightarrow> (case serial_batch pf code (tr_row run) w of
       None \<Rightarrow> None
     | Some (w1, s) \<Rightarrow> (case end_run run (Counted (bs_total s) (bs_success s)) rows1 of (rows2, e) \<Rightarrow> Some (rows2, w1, Ran s e)))
   | (rows1, other) \<Rightarrow> Some (rows1, w, NotRun other))"

section \<open>The scan\<close>

definition fetch_schedulable_tasks :: "task_row list \<Rightarrow> task_row list" where
  "fetch_schedulable_tasks rows = filter (\<lambda>r. tk_state r = 0 \<and> tk_enabled r \<and> tk_schedulable r \<and> tk_expr r \<noteq> PNone) rows"

definition row_due :: "moment \<Rightarrow> task_row \<Rightarrow> py_exc + bool" where
  "row_due now r = is_task_due (tk_mode r) (tk_expr r) (map_option At (tk_last_time r)) (map_option At (tk_created_time r)) now"

text \<open>The clock is read for every task anew. A task whose schedule cannot be read is passed over.\<close>

fun dispatch_due :: "(nat \<Rightarrow> moment) \<Rightarrow> nat \<Rightarrow> task_row list \<Rightarrow> int list" where
  "dispatch_due clock k [] = []"
| "dispatch_due clock k (r # rs) =
     (case row_due (clock k) r of
        Inr True \<Rightarrow> tk_id r # dispatch_due clock (Suc k) rs
      | _ \<Rightarrow> dispatch_due clock (Suc k) rs)"

definition scan_and_dispatch :: "(nat \<Rightarrow> moment) \<Rightarrow> task_row list \<Rightarrow> int list" where
  "scan_and_dispatch clock rows = dispatch_due clock 0 (fetch_schedulable_tasks rows)"

section \<open>What users do\<close>

text \<open>The scope of the user is a pair of tests on the creator of a task.\<close>

datatype task_error = NoTask | NoPermission | NoSchedule | TaskExists

definition open_task :: "int \<Rightarrow> (string option \<Rightarrow> bool) \<Rightarrow> task_row list \<Rightarrow> task_error + task_row" where
  "open_task i allowed rows = (case find_task i rows of
     None \<Rightarrow> Inl NoTask
   | Some r \<Rightarrow> if tk_state r = 1 then Inl NoTask else if allowed (tk_created_user r) then Inr r else Inl NoPermission)"

definition falsy_expr :: "pyval \<Rightarrow> bool" where
  "falsy_expr v = (\<not> py_truthy v)"

definition set_task_enabled ::
    "int \<Rightarrow> (string option \<Rightarrow> bool) \<Rightarrow> bool \<Rightarrow> string option \<Rightarrow> moment \<Rightarrow> task_row list \<Rightarrow> task_error + task_row list" where
  "set_task_enabled i can_write enabled user now rows = (case open_task i can_write rows of
     Inl e \<Rightarrow> Inl e
   | Inr r \<Rightarrow>
       if enabled \<and> falsy_expr (tk_expr r) then Inl NoSchedule
       else Inr (change_task i (\<lambda>r. if truthy_text user then r\<lparr>tk_enabled := enabled, tk_updated_user := upper_user user, tk_updated_time := Some now\<rparr>
         else r\<lparr>tk_enabled := enabled\<rparr>) rows))"

definition delete_task :: "int \<Rightarrow> (string option \<Rightarrow> bool) \<Rightarrow> string option \<Rightarrow> task_row list \<Rightarrow> task_error + task_row list" where
  "delete_task i can_delete user rows = (case open_task i can_delete rows of
     Inl e \<Rightarrow> Inl e
   | Inr r \<Rightarrow> Inr (change_task i (\<lambda>r. r\<lparr>tk_state := 1, tk_updated_user := (if truthy_text user then upper_user user else tk_updated_user r),
       tk_enabled := False\<rparr>) rows))"

text \<open>\<^verbatim>\<open>update\<close> of the base class: the row is read, changed, and saved as a whole.\<close>

definition save_row :: "task_row \<Rightarrow> task_row list \<Rightarrow> task_row list" where
  "save_row r = change_task (tk_id r) (\<lambda>_. r)"

text \<open>
  \<^verbatim>\<open>create_task\<close> where a row of the same name and project exists, the one with the number given: a deleted task is
  restored with the fields of the request, which keeps its creator and loses the trace of its runs.
\<close>

definition restore_task :: "int \<Rightarrow> (string option \<Rightarrow> bool) \<Rightarrow> (task_row \<Rightarrow> task_row) \<Rightarrow> task_row list \<Rightarrow> task_error + task_row list" where
  "restore_task i can_write request rows = (case find_task i rows of
     None \<Rightarrow> Inl NoTask
   | Some r \<Rightarrow>
       if tk_state r \<noteq> 1 then Inl TaskExists
       else if \<not> can_write (tk_created_user r) then Inl NoPermission
       else Inr (save_row ((request r)\<lparr>tk_id := tk_id r, tk_created_user := tk_created_user r, tk_state := 0,
         tk_last_time := None, tk_last_state := None, tk_last_user := None\<rparr>) rows))"

section \<open>The service\<close>

record service =
  sv_now :: moment
  sv_tasks :: "task_row list"
  sv_queue :: "(int \<times> trigger \<times> string option) list"
  sv_runs :: "task_run list"

text \<open>
  One step: a scan, the click of a user, a worker that takes any message of the queue, the end of a run with any
  result, the loss of a run whose worker has crashed (its message is delivered again) or was killed by the time
  limit, a user's change, and time. No run is older than the limit of a task. A user enables, disables or
  deletes a task, creates one with a new number, or edits one: an edit saves the whole row at once, with any
  columns but the number and the trace of the runs, which the request of an edit does not hold. An edit that
  reads the row before a claim and saves it afterwards, and the restoring of a deleted task, are no steps here.
\<close>

definition start_of :: "task_run \<Rightarrow> moment" where
  "start_of run = (case tk_last_time (tr_row run) of None \<Rightarrow> 0 | Some t \<Rightarrow> t)"

inductive service_step :: "service \<Rightarrow> service \<Rightarrow> bool" where
  Scan: "service_step s (s\<lparr>sv_queue := sv_queue s @ map (\<lambda>i. (i, Planned, None)) (scan_and_dispatch (\<lambda>k. sv_now s) (sv_tasks s))\<rparr>)"
| Click: "\<not> is_execution_running (sv_now s) i (sv_tasks s) \<Longrightarrow> service_step s (s\<lparr>sv_queue := sv_queue s @ [(i, Asked, user)]\<rparr>)"
| Refuse: "sv_queue s = before @ (i, trigger, user) # after \<Longrightarrow> started \<le> sv_now s \<Longrightarrow>
    begin_run i trigger user started (sv_now s) (sv_tasks s) = (rows, result) \<Longrightarrow> \<forall>run. result \<noteq> Started run \<Longrightarrow>
    service_step s (s\<lparr>sv_queue := before @ after, sv_tasks := rows\<rparr>)"
| Begin: "sv_queue s = before @ (i, trigger, user) # after \<Longrightarrow> started \<le> sv_now s \<Longrightarrow> sv_now s \<le> started + run_limit \<Longrightarrow>
    begin_run i trigger user started (sv_now s) (sv_tasks s) = (rows, Started run) \<Longrightarrow>
    service_step s (s\<lparr>sv_queue := before @ after, sv_tasks := rows, sv_runs := run # sv_runs s\<rparr>)"
| End: "sv_runs s = before @ run # after \<Longrightarrow> end_run run how (sv_tasks s) = (rows, result) \<Longrightarrow>
    service_step s (s\<lparr>sv_tasks := rows, sv_runs := before @ after\<rparr>)"
| Crash: "sv_runs s = before @ run # after \<Longrightarrow> again = [] \<or> again = [(tk_id (tr_row run), tr_trigger run, user)] \<Longrightarrow>
    service_step s (s\<lparr>sv_queue := sv_queue s @ again, sv_runs := before @ after\<rparr>)"
| Enable: "set_task_enabled i can_write enabled user (sv_now s) (sv_tasks s) = Inr rows \<Longrightarrow> service_step s (s\<lparr>sv_tasks := rows\<rparr>)"
| Delete: "delete_task i can_delete user (sv_tasks s) = Inr rows \<Longrightarrow> service_step s (s\<lparr>sv_tasks := rows\<rparr>)"
| Edit: "find_task i (sv_tasks s) = Some r \<Longrightarrow> tk_id r' = i \<Longrightarrow> tk_last_state r' = tk_last_state r \<Longrightarrow> tk_last_time r' = tk_last_time r \<Longrightarrow>
    service_step s (s\<lparr>sv_tasks := save_row r' (sv_tasks s)\<rparr>)"
| New: "tk_id r \<notin> tk_id ` set (sv_tasks s) \<Longrightarrow> service_step s (s\<lparr>sv_tasks := sv_tasks s @ [r]\<rparr>)"
| Tick: "sv_now s \<le> later \<Longrightarrow> \<forall>run \<in> set (sv_runs s). later \<le> start_of run + run_limit \<Longrightarrow> service_step s (s\<lparr>sv_now := later\<rparr>)"

inductive_cases service_stepE: "service_step s s'"

end
