(* ===== verification/ScheduleRules.thy ===== *)
theory ScheduleRules
  imports Schedule
begin

text \<open>
  What the schedules of tasks promise: the search for the last moment to fire misses none, a task is due exactly
  when it has a moment to fire since its last run, the preview lists the next moments, and a schedule that is
  accepted is stable and can be read.
\<close>

section \<open>Moments\<close>

definition clock_ok :: "int \<Rightarrow> bool" where
  "clock_ok t = (0 \<le> t \<and> t < 86400)"

lemma day_part_combine [simp]: "clock_ok tod \<Longrightarrow> day_part (combine day tod) = day"
  unfolding day_part_def combine_def clock_ok_def by (rule int_div_pos_eq[where r = "tod * 1000000"]) auto

lemma combine_less: "clock_ok a \<Longrightarrow> clock_ok b \<Longrightarrow> d < e \<Longrightarrow> combine d a < combine e b"
  by (simp add: combine_def clock_ok_def)

lemma combine_le: "clock_ok a \<Longrightarrow> d < day_part now \<Longrightarrow> combine d a \<le> now"
proof -
  assume "clock_ok a" "d < day_part now"
  moreover have "day_part now * 86400000000 \<le> now" unfolding day_part_def by simp
  ultimately show ?thesis by (simp add: combine_def clock_ok_def)
qed

lemma combine_day: "clock_ok a \<Longrightarrow> combine d a \<le> now \<Longrightarrow> d \<le> day_part now"
  using zdiv_mono1[of "combine d a" now 86400000000] day_part_combine[of a d] by (simp add: day_part_def)

lemma combine_after: "clock_ok a \<Longrightarrow> now \<le> combine d a \<Longrightarrow> day_part now \<le> d"
  using zdiv_mono1[of now "combine d a" 86400000000] day_part_combine[of a d] by (simp add: day_part_def)

section \<open>Well-formed schedules\<close>

definition schedule_ok :: "task_schedule \<Rightarrow> bool" where
  "schedule_ok s = (if ts_once s then ts_dates s \<noteq> [] \<and> sorted (ts_dates s)
     else ts_times s \<noteq> [] \<and> sorted (ts_times s) \<and> distinct (ts_times s) \<and> (\<forall>t \<in> set (ts_times s). clock_ok t))"

definition fires :: "task_schedule \<Rightarrow> moment \<Rightarrow> bool" where
  "fires s t = (if ts_once s then t \<in> set (ts_dates s)
     else \<exists>day tod. tod \<in> set (ts_times s) \<and> match_day s day \<and> t = combine day tod)"

lemma number_field_range: "number_field low high s = Some n \<Longrightarrow> low \<le> n \<and> n \<le> high"
  by (auto simp: number_field_def split: if_splits option.splits)

lemma clock_text_ok: "clock_text s = Some t \<Longrightarrow> clock_ok t"
  by (auto simp: clock_text_def clock_ok_def split: list.splits option.splits dest!: number_field_range)

lemma parse_time_ok: "parse_time_of_day v = Some t \<Longrightarrow> clock_ok t"
  by (auto simp: parse_time_of_day_def split: pyval.splits dest: clock_text_ok)

lemma sorted_set_facts [simp]:
  "set (sorted_set xs) = set xs" "sorted (sorted_set xs)" "distinct (sorted_set xs)" "sorted_set xs = [] \<longleftrightarrow> xs = []"
  "sorted_set (sorted_set xs) = sorted_set xs"
proof -
  show s: "set (sorted_set xs) = set xs" "sorted (sorted_set xs)" "distinct (sorted_set xs)" by (simp_all add: sorted_set_def)
  show "sorted_set xs = [] \<longleftrightarrow> xs = []" using s(1) by auto
  have "sorted_set ys = ys" if "sorted ys" "distinct ys" for ys :: "int list"
    using that by (simp add: sorted_set_def distinct_remdups_id sorted_sort_id)
  then show "sorted_set (sorted_set xs) = sorted_set xs" using s by blast
qed

lemma map_filter_some: "x \<in> set (List.map_filter f xs) \<Longrightarrow> \<exists>y \<in> set xs. f y = Some x"
  by (induction xs) (auto simp: List.map_filter_simps split: option.splits)

lemma from_expr_ok:
  assumes "from_expr mode v = Inr (Some s)"
  shows "schedule_ok s"
  using assms
  by (auto simp: from_expr_def Let_def schedule_ok_def split: pyval.splits if_splits sum.splits option.splits
      dest!: map_filter_some parse_time_ok)

section \<open>The last moment to fire\<close>

lemma latest_date_filter:
  "sorted ds \<Longrightarrow> latest_date now acc ds = (if filter (\<lambda>t. t \<le> now) ds = [] then acc else Some (last (filter (\<lambda>t. t \<le> now) ds)))"
proof (induction ds arbitrary: acc)
  case (Cons d ds)
  show ?case
  proof (cases "d \<le> now")
    case True
    then show ?thesis using Cons by simp
  next
    case False
    with Cons.prems have "filter (\<lambda>t. t \<le> now) ds = []" by (auto simp: filter_empty_conv)
    then show ?thesis using False by simp
  qed
qed simp

lemma search_back_find:
  "search_back s now bs = map_option (\<lambda>b. Max (set (candidates s now b)))
     (find (\<lambda>b. match_day s (day_part now - int b) \<and> candidates s now b \<noteq> []) bs)"
  by (induction bs) auto

lemma candidates_mem:
  "t \<in> set (candidates s now b) \<longleftrightarrow> (\<exists>tod \<in> set (ts_times s). t = combine (day_part now - int b) tod) \<and> (b > 0 \<or> t \<le> now)"
  by (auto simp: candidates_def Let_def)

lemma candidate_fires:
  assumes "schedule_ok s" "\<not> ts_once s" "t \<in> set (candidates s now b)" "match_day s (day_part now - int b)"
  shows "fires s t \<and> t \<le> now"
proof -
  from assms(3) obtain tod where tod: "tod \<in> set (ts_times s)" "t = combine (day_part now - int b) tod" "b > 0 \<or> t \<le> now"
    by (auto simp: candidates_mem)
  have "clock_ok tod" using assms(1,2) tod(1) by (simp add: schedule_ok_def)
  then have "t \<le> now" using tod combine_le[of tod "day_part now - int b" now] by auto
  then show ?thesis using assms(2,4) tod by (auto simp: fires_def)
qed

lemma fire_is_candidate:
  assumes "schedule_ok s" "\<not> ts_once s" "fires s t" "t \<le> now"
  obtains b where "match_day s (day_part now - int b)" "t \<in> set (candidates s now b)"
proof -
  from assms(2,3) obtain day tod where d: "tod \<in> set (ts_times s)" "match_day s day" "t = combine day tod" by (auto simp: fires_def)
  have "clock_ok tod" using assms(1,2) d(1) by (simp add: schedule_ok_def)
  then have "day \<le> day_part now" using assms(4) d(3) combine_day by blast
  then have "day = day_part now - int (nat (day_part now - day))" by simp
  with that[of "nat (day_part now - day)"] d assms(4) show thesis by (auto simp: candidates_mem)
qed

text \<open>A schedule that fires at all has fired on one of the days looked at.\<close>

lemma matching_day_near:
  assumes "match_day s day"
  shows "\<exists>b. 0 < b \<and> b \<le> look_back (ts_cycle s) \<and> match_day s (today - int b)"
proof (cases "ts_cycle s")
  case DAILY
  then show ?thesis by (intro exI[of _ 1]) (simp add: match_day_def)
next
  case WEEKLY
  from every_weekday_within[of "isoweekday day" "today - 1"] isoweekday_range[of day]
  obtain j where "0 \<le> j" "j \<le> 6" "isoweekday (today - 1 - j) = isoweekday day" by auto
  then show ?thesis using WEEKLY assms by (intro exI[of _ "Suc (nat j)"]) (auto simp: match_day_def algebra_simps)
next
  case MONTHLY
  from every_day_of_month_within[of "day_of_month day" "today - 1"] day_of_month_range[of day]
  obtain j where "0 \<le> j" "j \<le> 61" "day_of_month (today - 1 - j) = day_of_month day" by auto
  then show ?thesis using MONTHLY assms by (intro exI[of _ "Suc (nat j)"]) (auto simp: match_day_def algebra_simps)
qed

lemma search_finds:
  assumes "schedule_ok s" "\<not> ts_once s" "match_day s day"
  shows "prev_fire_time s now \<noteq> None"
proof -
  from matching_day_near[OF assms(3), of "day_part now"] obtain b where
    b: "0 < b" "b \<le> look_back (ts_cycle s)" "match_day s (day_part now - int b)" by blast
  then have "candidates s now b \<noteq> []" using assms(1,2) by (simp add: candidates_def Let_def schedule_ok_def)
  with b show ?thesis
    using assms(2) by (auto simp: prev_fire_time_def search_back_find find_None_iff simp del: upt_Suc)
qed

lemma prev_fire_cycle:
  assumes ok: "schedule_ok s" "\<not> ts_once s" and p: "prev_fire_time s now = Some t"
  shows "fires s t \<and> t \<le> now \<and> (\<forall>u. fires s u \<and> u \<le> now \<longrightarrow> u \<le> t)"
proof -
  let ?P = "\<lambda>b. match_day s (day_part now - int b) \<and> candidates s now b \<noteq> []"
  let ?bs = "[0..<Suc (look_back (ts_cycle s))]"
  from p ok(2) obtain b where b: "find ?P ?bs = Some b" "t = Max (set (candidates s now b))"
    by (auto simp: prev_fire_time_def search_back_find simp del: upt_Suc)
  from b(1) obtain i where i: "i < length ?bs" "?P (?bs ! i)" "b = ?bs ! i" "\<forall>j < i. \<not> ?P (?bs ! j)"
    by (auto simp: find_Some_iff simp del: upt_Suc)
  then have "b = i" by (simp del: upt_Suc add: nth_upt)
  with i have hit: "?P b" and first: "\<not> ?P j" if "j < b" for j using that by (auto simp: nth_upt simp del: upt_Suc)
  have hit: "?P b" using i(2,3) by simp
  have t: "t \<in> set (candidates s now b)" unfolding b(2) using hit by (intro Max_in) auto
  have le: "u \<le> t" if "u \<in> set (candidates s now b)" for u unfolding b(2) using that by (intro Max_ge) auto
  have "u \<le> t" if u: "fires s u" "u \<le> now" for u
  proof -
    from fire_is_candidate[OF ok u] obtain b' where b': "match_day s (day_part now - int b')" "u \<in> set (candidates s now b')" by blast
    show ?thesis
    proof (cases b' b rule: linorder_cases)
      case less
      then show ?thesis using first[OF less] b' by auto
    next
      case equal
      then show ?thesis using le b' by simp
    next
      case greater
      from b' t obtain x y where "x \<in> set (ts_times s)" "u = combine (day_part now - int b') x"
        "y \<in> set (ts_times s)" "t = combine (day_part now - int b) y" by (auto simp: candidates_mem)
      then show ?thesis using greater ok combine_less[of x y "day_part now - int b'" "day_part now - int b"]
        by (auto simp: schedule_ok_def)
    qed
  qed
  then show ?thesis using candidate_fires[OF ok t] hit by blast
qed

lemma prev_fire_once:
  assumes ok: "schedule_ok s" "ts_once s"
  shows "prev_fire_time s now = Some t \<longleftrightarrow> fires s t \<and> t \<le> now \<and> (\<forall>u. fires s u \<and> u \<le> now \<longrightarrow> u \<le> t)"
proof -
  let ?fs = "filter (\<lambda>t. t \<le> now) (ts_dates s)"
  have s: "sorted ?fs" using ok by (simp add: schedule_ok_def sorted_wrt_filter)
  have greatest: "u \<le> last ?fs" if "u \<in> set ?fs" for u
    using s that by (cases ?fs rule: rev_cases) (auto simp: sorted_append)
  have p: "prev_fire_time s now = (if ?fs = [] then None else Some (last ?fs))"
    using ok by (simp add: prev_fire_time_def latest_date_filter schedule_ok_def)
  have f: "fires s u \<and> u \<le> now \<longleftrightarrow> u \<in> set ?fs" for u using ok by (auto simp: fires_def)
  show ?thesis
  proof (cases "?fs = []")
    case True
    then have "\<not> (fires s t \<and> t \<le> now)" unfolding f by simp
    then show ?thesis using p True by auto
  next
    case False
    then have l: "last ?fs \<in> set ?fs" by (rule last_in_set)
    have "(Some (last ?fs) = Some t) = (t \<in> set ?fs \<and> (\<forall>u. u \<in> set ?fs \<longrightarrow> u \<le> t))"
      using l greatest by (metis order_antisym option.inject)
    then show ?thesis using p False f by metis
  qed
qed

lemma prev_fire_spec:
  assumes ok: "schedule_ok s"
  shows "prev_fire_time s now = Some t \<longleftrightarrow> fires s t \<and> t \<le> now \<and> (\<forall>u. fires s u \<and> u \<le> now \<longrightarrow> u \<le> t)"
proof (cases "ts_once s")
  case True
  then show ?thesis using prev_fire_once[OF ok] by blast
next
  case False
  have "prev_fire_time s now = Some t" if t: "fires s t" "t \<le> now" "\<forall>u. fires s u \<and> u \<le> now \<longrightarrow> u \<le> t"
  proof -
    from t(1) False obtain day where "match_day s day" by (auto simp: fires_def)
    from search_finds[OF ok False this] obtain u where u: "prev_fire_time s now = Some u" by blast
    from prev_fire_cycle[OF ok False u] t have "u = t" by (meson order_antisym)
    with u show ?thesis by simp
  qed
  with prev_fire_cycle[OF ok False] show ?thesis by blast
qed

lemma prev_fire_none:
  assumes "schedule_ok s"
  shows "prev_fire_time s now = None \<longleftrightarrow> (\<forall>t. fires s t \<longrightarrow> now < t)"
proof (cases "prev_fire_time s now")
  case None
  have "now < t" if f: "fires s t" for t
  proof (rule ccontr)
    assume "\<not> now < t"
    then have le: "t \<le> now" by simp
    show False
    proof (cases "ts_once s")
      case True
      let ?fs = "filter (\<lambda>t. t \<le> now) (ts_dates s)"
      have "t \<in> set ?fs" using f le True by (simp add: fires_def)
      then have "?fs \<noteq> []" by (metis empty_iff list.set(1))
      then have "prev_fire_time s now = Some (last ?fs)" using assms True
        by (simp add: prev_fire_time_def latest_date_filter schedule_ok_def)
      then show False using None by simp
    next
      case False
      with f obtain day where d: "match_day s day" by (auto simp: fires_def)
      show False using search_finds[OF assms False d, of now] None by simp
    qed
  qed
  with None show ?thesis by blast
next
  case (Some t)
  with prev_fire_spec[OF assms, of now t] show ?thesis by auto
qed

text \<open>Two schedules for the examples: the last day of the months that have one, and two dates.\<close>

definition month_end :: pyval where
  "month_end = PDict [(''trigger_cycle'', PStr ''monthly''), (''trigger_times'', PList [PStr ''8:00:00'']), (''trigger_month'', PList [PInt 31])]"

definition month_end_schedule :: task_schedule where
  "month_end_schedule = \<lparr>ts_once = False, ts_dates = [], ts_cycle = MONTHLY, ts_times = [28800], ts_weeks = {}, ts_month = {31}\<rparr>"

definition one_date :: pyval where
  "one_date = PDict [(''trigger_dates'', PList [PStr ''1970-01-01 00:00:00''])]"

definition one_date_schedule :: task_schedule where
  "one_date_schedule = \<lparr>ts_once = True, ts_dates = [combine 719163 0], ts_cycle = DAILY, ts_times = [], ts_weeks = {}, ts_month = {}\<rparr>"

lemma month_end_read: "from_expr None month_end = Inr (Some month_end_schedule)"
  by code_simp

lemma one_date_read: "from_expr (Some ONLY_ONCE) one_date = Inr (Some one_date_schedule)"
  by code_simp

text \<open>
  C18. For a schedule that can be read, the search back from a moment finds the last moment at which the schedule
  fires, and finds none only when there is none: the days looked at always suffice, in leap years and around
  short months too.
\<close>

theorem prev_fire_is_latest:
  assumes "from_expr mode expr = Inr (Some s)"
  shows "(prev_fire_time s now = Some t) = (fires s t \<and> t \<le> now \<and> (\<forall>u. fires s u \<and> u \<le> now \<longrightarrow> u \<le> t)) \<and>
    (prev_fire_time s now = None) = (\<forall>u. fires s u \<longrightarrow> now < u)"
  using prev_fire_spec[OF from_expr_ok[OF assms]] prev_fire_none[OF from_expr_ok[OF assms]] by blast

theorem prev_fire_is_latest_witness:
  "(prev_fire_time month_end_schedule (combine 719223 0) = Some (combine 719193 28800)) =
    (fires month_end_schedule (combine 719193 28800) \<and> combine 719193 28800 \<le> combine 719223 0 \<and>
      (\<forall>u. fires month_end_schedule u \<and> u \<le> combine 719223 0 \<longrightarrow> u \<le> combine 719193 28800)) \<and>
    (prev_fire_time month_end_schedule (combine 719223 0) = None) = (\<forall>u. fires month_end_schedule u \<longrightarrow> combine 719223 0 < u) \<and>
    prev_fire_time month_end_schedule (combine 719223 0) = Some (combine 719193 28800)"
proof -
  have "prev_fire_time month_end_schedule (combine 719223 0) = Some (combine 719193 28800)" by code_simp
  then show ?thesis using prev_fire_is_latest[OF month_end_read] by blast
qed

lemma due_since:
  assumes "from_expr mode expr = Inr (Some s)"
  shows "is_task_due mode expr executed created now =
    Inr (\<exists>u. fires s u \<and> u \<le> now \<and> (\<forall>t. last_run executed created = Some t \<longrightarrow> t < u))"
proof (cases "prev_fire_time s now")
  case None
  with prev_fire_none[OF from_expr_ok[OF assms(1)]] have "\<not> (\<exists>u. fires s u \<and> u \<le> now)" by (auto simp: not_le)
  then show ?thesis using None assms by (auto simp: is_task_due_def)
next
  case (Some p)
  then have p: "fires s p" "p \<le> now" "\<forall>u. fires s u \<and> u \<le> now \<longrightarrow> u \<le> p"
    using prev_fire_spec[OF from_expr_ok[OF assms(1)]] by blast+
  then have "(t < p) = (\<exists>u. fires s u \<and> u \<le> now \<and> t < u)" for t by (meson less_le_trans)
  then show ?thesis using Some assms p by (auto simp: is_task_due_def split: option.splits)
qed

text \<open>
  C27. Take a schedule that can be read, and a task with a readable moment of its last run, or of its creation when
  it has never run. The task is due exactly when the schedule fires after that moment and not later than now: a
  moment that passed while the scanner was down still makes the task due, and a moment that is not after the last
  run does not.
\<close>

theorem due_iff_fires_since_last_run:
  assumes "from_expr mode expr = Inr (Some s)" "last_run executed created = Some t"
  shows "is_task_due mode expr executed created now = Inr (\<exists>u. fires s u \<and> t < u \<and> u \<le> now)"
  using due_since[OF assms(1)] assms(2) by auto

theorem due_iff_fires_since_last_run_witness:
  "is_task_due None month_end (Some (At (combine 719193 28800))) None (combine 719223 0) =
    Inr (\<exists>u. fires month_end_schedule u \<and> combine 719193 28800 < u \<and> u \<le> combine 719223 0)"
  by (rule due_iff_fires_since_last_run[OF month_end_read]) (simp add: last_run_def stamp_moment_def)

text \<open>
  A schedule that counts as completed at the moment of a run never fires after it.
\<close>

theorem completed_never_fires:
  assumes "from_expr mode expr = Inr (Some s)" "is_completed s t" "fires s u"
  shows "u \<le> t"
proof -
  have s: "ts_once s" "ts_dates s \<noteq> []" "last (ts_dates s) \<le> t" "sorted (ts_dates s)" "u \<in> set (ts_dates s)"
    using from_expr_ok[OF assms(1)] assms(2,3) by (auto simp: is_completed_def schedule_ok_def fires_def)
  then have "u \<le> last (ts_dates s)" by (cases "ts_dates s" rule: rev_cases) (auto simp: sorted_append)
  with s(3) show ?thesis by simp
qed

theorem completed_never_fires_witness: "combine 719163 0 \<le> combine 719163 0"
  by (rule completed_never_fires[OF one_date_read])
    (simp_all add: is_completed_def one_date_schedule_def fires_def)

section \<open>The preview\<close>

definition fires_on :: "task_schedule \<Rightarrow> moment \<Rightarrow> int \<Rightarrow> moment list" where
  "fires_on s now day = (if match_day s day then filter (\<lambda>t. now \<le> t) (map (combine day) (ts_times s)) else [])"

lemma add_times_take:
  "length acc < limit \<Longrightarrow> add_times limit now day ts acc =
     (let new = filter (\<lambda>t. now \<le> t) (map (combine day) ts) in (acc @ take (limit - length acc) new, limit \<le> length acc + length new))"
proof (induction ts arbitrary: acc)
  case (Cons t ts)
  show ?case
  proof (cases "now \<le> combine day t \<and> length acc + 1 < limit")
    case True
    then have "limit - length acc = Suc (limit - length (acc @ [combine day t]))" by simp arith
    with True Cons.IH[of "acc @ [combine day t]"] show ?thesis by (simp add: Let_def)
  next
    case False
    with Cons show ?thesis by (auto simp: Let_def take_Cons split: nat.split)
  qed
qed simp

lemma preview_days_take:
  "length acc < limit \<Longrightarrow> preview_days s limit now days acc = acc @ take (limit - length acc) (concat (map (fires_on s now) days))"
proof (induction days arbitrary: acc)
  case (Cons day days)
  let ?new = "filter (\<lambda>t. now \<le> t) (map (combine day) (ts_times s))"
  show ?case
  proof (cases "match_day s day")
    case True
    note add = add_times_take[OF Cons.prems, of now day "ts_times s"]
    show ?thesis
    proof (cases "limit \<le> length acc + length ?new")
      case True': True
      then show ?thesis using True add by (simp add: fires_on_def Let_def)
    next
      case False
      then have "add_times limit now day (ts_times s) acc = (acc @ ?new, False)" using add by (simp add: Let_def)
      with False True Cons.IH[of "acc @ ?new"] show ?thesis by (simp add: fires_on_def)
    qed
  next
    case False
    then show ?thesis using Cons by (simp add: fires_on_def)
  qed
qed simp

lemma fires_on_mem:
  assumes "schedule_ok s" "\<not> ts_once s"
  shows "t \<in> set (fires_on s now day) \<longleftrightarrow> fires s t \<and> now \<le> t \<and> day_part t = day"
proof -
  have "day_part (combine d tod) = d" if "tod \<in> set (ts_times s)" for d tod using assms that by (simp add: schedule_ok_def)
  then show ?thesis using assms(2) by (auto simp: fires_on_def fires_def)
qed

lemma fires_on_sorted: "schedule_ok s \<Longrightarrow> \<not> ts_once s \<Longrightarrow> sorted_wrt (<) (fires_on s now day)"
proof -
  assume a: "schedule_ok s" "\<not> ts_once s"
  then have "sorted_wrt (<) (ts_times s)" by (simp add: schedule_ok_def strict_sorted_iff)
  then have "sorted_wrt (<) (map (combine day) (ts_times s))" by (simp add: sorted_wrt_map combine_def)
  then show ?thesis by (simp add: fires_on_def sorted_wrt_filter)
qed

lemma fires_by_days:
  assumes "schedule_ok s" "\<not> ts_once s" "sorted_wrt (<) days"
  shows "sorted_wrt (<) (concat (map (fires_on s now) days))"
  using assms(3)
proof (induction days)
  case (Cons day days)
  have "t < u" if "t \<in> set (fires_on s now day)" "d \<in> set days" "u \<in> set (fires_on s now d)" for t d u
  proof -
    have "day_part t < day_part u" using that Cons.prems fires_on_mem[OF assms(1,2)] by auto
    then show ?thesis unfolding day_part_def by (meson not_le zdiv_mono1 zero_less_numeral)
  qed
  with Cons show ?case using fires_on_sorted[OF assms(1,2)] by (auto simp: sorted_wrt_append)
qed simp

text \<open>
  C20. The preview of a repeated schedule shows the next moments at which it fires, in order and without gaps: it
  is the beginning, as long as the limit, of the ascending list of all moments from now on within 800 days.
\<close>

theorem preview_shows_next_fires:
  assumes "from_expr mode expr = Inr (Some s)" "\<not> ts_once s" "0 < limit"
  shows "\<exists>all. sorted_wrt (<) all \<and> set all = {t. fires s t \<and> now \<le> t \<and> day_part t < day_part now + 800} \<and>
    preview_moments s now limit = take limit all"
proof -
  have ok: "schedule_ok s" using from_expr_ok[OF assms(1)] .
  let ?days = "map (\<lambda>ahead. day_part now + int ahead) [0..<800]"
  let ?all = "concat (map (fires_on s now) ?days)"
  have "sorted_wrt (<) ?days" by (simp add: sorted_wrt_map sorted_wrt_upt del: upt_rec_numeral)
  then have "sorted_wrt (<) ?all" using fires_by_days[OF ok assms(2)] by blast
  moreover have "set ?all = {t. fires s t \<and> now \<le> t \<and> day_part t < day_part now + 800}"
  proof -
    have d: "set ?days = {day_part now..<day_part now + 800}"
    proof (rule set_eqI)
      fix x
      show "x \<in> set ?days \<longleftrightarrow> x \<in> {day_part now..<day_part now + 800}"
        by (auto simp: image_iff simp del: upt_rec_numeral intro!: bexI[of _ "nat (x - day_part now)"])
    qed
    have "day_part now \<le> day_part t" if "now \<le> t" for t using that unfolding day_part_def by (simp add: zdiv_mono1)
    then show ?thesis using fires_on_mem[OF ok assms(2)] unfolding set_concat set_map[of "fires_on s now"] d by auto
  qed
  moreover have "preview_moments s now limit = take limit ?all"
    using preview_days_take[of "[]" limit s now ?days] assms(2,3) by (simp add: preview_moments_def)
  ultimately show ?thesis by blast
qed

theorem preview_shows_next_fires_witness:
  "\<exists>all. sorted_wrt (<) all \<and>
      set all = {t. fires month_end_schedule t \<and> combine 719223 0 \<le> t \<and> day_part t < day_part (combine 719223 0) + 800} \<and>
    preview_moments month_end_schedule (combine 719223 0) 2 = take 2 all"
  by (rule preview_shows_next_fires[OF month_end_read]) (simp_all add: month_end_schedule_def)

end
