(* ===== verification/ScheduleText.thy ===== *)
theory ScheduleText
  imports ScheduleRules
begin

text \<open>
  Schedules as they are stored: what is written for a time or a date is read back, so a schedule that is accepted
  is stable under a second normalisation and can be read by the scanner.
\<close>

section \<open>Times\<close>

lemma py_split_at: "c \<notin> set xs \<Longrightarrow> py_split c (xs @ c # ys) = xs # py_split c ys"
  by (induction xs) auto

lemma py_split_none: "c \<notin> set xs \<Longrightarrow> py_split c xs = [xs]"
  by (induction xs) auto

lemma decimal_chars:
  assumes "list_all is_decimal s"
  shows "CHR '':'' \<notin> set s" "CHR ''-'' \<notin> set s" "CHR '' '' \<notin> set s" "\<forall>c \<in> set s. \<not> is_space c"
  using assms decimal_not_space by (auto simp: list_all_iff is_decimal_def char_code_def)

lemma pad2_decimal: "0 \<le> n \<Longrightarrow> n < 100 \<Longrightarrow> list_all is_decimal (pad2 n)"
  by (auto simp: pad2_def intro!: digit_char_decimal)

lemma dec_value_pad2:
  assumes "0 \<le> n" "n < 100"
  shows "dec_value 0 (pad2 n) = Some n"
proof -
  have r: "0 \<le> n div 10" "n div 10 < 10" "0 \<le> n mod 10" "n mod 10 < 10" using assms by auto
  have "n div 10 * 10 + n mod 10 = n" by simp
  then show ?thesis using r by (simp add: pad2_def digit_char_decimal digit_char_code)
qed

lemma number_field_pad2: "low \<le> n \<Longrightarrow> n \<le> high \<Longrightarrow> 0 \<le> n \<Longrightarrow> n < 100 \<Longrightarrow> number_field low high (pad2 n) = Some n"
  using dec_value_pad2[of n] by (simp add: number_field_def) (simp add: pad2_def)

lemma clock_text_fields:
  assumes "0 \<le> h" "h \<le> 23" "0 \<le> m" "m \<le> 59" "0 \<le> sec" "sec \<le> 59"
  shows "clock_text (pad2 h @ '':'' @ pad2 m @ '':'' @ pad2 sec) = Some (h * 3600 + m * 60 + sec)"
proof -
  note d = decimal_chars(1)[OF pad2_decimal]
  have "py_split (CHR '':'') (pad2 h @ '':'' @ pad2 m @ '':'' @ pad2 sec) = [pad2 h, pad2 m, pad2 sec]"
    using assms by (simp add: py_split_at py_split_none d)
  then show ?thesis using assms by (simp add: clock_text_def number_field_pad2)
qed

lemma clock_parts: "t div 3600 * 3600 + t div 60 mod 60 * 60 + t mod 60 = (t :: int)"
proof -
  define q where "q = t div 60"
  have "t div 3600 = q div 60" unfolding q_def by (simp add: zdiv_zmult2_eq[symmetric])
  moreover have "q div 60 * 60 + q mod 60 = q" by simp
  moreover have "q * 60 + t mod 60 = t" by (simp add: q_def)
  ultimately show ?thesis unfolding q_def[symmetric] by linarith
qed

lemma clock_text_format:
  assumes "clock_ok t"
  shows "clock_text (format_time t) = Some t"
proof -
  have "0 \<le> t div 3600" "t div 3600 \<le> 23" "0 \<le> t div 60 mod 60" "t div 60 mod 60 \<le> 59" "0 \<le> t mod 60" "t mod 60 \<le> 59"
    using assms by (auto simp: clock_ok_def)
  from clock_text_fields[OF this] show ?thesis unfolding format_time_def clock_parts .
qed

lemma py_strip_ends:
  assumes "s \<noteq> []" "\<not> is_space (hd s)" "\<not> is_space (last s)"
  shows "py_strip s = s"
proof -
  have "dropWhile is_space s = s" using assms by (cases s) auto
  moreover have "dropWhile is_space (rev s) = rev s" using assms by (cases s rule: rev_cases) auto
  ultimately show ?thesis by (simp add: py_strip_def)
qed

lemma pad2_ends: "0 \<le> n \<Longrightarrow> n < 100 \<Longrightarrow> pad2 n \<noteq> [] \<and> \<not> is_space (hd (pad2 n)) \<and> \<not> is_space (last (pad2 n))"
  using decimal_chars(4)[OF pad2_decimal[of n]] by (simp add: pad2_def)

lemma format_time_ends:
  assumes "clock_ok t"
  shows "format_time t \<noteq> [] \<and> \<not> is_space (hd (format_time t)) \<and> \<not> is_space (last (format_time t))"
proof -
  have r: "0 \<le> t div 3600" "t div 3600 < 100" "0 \<le> t mod 60" "t mod 60 < 100" using assms by (auto simp: clock_ok_def)
  show ?thesis using pad2_ends[OF r(1,2)] pad2_ends[OF r(3,4)] by (simp add: format_time_def)
qed

lemma parse_format_time: "clock_ok t \<Longrightarrow> parse_time_of_day (PStr (format_time t)) = Some t"
  using format_time_ends clock_text_format by (simp add: parse_time_of_day_def py_strip_ends)

section \<open>Dates\<close>

lemma length_pos_str_step: "10 \<le> n \<Longrightarrow> length (pos_str n) = Suc (length (pos_str (n div 10)))"
  by (subst pos_str.simps) simp

lemma length_pos_str:
  assumes "1000 \<le> n" "n \<le> 9999"
  shows "length (pos_str n) = 4"
proof -
  define a b c where "a = n div 10" and "b = a div 10" and "c = b div 10"
  have "10 \<le> n" "10 \<le> a" "10 \<le> b" "c < 10" using assms by (auto simp: a_def b_def c_def)
  moreover have "length (pos_str c) = 1" using \<open>c < 10\<close> by (subst pos_str.simps) simp
  ultimately show ?thesis
    using length_pos_str_step[of n] length_pos_str_step[of a] length_pos_str_step[of b] by (simp add: a_def b_def c_def)
qed

definition four_digit_year :: "moment \<Rightarrow> bool" where
  "four_digit_year t = (case date_of (day_part t) of (y, m, d) \<Rightarrow> 1000 \<le> y \<and> y \<le> 9999 \<and> t mod 1000000 = 0)"

lemma clock_of_moment: "clock_ok (t div 1000000 mod 86400)"
  by (simp add: clock_ok_def)

lemma combine_parts: "t mod 1000000 = 0 \<Longrightarrow> combine (day_part t) (t div 1000000 mod 86400) = t"
proof -
  assume "t mod 1000000 = 0"
  then have "t div 1000000 * 1000000 = t" by (metis add.right_neutral div_mult_mod_eq)
  moreover have "day_part t = t div 1000000 div 86400" by (simp add: day_part_def zdiv_zmult2_eq[symmetric])
  ultimately show ?thesis by (simp add: combine_def)
qed

lemma moment_text_format:
  assumes "four_digit_year t"
  shows "moment_text (format_moment t) = Some t"
proof -
  obtain y m d where date: "date_of (day_part t) = (y, m, d)" by (metis prod.exhaust)
  have y: "1000 \<le> y" "y \<le> 9999" "t mod 1000000 = 0" using assms date by (auto simp: four_digit_year_def)
  have v: "valid_date y m d" "ordinal_of y m d = day_part t" using date_of_valid[OF date] by auto
  have m: "1 \<le> m" "m \<le> 12" "1 \<le> d" "d \<le> 31" using v month_length_bounds[of m y] by (auto simp: valid_date_def)
  let ?clock = "format_time (t div 1000000 mod 86400)"
  have f: "format_moment t = pos_str y @ CHR ''-'' # pad2 m @ CHR ''-'' # pad2 d @ CHR '' '' # ?clock"
    using y by (simp add: format_moment_def date int_str_def)
  have dy: "list_all is_decimal (pos_str y)" and dm: "list_all is_decimal (pad2 m)" and dd: "list_all is_decimal (pad2 d)"
    using pos_str_decimal y pad2_decimal m by auto
  have before: "py_before c (xs @ c # ys) = xs" "py_after c (xs @ c # ys) = ys" if "c \<notin> set xs" for c xs ys
    using that by (induction xs) (auto simp: py_before_def py_after_def)
  have day: "day_digits (pad2 d @ CHR '' '' # ?clock) = (pad2 d, CHR '' '' # ?clock)"
  proof -
    have c: "is_decimal (digit_char (d div 10))" "is_decimal (digit_char (d mod 10))" using dd by (auto simp: pad2_def)
    then have "digit_char (d div 10) \<noteq> CHR '' ''" using decimal_chars(3)[OF dd] by (auto simp: pad2_def)
    moreover have "\<not> is_decimal (CHR '' '')" by (simp add: is_decimal_def char_code_def)
    ultimately show ?thesis using c by (simp add: day_digits_def pad2_def)
  qed
  have sp: "is_space (CHR '' '')" by (simp add: is_space_def char_code_def Let_def)
  have drop: "dropWhile is_space (CHR '' '' # ?clock) = ?clock"
    using format_time_ends[OF clock_of_moment[of t]] sp by (cases ?clock) auto
  have clock: "clock_text ?clock = Some (t div 1000000 mod 86400)" by (rule clock_text_format[OF clock_of_moment])
  have yf: "year_field (pos_str y) = Some y" using y by (simp add: year_field_def length_pos_str dec_value_pos_str)
  show ?thesis
    unfolding moment_text_def f Let_def
    using y m v decimal_chars(2)[OF dy] decimal_chars(2)[OF dm]
    by (simp add: before day drop sp clock yf number_field_pad2 moment_of_def combine_parts del: dropWhile.simps)
qed

lemma format_moment_ends:
  assumes "four_digit_year t"
  shows "format_moment t \<noteq> [] \<and> \<not> is_space (hd (format_moment t)) \<and> \<not> is_space (last (format_moment t))"
proof -
  obtain y m d where date: "date_of (day_part t) = (y, m, d)" by (metis prod.exhaust)
  have y: "1000 \<le> y" using assms date by (simp add: four_digit_year_def)
  have "\<not> is_space (hd (pos_str y))" using decimal_chars(4)[OF pos_str_decimal[of y]] y hd_in_set[OF pos_str_nonempty[of y]] by auto
  then show ?thesis using format_time_ends[OF clock_of_moment[of t]] y by (simp add: format_moment_def date int_str_def)
qed

lemma parse_format_moment: "four_digit_year t \<Longrightarrow> parse_fire_time (PStr (format_moment t)) = Some t"
  using format_moment_ends moment_text_format by (simp add: parse_fire_time_def py_strip_ends)

section \<open>Stored schedules\<close>

lemma parse_each_sound: "parse_each p bad vs = Inr ns \<Longrightarrow> length ns = length vs \<and> (\<forall>n \<in> set ns. \<exists>v \<in> set vs. p v = Some n)"
  by (induction vs arbitrary: ns) (force split: option.splits sum.splits simp: map_sum_def)+

lemma parse_each_written: "\<forall>t \<in> set ts. p (f t) = Some t \<Longrightarrow> parse_each p bad (map f ts) = Inr ts"
  by (induction ts) auto

lemma map_filter_written: "\<forall>t \<in> set ts. p (f t) = Some t \<Longrightarrow> List.map_filter p (map f ts) = ts"
  by (induction ts) (auto simp: List.map_filter_simps)

lemma number_set_sound: "number_set vs low high f = Inr ns \<Longrightarrow> length ns = length vs \<and> (\<forall>n \<in> set ns. low \<le> n \<and> n \<le> high)"
  by (induction vs arbitrary: ns) (auto split: sum.splits if_splits simp: map_sum_def)

lemma number_set_written: "\<forall>n \<in> set ns. low \<le> n \<and> n \<le> high \<Longrightarrow> number_set (map PInt ns) low high f = Inr ns"
  by (induction ns) (auto simp: py_int_def)

lemma sorted_set_short: "length (sorted_set xs) \<le> length xs"
  by (simp add: sorted_set_def length_remdups_leq)

text \<open>What an accepted list of times or of numbers looks like.\<close>

definition stored_set :: "int list \<Rightarrow> bool" where
  "stored_set ns = (ns \<noteq> [] \<and> sorted_set ns = ns)"

lemma normalize_int_set_sound:
  assumes "normalize_int_set raw low high f = Inr ns"
  shows "stored_set ns \<and> (\<forall>n \<in> set ns. low \<le> n \<and> n \<le> high)"
proof -
  from assms obtain v vs ms where m: "number_set (v # vs) low high f = Inr ms" "ns = sorted_set ms"
    by (auto simp: normalize_int_set_def map_sum_def split: pyval.splits list.splits sum.splits)
  from number_set_sound[OF m(1)] m(2) show ?thesis by (auto simp: stored_set_def)
qed

lemma normalize_int_set_written:
  assumes "stored_set ns" "\<forall>n \<in> set ns. low \<le> n \<and> n \<le> high"
  shows "normalize_int_set (numbers_json ns) low high f = Inr ns"
proof -
  obtain n ms where ns: "ns = n # ms" using assms(1) by (cases ns) (auto simp: stored_set_def)
  have "number_set (map PInt ns) low high f = Inr ns" using assms(2) by (rule number_set_written)
  then show ?thesis using assms(1) unfolding ns by (simp add: normalize_int_set_def stored_set_def)
qed

lemma normalize_trigger_times_sound:
  assumes "normalize_trigger_times d = Inr ts"
  shows "stored_set ts \<and> length ts \<le> max_trigger_times \<and> (\<forall>t \<in> set ts. clock_ok t)"
proof -
  from assms obtain vs ms where m: "field_of d ''trigger_times'' = PList vs" "vs \<noteq> []" "length vs \<le> max_trigger_times"
    "parse_each parse_time_of_day BadTime vs = Inr ms" "ts = sorted_set ms"
    by (auto simp: normalize_trigger_times_def map_sum_def split: pyval.splits sum.splits if_splits)
  from parse_each_sound[OF m(4)] m sorted_set_short[of ms] show ?thesis by (auto simp: stored_set_def dest: parse_time_ok)
qed

lemma normalize_trigger_times_written:
  assumes "stored_set ts" "length ts \<le> max_trigger_times" "\<forall>t \<in> set ts. clock_ok t" "field_of d ''trigger_times'' = times_json ts"
  shows "normalize_trigger_times d = Inr ts"
proof -
  have "parse_each parse_time_of_day BadTime (map (\<lambda>t. PStr (format_time t)) ts) = Inr ts"
    using assms(3) parse_format_time by (intro parse_each_written) auto
  then show ?thesis using assms by (simp add: normalize_trigger_times_def stored_set_def)
qed

lemma entries_of_list: "xs \<noteq> [] \<Longrightarrow> entries_of (PList xs) = Inr xs"
  by (simp add: entries_of_def py_truthy_def)

lemma times_read:
  assumes "stored_set ts" "\<forall>t \<in> set ts. clock_ok t"
  shows "entries_of (times_json ts) = Inr (map (\<lambda>t. PStr (format_time t)) ts) \<and>
    sorted_set (List.map_filter parse_time_of_day (map (\<lambda>t. PStr (format_time t)) ts)) = ts"
  using assms parse_format_time by (simp add: entries_of_list stored_set_def map_filter_written)

lemma defensive_written: "\<forall>n \<in> set ns. 1 \<le> n \<Longrightarrow> defensive_numbers (map PInt ns) = Inr (set ns)"
proof (induction ns)
  case (Cons n ns)
  then have n: "0 \<le> n" by simp
  have "hd (pos_str n) \<noteq> CHR ''-''" by (metis hd_in_set pos_str_nonempty decimal_chars(2) pos_str_decimal n)
  then have "dropWhile (\<lambda>c. c = CHR ''-'') (pos_str n) = pos_str n" by (cases "pos_str n") auto
  then show ?case using Cons n pos_str_isdigit[OF n] by (simp add: int_str_def py_int_def py_str_def)
qed simp

lemma cycle_values: "enum_value (PStr ''daily'') = Some ''daily''" "enum_value (PStr ''weekly'') = Some ''weekly''"
  "enum_value (PStr ''monthly'') = Some ''monthly''"
  by code_simp+

lemma cycle_of_text [simp]: "cycle_of (PStr (cycle_text c)) = Some c"
  by (cases c) (simp_all add: cycle_of_def cycle_values)

declare cycle_text.simps [simp del]

lemma field_of_Cons: "field_of ((k, v) # d) x = (if x = k then v else field_of d x)"
  by (simp add: field_of_def)

lemma field_of_Nil: "field_of [] x = PNone"
  by (simp add: field_of_def)

lemmas stored_fields = field_of_Cons field_of_Nil

definition years_written :: "pyval \<Rightarrow> bool" where
  "years_written v = (case v of
     PDict d \<Rightarrow> (case field_of d ''trigger_dates'' of
       PList vs \<Rightarrow> list_all (\<lambda>x. case parse_fire_time x of None \<Rightarrow> True | Some t \<Rightarrow> four_digit_year t) vs | _ \<Rightarrow> True)
   | _ \<Rightarrow> True)"

lemma once_is_stable:
  assumes "normalize_once d = Inr e" "years_written (PDict d)"
  shows "normalize_once e = Inr e \<and> e \<noteq> [] \<and> (\<exists>s. from_expr (Some ONLY_ONCE) (PDict e) = Inr (Some s) \<and> ts_once s)"
proof -
  from assms(1) obtain v vs ds ms ts where p: "field_of d ''trigger_dates'' = PList (v # vs)" "parse_each parse_fire_time BadDate (v # vs) = Inr ds"
    "normalize_int_set (field_of d ''trigger_month'') 1 31 ''trigger_month'' = Inr ms" "normalize_trigger_times d = Inr ts"
    "e = [(''trigger_dates'', PList (map (\<lambda>t. PStr (format_moment t)) (sorted_set ds))), (''trigger_month'', numbers_json ms),
      (''trigger_times'', times_json ts)]"
    unfolding normalize_once_def by (auto split: pyval.splits list.splits sum.splits)
  from parse_each_sound[OF p(2)] assms(2) p(1) have ds: "\<forall>t \<in> set ds. four_digit_year t" "ds \<noteq> []"
    by (fastforce simp: years_written_def list_all_iff)+
  have w: "\<forall>t \<in> set (sorted_set ds). parse_fire_time (PStr (format_moment t)) = Some t" using ds parse_format_moment by auto
  obtain t rest where c: "sorted_set ds = t # rest" using ds(2) by (cases "sorted_set ds") auto
  note months = normalize_int_set_sound[OF p(3)] and times = normalize_trigger_times_sound[OF p(4)]
  have tt: "normalize_trigger_times e = Inr ts" using times by (intro normalize_trigger_times_written) (auto simp: p(5) stored_fields)
  have mm: "normalize_int_set (field_of e ''trigger_month'') 1 31 ''trigger_month'' = Inr ms"
    using months normalize_int_set_written by (simp add: p(5) stored_fields)
  have dd: "parse_each parse_fire_time BadDate (map (\<lambda>t. PStr (format_moment t)) (t # rest)) = Inr (t # rest)"
    using w unfolding c by (intro parse_each_written[where f = "\<lambda>t. PStr (format_moment t)"])
  have "normalize_once e = Inr e"
    using tt mm dd sorted_set_facts(5)[of ds] by (simp add: normalize_once_def c) (simp add: p(5) stored_fields c)
  moreover have "\<exists>s. from_expr (Some ONLY_ONCE) (PDict e) = Inr (Some s) \<and> ts_once s"
    using map_filter_written[where p = parse_fire_time and f = "\<lambda>t. PStr (format_moment t)" and ts = "sorted_set ds", OF w] ds(2) by (simp add: from_expr_def p(5) stored_fields entries_of_list Let_def)
  ultimately show ?thesis by (simp add: p(5))
qed

lemma cycle_is_stable:
  assumes "normalize_cycle d = Inr e" "mode \<noteq> Some ONLY_ONCE"
  shows "normalize_cycle e = Inr e \<and> e \<noteq> [] \<and> (\<exists>s. from_expr mode (PDict e) = Inr (Some s) \<and> \<not> ts_once s \<and> (\<exists>day. match_day s day))"
proof -
  from assms(1) obtain c ts where c: "cycle_of (field_of d ''trigger_cycle'') = Some c" and t: "normalize_trigger_times d = Inr ts"
    unfolding normalize_cycle_def by (auto split: option.splits sum.splits)
  note times = normalize_trigger_times_sound[OF t]
  then have ne: "ts \<noteq> []" by (simp add: stored_set_def)
  let ?base = "[(''trigger_cycle'', PStr (cycle_text c)), (''trigger_times'', times_json ts)]"
  have tt: "normalize_trigger_times (?base @ x) = Inr ts" for x
    using times by (intro normalize_trigger_times_written) (auto simp: stored_fields)
  have read: "entries_of (times_json ts) = Inr (map (\<lambda>t. PStr (format_time t)) ts)"
    "sorted_set (List.map_filter parse_time_of_day (map (\<lambda>t. PStr (format_time t)) ts)) = ts"
    using times_read[of ts] times by auto
  show ?thesis
  proof (cases c)
    case DAILY
    then have "e = ?base" using assms(1) c t by (simp add: normalize_cycle_def)
    then show ?thesis using tt[of "[]"] read ne DAILY assms(2)
      by (auto simp: normalize_cycle_def from_expr_def stored_fields defensive_int_set_def Let_def match_day_def)
  next
    case WEEKLY
    then obtain ws where ws: "normalize_int_set (field_of d ''trigger_weeks'') 1 7 ''trigger_weeks'' = Inr ws"
      "e = ?base @ [(''trigger_weeks'', numbers_json ws)]"
      using assms(1) c t by (auto simp: normalize_cycle_def map_sum_def split: sum.splits)
    note w = normalize_int_set_sound[OF ws(1)]
    then have n: "normalize_int_set (numbers_json ws) 1 7 ''trigger_weeks'' = Inr ws" by (intro normalize_int_set_written) auto
    have r: "defensive_numbers (map PInt ws) = Inr (set ws)" using w by (intro defensive_written) auto
    have "ws \<noteq> []" using w by (simp add: stored_set_def)
    then obtain k where k: "k \<in> set ws" "1 \<le> k" "k \<le> 7" using w by (cases ws) auto
    from every_weekday_within[OF k(2,3), of 0] obtain day where "isoweekday day = k" by blast
    then show ?thesis using tt[of "[(''trigger_weeks'', numbers_json ws)]"] n r read ne \<open>ws \<noteq> []\<close> WEEKLY assms(2) k(1)
      by (auto simp: ws(2) normalize_cycle_def from_expr_def stored_fields defensive_int_set_def Let_def match_day_def)
  next
    case MONTHLY
    then obtain ms where ms: "normalize_int_set (field_of d ''trigger_month'') 1 31 ''trigger_month'' = Inr ms"
      "e = ?base @ [(''trigger_month'', numbers_json ms)]"
      using assms(1) c t by (auto simp: normalize_cycle_def map_sum_def split: sum.splits)
    note w = normalize_int_set_sound[OF ms(1)]
    then have n: "normalize_int_set (numbers_json ms) 1 31 ''trigger_month'' = Inr ms" by (intro normalize_int_set_written) auto
    have r: "defensive_numbers (map PInt ms) = Inr (set ms)" using w by (intro defensive_written) auto
    have "ms \<noteq> []" using w by (simp add: stored_set_def)
    then obtain k where k: "k \<in> set ms" "1 \<le> k" "k \<le> 31" using w by (cases ms) auto
    from every_day_of_month_within[OF k(2,3), of 0] obtain day where "day_of_month day = k" by blast
    then show ?thesis using tt[of "[(''trigger_month'', numbers_json ms)]"] n r read ne \<open>ms \<noteq> []\<close> MONTHLY assms(2) k(1)
      by (auto simp: ms(2) normalize_cycle_def from_expr_def stored_fields defensive_int_set_def Let_def match_day_def)
  qed
qed

text \<open>
  C19. A schedule that is accepted when a task is saved is stable, it is accepted again as it is stored, and the
  scanner can read it; a repeated schedule then has a last moment to fire at any time. Dates must be in years
  that are written with four digits.
\<close>

theorem accepted_schedule_is_stable:
  assumes "normalize_schedule mode v = Inr (Some e)" "mode = Some ONLY_ONCE \<longrightarrow> years_written v"
  shows "normalize_schedule mode (PDict e) = Inr (Some e) \<and>
    (\<exists>s. from_expr mode (PDict e) = Inr (Some s) \<and> ts_once s = (mode = Some ONLY_ONCE) \<and>
      (mode \<noteq> Some ONLY_ONCE \<longrightarrow> (\<forall>now. prev_fire_time s now \<noteq> None)))"
proof -
  from assms(1) obtain d where d: "v = PDict d" "(if mode = Some ONLY_ONCE then normalize_once d else normalize_cycle d) = Inr e"
    by (auto simp: normalize_schedule_def map_sum_def split: pyval.splits if_splits sum.splits)
  show ?thesis
  proof (cases "mode = Some ONLY_ONCE")
    case True
    with d assms(2) once_is_stable[of d e] show ?thesis by (auto simp: normalize_schedule_def)
  next
    case False
    with d cycle_is_stable[of d e mode] obtain s day where
      s: "normalize_cycle e = Inr e" "e \<noteq> []" "from_expr mode (PDict e) = Inr (Some s)" "\<not> ts_once s" "match_day s day" by auto
    have "prev_fire_time s now \<noteq> None" for now using search_finds[OF from_expr_ok[OF s(3)] s(4,5)] .
    then show ?thesis using False s by (auto simp: normalize_schedule_def)
  qed
qed

definition month_end_stored :: "pyval dict" where
  "month_end_stored = [(''trigger_cycle'', PStr ''monthly''), (''trigger_times'', PList [PStr ''08:00:00'']), (''trigger_month'', PList [PInt 31])]"

lemma month_end_normalized: "normalize_schedule None month_end = Inr (Some month_end_stored)"
  by code_simp

theorem accepted_schedule_is_stable_witness:
  "normalize_schedule None (PDict month_end_stored) = Inr (Some month_end_stored) \<and>
    (\<exists>s. from_expr None (PDict month_end_stored) = Inr (Some s) \<and> ts_once s = (None = Some ONLY_ONCE) \<and>
      (None \<noteq> Some ONLY_ONCE \<longrightarrow> (\<forall>now. prev_fire_time s now \<noteq> None)))"
  by (rule accepted_schedule_is_stable[OF month_end_normalized]) simp

end
