(* ===== verification/TaskRules.thy ===== *)
theory TaskRules
  imports Tasks ScheduleText BatchRules
begin

text \<open>
  What the service of tasks promises: a task has one run at a time, its state tells how its last run ended, the
  scan asks for the tasks that are due, and a schedule is closed only when the dates the run has read are over.
\<close>

section \<open>Changes of rows\<close>

text \<open>The step changes rows of one task only, and no number.\<close>

definition touches :: "int \<Rightarrow> task_row list \<Rightarrow> task_row list \<Rightarrow> bool" where
  "touches i rows rows' = (\<exists>f. rows' = map f rows \<and> (\<forall>r. tk_id (f r) = tk_id r \<and> (tk_id r \<noteq> i \<longrightarrow> f r = r)))"

lemma touches_refl [simp]: "touches i rows rows"
  unfolding touches_def by (rule exI[of _ id]) simp

lemma touches_trans: "touches i a b \<Longrightarrow> touches i b c \<Longrightarrow> touches i a c"
  unfolding touches_def by (elim exE, rule_tac x = "fa \<circ> f" in exI) auto

lemma touches_change: "(\<And>r. tk_id (f r) = tk_id r) \<Longrightarrow> touches i rows (change_task i f rows)"
  unfolding touches_def change_task_def by (intro exI[of _ "\<lambda>r. if tk_id r = i then f r else r"]) auto

lemma touches_state [simp]: "touches i rows (save_state i s rows)"
  unfolding save_state_def by (rule touches_change) simp

lemma touches_claim: "claim_execution i user started now rows = (rows', ok) \<Longrightarrow> touches i rows rows'"
  unfolding claim_execution_def touches_def Let_def
  by (intro exI[of _ "\<lambda>r. if tk_id r = i \<and> may_claim now r then r\<lparr>tk_last_state := Some RUNNING, tk_last_time := Some started,
      tk_last_user := upper_user user\<rparr> else r"]) auto

lemma touches_begin: "begin_run i trigger user started now rows = (rows', result) \<Longrightarrow> touches i rows rows'"
  by (auto simp: begin_run_def Let_def split: option.splits prod.splits bool.splits if_splits
      dest!: touches_claim intro: touches_trans)

lemma touches_close: "close_schedule run rows = Inr rows' \<Longrightarrow> touches (tk_id (tr_row run)) rows rows'"
  by (auto simp: close_schedule_def split: if_splits sum.splits intro!: touches_change)

lemma touches_fail: "fail_run run how rows = (rows', e) \<Longrightarrow> touches (tk_id (tr_row run)) rows rows'"
  by (auto simp: fail_run_def Let_def split: sum.splits dest!: touches_close intro: touches_trans[OF touches_state])

lemma touches_end: "end_run run how rows = (rows', e) \<Longrightarrow> touches (tk_id (tr_row run)) rows rows'"
  by (auto simp: end_run_def Let_def split: batch_end.splits sum.splits dest!: touches_close touches_fail intro: touches_trans[OF touches_state])

lemma touches_ids: "touches i rows rows' \<Longrightarrow> map tk_id rows' = map tk_id rows"
  by (auto simp: touches_def)

lemma change_task_keeps:
  assumes "\<And>r. tk_id (f r) = tk_id r \<and> tk_last_state (f r) = tk_last_state r \<and> tk_last_time (f r) = tk_last_time r"
  shows "map (\<lambda>r. (tk_id r, tk_last_state r, tk_last_time r)) (change_task i f rows) =
    map (\<lambda>r. (tk_id r, tk_last_state r, tk_last_time r)) rows"
  using assms by (simp add: change_task_def)

lemma find_task_iff: "distinct (map tk_id rows) \<Longrightarrow> (find_task i rows = Some r) = (r \<in> set rows \<and> tk_id r = i)"
  by (induction rows) (auto simp: find_task_def)

lemma find_touched: "touches i rows rows' \<Longrightarrow> j \<noteq> i \<Longrightarrow> find_task j rows' = find_task j rows"
proof -
  assume "touches i rows rows'" "j \<noteq> i"
  then obtain f where f: "rows' = map f rows" "\<And>r. tk_id (f r) = tk_id r" "\<And>r. tk_id r \<noteq> i \<Longrightarrow> f r = r" unfolding touches_def by blast
  have "find_task j (map f rows) = find_task j rows"
    using \<open>j \<noteq> i\<close> f(2,3) by (induction rows) (auto simp: find_task_def)
  with f(1) show ?thesis by simp
qed

lemma find_change: "(\<And>r. tk_id (f r) = tk_id r) \<Longrightarrow> find_task i (change_task i f rows) = map_option f (find_task i rows)"
  by (induction rows) (auto simp: find_task_def change_task_def)

section \<open>One run at a time\<close>

text \<open>A run is on record when the row of its task says that it is running since the start of the run.\<close>

definition on_record :: "task_row list \<Rightarrow> task_run \<Rightarrow> bool" where
  "on_record rows run = (\<exists>r t. find_task (tk_id (tr_row run)) rows = Some r \<and> tk_last_state r = Some RUNNING \<and>
     tk_last_time r = Some t \<and> tk_last_time (tr_row run) = Some t)"

definition service_ok :: "service \<Rightarrow> bool" where
  "service_ok s = (distinct (map tk_id (sv_tasks s)) \<and> distinct (map (\<lambda>run. tk_id (tr_row run)) (sv_runs s)) \<and>
     (\<forall>run \<in> set (sv_runs s). on_record (sv_tasks s) run \<and> sv_now s \<le> start_of run + run_limit))"

lemma on_record_touched: "on_record rows run \<Longrightarrow> touches i rows rows' \<Longrightarrow> tk_id (tr_row run) \<noteq> i \<Longrightarrow> on_record rows' run"
  by (simp add: on_record_def find_touched)

lemma on_record_change:
  assumes "on_record rows run" "\<And>r. tk_id (f r) = tk_id r \<and> tk_last_state (f r) = tk_last_state r \<and> tk_last_time (f r) = tk_last_time r"
  shows "on_record (change_task i f rows) run"
proof (cases "tk_id (tr_row run) = i")
  case True
  with assms show ?thesis by (auto simp: on_record_def find_change)
next
  case False
  with assms touches_change[of f] show ?thesis by (auto intro: on_record_touched)
qed

lemma live_run_not_claimed:
  assumes "on_record rows run" "now \<le> start_of run + run_limit" "find_task (tk_id (tr_row run)) rows = Some r"
  shows "\<not> may_claim now r"
  using assms by (auto simp: on_record_def may_claim_def start_of_def stale_run_before_def run_limit_def split: option.splits)

lemma claim_iff:
  assumes "distinct (map tk_id rows)" "find_task i rows = Some r"
  shows "claim_execution i user started now rows =
    (if may_claim now r
     then (change_task i (\<lambda>r. r\<lparr>tk_last_state := Some RUNNING, tk_last_time := Some started, tk_last_user := upper_user user\<rparr>) rows, True)
     else (rows, False))"
proof -
  have r: "r \<in> set rows" "tk_id r = i" using assms find_task_iff by auto
  have only: "x = r" if "x \<in> set rows" "tk_id x = i" for x using that r assms(1) by (auto simp: distinct_map inj_on_def)
  then have hit: "(tk_id x = i \<and> may_claim now x) = (tk_id x = i \<and> may_claim now r)" if "x \<in> set rows" for x using that by blast
  have "list_ex (\<lambda>x. tk_id x = i \<and> may_claim now x) rows = may_claim now r" using r only unfolding list_ex_iff by blast
  moreover have "map (\<lambda>x. if tk_id x = i \<and> may_claim now x then f x else x) rows =
      (if may_claim now r then change_task i f rows else rows)" for f
  proof (cases "may_claim now r")
    case True
    have "map (\<lambda>x. if tk_id x = i \<and> may_claim now x then f x else x) rows = change_task i f rows"
      unfolding change_task_def by (rule map_cong[OF refl]) (use hit True in auto)
    with True show ?thesis by simp
  next
    case False
    have "map (\<lambda>x. if tk_id x = i \<and> may_claim now x then f x else x) rows = rows"
      by (rule map_idI) (use hit False in auto)
    with False show ?thesis by simp
  qed
  ultimately show ?thesis by (simp add: claim_execution_def Let_def)
qed

lemma begin_started:
  assumes "distinct (map tk_id rows)" "begin_run i trigger user started now rows = (rows', Started run)"
  shows "\<exists>r. find_task i rows = Some r \<and> may_claim now r \<and> tk_id (tr_row run) = i \<and> tk_cases r \<noteq> [] \<and>
    tr_row run = r\<lparr>tk_last_time := Some started, tk_last_state := Some RUNNING, tk_last_user := worker_user user r\<rparr> \<and>
    tr_trigger run = trigger \<and>
    rows' = change_task i (\<lambda>r. r\<lparr>tk_last_state := Some RUNNING, tk_last_time := Some started,
      tk_last_user := upper_user (tk_last_user (tr_row run))\<rparr>) rows"
proof -
  from assms(2) obtain r where r: "find_task i rows = Some r" by (auto simp: begin_run_def split: option.splits)
  then have "tk_id r = i" using find_task_iff[OF assms(1)] by simp
  with r assms claim_iff[OF assms(1) r] show ?thesis
    by (auto simp: begin_run_def Let_def split: if_splits)
qed

lemma begin_not_started:
  assumes "distinct (map tk_id rows)" "begin_run i trigger user started now rows = (rows', result)" "\<forall>run. result \<noteq> Started run"
  shows "rows' = rows \<or> (\<exists>r. find_task i rows = Some r \<and> may_claim now r)"
proof (cases "find_task i rows")
  case (Some r)
  with assms claim_iff[OF assms(1) Some] show ?thesis by (auto simp: begin_run_def Let_def split: if_splits)
qed (use assms in \<open>auto simp: begin_run_def\<close>)

lemma set_enabled_keeps: "set_task_enabled i p b u now rows = Inr rows' \<Longrightarrow> map tk_id rows' = map tk_id rows \<and> (on_record rows run \<longrightarrow> on_record rows' run)"
  by (auto simp: set_task_enabled_def split: sum.splits if_splits intro!: on_record_change touches_ids[OF touches_change])

lemma delete_keeps: "delete_task i p u rows = Inr rows' \<Longrightarrow> map tk_id rows' = map tk_id rows \<and> (on_record rows run \<longrightarrow> on_record rows' run)"
  by (auto simp: delete_task_def split: sum.splits if_splits intro!: on_record_change touches_ids[OF touches_change])

lemma save_row_keeps:
  assumes "find_task i rows = Some r" "tk_id r' = i" "tk_last_state r' = tk_last_state r" "tk_last_time r' = tk_last_time r"
  shows "map tk_id (save_row r' rows) = map tk_id rows" "on_record rows run \<Longrightarrow> on_record (save_row r' rows) run"
proof -
  have change: "save_row r' rows = change_task i (\<lambda>x. if tk_id x = i then r' else x) rows"
    using assms(2) by (simp add: save_row_def change_task_def)
  show ids: "map tk_id (save_row r' rows) = map tk_id rows"
    using assms(2) by (simp add: save_row_def change_task_def)
  have t: "touches i rows (save_row r' rows)" unfolding change by (rule touches_change) (simp add: assms(2))
  have here: "find_task i (save_row r' rows) = Some r'"
    unfolding change using assms(1,2) by (subst find_change) (auto simp: find_task_def find_Some_iff)
  assume run: "on_record rows run"
  show "on_record (save_row r' rows) run"
  proof (cases "tk_id (tr_row run) = i")
    case True
    with run assms(1,3,4) here show ?thesis by (auto simp: on_record_def)
  qed (use on_record_touched[OF run t] in simp)
qed

lemma new_keeps: "on_record rows run \<Longrightarrow> on_record (rows @ [r]) run"
proof -
  have "find_task i rows = Some x \<Longrightarrow> find_task i (rows @ [r]) = Some x" for i x
    by (induction rows) (auto simp: find_task_def)
  then show "on_record rows run \<Longrightarrow> on_record (rows @ [r]) run" by (auto simp: on_record_def)
qed

text \<open>A task for the examples, with two cases and a date that has passed.\<close>

definition sample_task :: task_row where
  "sample_task = \<lparr>tk_id = 1, tk_state = 0, tk_created_user = Some ''ANN'', tk_updated_user = Some ''ANN'', tk_updated_time = None,
     tk_created_time = Some 0, tk_code = ''t1'', tk_cases = [6, 7], tk_mode = Some ONLY_ONCE, tk_expr = one_date, tk_enabled = True,
     tk_schedulable = True, tk_dataset = True, tk_initial = [], tk_config = (\<lambda>_. None), tk_last_time = None, tk_last_state = None,
     tk_last_user = None\<rparr>"

abbreviation running_task :: "moment \<Rightarrow> task_row" where
  "running_task t \<equiv> sample_task\<lparr>tk_last_time := Some t, tk_last_state := Some RUNNING, tk_last_user := Some ''ANN''\<rparr>"

lemma sample_begin: "begin_run 1 trigger None t now [sample_task] = ([running_task t], Started \<lparr>tr_row = running_task t, tr_trigger = trigger\<rparr>)"
  by (simp add: begin_run_def find_task_def claim_execution_def may_claim_def sample_task_def worker_user_def truthy_text_def
      upper_user_def upper_ascii_char_def char_code_def Let_def)

lemma service_step_ok:
  assumes "service_step s s'" "service_ok s"
  shows "service_ok s'"
proof -
  from assms(2) have ids: "distinct (map tk_id (sv_tasks s))" and one: "distinct (map (\<lambda>run. tk_id (tr_row run)) (sv_runs s))"
    and live: "\<And>run. run \<in> set (sv_runs s) \<Longrightarrow> on_record (sv_tasks s) run" "\<And>run. run \<in> set (sv_runs s) \<Longrightarrow> sv_now s \<le> start_of run + run_limit"
    by (auto simp: service_ok_def)
  have free: "tk_id (tr_row run) \<noteq> i" if "run \<in> set (sv_runs s)" "find_task i (sv_tasks s) = Some r" "may_claim (sv_now s) r" for run i r
    using live_run_not_claimed[OF live(1,2)] that by blast
  from assms(1) show ?thesis
  proof cases
    case (Refuse before i trigger user "after" started rows result)
    note t = touches_begin[OF Refuse(4)]
    have "on_record rows run" if "run \<in> set (sv_runs s)" for run
      using begin_not_started[OF ids Refuse(4,5)] live(1)[OF that] free[OF that] on_record_touched[OF _ t] by blast
    then show ?thesis using Refuse touches_ids[OF t] ids one live by (simp add: service_ok_def)
  next
    case (Begin before i trigger user "after" started rows run)
    note t = touches_begin[OF Begin(5)]
    from begin_started[OF ids Begin(5)] obtain r where r: "find_task i (sv_tasks s) = Some r" "may_claim (sv_now s) r"
      "tk_id (tr_row run) = i" "tk_last_time (tr_row run) = Some started"
      "rows = change_task i (\<lambda>r. r\<lparr>tk_last_state := Some RUNNING, tk_last_time := Some started,
        tk_last_user := upper_user (tk_last_user (tr_row run))\<rparr>) (sv_tasks s)" by auto
    have others: "\<forall>other \<in> set (sv_runs s). on_record rows other \<and> tk_id (tr_row other) \<noteq> i"
      using live(1) free[OF _ r(1,2)] on_record_touched[OF _ t] by blast
    then have "i \<notin> (\<lambda>run. tk_id (tr_row run)) ` set (sv_runs s)" by blast
    moreover have "on_record rows run" using r by (simp add: on_record_def find_change)
    ultimately show ?thesis using Begin(1,4) others touches_ids[OF t] ids one live(2) r(3,4) by (simp add: service_ok_def start_of_def)
  next
    case (End before run "after" how rows result)
    note t = touches_end[OF End(3)]
    have "tk_id (tr_row other) \<noteq> tk_id (tr_row run)" if "other \<in> set (before @ after)" for other
      using that one unfolding End(2) by (auto simp: image_iff)
    then have "on_record rows other" if "other \<in> set (before @ after)" for other
      using that live(1)[of other] on_record_touched[OF _ t, of other] unfolding End(2) by auto
    then show ?thesis using End touches_ids[OF t] ids one live by (auto simp: service_ok_def)
  next
    case (Enable i can_write enabled user rows)
    from set_enabled_keeps[OF this(2)] Enable(1) ids one live show ?thesis
      by (simp add: service_ok_def)
  next
    case (Delete i can_delete user rows)
    from delete_keeps[OF this(2)] Delete(1) ids one live show ?thesis
      by (simp add: service_ok_def)
  next
    case (Edit i r r')
    from save_row_keeps[OF this(2-5)] Edit(1) ids one live show ?thesis
      by (simp add: service_ok_def)
  next
    case (New r)
    with new_keeps ids one live show ?thesis by (simp add: service_ok_def)
  qed (use assms(2) in \<open>auto simp: service_ok_def\<close>)
qed

lemma service_ok_reached: "service_step\<^sup>*\<^sup>* s s' \<Longrightarrow> service_ok s \<Longrightarrow> service_ok s'"
  by (induction rule: rtranclp_induct) (auto intro: service_step_ok)

text \<open>
  C12. A task has one run at a time. Start from any table of tasks with distinct numbers while no run is alive.
  Whatever scans, clicks, repeated messages, ends of runs, crashes and time do, and however users enable, disable,
  delete, create and edit tasks, an edit being saved at once and leaving the trace of the runs as it is: no two runs
  that are alive belong to one task, and the row of the task of each says that it is running since the start of
  this run. Left out are an edit that reads its row before a claim and saves it afterwards, and restoring a deleted
  task: both make a second run possible.
\<close>

theorem one_run_per_task:
  assumes "service_step\<^sup>*\<^sup>* s0 s" "sv_runs s0 = []" "distinct (map tk_id (sv_tasks s0))"
  shows "distinct (map (\<lambda>run. tk_id (tr_row run)) (sv_runs s)) \<and>
    (\<forall>run \<in> set (sv_runs s). \<exists>r. find_task (tk_id (tr_row run)) (sv_tasks s) = Some r \<and> tk_last_state r = Some RUNNING \<and>
      tk_last_time r = Some (start_of run))"
proof -
  have "service_ok s0" using assms(2,3) by (simp add: service_ok_def)
  with service_ok_reached[OF assms(1)] have "service_ok s" .
  then show ?thesis by (fastforce simp: service_ok_def on_record_def start_of_def)
qed

theorem one_run_per_task_witness:
  "\<exists>s. service_step\<^sup>*\<^sup>* \<lparr>sv_now = 7, sv_tasks = [sample_task], sv_queue = [], sv_runs = []\<rparr> s \<and> length (sv_runs s) = 1 \<and>
    distinct (map (\<lambda>run. tk_id (tr_row run)) (sv_runs s)) \<and>
    (\<forall>run \<in> set (sv_runs s). \<exists>r. find_task (tk_id (tr_row run)) (sv_tasks s) = Some r \<and> tk_last_state r = Some RUNNING \<and>
      tk_last_time r = Some (start_of run))"
proof -
  let ?s0 = "\<lparr>sv_now = 7, sv_tasks = [sample_task], sv_queue = [], sv_runs = []\<rparr>"
  let ?s1 = "\<lparr>sv_now = 7, sv_tasks = [sample_task], sv_queue = [(1, Asked, None)], sv_runs = []\<rparr>"
  let ?s2 = "\<lparr>sv_now = 7, sv_tasks = [running_task 5], sv_queue = [], sv_runs = [\<lparr>tr_row = running_task 5, tr_trigger = Asked\<rparr>]\<rparr>"
  have "service_step ?s0 ?s1"
    using Click[of ?s0 1 None] by (simp add: is_execution_running_def find_task_def sample_task_def)
  moreover have "service_step ?s1 ?s2"
    using Begin[of ?s1 "[]" 1 Asked None "[]" 5 "[running_task 5]"] sample_begin by (simp add: run_limit_def)
  ultimately have "service_step\<^sup>*\<^sup>* ?s0 ?s2" by simp
  from one_run_per_task[OF this] this show ?thesis by (intro exI[of _ ?s2]) simp
qed

section \<open>Lost runs\<close>

text \<open>
  C16. A run whose worker is gone blocks its task for the limit and the grace, and no longer: while no one has
  changed the row since the run started, every message for the task, its own delivered again too, is refused
  until 28860 seconds have passed, and is accepted afterwards.
\<close>

theorem lost_run_blocks_until_stale:
  assumes "distinct (map tk_id rows)" "begin_run i trigger user t now0 rows = (rows1, Started run)"
    "distinct (map tk_id rows2)" "find_task i rows2 = find_task i rows1"
  shows "(begin_run i trigger2 user2 started now rows2 = (rows2, TaskBusy)) = (now \<le> t + 28860 * 1000000) \<and>
    (now > t + 28860 * 1000000 \<longrightarrow> (\<exists>rows3 run2. begin_run i trigger2 user2 started now rows2 = (rows3, Started run2)))"
proof -
  from begin_started[OF assms(1,2)] obtain r where r: "find_task i rows = Some r" "tk_cases r \<noteq> []"
    "rows1 = change_task i (\<lambda>r. r\<lparr>tk_last_state := Some RUNNING, tk_last_time := Some t, tk_last_user := upper_user (tk_last_user (tr_row run))\<rparr>) rows"
    by auto
  then obtain r2 where r2: "find_task i rows2 = Some r2" "tk_last_state r2 = Some RUNNING" "tk_last_time r2 = Some t" "tk_cases r2 \<noteq> []"
    using assms(4) by (auto simp: find_change)
  then have "may_claim now r2 = (t + 28860 * 1000000 < now)" by (auto simp: may_claim_def stale_run_before_def)
  with r2 claim_iff[OF assms(3) r2(1)] show ?thesis by (auto simp: begin_run_def Let_def)
qed

theorem lost_run_blocks_until_stale_witness:
  "begin_run 1 Planned None 9 9 [running_task 5] = ([running_task 5], TaskBusy) \<and>
    (\<exists>rows3 run2. begin_run 1 Planned None 9 40000000000 [running_task 5] = (rows3, Started run2))"
proof -
  have d: "distinct (map tk_id [sample_task])" "distinct (map tk_id [running_task 5])" by simp_all
  note blocks = lost_run_blocks_until_stale[OF d(1) sample_begin[of Asked 5 5] d(2) refl]
  show ?thesis using blocks[of Planned None 9 9] blocks[of Planned None 9 40000000000] by simp
qed

text \<open>
  Restoring a deleted task can start a second run too: a task may be deleted while it runs, and creating one of the
  same name clears its state, so that the next message is accepted while the first run is alive.
\<close>

theorem restored_task_runs_twice:
  assumes "distinct (map tk_id rows)" "begin_run i trigger user t now rows = (rows1, Started run)"
    and "delete_task i can_delete user1 rows1 = Inr rows2" "restore_task i can_write request rows2 = Inr rows3"
    and "\<And>r. tk_cases (request r) \<noteq> []"
  shows "\<exists>rows4 run2. begin_run i trigger2 user2 t2 now2 rows3 = (rows4, Started run2) \<and> tk_id (tr_row run2) = tk_id (tr_row run)"
proof -
  have run: "tk_id (tr_row run) = i" using begin_started[OF assms(1,2)] by auto
  have ids: "map tk_id rows1 = map tk_id rows" by (rule touches_ids[OF touches_begin[OF assms(2)]])
  have "map tk_id rows2 = map tk_id rows" using delete_keeps[OF assms(3)] ids by simp
  with assms(1) have d2: "distinct (map tk_id rows2)" by simp
  from assms(4) obtain r where r: "find_task i rows2 = Some r"
    "rows3 = save_row ((request r)\<lparr>tk_id := tk_id r, tk_created_user := tk_created_user r, tk_state := 0,
       tk_last_time := None, tk_last_state := None, tk_last_user := None\<rparr>) rows2" (is "_ = save_row ?r3 _")
    by (auto simp: restore_task_def split: option.splits if_splits)
  then have i: "tk_id r = i" using find_task_iff[OF d2] by simp
  have change: "save_row ?r3 rows2 = change_task i (\<lambda>x. if tk_id x = i then ?r3 else x) rows2"
    using i by (simp add: save_row_def change_task_def)
  have f: "find_task i rows3 = Some ?r3"
    unfolding r(2) change using r(1) i by (subst find_change) auto
  have "distinct (map tk_id rows3)"
    unfolding r(2) using d2 by (simp add: save_row_def change_task_def comp_def if_distrib cong: if_cong map_cong)
  moreover have "may_claim now2 ?r3" by (simp add: may_claim_def)
  ultimately show ?thesis using f claim_iff[OF _ f] assms(5) run i by (auto simp: begin_run_def Let_def)
qed

text \<open>
  C17. Saving an edited task can start a second run. The row is read, changed and saved as a whole: when a
  worker claims the task between the two, the save takes the claim back, and the next message is accepted
  while the first run is alive.
\<close>

theorem edit_takes_claim_back:
  assumes "distinct (map tk_id rows)" "find_task i rows = Some r" "tk_last_state r \<noteq> Some RUNNING"
    "begin_run i trigger user t now rows = (rows1, Started run)"
    "tk_id (edit r) = i" "tk_last_state (edit r) = tk_last_state r" "tk_cases (edit r) \<noteq> []"
  shows "\<exists>rows2 run2. begin_run i trigger2 user2 t2 now2 (save_row (edit r) rows1) = (rows2, Started run2) \<and>
    tk_id (tr_row run2) = tk_id (tr_row run)"
proof -
  from begin_started[OF assms(1,4)] assms(2) have run: "tk_id (tr_row run) = i" by auto
  have d1: "distinct (map tk_id rows1)" using touches_ids[OF touches_begin[OF assms(4)]] assms(1) by simp
  have "find_task i rows1 \<noteq> None"
    using begin_started[OF assms(1,4)] assms(2) by (auto simp: find_change)
  moreover have "save_row (edit r) rows1 = change_task i (\<lambda>x. if tk_id x = i then edit r else x) rows1"
    using assms(5) by (simp add: save_row_def change_task_def)
  ultimately have f: "find_task i (save_row (edit r) rows1) = Some (edit r)"
    using assms(5) find_task_iff[OF d1] by (auto simp: find_change)
  have d2: "distinct (map tk_id (save_row (edit r) rows1))"
    using d1 assms(5) by (simp add: save_row_def change_task_def comp_def if_distrib cong: if_cong map_cong)
  have "may_claim now2 (edit r)" using assms(3,6) by (simp add: may_claim_def)
  with f assms(7) claim_iff[OF d2 f] assms(5) run show ?thesis by (auto simp: begin_run_def Let_def)
qed

theorem edit_takes_claim_back_witness:
  "\<exists>rows2 run2. begin_run 1 Planned None 9 9 (save_row (sample_task\<lparr>tk_dataset := False\<rparr>) [running_task 5]) = (rows2, Started run2) \<and>
    tk_id (tr_row run2) = tk_id (tr_row \<lparr>tr_row = running_task 5, tr_trigger = Asked\<rparr>)"
  by (rule edit_takes_claim_back[where edit = "\<lambda>r. r\<lparr>tk_dataset := False\<rparr>", OF _ _ _ sample_begin[of Asked 5 7]])
    (simp_all add: sample_task_def find_task_def)

section \<open>How a run ends\<close>

lemma find_state: "find_task i (save_state i st rows) = map_option (\<lambda>r. r\<lparr>tk_last_state := Some st\<rparr>) (find_task i rows)"
  unfolding save_state_def by (rule find_change) simp

lemma close_found:
  assumes "close_schedule run rows = Inr rows'" "find_task (tk_id (tr_row run)) rows = Some r"
  shows "find_task (tk_id (tr_row run)) rows' =
    Some (if tr_trigger run = Planned \<and> should_close_schedule (tr_row run) = Inr True then r\<lparr>tk_enabled := False\<rparr> else r)"
  using assms by (auto simp: close_schedule_def find_change split: if_splits sum.splits)

lemma end_found:
  assumes "end_run run how rows = (rows', e)" "find_task (tk_id (tr_row run)) rows = Some r"
  shows "find_task (tk_id (tr_row run)) rows' = Some (r\<lparr>
      tk_last_state := Some (case how of Counted n ok \<Rightarrow> if e = Finished then state_of_counts n ok else FAILURE | Interrupted \<Rightarrow> FAILURE),
      tk_enabled := (tk_enabled r \<and> \<not> (tr_trigger run = Planned \<and> should_close_schedule (tr_row run) = Inr True))\<rparr>)"
  using assms
  by (auto simp: end_run_def fail_run_def Let_def find_state split: batch_end.splits sum.splits if_splits dest!: close_found
      simp: close_schedule_def find_change)

text \<open>
  C14. The end of a run writes how it ended into the row of its task. When the run has read a schedule at its
  start, and it can be read, the run closes the schedule of the task exactly when it was planned, that schedule is a
  list of dates, and every one of those dates is reached by the start of the run. A schedule that was changed while
  the run went on is judged by the dates the run has read.
\<close>

theorem run_end_closes_used_schedule:
  assumes "end_run run how rows = (rows', e)" "find_task (tk_id (tr_row run)) rows = Some r"
    "tk_last_time (tr_row run) = Some t" "from_expr (tk_mode (tr_row run)) (tk_expr (tr_row run)) = Inr (Some s)"
  shows "\<exists>r'. find_task (tk_id (tr_row run)) rows' = Some r' \<and>
    tk_enabled r' = (tk_enabled r \<and> \<not> (tr_trigger run = Planned \<and> ts_once s \<and> (\<forall>u. fires s u \<longrightarrow> u \<le> t))) \<and>
    tk_last_state r' = Some (case how of Counted n ok \<Rightarrow> state_of_counts n ok | Interrupted \<Rightarrow> FAILURE)"
proof -
  have ok: "schedule_ok s" by (rule from_expr_ok[OF assms(4)])
  have "is_completed s t = (\<forall>u. fires s u \<longrightarrow> u \<le> t)" if "ts_once s"
  proof -
    have d: "ts_dates s \<noteq> []" "sorted (ts_dates s)" "\<And>u. fires s u = (u \<in> set (ts_dates s))"
      using ok that by (auto simp: schedule_ok_def fires_def)
    then have "\<forall>u \<in> set (ts_dates s). u \<le> last (ts_dates s)" by (cases "ts_dates s" rule: rev_cases) (auto simp: sorted_append)
    with d that show ?thesis by (auto simp: is_completed_def intro: order_trans)
  qed
  then have close: "should_close_schedule (tr_row run) = Inr (ts_once s \<and> (\<forall>u. fires s u \<longrightarrow> u \<le> t))"
    using assms(3,4) by (auto simp: should_close_schedule_def)
  then have e: "e = (case how of Counted n ok \<Rightarrow> Finished | Interrupted \<Rightarrow> Failed)"
    using assms(1) by (auto simp: end_run_def fail_run_def close_schedule_def Let_def split: batch_end.splits if_splits)
  show ?thesis using end_found[OF assms(1,2)] unfolding close e by (auto split: batch_end.splits)
qed

theorem run_end_closes_used_schedule_witness:
  "\<exists>rows' e r'. end_run \<lparr>tr_row = running_task (combine 719163 1), tr_trigger = Planned\<rparr> (Counted 2 1) [running_task (combine 719163 1)] = (rows', e) \<and>
    find_task 1 rows' = Some r' \<and>
    tk_enabled r' = (True \<and> \<not> (Planned = Planned \<and> ts_once one_date_schedule \<and> (\<forall>u. fires one_date_schedule u \<longrightarrow> u \<le> combine 719163 1))) \<and>
    tk_last_state r' = Some PARTIAL_SUCCESS"
proof -
  let ?run = "\<lparr>tr_row = running_task (combine 719163 1), tr_trigger = Planned\<rparr>" and ?rows = "[running_task (combine 719163 1)]"
  obtain rows' e where ended: "end_run ?run (Counted 2 1) ?rows = (rows', e)" by fastforce
  have f: "find_task (tk_id (tr_row ?run)) ?rows = Some (running_task (combine 719163 1))" by (simp add: find_task_def)
  have read: "from_expr (tk_mode (tr_row ?run)) (tk_expr (tr_row ?run)) = Inr (Some one_date_schedule)"
    using one_date_read by (simp add: sample_task_def)
  from run_end_closes_used_schedule[OF ended f _ read, of "combine 719163 1"] ended show ?thesis
    by (auto simp: state_of_counts_def sample_task_def)
qed

lemma count_passed: "(length xs = length (filter P xs)) = (\<forall>x \<in> set xs. P x)" "(length (filter P xs) \<ge> 1) = (\<exists>x \<in> set xs. P x)"
  by (metis filter_True length_filter_less less_irrefl) (simp add: Suc_le_eq filter_empty_conv)

text \<open>
  C13. The state of a task tells how its cases ended: after a run that nothing disturbed the task is successful
  when every case has passed, partly successful when some have, failed when none has, and failed when the
  schedule cannot be read afterwards; the run has one summary per case and the row shows its start.
\<close>

theorem task_state_tells_how_cases_ended:
  assumes "distinct (map tk_id rows)" "run_autotest_task pf code i trigger user started now rows w = Some (rows', w', Ran s e)"
  shows "\<exists>r r'. find_task i rows = Some r \<and> find_task i rows' = Some r' \<and> length (bs_results s) = length (tk_cases r) \<and>
    tk_last_time r' = Some started \<and>
    tk_last_state r' = Some (
      if e \<noteq> Finished then FAILURE
      else if \<forall>x \<in> set (bs_results s). cs_success x then SUCCESS
      else if \<exists>x \<in> set (bs_results s). cs_success x then PARTIAL_SUCCESS
      else FAILURE)"
proof -
  from assms(2) obtain rows1 run where b: "begin_run i trigger user started now rows = (rows1, Started run)"
    and batch: "serial_batch pf code (tr_row run) w = Some (w', s)"
    and last: "end_run run (Counted (bs_total s) (bs_success s)) rows1 = (rows', e)"
    by (auto simp: run_autotest_task_def split: prod.splits begin_result.splits option.splits)
  from begin_started[OF assms(1) b] obtain r where r: "find_task i rows = Some r" "tk_id (tr_row run) = i" "tk_cases r \<noteq> []"
    "tk_cases (tr_row run) = tk_cases r"
    "find_task i rows1 = Some (r\<lparr>tk_last_state := Some RUNNING, tk_last_time := Some started, tk_last_user := upper_user (tk_last_user (tr_row run))\<rparr>)"
    by (auto simp: find_change)
  from batch r(4) obtain rs where rs: "bs_results s = rs" "bs_total s = length (tk_cases r)" "bs_success s = length (filter cs_success rs)"
    "length rs = length (tk_cases r)"
    by (auto simp: serial_batch_def batch_execute_cases_def Let_def split: option.splits dest!: run_cases_adds_up dest: list_all2_lengthD)
  from end_found[OF last] r have f: "find_task i rows' = Some (r\<lparr>tk_last_time := Some started, tk_last_user := upper_user (tk_last_user (tr_row run)),
      tk_last_state := Some (if e = Finished then state_of_counts (length rs) (length (filter cs_success rs)) else FAILURE),
      tk_enabled := (tk_enabled r \<and> \<not> (tr_trigger run = Planned \<and> should_close_schedule (tr_row run) = Inr True))\<rparr>)"
    using rs by simp
  have "0 < length rs" using rs(4) r(3) by simp
  then have "state_of_counts (length rs) (length (filter cs_success rs)) =
      (if \<forall>x \<in> set rs. cs_success x then SUCCESS else if \<exists>x \<in> set rs. cs_success x then PARTIAL_SUCCESS else FAILURE)"
    using count_passed[where xs = rs and P = cs_success] by (simp add: state_of_counts_def)
  with r(1) f rs show ?thesis by simp
qed

theorem task_state_tells_how_cases_ended_witness:
  "\<exists>rows' w' s e r'. run_autotest_task (sample_platform True) None 1 Asked None 5 7 [sample_task] sample_world = Some (rows', w', Ran s e) \<and>
    find_task 1 rows' = Some r' \<and> length (bs_results s) = 2 \<and> tk_last_time r' = Some 5"
proof -
  have "\<exists>w' s. serial_batch (sample_platform True) None (running_task 5) sample_world = Some (w', s)"
    by (simp add: serial_batch_def batch_execute_cases_def execute_one_case_def case_runs_def execute_count_def get_case_def sample_world_def
        sample_store_def sample_case_def sample_task_def Let_def)
  then obtain w' s where w: "serial_batch (sample_platform True) None (running_task 5) sample_world = Some (w', s)" by blast
  obtain rows' e where e: "end_run \<lparr>tr_row = running_task 5, tr_trigger = Asked\<rparr> (Counted (bs_total s) (bs_success s)) [running_task 5] = (rows', e)"
    by fastforce
  with w have b: "run_autotest_task (sample_platform True) None 1 Asked None 5 7 [sample_task] sample_world = Some (rows', w', Ran s e)"
    by (simp add: run_autotest_task_def sample_begin)
  have "distinct (map tk_id [sample_task])" by simp
  from task_state_tells_how_cases_ended[OF this b] b show ?thesis by (auto simp: find_task_def sample_task_def split: if_splits)
qed

section \<open>The scan\<close>

text \<open>A task is wanted when its schedule can be read and fires since its last run, or its creation when it never ran.\<close>

definition wanted :: "moment \<Rightarrow> task_row \<Rightarrow> bool" where
  "wanted now r = (tk_state r = 0 \<and> tk_enabled r \<and> tk_schedulable r \<and>
     (\<exists>s u. from_expr (tk_mode r) (tk_expr r) = Inr (Some s) \<and> fires s u \<and> u \<le> now \<and>
       (\<forall>t. (if tk_last_time r = None then tk_created_time r else tk_last_time r) = Some t \<longrightarrow> t < u)))"

lemma row_due_iff:
  "row_due now r = Inr True \<longleftrightarrow> (\<exists>s u. from_expr (tk_mode r) (tk_expr r) = Inr (Some s) \<and> fires s u \<and> u \<le> now \<and>
     (\<forall>t. (if tk_last_time r = None then tk_created_time r else tk_last_time r) = Some t \<longrightarrow> t < u))"
proof (cases "from_expr (tk_mode r) (tk_expr r)")
  case (Inr os)
  have l: "last_run (map_option At (tk_last_time r)) (map_option At (tk_created_time r)) =
      (if tk_last_time r = None then tk_created_time r else tk_last_time r)"
    by (cases "tk_last_time r"; cases "tk_created_time r") (auto simp: last_run_def stamp_moment_def)
  show ?thesis
  proof (cases os)
    case None
    with Inr show ?thesis by (simp add: row_due_def is_task_due_def)
  next
    case (Some s)
    with Inr due_since[of "tk_mode r" "tk_expr r" s] show ?thesis by (simp add: row_due_def l)
  qed
qed (simp add: row_due_def is_task_due_def)

lemma expr_not_null: "from_expr mode v = Inr (Some s) \<Longrightarrow> v \<noteq> PNone"
  by (auto simp: from_expr_def)

lemma dispatch_due_filter: "dispatch_due (\<lambda>k. now) n rs = map tk_id (filter (\<lambda>r. row_due now r = Inr True) rs)"
  by (induction rs arbitrary: n) (auto split: sum.splits bool.splits)

text \<open>
  C15. A scan asks for exactly the tasks that are in use, enabled, and have a moment to fire since their last
  run: a task whose schedule cannot be read does not stop the scan, and no task is asked for twice by a scan.
\<close>

theorem scan_asks_for_wanted_tasks: "scan_and_dispatch (\<lambda>k. now) rows = map tk_id (filter (wanted now) rows)"
proof -
  have "(tk_state r = 0 \<and> tk_enabled r \<and> tk_schedulable r \<and> tk_expr r \<noteq> PNone) \<and> row_due now r = Inr True \<longleftrightarrow> wanted now r" for r
    unfolding row_due_iff wanted_def using expr_not_null by blast
  then show ?thesis unfolding scan_and_dispatch_def fetch_schedulable_tasks_def dispatch_due_filter filter_filter by simp
qed

end
