(* ===== verification/DataMatrix.thy ===== *)
theory DataMatrix
  imports AssertCompare
begin

text \<open>
  Data source tables: \<^verbatim>\<open>DataSourceMatrixParser\<close> of \<^verbatim>\<open>autotest_data_source_parser.py\<close>. A table holds the values
  of the scenarios of a step: in a vertical table a scenario is a column and a field a row, in a horizontal one it is
  the other way round. Section marks say to which part of a message the fields after them belong.

  Cells are JSON values. The functions of pandas and numpy that the code calls are written out for them.
\<close>

section \<open>Cells\<close>

datatype axis = Horizontal | Vertical

datatype mark = Head | Body | AssertHead | AssertBody

primrec section_text :: "mark \<Rightarrow> string" where
  "section_text Head = ''head''"
| "section_text Body = ''body''"
| "section_text AssertHead = ''assert_head''"
| "section_text AssertBody = ''assert_body''"

definition all_sections :: "mark list" where
  "all_sections = [Head, Body, AssertHead, AssertBody]"

definition marker_of :: "pyval \<Rightarrow> mark option" where
  "marker_of v = (case v of PStr s \<Rightarrow> find (\<lambda>k. py_lower (py_strip s) = section_text k) all_sections | _ \<Rightarrow> None)"

definition is_section_marker :: "pyval \<Rightarrow> bool" where
  "is_section_marker v = (marker_of v \<noteq> None)"

text \<open>
  \<^verbatim>\<open>bool(pd.isna(value))\<close>. A list gives an array: with one element its truth is that of the element, with
  none or several it raises \<^verbatim>\<open>ValueError\<close>, which is \<^verbatim>\<open>None\<close> here.
\<close>

fun na_test :: "pyval \<Rightarrow> bool option" where
  "na_test PNone = Some True"
| "na_test (PFloat f) = Some (f = FNaN)"
| "na_test (PList [x]) = na_test x"
| "na_test (PList xs) = None"
| "na_test v = Some False"

fun json_safe_value :: "pyval \<Rightarrow> pyval" where
  "json_safe_value v =
     (if na_test v = Some True then PNone
      else (case v of
        PFloat f \<Rightarrow> if f = FInf \<or> f = FNegInf then PNone else PFloat f
      | PList xs \<Rightarrow> PList (map json_safe_value xs)
      | PDict d \<Rightarrow> PDict (map (\<lambda>(k, x). (k, json_safe_value x)) d)
      | _ \<Rightarrow> v))"

declare json_safe_value.simps [simp del]

definition cell_is_blank :: "pyval \<Rightarrow> bool" where
  "cell_is_blank v = (na_test v = Some True \<or> v = PStr [])"

abbreviation quote_char :: char where
  "quote_char \<equiv> CHR 0x27"

definition trim_cell :: "pyval \<Rightarrow> pyval" where
  "trim_cell v = (case v of
     PStr s \<Rightarrow>
       if s = [] \<or> hd s = quote_char then v
       else if py_strip s = [] then PStr (quote_char # s)
       else PStr (py_strip s)
   | _ \<Rightarrow> v)"

definition cell_text_value :: "pyval \<Rightarrow> string" where
  "cell_text_value v = (case v of
     PNone \<Rightarrow> []
   | PBool b \<Rightarrow> if b then ''true'' else ''false''
   | PFloat f \<Rightarrow> (case f_to_int f of Some n \<Rightarrow> if f_is_integer f then int_str n else py_str v | None \<Rightarrow> py_str v)
   | _ \<Rightarrow> py_str v)"

text \<open>\<^verbatim>\<open>_dataset_field_value\<close>: \<^verbatim>\<open>None\<close> leaves the field out.\<close>

definition dataset_field_value :: "pyval \<Rightarrow> string option" where
  "dataset_field_value v = (let safe = json_safe_value v in
     if cell_is_blank safe then None
     else Some (case safe of PStr s \<Rightarrow> if hd s = quote_char then tl s else s | _ \<Rightarrow> cell_text_value safe))"

text \<open>\<^verbatim>\<open>parse_kv_string\<close>. Empty lines hold no colon, so runs of line ends need not be joined.\<close>

definition parse_kv_string :: "string \<Rightarrow> (string \<times> string) list" where
  "parse_kv_string text =
     (let t = py_strip (py_replace text ''_x000D_'' []);
          parts = py_split (CHR 0x0A) (map (\<lambda>c. if c = CHR 0x0D then CHR 0x0A else c) t)
      in fold (\<lambda>l d. if CHR '':'' \<in> set l then AList.update (py_strip (py_before (CHR '':'') l)) (py_strip (py_after (CHR '':'') l)) d else d)
           parts [])"

section \<open>The shape of a table\<close>

type_synonym matrix = "pyval list list"

datatype matrix_error = NotATable | NoAxis | NoFirstCell | CellRaised py_exc

definition row_cells :: "pyval \<Rightarrow> pyval list" where
  "row_cells row = (case row of PList xs \<Rightarrow> xs | _ \<Rightarrow> [])"

definition pad_matrix :: "pyval list \<Rightarrow> matrix" where
  "pad_matrix rows =
     (let w = fold max (map (\<lambda>r. length (row_cells r)) rows) 0
      in map (\<lambda>r. map json_safe_value (row_cells r @ replicate (w - length (row_cells r)) PNone)) rows)"

definition detect_matrix_axis :: "matrix \<Rightarrow> axis option" where
  "detect_matrix_axis m =
     (if m = [] \<or> hd m = [] then None
      else if list_ex is_section_marker (hd m) then Some Horizontal
      else if list_ex (\<lambda>row. is_section_marker (hd row)) (tl m) then Some Vertical
      else None)"

definition axis_from_padded :: "matrix \<Rightarrow> axis option \<Rightarrow> matrix_error + axis" where
  "axis_from_padded m declared = (case detect_matrix_axis m of
     Some a \<Rightarrow> Inr a | None \<Rightarrow> (case declared of Some a \<Rightarrow> Inr a | None \<Rightarrow> Inl NoAxis))"

definition resolve_matrix_axis :: "pyval list \<Rightarrow> axis option \<Rightarrow> matrix_error + axis" where
  "resolve_matrix_axis rows declared =
     (if rows = [] then Inr (case declared of Some a \<Rightarrow> a | None \<Rightarrow> Vertical) else axis_from_padded (pad_matrix rows) declared)"

section \<open>Cleaning\<close>

definition take_columns :: "nat list \<Rightarrow> matrix \<Rightarrow> matrix" where
  "take_columns cs m = map (\<lambda>row. map (\<lambda>c. row ! c) cs) m"

definition drop_empty_scene_rows :: "matrix \<Rightarrow> matrix" where
  "drop_empty_scene_rows m = hd m # filter (\<lambda>row. \<not> list_all cell_is_blank (tl row)) (tl m)"

definition drop_empty_scene_cols :: "matrix \<Rightarrow> matrix" where
  "drop_empty_scene_cols m =
     take_columns (0 # filter (\<lambda>c. \<not> list_all (\<lambda>row. cell_is_blank (row ! c)) (tl m)) [1..<length (hd m)]) m"

definition clean_horizontal :: "matrix \<Rightarrow> matrix" where
  "clean_horizontal m = drop_empty_scene_rows
     (take_columns (filter (\<lambda>c. c = 0 \<or> is_section_marker (hd m ! c) \<or> \<not> list_all (\<lambda>row. cell_is_blank (row ! c)) m) [0..<length (hd m)]) m)"

definition clean_vertical :: "matrix \<Rightarrow> matrix" where
  "clean_vertical m = drop_empty_scene_cols
     (hd m # filter (\<lambda>row. row \<noteq> [] \<and> is_section_marker (hd row) \<or> \<not> list_all cell_is_blank row) (tl m))"

text \<open>A vertical table without columns has no first cell to keep.\<close>

definition clean_padded_matrix :: "matrix \<Rightarrow> axis \<Rightarrow> matrix_error + matrix" where
  "clean_padded_matrix m a =
     (if m = [] then Inr []
      else if a = Horizontal then Inr (clean_horizontal m)
      else if hd m = [] then Inl (NoFirstCell)
      else Inr (clean_vertical m))"

definition clear_section_marker_cells :: "matrix \<Rightarrow> matrix" where
  "clear_section_marker_cells m =
     (let cols = filter (\<lambda>c. is_section_marker (hd m ! c)) [1..<length (hd m)]
      in map (\<lambda>(i, row).
           let marked = (0 < i \<and> row \<noteq> [] \<and> is_section_marker (hd row))
           in map (\<lambda>(j, x). if 0 < j \<and> (marked \<or> j \<in> set cols \<and> 0 < i) then PStr [] else x) (enumerate 0 row))
         (enumerate 0 m))"

definition trim_matrix_strings :: "matrix \<Rightarrow> matrix" where
  "trim_matrix_strings m = map (map trim_cell) m"

section \<open>Reading the scenarios\<close>

text \<open>A scenario holds the values of the fields of each section.\<close>

type_synonym scene = "mark \<Rightarrow> (string \<times> string) list"

definition no_fields :: scene where
  "no_fields = (\<lambda>k. [])"

definition put_field :: "mark \<times> string \<times> pyval \<Rightarrow> scene \<times> bool \<Rightarrow> scene \<times> bool" where
  "put_field f st = (case f of (k, name, cell) \<Rightarrow> (case dataset_field_value cell of
     None \<Rightarrow> st
   | Some v \<Rightarrow> ((fst st)(k := AList.update name v (fst st k)), True)))"

definition scene_name_of :: "pyval \<Rightarrow> py_exc + string option" where
  "scene_name_of v = (case na_test v of
     None \<Rightarrow> Inl ValueError
   | Some na \<Rightarrow> Inr (if na \<or> py_strip (py_str v) = [] then None else Some (py_strip (py_str v))))"

text \<open>The scenarios of a table in order; a later one of the same name replaces the values of the former.\<close>

fun add_scenes :: "('a \<Rightarrow> py_exc + scene \<times> bool) \<Rightarrow> (pyval \<times> 'a) list \<Rightarrow> (string \<times> scene) list \<Rightarrow> py_exc + (string \<times> scene) list" where
  "add_scenes build [] acc = Inr acc"
| "add_scenes build ((n, x) # rest) acc = (case scene_name_of n of
     Inl e \<Rightarrow> Inl e
   | Inr None \<Rightarrow> add_scenes build rest acc
   | Inr (Some name) \<Rightarrow> (case build x of
       Inl e \<Rightarrow> Inl e
     | Inr (r, has) \<Rightarrow> add_scenes build rest (if has then AList.update name r acc else acc)))"

text \<open>The rows of fields below the section marks of the first column.\<close>

fun section_rows :: "mark option \<Rightarrow> nat \<Rightarrow> pyval list \<Rightarrow> (mark \<times> nat) list" where
  "section_rows k i [] = []"
| "section_rows k i (c # cs) = (case c of
     PStr s \<Rightarrow> (case marker_of c of
       Some k1 \<Rightarrow> section_rows (Some k1) (Suc i) cs
     | None \<Rightarrow> (case k of None \<Rightarrow> section_rows k (Suc i) cs | Some k1 \<Rightarrow> (k1, i) # section_rows k (Suc i) cs))
   | _ \<Rightarrow> section_rows k (Suc i) cs)"

definition marker_row :: "mark \<Rightarrow> pyval list \<Rightarrow> nat option" where
  "marker_row k col = map_option fst (find (\<lambda>(i, c). marker_of c = Some k) (rev (enumerate 0 col)))"

definition cell_text :: "pyval \<Rightarrow> string" where
  "cell_text v = (case v of PStr s \<Rightarrow> s | _ \<Rightarrow> [])"

text \<open>The texts in the rows of the marks of the first two sections.\<close>

definition add_marker_text :: "pyval list \<Rightarrow> pyval list \<Rightarrow> mark \<Rightarrow> py_exc + scene \<times> bool \<Rightarrow> py_exc + scene \<times> bool" where
  "add_marker_text first col k res = (case res of
     Inl e \<Rightarrow> Inl e
   | Inr st \<Rightarrow> (case marker_row k first of
       None \<Rightarrow> Inr st
     | Some r \<Rightarrow> (case na_test (col ! r) of
         None \<Rightarrow> Inl ValueError
       | Some na \<Rightarrow> (let d = (if na then [] else parse_kv_string (py_str (col ! r))) in
           Inr (if d = [] then st else ((fst st)(k := fold (\<lambda>p. AList.update (fst p) (snd p)) d (fst st k)), True))))))"

definition vertical_fields :: "pyval list \<Rightarrow> pyval list \<Rightarrow> (mark \<times> string \<times> pyval) list" where
  "vertical_fields first col =
     (let rows = section_rows None 0 first
      in concat (map (\<lambda>k. map (\<lambda>p. (k, py_strip (cell_text (first ! snd p)), col ! snd p))
           (filter (\<lambda>p. fst p = k \<and> cell_text (first ! snd p) \<noteq> []) rows)) all_sections))"

definition vertical_scene :: "pyval list \<Rightarrow> pyval list \<Rightarrow> py_exc + scene \<times> bool" where
  "vertical_scene first col =
     map_sum id (fold put_field (vertical_fields first col)) (fold (add_marker_text first col) [Head, Body] (Inr (no_fields, False)))"

definition parse_sheet_vertical :: "matrix \<Rightarrow> py_exc + (string \<times> scene) list" where
  "parse_sheet_vertical m =
     (if m = [] \<or> hd m = [] then Inr []
      else (let first = map hd (tl m)
        in add_scenes (\<lambda>j. vertical_scene first (map (\<lambda>row. row ! j) (tl m))) (zip (tl (hd m)) [1..<length (hd m)]) []))"

fun field_columns :: "mark option \<Rightarrow> nat \<Rightarrow> pyval list \<Rightarrow> (nat \<times> mark \<times> string) list" where
  "field_columns k j [] = []"
| "field_columns k j (c # cs) = (case c of
     PStr s \<Rightarrow>
       if py_strip s = [] then field_columns k (Suc j) cs
       else (case marker_of c of
         Some k1 \<Rightarrow> field_columns (Some k1) (Suc j) cs
       | None \<Rightarrow> (case k of None \<Rightarrow> field_columns k (Suc j) cs | Some k1 \<Rightarrow> (j, k1, py_strip s) # field_columns k (Suc j) cs))
   | _ \<Rightarrow> field_columns k (Suc j) cs)"

definition parse_sheet_horizontal :: "matrix \<Rightarrow> py_exc + (string \<times> scene) list" where
  "parse_sheet_horizontal m =
     (if m = [] \<or> hd m = [] then Inr []
      else (let columns = field_columns None 0 (tl (hd m))
        in add_scenes (\<lambda>row. Inr (fold put_field (map (\<lambda>(j, k, name). (k, name, tl row ! j)) columns) (no_fields, False)))
             (map (\<lambda>row. (hd row, row)) (tl m)) []))"

definition parse_sheet :: "matrix \<Rightarrow> axis \<Rightarrow> py_exc + (string \<times> scene) list" where
  "parse_sheet m a = (if a = Horizontal then parse_sheet_horizontal m else parse_sheet_vertical m)"

definition name_text :: "pyval \<Rightarrow> string" where
  "name_text v = (if v = PNone then [] else py_strip (py_str v))"

definition extract_scene_names_from_matrix :: "matrix \<Rightarrow> axis \<Rightarrow> string list" where
  "extract_scene_names_from_matrix m a =
     (if m = [] then []
      else filter (\<lambda>n. n \<noteq> []) (map name_text (if a = Horizontal then map hd (filter (\<lambda>row. row \<noteq> []) (tl m)) else tl (hd m))))"

section \<open>The table as a whole\<close>

record parsed_matrix =
  pm_scenes :: "(string \<times> scene) list"
  pm_names :: "string list"
  pm_matrix :: matrix
  pm_axis :: axis

fun order_scenes :: "(string \<times> scene) list \<Rightarrow> string list \<Rightarrow> (string \<times> scene) list \<Rightarrow> string list \<Rightarrow> (string \<times> scene) list \<times> string list" where
  "order_scenes parsed [] data names = (data, names)"
| "order_scenes parsed (n # ns) data names = (case map_of parsed n of
     None \<Rightarrow> order_scenes parsed ns data names
   | Some r \<Rightarrow> order_scenes parsed ns (AList.update n r data) (names @ [n]))"

definition parse_clean_matrix :: "matrix \<Rightarrow> axis \<Rightarrow> matrix_error + parsed_matrix" where
  "parse_clean_matrix m a =
     (if m = [] \<or> hd m = [] then Inr \<lparr>pm_scenes = [], pm_names = [], pm_matrix = [], pm_axis = a\<rparr>
      else (case parse_sheet m a of
        Inl e \<Rightarrow> Inl (CellRaised e)
      | Inr parsed \<Rightarrow>
          (let st = order_scenes parsed (extract_scene_names_from_matrix m a) [] [];
               rest = filter (\<lambda>p. fst p \<notin> fst ` set (fst st)) parsed
           in Inr \<lparr>pm_scenes = fst st @ rest, pm_names = snd st @ map fst rest, pm_matrix = m, pm_axis = a\<rparr>)))"

definition parse_dataframe_matrix :: "pyval \<Rightarrow> axis option \<Rightarrow> matrix_error + parsed_matrix" where
  "parse_dataframe_matrix v declared = (case v of
     PList rows \<Rightarrow>
       if rows = [] then Inr \<lparr>pm_scenes = [], pm_names = [], pm_matrix = [], pm_axis = (case declared of Some a \<Rightarrow> a | None \<Rightarrow> Vertical)\<rparr>
       else (case axis_from_padded (pad_matrix rows) declared of
         Inl e \<Rightarrow> Inl e
       | Inr a \<Rightarrow> (case clean_padded_matrix (pad_matrix rows) a of
           Inl e \<Rightarrow> Inl e
         | Inr m \<Rightarrow> parse_clean_matrix (trim_matrix_strings (clear_section_marker_cells m)) a))
   | _ \<Rightarrow> Inl NotATable)"

text \<open>The record of a scenario as it is stored, and the refusal of a table without values.\<close>

definition scene_json :: "scene \<Rightarrow> pyval" where
  "scene_json r = PDict (map (\<lambda>k. (section_text k, PDict (map (\<lambda>(n, v). (n, PStr v)) (r k)))) all_sections)"

datatype payload_error = NoScenes | BadTable matrix_error

definition apply_dataframe_payload :: "pyval option \<Rightarrow> axis option \<Rightarrow> payload_error + parsed_matrix option" where
  "apply_dataframe_payload frame declared = (case frame of
     None \<Rightarrow> Inr None
   | Some v \<Rightarrow> (case parse_dataframe_matrix v declared of
       Inl e \<Rightarrow> Inl (BadTable e)
     | Inr p \<Rightarrow> if pm_scenes p = [] \<or> pm_names p = [] then Inl NoScenes else Inr (Some p)))"

end
