(* ===== verification/DataFields.thy ===== *)
theory DataFields
  imports DataMatrix
begin

text \<open>
  The fields of a data source follow the message of its step: \<^verbatim>\<open>autotest_data_source_service.py\<close>. The paths of the
  message are collected, and the table is built anew with the values of the fields that are still there.

  The names and marks that the code writes in Chinese are parameters.
\<close>

record source_labels =
  lb_normal :: string
  lb_defaults :: "string list"
  lb_null :: string
  lb_empty :: string
  lb_space :: string

section \<open>The paths of a message\<close>

definition item_field :: "pyval \<Rightarrow> string \<Rightarrow> pyval" where
  "item_field item name = (case item of PDict d \<Rightarrow> (case map_of d name of None \<Rightarrow> PNone | Some v \<Rightarrow> v) | _ \<Rightarrow> PNone)"

definition text_or_nothing :: "pyval \<Rightarrow> string" where
  "text_or_nothing v = (if py_truthy v then py_strip (py_str v) else [])"

definition add_original :: "bool \<Rightarrow> pyval \<Rightarrow> (string \<times> pyval) list \<Rightarrow> (string \<times> pyval) list" where
  "add_original skip_file item d =
     (let key = text_or_nothing (item_field item ''key'') in
      if skip_file \<and> py_lower (text_or_nothing (item_field item ''type'')) = ''file'' then d
      else if key = [] then d
      else AList.update (''$.'' @ key) (item_field item ''value'') d)"

definition kv_originals :: "bool \<Rightarrow> pyval list \<Rightarrow> (string \<times> pyval) list" where
  "kv_originals skip_file items = fold (add_original skip_file) items []"

text \<open>\<^verbatim>\<open>_flatten_json_leaf_values\<close>: an empty object or array is a leaf.\<close>

definition is_branch :: "pyval \<Rightarrow> bool" where
  "is_branch v = (case v of PDict d \<Rightarrow> d \<noteq> [] | PList xs \<Rightarrow> xs \<noteq> [] | _ \<Rightarrow> False)"

lemma size_of_entry: "(k, v) \<in> set d \<Longrightarrow> size v < size (PDict d)" "(i, v) \<in> set (enumerate n xs) \<Longrightarrow> size v < size (PList xs)"
proof -
  show "(k, v) \<in> set d \<Longrightarrow> size v < size (PDict d)" by (induction d) auto
  have "v \<in> set xs \<Longrightarrow> size v < size (PList xs)" by (induction xs) auto
  then show "(i, v) \<in> set (enumerate n xs) \<Longrightarrow> size v < size (PList xs)" by (auto simp: in_set_enumerate_eq)
qed

function leaf_values :: "string \<Rightarrow> pyval \<Rightarrow> (string \<times> pyval) list" where
  "leaf_values p (PDict d) =
     fold (\<lambda>(k, v) acc. if is_branch v then fold (\<lambda>q. AList.update (fst q) (snd q)) (leaf_values (p @ ''.'' @ k) v) acc
        else AList.update (p @ ''.'' @ k) v acc) d []"
| "leaf_values p (PList xs) =
     fold (\<lambda>(i, v) acc. if is_branch v then fold (\<lambda>q. AList.update (fst q) (snd q)) (leaf_values (p @ ''['' @ int_str (int i) @ '']'') v) acc
        else AList.update (p @ ''['' @ int_str (int i) @ '']'') v acc) (enumerate 0 xs) []"
| "leaf_values p PNone = []"
| "leaf_values p (PBool b) = []"
| "leaf_values p (PInt n) = []"
| "leaf_values p (PFloat f) = []"
| "leaf_values p (PStr s) = []"
  by pat_completeness auto
termination
  by (relation "measure (size \<circ> snd)") (auto dest: size_of_entry simp del: pyval.size)

definition dataset_cell_placeholder :: "source_labels \<Rightarrow> pyval \<Rightarrow> string" where
  "dataset_cell_placeholder lb v = (case v of
     PNone \<Rightarrow> lb_null lb
   | PBool b \<Rightarrow> if b then ''true'' else ''false''
   | PStr s \<Rightarrow> if s = [] then lb_empty lb else if s = '' '' then lb_space lb else s
   | PFloat f \<Rightarrow> cell_text_value (PFloat f)
   | _ \<Rightarrow> py_str v)"

section \<open>New tables\<close>

definition blank_cells :: "source_labels \<Rightarrow> pyval list" where
  "blank_cells lb = map (\<lambda>n. PStr []) (lb_defaults lb)"

definition title_row :: "source_labels \<Rightarrow> pyval list" where
  "title_row lb = PStr [] # map PStr (lb_defaults lb)"

definition build_blank_vertical_matrix :: "source_labels \<Rightarrow> matrix" where
  "build_blank_vertical_matrix lb =
     title_row lb # concat (map (\<lambda>k. [PStr k # blank_cells lb, blank_cells lb]) [''HEAD'', ''BODY'', ''ASSERT_HEAD'', ''ASSERT_BODY''])"

definition build_vertical_matrix :: "source_labels \<Rightarrow> string list \<Rightarrow> string list \<Rightarrow> matrix" where
  "build_vertical_matrix lb head_paths body_paths =
     title_row lb # (PStr ''HEAD'' # blank_cells lb) # map (\<lambda>p. PStr p # blank_cells lb) head_paths @
       (PStr ''BODY'' # blank_cells lb) # map (\<lambda>p. PStr p # blank_cells lb) body_paths @
       [PStr ''ASSERT_HEAD'' # blank_cells lb, PStr ''ASSERT_BODY'' # blank_cells lb]"

section \<open>Tables that follow the message\<close>

type_synonym originals = "(mark \<times> string \<Rightarrow> string option)"

definition is_assert :: "mark option \<Rightarrow> bool" where
  "is_assert k = (k = Some AssertHead \<or> k = Some AssertBody)"

definition is_message :: "mark option \<Rightarrow> bool" where
  "is_message k = (k = Some Head \<or> k = Some Body)"

definition original_cell :: "originals \<Rightarrow> mark \<times> string \<Rightarrow> pyval" where
  "original_cell orig f = (case orig f of None \<Rightarrow> PStr [] | Some s \<Rightarrow> PStr s)"

text \<open>The rows of a vertical table: the values of each field of the message, and the rows of the assertions.\<close>

fun scan_rows :: "nat \<Rightarrow> mark option \<Rightarrow> matrix \<Rightarrow> ((mark \<times> string) \<times> pyval list) list \<Rightarrow> matrix \<Rightarrow>
    ((mark \<times> string) \<times> pyval list) list \<times> matrix" where
  "scan_rows n k [] old asserts = (old, asserts)"
| "scan_rows n k (row # rows) old asserts =
     (if row = [] then scan_rows n k rows old asserts
      else (let cell = name_text (hd row) in
        case marker_of (PStr cell) of
          Some k1 \<Rightarrow> scan_rows n (Some k1) rows old (if is_assert (Some k1) then asserts @ [take n row] else asserts)
        | None \<Rightarrow>
            if is_message k \<and> cell \<noteq> [] then scan_rows n k rows (AList.update (the k, cell) (tl (take n row)) old) asserts
            else if is_assert k then scan_rows n k rows old (asserts @ [take n row])
            else scan_rows n k rows old asserts))"

fun position_of :: "string \<Rightarrow> string list \<Rightarrow> nat option" where
  "position_of x [] = None"
| "position_of x (y # ys) = (if x = y then Some 0 else map_option Suc (position_of x ys))"

definition rebuild_scene_values :: "pyval list option \<Rightarrow> nat \<Rightarrow> nat option \<Rightarrow> originals \<Rightarrow> mark \<times> string \<Rightarrow> pyval list" where
  "rebuild_scene_values old n normal orig f = (case old of
     Some vs \<Rightarrow> vs
   | None \<Rightarrow> (let empty = replicate n (PStr []) in case normal of None \<Rightarrow> empty | Some i \<Rightarrow> empty[i := original_cell orig f]))"

definition rebuild_vertical_matrix :: "source_labels \<Rightarrow> matrix \<Rightarrow> string list \<Rightarrow> string list \<Rightarrow> originals \<Rightarrow> matrix" where
  "rebuild_vertical_matrix lb m head_paths body_paths orig =
     (let names = extract_scene_names_from_matrix m Vertical; n = length names; empty = replicate n (PStr []);
          normal = position_of (lb_normal lb) names; st = scan_rows (Suc n) None (tl m) [] [];
          field_row = (\<lambda>k p. PStr p # rebuild_scene_values (map_of (fst st) (k, p)) n normal orig (k, p))
      in (if m = [] then [PStr []] else take (Suc n) (hd m)) #
         (PStr ''HEAD'' # empty) # map (field_row Head) head_paths @
         (PStr ''BODY'' # empty) # map (field_row Body) body_paths @ snd st)"

text \<open>The columns of a horizontal table.\<close>

fun scan_columns :: "mark option \<Rightarrow> nat \<Rightarrow> pyval list \<Rightarrow> ((mark \<times> string) \<times> nat) list \<Rightarrow> nat list \<Rightarrow> ((mark \<times> string) \<times> nat) list \<times> nat list" where
  "scan_columns k j [] old asserts = (old, asserts)"
| "scan_columns k j (c # cs) old asserts =
     (let cell = name_text c in
      case marker_of (PStr cell) of
        Some k1 \<Rightarrow> scan_columns (Some k1) (Suc j) cs old (if is_assert (Some k1) then asserts @ [j] else asserts)
      | None \<Rightarrow>
          if is_message k \<and> cell \<noteq> [] then scan_columns k (Suc j) cs (AList.update (the k, cell) j old) asserts
          else if is_assert k then scan_columns k (Suc j) cs old (asserts @ [j])
          else scan_columns k (Suc j) cs old asserts)"

datatype column_source = OldColumn nat | MarkColumn | NewField "mark \<times> string"

definition field_source :: "((mark \<times> string) \<times> nat) list \<Rightarrow> mark \<Rightarrow> string \<Rightarrow> column_source" where
  "field_source old k p = (case map_of old (k, p) of Some j \<Rightarrow> OldColumn j | None \<Rightarrow> NewField (k, p))"

definition source_cell :: "originals \<Rightarrow> bool \<Rightarrow> pyval list \<Rightarrow> column_source \<Rightarrow> pyval" where
  "source_cell orig normal row src = (case src of
     MarkColumn \<Rightarrow> PStr []
   | OldColumn j \<Rightarrow> if j < length row then row ! j else PStr []
   | NewField f \<Rightarrow> if normal then original_cell orig f else PStr [])"

definition rebuild_horizontal_matrix :: "source_labels \<Rightarrow> matrix \<Rightarrow> string list \<Rightarrow> string list \<Rightarrow> originals \<Rightarrow> matrix" where
  "rebuild_horizontal_matrix lb m head_paths body_paths orig =
     (let header = (if m = [] then [] else hd m); st = scan_columns None 1 (tl header) [] [];
          normal = position_of (lb_normal lb) (map (\<lambda>row. if row = [] then [] else name_text (hd row)) (tl m));
          sources = OldColumn 0 # MarkColumn # map (field_source (fst st) Head) head_paths @
            MarkColumn # map (field_source (fst st) Body) body_paths @ map OldColumn (snd st)
      in ((if header = [] then PStr [] else hd header) # PStr ''HEAD'' # map PStr head_paths @ PStr ''BODY'' # map PStr body_paths @
            map (\<lambda>j. header ! j) (snd st)) #
         map (\<lambda>(i, row). map (source_cell orig (normal = Some i) row) sources) (enumerate 0 (tl m)))"

definition sync_data_source_fields ::
    "source_labels \<Rightarrow> pyval list \<Rightarrow> axis option \<Rightarrow> string list \<Rightarrow> string list \<Rightarrow> originals \<Rightarrow> matrix_error + parsed_matrix" where
  "sync_data_source_fields lb rows declared head_paths body_paths orig = (case resolve_matrix_axis rows declared of
     Inl e \<Rightarrow> Inl e
   | Inr a \<Rightarrow> (let m = map row_cells rows;
         new = (if a = Vertical then rebuild_vertical_matrix lb m head_paths body_paths orig
           else rebuild_horizontal_matrix lb m head_paths body_paths orig)
       in parse_dataframe_matrix (PList (map PList new)) (Some a)))"

section \<open>The names of scenarios\<close>

definition duplicates_of :: "string list \<Rightarrow> string list" where
  "duplicates_of names = filter (\<lambda>n. 1 < count_list names n) (rev (remdups (rev names)))"

end
