(* ===== verification/DataMatrixRules.thy ===== *)
theory DataMatrixRules
  imports DataMatrix
begin

text \<open>
  What the reading of data source tables promises: a table and its transpose give the same scenarios. A table is
  seen as a grid, a list of rows and a list of columns with a function that gives the cells: selecting
  rows and columns selects from the lists, and the transpose exchanges them.
\<close>

section \<open>Grids\<close>

definition grid :: "'r list \<Rightarrow> 'c list \<Rightarrow> ('r \<Rightarrow> 'c \<Rightarrow> pyval) \<Rightarrow> matrix" where
  "grid rs cs f = map (\<lambda>r. map (f r) cs) rs"

definition flip :: "matrix \<Rightarrow> matrix" where
  "flip m = map (\<lambda>c. map (\<lambda>row. row ! c) m) [0..<length (hd m)]"

definition rectangle :: "matrix \<Rightarrow> bool" where
  "rectangle m = (m \<noteq> [] \<and> hd m \<noteq> [] \<and> (\<forall>row \<in> set m. length row = length (hd m)))"

lemma grid_basics [simp]:
  "length (grid rs cs f) = length rs" "grid rs cs f = [] \<longleftrightarrow> rs = []" "rs \<noteq> [] \<Longrightarrow> hd (grid rs cs f) = map (f (hd rs)) cs"
  "tl (grid rs cs f) = grid (tl rs) cs f" "cs \<noteq> [] \<Longrightarrow> map hd (grid rs cs f) = map (\<lambda>r. f r (hd cs)) rs"
  "map (map g) (grid rs cs f) = grid rs cs (\<lambda>r c. g (f r c))"
  by (simp_all add: grid_def hd_map map_tl comp_def)

lemma map_nth_list: "map (\<lambda>i. g (xs ! i)) [0..<length xs] = map g xs"
proof -
  have "map g (map ((!) xs) [0..<length xs]) = map g xs" by (simp only: map_nth)
  then show ?thesis by (simp only: map_map comp_def)
qed

lemma flip_grid:
  assumes "rs \<noteq> []"
  shows "flip (grid rs cs f) = grid cs rs (\<lambda>c r. f r c)"
proof -
  have "flip (grid rs cs f) = map (\<lambda>i. map (\<lambda>r. f r (cs ! i)) rs) [0..<length cs]"
    using assms by (simp add: flip_def) (simp add: grid_def comp_def)
  also have "\<dots> = grid cs rs (\<lambda>c r. f r c)" unfolding grid_def by (rule map_nth_list)
  finally show ?thesis .
qed

lemma rectangle_grid:
  assumes "rectangle m"
  shows "m = grid [0..<length m] [0..<length (hd m)] (\<lambda>r c. m ! r ! c)"
proof (rule nth_equalityI)
  fix r assume r: "r < length m"
  then have row: "length (m ! r) = length (hd m)" using assms nth_mem unfolding rectangle_def by blast
  have "grid [0..<length m] [0..<length (hd m)] (\<lambda>r c. m ! r ! c) ! r = map ((!) (m ! r)) [0..<length (hd m)]"
    using r by (simp add: grid_def)
  also have "\<dots> = m ! r" unfolding row[symmetric] by (rule map_nth)
  finally show "m ! r = grid [0..<length m] [0..<length (hd m)] (\<lambda>r c. m ! r ! c) ! r" by simp
qed simp

lemma filter_grid: "filter P (grid rs cs f) = grid (filter (\<lambda>r. P (map (f r) cs)) rs) cs f"
  by (simp add: grid_def filter_map comp_def)

lemma take_grid:
  assumes "\<forall>i \<in> set is. i < length cs"
  shows "take_columns is (grid rs cs f) = grid rs (map ((!) cs) is) f"
  using assms by (simp add: take_columns_def grid_def)

section \<open>Cleaning\<close>

definition wanted_rows :: "nat \<Rightarrow> nat \<Rightarrow> (nat \<Rightarrow> nat \<Rightarrow> pyval) \<Rightarrow> nat list" where
  "wanted_rows h w f = 0 # filter (\<lambda>r. is_section_marker (f r 0) \<or> (\<exists>c < w. \<not> cell_is_blank (f r c))) [1..<h]"

definition wanted_cols :: "nat \<Rightarrow> nat list \<Rightarrow> (nat \<Rightarrow> nat \<Rightarrow> pyval) \<Rightarrow> nat list" where
  "wanted_cols w rs f = 0 # filter (\<lambda>c. \<exists>r \<in> set (tl rs). \<not> cell_is_blank (f r c)) [1..<w]"

lemma upt_0: "0 < n \<Longrightarrow> [0..<n] = 0 # [1..<n]"
  by (simp add: upt_conv_Cons)

lemma clean_vertical_grid:
  assumes "0 < h" "0 < w"
  shows "clean_vertical (grid [0..<h] [0..<w] f) = grid (wanted_rows h w f) (wanted_cols w (wanted_rows h w f) f) f"
proof -
  let ?rs = "wanted_rows h w f" and ?m = "grid [0..<h] [0..<w] f"
  have "filter (\<lambda>row. row \<noteq> [] \<and> is_section_marker (hd row) \<or> \<not> list_all cell_is_blank row) (tl ?m) = grid (tl ?rs) [0..<w] f"
    using assms by (auto simp: filter_grid wanted_rows_def hd_map list_all_iff upt_0[of h] intro!: arg_cong[of _ _ "\<lambda>x. grid x _ _"] filter_cong)
  then have rows: "hd ?m # filter (\<lambda>row. row \<noteq> [] \<and> is_section_marker (hd row) \<or> \<not> list_all cell_is_blank row) (tl ?m) = grid ?rs [0..<w] f"
    using assms by (simp add: grid_def wanted_rows_def hd_map)
  have "filter (\<lambda>c. \<not> list_all (\<lambda>row. cell_is_blank (row ! c)) (grid (tl ?rs) [0..<w] f)) [1..<w] =
      filter (\<lambda>c. \<exists>r \<in> set (tl ?rs). \<not> cell_is_blank (f r c)) [1..<w]"
    by (rule filter_cong) (auto simp: grid_def list_all_iff)
  moreover have "map ((!) [0..<w]) (0 # filter P [1..<w]) = 0 # filter P [1..<w]" for P
    using assms by (auto intro!: map_idI)
  ultimately show ?thesis
    using assms unfolding clean_vertical_def rows drop_empty_scene_cols_def
    by (subst take_grid) (auto simp: wanted_cols_def wanted_rows_def)
qed

lemma clean_horizontal_grid:
  assumes "0 < h" "0 < w"
  shows "clean_horizontal (grid [0..<w] [0..<h] (\<lambda>c r. f r c)) = flip (clean_vertical (grid [0..<h] [0..<w] f))"
proof -
  let ?rs = "wanted_rows h w f" and ?g = "\<lambda>c r. f r c"
  let ?m = "grid [0..<w] [0..<h] ?g"
  have "filter (\<lambda>c. c = 0 \<or> is_section_marker (hd ?m ! c) \<or> \<not> list_all (\<lambda>row. cell_is_blank (row ! c)) ?m) [0..<h] = ?rs"
    using assms by (auto simp: upt_0[of h] wanted_rows_def list_all_iff grid_def hd_map intro!: filter_cong)
  moreover have "map ((!) [0..<h]) ?rs = ?rs" using assms by (auto simp: wanted_rows_def intro!: map_idI)
  ultimately have cols: "take_columns (filter (\<lambda>c. c = 0 \<or> is_section_marker (hd ?m ! c) \<or> \<not> list_all (\<lambda>row. cell_is_blank (row ! c)) ?m) [0..<length (hd ?m)]) ?m
      = grid [0..<w] ?rs ?g"
    using assms by (simp add: take_grid wanted_rows_def)
  have "clean_horizontal ?m = grid (wanted_cols w ?rs f) ?rs ?g"
    using assms unfolding clean_horizontal_def cols drop_empty_scene_rows_def
    by (auto simp: filter_grid wanted_cols_def list_all_iff upt_0[of w] wanted_rows_def) (simp add: grid_def)
  then show ?thesis unfolding clean_vertical_grid[OF assms] by (subst flip_grid) (simp_all add: wanted_rows_def)
qed

section \<open>Clearing and trimming\<close>

definition cleared :: "(nat \<Rightarrow> nat \<Rightarrow> pyval) \<Rightarrow> nat \<Rightarrow> nat \<Rightarrow> pyval" where
  "cleared f r c = (if r \<noteq> 0 \<and> c \<noteq> 0 \<and> (is_section_marker (f r 0) \<or> is_section_marker (f 0 c)) then PStr [] else f r c)"

definition from_zero :: "nat list \<Rightarrow> bool" where
  "from_zero rs = (rs \<noteq> [] \<and> hd rs = 0 \<and> 0 \<notin> set (tl rs))"

lemma nonzero_nth: "(0 :: nat) \<notin> set xs \<Longrightarrow> i < length xs \<Longrightarrow> xs ! i \<noteq> 0"
  by (metis nth_mem)

lemma from_zero_nth: "from_zero rs \<Longrightarrow> i < length rs \<Longrightarrow> (rs ! i = 0) = (i = 0)"
proof (cases i)
  case (Suc j)
  assume "from_zero rs" "i < length rs"
  then have "rs ! i = tl rs ! j" "j < length (tl rs)" "0 \<notin> set (tl rs)" using Suc by (auto simp: nth_tl from_zero_def)
  then show ?thesis using Suc nonzero_nth[of "tl rs" j] by simp
qed (auto simp: from_zero_def hd_conv_nth)

lemma clear_grid:
  assumes "from_zero rs" "from_zero cs"
  shows "clear_section_marker_cells (grid rs cs f) = grid rs cs (cleared f)"
proof -
  have ne: "rs \<noteq> []" "cs \<noteq> []" "hd rs = 0" "hd cs = 0" using assms by (auto simp: from_zero_def)
  have cols: "(j \<in> set (filter (\<lambda>c. is_section_marker (map (f 0) cs ! c)) [1..<length cs])) = (0 < j \<and> is_section_marker (f 0 (cs ! j)))"
    if "j < length cs" for j using that by auto
  have rows: "grid rs cs f ! i = map (f (rs ! i)) cs" if "i < length rs" for i using that by (simp add: grid_def)
  show ?thesis
  proof (rule nth_equalityI)
    fix i assume "i < length (clear_section_marker_cells (grid rs cs f))"
    then have i: "i < length rs" by (simp add: clear_section_marker_cells_def Let_def)
    have marked: "hd (map (f (rs ! i)) cs) = f (rs ! i) 0" using ne by (simp add: hd_map)
    show "clear_section_marker_cells (grid rs cs f) ! i = grid rs cs (cleared f) ! i"
    proof (rule nth_equalityI)
      fix j assume "j < length (clear_section_marker_cells (grid rs cs f) ! i)"
      then have j: "j < length cs" using i by (simp add: clear_section_marker_cells_def Let_def nth_enumerate_eq rows)
      show "clear_section_marker_cells (grid rs cs f) ! i ! j = grid rs cs (cleared f) ! i ! j"
        using i j ne cols[OF j] from_zero_nth[OF assms(1) i] from_zero_nth[OF assms(2) j] marked
        by (auto simp: clear_section_marker_cells_def Let_def nth_enumerate_eq rows grid_def[of rs cs "cleared f"] cleared_def)
    qed (use i in \<open>simp add: clear_section_marker_cells_def Let_def nth_enumerate_eq rows grid_def[of rs cs "cleared f"]\<close>)
  qed (simp add: clear_section_marker_cells_def Let_def)
qed

lemma strip_quote: "py_strip (quote_char # s) \<noteq> [] \<and> hd (py_strip (quote_char # s)) = quote_char"
proof -
  have q: "\<not> is_space quote_char" by (simp add: is_space_def char_code_def Let_def)
  have "dropWhile is_space (rev s @ [quote_char]) = dropWhile is_space (rev s) @ [quote_char]"
    using q by (induction "rev s" arbitrary: s rule: rev_induct) (auto simp: dropWhile_append)
  then show ?thesis using q by (simp add: py_strip_def)
qed

lemma lower_quote: "lower_char quote_char = quote_char"
  by code_simp

lemma marker_of_quoted: "s \<noteq> [] \<Longrightarrow> hd s = quote_char \<Longrightarrow> marker_of (PStr s) = None"
proof -
  assume "s \<noteq> []" "hd s = quote_char"
  then obtain t where "s = quote_char # t" by (cases s) auto
  then obtain u where "py_strip s = quote_char # u" using strip_quote[of t] by (cases "py_strip s") auto
  then show ?thesis by (simp add: marker_of_def all_sections_def py_lower_def lower_quote)
qed

lemma marker_of_blank: "py_strip s = [] \<Longrightarrow> marker_of (PStr s) = None"
  by (simp add: marker_of_def all_sections_def py_lower_def)

lemma marker_of_trim [simp]: "marker_of (trim_cell v) = marker_of v"
proof (cases v)
  case (PStr s)
  then show ?thesis using marker_of_quoted[of "quote_char # s"] marker_of_blank[of s]
    by (auto simp: trim_cell_def) (simp add: marker_of_def py_strip_idem)
qed (simp_all add: trim_cell_def)

lemma marker_of_safe [simp]: "marker_of (json_safe_value v) = marker_of v"
  by (subst json_safe_value.simps) (cases v; auto simp: marker_of_def split: list.splits)

text \<open>A trimmed text is empty or has something to show.\<close>

definition trimmed :: "pyval \<Rightarrow> bool" where
  "trimmed v = (case v of PStr s \<Rightarrow> s = [] \<or> py_strip s \<noteq> [] | _ \<Rightarrow> True)"

lemma trimmed_trim: "trimmed (trim_cell v)"
proof (cases v)
  case (PStr s)
  then show ?thesis using strip_quote[of s] strip_quote[of "tl s"]
    by (cases s) (auto simp: trim_cell_def trimmed_def py_strip_idem)
qed (simp_all add: trim_cell_def trimmed_def)

section \<open>One scenario\<close>

definition vals :: "mark \<Rightarrow> (mark \<times> string \<times> pyval) list \<Rightarrow> (string \<times> string) list" where
  "vals k ts = List.map_filter (\<lambda>(k1, n, c). if k1 = k then map_option (Pair n) (dataset_field_value c) else None) ts"

lemma vals_simps [simp]:
  "vals k [] = []"
  "vals k ((k1, n, c) # ts) = (case dataset_field_value c of Some v \<Rightarrow> if k1 = k then (n, v) # vals k ts else vals k ts | None \<Rightarrow> vals k ts)"
  "vals k (xs @ ys) = vals k xs @ vals k ys"
  by (auto simp: vals_def List.map_filter_def split: option.splits)

lemma put_field_pair:
  "put_field (k, n, c) (r, b) = (case dataset_field_value c of None \<Rightarrow> (r, b) | Some v \<Rightarrow> (r(k := AList.update n v (r k)), True))"
  by (simp add: put_field_def split: option.split)

lemma fold_put_field:
  "fold put_field ts (r, b) = (\<lambda>k. fold (\<lambda>p. AList.update (fst p) (snd p)) (vals k ts) (r k),
     b \<or> (\<exists>t \<in> set ts. dataset_field_value (snd (snd t)) \<noteq> None))"
proof (induction ts arbitrary: r b)
  case (Cons t ts)
  obtain k n c where t: "t = (k, n, c)" by (cases t) auto
  show ?case unfolding t by (cases "dataset_field_value c") (auto simp: put_field_pair Cons.IH fun_eq_iff)
qed simp

lemma vals_filter: "vals k (filter (\<lambda>t. fst t = k1) ts) = (if k = k1 then vals k ts else [])"
  by (induction ts) (auto split: option.splits)

lemma fields_by_section: "fold put_field (concat (map (\<lambda>k. filter (\<lambda>t. fst t = k) ts) all_sections)) st = fold put_field ts st"
proof -
  have "vals k (concat (map (\<lambda>k. filter (\<lambda>t. fst t = k) ts) all_sections)) = vals k ts" for k
    by (cases k) (simp_all add: all_sections_def vals_filter)
  moreover have "set (concat (map (\<lambda>k. filter (\<lambda>t. fst t = k) ts) all_sections)) = set ts"
  proof -
    have "fst t \<in> set all_sections" for t :: "mark \<times> string \<times> pyval" by (cases "fst t") (simp_all add: all_sections_def)
    then show ?thesis by auto
  qed
  ultimately show ?thesis by (cases st) (simp add: fold_put_field)
qed

lemma section_rows_bound: "p \<in> set (section_rows k i cs) \<Longrightarrow> i \<le> snd p \<and> snd p < i + length cs"
  by (induction k i cs rule: section_rows.induct) (fastforce split: pyval.splits option.splits)+

lemma field_columns_rows:
  assumes "\<forall>c \<in> set cs. trimmed c"
  shows "field_columns k i cs = map (\<lambda>p. (snd p, fst p, py_strip (cell_text (cs ! (snd p - i)))))
    (filter (\<lambda>p. cell_text (cs ! (snd p - i)) \<noteq> []) (section_rows k i cs))"
  using assms
proof (induction cs arbitrary: k i)
  case (Cons c cs)
  have shift: "map (\<lambda>p. (snd p, fst p, py_strip (cell_text ((c # cs) ! (snd p - i))))) (filter (\<lambda>p. cell_text ((c # cs) ! (snd p - i)) \<noteq> []) (section_rows k1 (Suc i) cs)) =
      field_columns k1 (Suc i) cs" for k1
  proof -
    have "(c # cs) ! (snd p - i) = cs ! (snd p - Suc i)" if "p \<in> set (section_rows k1 (Suc i) cs)" for p
      using section_rows_bound[OF that] by (simp add: Suc_diff_Suc[symmetric])
    then show ?thesis using Cons by (auto intro!: map_cong filter_cong)
  qed
  show ?case
  proof (cases c)
    case (PStr s)
    then have "py_strip s = [] \<longleftrightarrow> s = []" using Cons.prems py_strip_Nil by (auto simp: trimmed_def)
    then show ?thesis using shift PStr marker_of_blank[of s] py_strip_Nil
      by (auto simp: cell_text_def split: option.splits)
  qed (use shift[of k] in simp_all)
qed simp

lemma find_sound: "find P xs = Some x \<Longrightarrow> x \<in> set xs \<and> P x"
  by (induction xs) (auto split: if_splits)

lemma marker_row_sound: "marker_row k cs = Some r \<Longrightarrow> r < length cs \<and> marker_of (cs ! r) = Some k"
  by (auto simp: marker_row_def in_set_enumerate_eq dest!: find_sound)

lemma no_text_in_blank: "parse_kv_string (py_str (PStr [])) = []"
  by code_simp

lemma scene_either_way:
  assumes "\<forall>c \<in> set column. trimmed c"
    "\<forall>i < length column. is_section_marker (column ! i) \<longrightarrow> cells ! i = PStr []"
  shows "vertical_scene column cells =
    Inr (fold put_field (map (\<lambda>(j, k, name). (k, name, cells ! j)) (field_columns None 0 column)) (no_fields, False))"
proof -
  let ?rows = "section_rows None 0 column" and ?text = "\<lambda>p. cell_text (column ! snd p)"
  let ?H = "map (\<lambda>p. (fst p, py_strip (?text p), cells ! snd p)) (filter (\<lambda>p. ?text p \<noteq> []) ?rows)"
  have "add_marker_text column cells k (Inr st) = Inr st" for k st
  proof (cases "marker_row k column")
    case (Some r)
    with marker_row_sound[OF Some] assms(2) have "cells ! r = PStr []" by (auto simp: is_section_marker_def)
    with Some show ?thesis by (simp add: add_marker_text_def no_text_in_blank Let_def)
  qed (simp add: add_marker_text_def)
  moreover have "vertical_fields column cells = concat (map (\<lambda>k. filter (\<lambda>t. fst t = k) ?H) all_sections)"
    unfolding vertical_fields_def Let_def
    by (intro arg_cong[of _ _ concat] map_cong refl) (auto simp: filter_map comp_def conj_commute intro!: map_cong filter_cong)
  moreover have "map (\<lambda>(j, k, name). (k, name, cells ! j)) (field_columns None 0 column) = ?H"
    by (simp add: field_columns_rows[OF assms(1)] comp_def)
  ultimately show ?thesis by (simp add: vertical_scene_def fields_by_section)
qed

section \<open>A table and its transpose\<close>

lemma add_scenes_same:
  "list_all2 (\<lambda>p q. fst p = fst q \<and> build (snd p) = build2 (snd q)) ps qs \<Longrightarrow> add_scenes build ps acc = add_scenes build2 qs acc"
proof (induction ps qs arbitrary: acc rule: list_all2_induct)
  case (Cons p ps q qs)
  then show ?case by (cases p; cases q) (auto split: sum.splits option.splits prod.splits)
qed simp

text \<open>What is known of a table that has been cleaned, cleared and trimmed.\<close>

definition tidy :: "nat list \<Rightarrow> nat list \<Rightarrow> (nat \<Rightarrow> nat \<Rightarrow> pyval) \<Rightarrow> bool" where
  "tidy rs cs q = (from_zero rs \<and> from_zero cs \<and> (\<forall>r. trimmed (q r 0)) \<and>
     (\<forall>r c. r \<noteq> 0 \<longrightarrow> c \<noteq> 0 \<longrightarrow> is_section_marker (q r 0) \<longrightarrow> q r c = PStr []))"

lemma tidy_cleared: "from_zero rs \<Longrightarrow> from_zero cs \<Longrightarrow> tidy rs cs (\<lambda>r c. trim_cell (cleared f r c))"
  by (simp add: tidy_def trimmed_trim is_section_marker_def cleared_def) (simp add: trim_cell_def)

lemma sheets_agree:
  assumes "tidy rs cs q"
  shows "parse_sheet_horizontal (grid cs rs (\<lambda>c r. q r c)) = parse_sheet_vertical (grid rs cs q)"
proof -
  obtain rs1 cs1 where l: "rs = 0 # rs1" "cs = 0 # cs1" "0 \<notin> set rs1" "0 \<notin> set cs1"
    using assms by (cases rs; cases cs) (auto simp: tidy_def from_zero_def)
  let ?first = "map (\<lambda>r. q r 0) rs1"
  have scene: "vertical_scene ?first (map (\<lambda>r. q r c) rs1) =
      Inr (fold put_field (map (\<lambda>(j, k, name). (k, name, map (\<lambda>r. q r c) rs1 ! j)) (field_columns None 0 ?first)) (no_fields, False))"
    if "c \<in> set cs1" for c
  proof (rule scene_either_way)
    show "\<forall>i < length ?first. is_section_marker (?first ! i) \<longrightarrow> map (\<lambda>r. q r c) rs1 ! i = PStr []"
    proof (intro allI impI)
      fix i assume i: "i < length ?first" "is_section_marker (?first ! i)"
      then have "rs1 ! i \<noteq> 0" using nonzero_nth[OF l(3), of i] by simp
      moreover have "c \<noteq> 0" using that l(4) by metis
      ultimately show "map (\<lambda>r. q r c) rs1 ! i = PStr []" using i assms by (simp add: tidy_def)
    qed
  qed (use assms in \<open>auto simp: tidy_def\<close>)
  have "map hd (tl (grid rs cs q)) = ?first" "map hd (tl (grid cs rs (\<lambda>c r. q r c))) = map (q 0) cs1"
    using l by simp_all
  have v: "parse_sheet_vertical (grid rs cs q) =
      add_scenes (\<lambda>j. vertical_scene ?first (map (\<lambda>row. row ! j) (grid rs1 cs q))) (zip (map (q 0) cs1) [1..<Suc (length cs1)]) []"
    using l by (simp add: parse_sheet_vertical_def Let_def del: upt_Suc)
  have h: "parse_sheet_horizontal (grid cs rs (\<lambda>c r. q r c)) =
      add_scenes (\<lambda>row. Inr (fold put_field (map (\<lambda>(j, k, name). (k, name, tl row ! j)) (field_columns None 0 ?first)) (no_fields, False)))
        (map (\<lambda>c. (q 0 c, map (\<lambda>r. q r c) rs)) cs1) []"
    using l by (simp add: parse_sheet_horizontal_def Let_def) (simp add: grid_def comp_def)
  show ?thesis unfolding v h
  proof (rule add_scenes_same, rule list_all2_all_nthI)
    fix j assume "j < length (map (\<lambda>c. (q 0 c, map (\<lambda>r. q r c) rs)) cs1)"
    then have j: "j < length cs1" by simp
    have cell: "map (\<lambda>row. row ! Suc j) (grid rs1 cs q) = map (\<lambda>r. q r (cs1 ! j)) rs1" using j l by (simp add: grid_def)
    show "fst (map (\<lambda>c. (q 0 c, map (\<lambda>r. q r c) rs)) cs1 ! j) = fst (zip (map (q 0) cs1) [1..<Suc (length cs1)] ! j) \<and>
      Inr (fold put_field (map (\<lambda>(i, k, name). (k, name, tl (snd (map (\<lambda>c. (q 0 c, map (\<lambda>r. q r c) rs)) cs1 ! j)) ! i)) (field_columns None 0 ?first)) (no_fields, False)) =
      vertical_scene ?first (map (\<lambda>row. row ! snd (zip (map (q 0) cs1) [1..<Suc (length cs1)] ! j)) (grid rs1 cs q))"
      using j l scene[of "cs1 ! j"] cell by (simp del: upt_Suc)
  qed (simp del: upt_Suc)
qed

lemma clean_agrees:
  assumes "tidy rs cs q"
  shows "parse_clean_matrix (grid cs rs (\<lambda>c r. q r c)) Horizontal =
    map_sum id (\<lambda>p. p\<lparr>pm_matrix := flip (pm_matrix p), pm_axis := Horizontal\<rparr>) (parse_clean_matrix (grid rs cs q) Vertical)"
proof -
  have ne: "rs \<noteq> []" "cs \<noteq> []" using assms by (auto simp: tidy_def from_zero_def)
  have "filter (\<lambda>row. row \<noteq> []) (grid (tl cs) rs (\<lambda>c r. q r c)) = grid (tl cs) rs (\<lambda>c r. q r c)" using ne by (simp add: filter_grid)
  then have "extract_scene_names_from_matrix (grid cs rs (\<lambda>c r. q r c)) Horizontal = extract_scene_names_from_matrix (grid rs cs q) Vertical"
    using ne assms by (simp add: extract_scene_names_from_matrix_def map_tl tidy_def from_zero_def)
  then show ?thesis using ne sheets_agree[OF assms]
    by (auto simp: flip_grid[OF ne(1)] parse_clean_matrix_def parse_sheet_def Let_def map_sum_def split: sum.splits)
qed

lemma width_of_rows: "rs \<noteq> [] \<Longrightarrow> fold max (map (\<lambda>r. n) rs) 0 = (n :: nat)"
proof -
  have "fold max (map (\<lambda>r. n) rs) k = (if rs = [] then k else max n k)" for k
    by (induction rs arbitrary: k) auto
  then show "rs \<noteq> [] \<Longrightarrow> ?thesis" by simp
qed

lemma pad_grid: "rs \<noteq> [] \<Longrightarrow> pad_matrix (map PList (grid rs cs f)) = grid rs cs (\<lambda>r c. json_safe_value (f r c))"
  by (simp add: pad_matrix_def Let_def grid_def row_cells_def comp_def width_of_rows)

lemma wanted_from_zero: "from_zero (wanted_rows h w f)" "from_zero (wanted_cols w rs f)"
  by (auto simp: from_zero_def wanted_rows_def wanted_cols_def)

lemma transposed_grid:
  assumes s: "0 < h" "0 < w" and top: "\<And>c. c < w \<Longrightarrow> \<not> is_section_marker (f 0 c)" and r: "r < h" "is_section_marker (f r 0)"
  shows "parse_dataframe_matrix (PList (map PList (grid [0..<w] [0..<h] (\<lambda>c r. f r c)))) a =
    map_sum id (\<lambda>p. p\<lparr>pm_matrix := flip (pm_matrix p), pm_axis := Horizontal\<rparr>)
      (parse_dataframe_matrix (PList (map PList (grid [0..<h] [0..<w] f))) b)"
proof -
  let ?p = "\<lambda>r c. json_safe_value (f r c)"
  let ?v = "grid [0..<h] [0..<w] ?p" and ?t = "grid [0..<w] [0..<h] (\<lambda>c r. ?p r c)"
  have mark: "is_section_marker (?p r c) = is_section_marker (f r c)" for r c by (simp add: is_section_marker_def)
  have "detect_matrix_axis ?v = Some Vertical"
  proof -
    have "r \<noteq> 0" using r top s by (metis (full_types))
    then show ?thesis using r top s
      by (auto simp: detect_matrix_axis_def list_ex_iff mark upt_0[of h]) (auto simp: grid_def hd_map mark intro!: bexI[of _ r])
  qed
  moreover have "detect_matrix_axis ?t = Some Horizontal"
    using r s by (auto simp: detect_matrix_axis_def list_ex_iff mark intro!: bexI[of _ r])
  moreover have "clean_padded_matrix ?v Vertical = Inr (clean_vertical ?v)" "clean_padded_matrix ?t Horizontal = Inr (flip (clean_vertical ?v))"
    using s clean_horizontal_grid[of h w ?p] by (simp_all add: clean_padded_matrix_def)
  moreover define rs cs where "rs = wanted_rows h w ?p" and "cs = wanted_cols w rs ?p"
  moreover have z: "from_zero rs" "from_zero cs" by (simp_all add: rs_def cs_def wanted_from_zero)
  moreover have "clean_vertical ?v = grid rs cs ?p" using s by (simp add: clean_vertical_grid rs_def cs_def)
  moreover have "flip (grid rs cs ?p) = grid cs rs (\<lambda>c r. ?p r c)" using z(1) by (intro flip_grid) (auto simp: from_zero_def)
  moreover have "trim_matrix_strings (clear_section_marker_cells (grid rs cs ?p)) = grid rs cs (\<lambda>r c. trim_cell (cleared ?p r c))"
    using z by (simp add: clear_grid trim_matrix_strings_def)
  moreover have "trim_matrix_strings (clear_section_marker_cells (grid cs rs (\<lambda>c r. ?p r c))) = grid cs rs (\<lambda>c r. trim_cell (cleared ?p r c))"
  proof -
    have "cleared (\<lambda>c r. ?p r c) = (\<lambda>c r. cleared ?p r c)" by (auto simp: cleared_def fun_eq_iff)
    then show ?thesis using z by (simp add: clear_grid trim_matrix_strings_def)
  qed
  moreover have "pad_matrix (map PList (grid [0..<h] [0..<w] f)) = ?v" "pad_matrix (map PList (grid [0..<w] [0..<h] (\<lambda>c r. f r c))) = ?t"
    using s by (simp_all add: pad_grid)
  ultimately show ?thesis using clean_agrees[OF tidy_cleared[OF z, of ?p]]
    using s by (simp add: parse_dataframe_matrix_def axis_from_padded_def)
qed

text \<open>
  C21. It does not matter which way round a table of scenarios is written. A vertical table, with section marks in its
  first column and none in its first row, and its transpose give the same scenarios with the same values in the
  same order, or the same error, and the cleaned tables are the transpose of each other.
\<close>

theorem orientation_does_not_matter:
  assumes "rectangle m" "\<not> list_ex is_section_marker (hd m)" "list_ex (\<lambda>row. is_section_marker (hd row)) m"
  shows "parse_dataframe_matrix (PList (map PList (flip m))) a =
    map_sum id (\<lambda>p. p\<lparr>pm_matrix := flip (pm_matrix p), pm_axis := Horizontal\<rparr>) (parse_dataframe_matrix (PList (map PList m)) b)"
proof -
  define h w f where "h = length m" and "w = length (hd m)" and "f = (\<lambda>r c. m ! r ! c)"
  have "m \<noteq> []" "hd m \<noteq> []" using assms(1) unfolding rectangle_def by blast+
  then have s: "0 < h" "0 < w" by (simp_all add: h_def w_def)
  have m: "m = grid [0..<h] [0..<w] f" unfolding h_def w_def f_def by (rule rectangle_grid[OF assms(1)])
  have top: "\<not> is_section_marker (f 0 c)" if "c < w" for c using assms(2) that s unfolding m by (auto simp: list_ex_iff)
  obtain r where "r < h" "is_section_marker (f r 0)" using assms(3) s unfolding m by (auto simp: list_ex_iff grid_def hd_map)
  from transposed_grid[where f = f, OF s top this] s show ?thesis unfolding m by (simp add: flip_grid)
qed

definition sample_table :: matrix where
  "sample_table = [[PNone, PStr ''ok'', PStr ''none''], [PStr ''Head'', PNone, PNone], [PStr ''$.a'', PInt 1, PStr ''  '']]"

theorem orientation_does_not_matter_witness:
  "parse_dataframe_matrix (PList (map PList (flip sample_table))) None =
    map_sum id (\<lambda>p. p\<lparr>pm_matrix := flip (pm_matrix p), pm_axis := Horizontal\<rparr>) (parse_dataframe_matrix (PList (map PList sample_table)) None)"
  by (rule orientation_does_not_matter; code_simp)

end
