(* ===== verification/DataFieldsRules.thy ===== *)
theory DataFieldsRules
  imports DataFields DataMatrixRules
begin

text \<open>
  What following the message promises: a table and its transpose are brought up to date alike when every scenario
  has a name, and what goes wrong when one has none.
\<close>

section \<open>Reading the fields of a table\<close>

definition map_values :: "('b \<Rightarrow> 'c) \<Rightarrow> ('a \<times> 'b) list \<Rightarrow> ('a \<times> 'c) list" where
  "map_values g d = map (\<lambda>(k, v). (k, g v)) d"

lemma update_map_values: "AList.update k (g v) (map_values g d) = map_values g (AList.update k v d)"
  by (induction d) (auto simp: map_values_def)

lemma map_of_map_values: "map_of (map_values g d) k = map_option g (map_of d k)"
  by (induction d) (auto simp: map_values_def)

lemma scan_agrees:
  assumes "0 < w"
  shows "scan_rows w k (map (\<lambda>r. map (f r) [0..<w]) [j..<h]) (map_values (\<lambda>r. map (f r) [1..<w]) old) (map (\<lambda>r. map (f r) [0..<w]) asserts) =
    (let st = scan_columns k j (map (\<lambda>r. f r 0) [j..<h]) old asserts
     in (map_values (\<lambda>r. map (f r) [1..<w]) (fst st), map (\<lambda>r. map (f r) [0..<w]) (snd st)))"
proof (induction "h - j" arbitrary: j k old asserts)
  case (Suc n)
  then have j: "[j..<h] = j # [Suc j..<h]" "n = h - Suc j" by (auto simp: upt_conv_Cons)
  have row: "map (f j) [0..<w] \<noteq> []" "hd (map (f j) [0..<w]) = f j 0" "take w (map (f j) [0..<w]) = map (f j) [0..<w]"
    "tl (map (f j) [0..<w]) = map (f j) [1..<w]"
    using assms by (simp_all add: hd_map map_tl[symmetric] tl_upt)
  show ?case unfolding j(1) list.map scan_rows.simps scan_columns.simps row
    using Suc(1)[OF j(2)] row(1) update_map_values[of _ "\<lambda>r. map (f r) [1..<w]" j old]
      Suc(1)[OF j(2), of _ old "asserts @ [j]"]
    by (auto simp: Let_def split: option.splits)
qed (simp add: Let_def)

lemma set_of_update: "set (AList.update k v d) \<subseteq> insert (k, v) (set d)"
  by (induction d) auto

lemma scan_bounds:
  assumes "\<forall>p \<in> set old. snd p < h" "\<forall>i \<in> set asserts. i < h" "j + length cs \<le> h"
  shows "(\<forall>p \<in> set (fst (scan_columns k j cs old asserts)). snd p < h) \<and> (\<forall>i \<in> set (snd (scan_columns k j cs old asserts)). i < h)"
  using assms
proof (induction cs arbitrary: k j old asserts)
  case (Cons c cs)
  have old: "\<forall>p \<in> set (AList.update (the k, name_text c) j old). snd p < h"
    using Cons(2,4) set_of_update[of "(the k, name_text c)" j old] by auto
  have more: "\<forall>i \<in> set (asserts @ [j]). i < h" and rest: "Suc j + length cs \<le> h" using Cons(3,4) by auto
  note IH = Cons(1)[OF _ _ rest]
  show ?case
    using IH[OF Cons(2,3)] IH[OF Cons(2) more] IH[OF old Cons(3)] by (simp add: Let_def split: option.split)
qed simp

section \<open>Both ways round\<close>

text \<open>The new table has a line for each source; what a cell of the line holds depends on the scenario.\<close>

definition line_cell :: "(nat \<Rightarrow> nat \<Rightarrow> pyval) \<Rightarrow> originals \<Rightarrow> nat option \<Rightarrow> pyval \<times> column_source \<Rightarrow> nat \<Rightarrow> pyval" where
  "line_cell f orig normal line c =
     (if c = 0 then fst line
      else (case snd line of
        MarkColumn \<Rightarrow> PStr []
      | OldColumn j \<Rightarrow> f j c
      | NewField p \<Rightarrow> if normal = Some (c - 1) then original_cell orig p else PStr []))"

definition new_lines :: "(nat \<Rightarrow> nat \<Rightarrow> pyval) \<Rightarrow> ((mark \<times> string) \<times> nat) list \<times> nat list \<Rightarrow> string list \<Rightarrow> string list \<Rightarrow> (pyval \<times> column_source) list" where
  "new_lines f st head_paths body_paths =
     (f 0 0, OldColumn 0) # (PStr ''HEAD'', MarkColumn) # map (\<lambda>p. (PStr p, field_source (fst st) Head p)) head_paths @
     (PStr ''BODY'', MarkColumn) # map (\<lambda>p. (PStr p, field_source (fst st) Body p)) body_paths @
     map (\<lambda>j. (f j 0, OldColumn j)) (snd st)"

lemma line_cells:
  "map (line_cell f orig n (t, MarkColumn)) [Suc 0..<w] = replicate (w - Suc 0) (PStr [])"
  "map (line_cell f orig n (t, OldColumn j)) [Suc 0..<w] = map (f j) [Suc 0..<w]"
  "map (line_cell f orig n (t, NewField p)) [Suc 0..<w] =
    (case n of None \<Rightarrow> replicate (w - Suc 0) (PStr []) | Some i \<Rightarrow> (replicate (w - Suc 0) (PStr []))[i := original_cell orig p])"
  by (auto intro!: nth_equalityI simp: line_cell_def nth_list_update split: option.split)

lemma line_head: "0 < w \<Longrightarrow> map (line_cell f orig n line) [0..<w] = fst line # map (line_cell f orig n line) [Suc 0..<w]"
  by (simp add: upt_conv_Cons line_cell_def)

lemma field_row_values:
  "rebuild_scene_values (map_of (map_values (\<lambda>r. map (f r) [Suc 0..<w]) old) (k, p)) (w - Suc 0) normal orig (k, p) =
    map (line_cell f orig normal (t, field_source old k p)) [Suc 0..<w]"
  by (cases "map_of old (k, p)") (auto simp: rebuild_scene_values_def map_of_map_values field_source_def line_cells Let_def)

lemma vertical_lines:
  assumes "0 < h" "0 < w" "\<And>c. c < w \<Longrightarrow> c \<noteq> 0 \<Longrightarrow> name_text (f 0 c) \<noteq> []"
  shows "rebuild_vertical_matrix lb (grid [0..<h] [0..<w] f) hp bp orig =
    grid (new_lines f (scan_columns None 1 (map (\<lambda>r. f r 0) [1..<h]) [] []) hp bp) [0..<w]
      (line_cell f orig (position_of (lb_normal lb) (map (\<lambda>c. name_text (f 0 c)) [1..<w])))"
proof -
  let ?m = "grid [0..<h] [0..<w] f" and ?st = "scan_columns None 1 (map (\<lambda>r. f r 0) [1..<h]) [] []"
  have names: "extract_scene_names_from_matrix ?m Vertical = map (\<lambda>c. name_text (f 0 c)) [1..<w]"
    using assms by (auto simp: extract_scene_names_from_matrix_def map_tl[symmetric] tl_upt comp_def filter_id_conv)
  have rows: "tl ?m = map (\<lambda>r. map (f r) [0..<w]) [1..<h]" by (simp add: grid_def map_tl[symmetric] tl_upt)
  have scan: "scan_rows w None (tl ?m) [] [] = (map_values (\<lambda>r. map (f r) [1..<w]) (fst ?st), map (\<lambda>r. map (f r) [0..<w]) (snd ?st))"
    using scan_agrees[OF assms(2), of None f 1 h "[]" "[]"] unfolding rows by (simp add: map_values_def Let_def)
  have old: "map (f j) [0..<w] = map (line_cell f orig n (f j 0, OldColumn j)) [0..<w]" for j n
    by (auto simp: line_cell_def)
  have top: "take w (hd ?m) = map (line_cell f orig n (f 0 0, OldColumn 0)) [0..<w]" for n
    using assms by (auto simp: line_cell_def)
  define n where "n = position_of (lb_normal lb) (map (\<lambda>c. name_text (f 0 c)) [Suc 0..<w])"
  have field: "PStr p # rebuild_scene_values (map_of (map_values (\<lambda>r. map (f r) [Suc 0..<w]) d) (k, p)) (w - Suc 0) n orig (k, p) =
      map (line_cell f orig n (PStr p, field_source d k p)) [0..<w]" for p k d
    using assms(2) by (simp add: line_head field_row_values)
  have mark: "PStr t # replicate (w - Suc 0) (PStr []) = map (line_cell f orig n (PStr t, MarkColumn)) [0..<w]" for t
    using assms(2) by (simp add: line_head line_cells)
  have "rebuild_vertical_matrix lb ?m hp bp orig =
      take w (hd ?m) # map (line_cell f orig n (PStr ''HEAD'', MarkColumn)) [0..<w] #
        map (\<lambda>p. map (line_cell f orig n (PStr p, field_source (fst ?st) Head p)) [0..<w]) hp @
        map (line_cell f orig n (PStr ''BODY'', MarkColumn)) [0..<w] #
        map (\<lambda>p. map (line_cell f orig n (PStr p, field_source (fst ?st) Body p)) [0..<w]) bp @ map (\<lambda>r. map (f r) [0..<w]) (snd ?st)"
    unfolding rebuild_vertical_matrix_def names Let_def using assms(1,2) scan by (simp add: field mark flip: n_def)
  also have "\<dots> = grid (new_lines f ?st hp bp) [0..<w] (line_cell f orig n)"
    unfolding top[of n] by (simp add: new_lines_def grid_def comp_def old[of _ n])
  finally show ?thesis by (simp add: n_def)
qed

lemma enumerate_from_one: "map g (enumerate 0 (map q [Suc 0..<w])) = map (\<lambda>c. g (c - Suc 0, q c)) [Suc 0..<w]"
  by (auto intro!: nth_equalityI simp: nth_enumerate_eq)

lemma horizontal_lines:
  assumes "0 < h" "0 < w"
  shows "rebuild_horizontal_matrix lb (grid [0..<w] [0..<h] (\<lambda>c r. f r c)) hp bp orig =
    grid [0..<w] (new_lines f (scan_columns None 1 (map (\<lambda>r. f r 0) [1..<h]) [] []) hp bp)
      (\<lambda>c line. line_cell f orig (position_of (lb_normal lb) (map (\<lambda>c. name_text (f 0 c)) [1..<w])) line c)"
proof -
  let ?m = "grid [0..<w] [0..<h] (\<lambda>c r. f r c)" and ?st = "scan_columns None 1 (map (\<lambda>r. f r 0) [1..<h]) [] []"
  let ?lines = "new_lines f ?st hp bp"
  define n where "n = position_of (lb_normal lb) (map (\<lambda>c. name_text (f 0 c)) [Suc 0..<w])"
  have hd: "hd ?m = map (\<lambda>r. f r 0) [0..<h]" and tl: "tl ?m = map (\<lambda>c. map (\<lambda>r. f r c) [0..<h]) [Suc 0..<w]"
    using assms by (simp_all add: grid_def hd_map map_tl[symmetric] tl_upt)
  have labels: "tl (hd ?m) = map (\<lambda>r. f r 0) [1..<h]" unfolding hd by (simp add: map_tl[symmetric] tl_upt)
  have b: "(\<forall>p \<in> set (fst ?st). snd p < h) \<and> (\<forall>i \<in> set (snd ?st). i < h)" using assms by (intro scan_bounds) auto
  then have asserts: "\<forall>i \<in> set (snd ?st). i < h" by blast
  have old: "i < h" if "field_source (fst ?st) k p = OldColumn i" for k p i
    using that b by (auto simp: field_source_def split: option.splits dest!: map_of_SomeD)
  have names: "map (\<lambda>row. if row = [] then [] else name_text (hd row)) (tl ?m) = map (\<lambda>c. name_text (f 0 c)) [Suc 0..<w]"
    using assms unfolding tl by (simp add: comp_def hd_map)
  let ?sources = "OldColumn 0 # MarkColumn # map (field_source (fst ?st) Head) hp @ MarkColumn # map (field_source (fst ?st) Body) bp @ map OldColumn (snd ?st)"
  have sources: "?sources = map snd ?lines" by (simp add: new_lines_def comp_def)
  have in_range: "i < h" if "line \<in> set ?lines" "snd line = OldColumn i" for line i
    using that asserts old assms(1) by (auto simp: new_lines_def)
  have cell: "source_cell orig (n = Some (c - Suc 0)) (map (\<lambda>r. f r c) [0..<h]) (snd line) = line_cell f orig n line c"
    if "line \<in> set ?lines" "c \<noteq> 0" for line c
    using that in_range by (auto simp: source_cell_def line_cell_def split: column_source.split)
  have row: "map (source_cell orig (n = Some (c - Suc 0)) (map (\<lambda>r. f r c) [0..<h])) ?sources = map (\<lambda>line. line_cell f orig n line c) ?lines"
    if "c \<noteq> 0" for c
    unfolding sources map_map by (rule map_cong[OF refl]) (simp add: cell that)
  have first: "hd (hd ?m) # PStr ''HEAD'' # map PStr hp @ PStr ''BODY'' # map PStr bp @ map (\<lambda>j. hd ?m ! j) (snd ?st) =
      map (\<lambda>line. line_cell f orig n line 0) ?lines"
    using assms asserts unfolding hd by (auto simp: new_lines_def line_cell_def hd_map)
  have "rebuild_horizontal_matrix lb ?m hp bp orig =
      (hd (hd ?m) # PStr ''HEAD'' # map PStr hp @ PStr ''BODY'' # map PStr bp @ map (\<lambda>j. hd ?m ! j) (snd ?st)) #
      map (\<lambda>(i, row). map (source_cell orig (n = Some i) row) ?sources) (enumerate 0 (tl ?m))"
  proof -
    have "?m \<noteq> []" "hd ?m \<noteq> []" using assms by simp_all
    then show ?thesis unfolding rebuild_horizontal_matrix_def Let_def names n_def by (simp only: labels if_False)
  qed
  also have "\<dots> = map (\<lambda>line. line_cell f orig n line 0) ?lines # map (\<lambda>c. map (\<lambda>line. line_cell f orig n line c) ?lines) [Suc 0..<w]"
    unfolding first tl enumerate_from_one using row by (auto simp del: list.map)
  also have "\<dots> = grid [0..<w] ?lines (\<lambda>c line. line_cell f orig n line c)"
    using assms by (simp add: grid_def upt_conv_Cons)
  finally show ?thesis by (simp add: n_def)
qed

text \<open>
  C22. Bringing a table up to date with its message does not depend on which way round it is written: when every
  scenario of a vertical table has a name, the new table of the transpose is the transpose of the new table.
\<close>

theorem update_does_not_depend_on_orientation:
  assumes "rectangle m" "\<forall>x \<in> set (tl (hd m)). name_text x \<noteq> []"
  shows "rebuild_horizontal_matrix lb (flip m) head_paths body_paths orig =
    flip (rebuild_vertical_matrix lb m head_paths body_paths orig)"
proof -
  define h w f where "h = length m" and "w = length (hd m)" and "f = (\<lambda>r c. m ! r ! c)"
  have "m \<noteq> []" "hd m \<noteq> []" using assms(1) unfolding rectangle_def by blast+
  then have s: "0 < h" "0 < w" by (simp_all add: h_def w_def)
  have m: "m = grid [0..<h] [0..<w] f" unfolding h_def w_def f_def by (rule rectangle_grid[OF assms(1)])
  have names: "name_text (f 0 c) \<noteq> []" if "c < w" "c \<noteq> 0" for c
    using assms(2) that s unfolding m by (auto simp: map_tl[symmetric] tl_upt)
  let ?lines = "new_lines f (scan_columns None 1 (map (\<lambda>r. f r 0) [1..<h]) [] []) head_paths body_paths"
  have "?lines \<noteq> []" by (simp add: new_lines_def)
  then show ?thesis using s unfolding m
    by (simp add: flip_grid horizontal_lines vertical_lines[where f = f, OF s names])
qed

definition sample_labels :: source_labels where
  "sample_labels = \<lparr>lb_normal = ''ok'', lb_defaults = [''s1''], lb_null = ''#NULL'', lb_empty = ''#E'', lb_space = ''#S''\<rparr>"

theorem update_does_not_depend_on_orientation_witness:
  "rebuild_horizontal_matrix sample_labels (flip sample_table) [''$.b'', ''$.a''] [] (\<lambda>_. Some ''7'') =
    flip (rebuild_vertical_matrix sample_labels sample_table [''$.b'', ''$.a''] [] (\<lambda>_. Some ''7''))"
  by (rule update_does_not_depend_on_orientation; code_simp)

text \<open>
  A scenario without a name, which may have values, takes the place of a named one: the vertical table is cut to the
  number of names, and the last scenario is lost.
\<close>

lemma unnamed_scenario_cuts_table:
  "rebuild_vertical_matrix sample_labels
      [[PNone, PStr [], PStr ''b''], [PStr ''BODY'', PStr [], PStr []], [PStr ''x'', PStr ''1'', PStr ''2'']] [] [''x''] (\<lambda>_. None) =
    [[PNone, PStr []], [PStr ''HEAD'', PStr []], [PStr ''BODY'', PStr []], [PStr ''x'', PStr ''1'']]"
  by code_simp

end
