(* ===== verification/Spec2Isabelle.thy ===== *)
theory Spec2Isabelle
  imports Traffic Checked SavedTree CaseContents BatchRules TaskRules DataFieldsRules
begin

text \<open>
  The step engine of ForkRunner, an automated API test platform.

  A test case is a tree of steps. \<^verbatim>\<open>AutoTestStepExecutionEngine.execute_case\<close> runs its root steps in the
  order of their numbers in one execution context: variable pools, buffered logs, pending step details
  and the results. A step resolves the placeholders of its fields, does its work, extracts variables from
  what it received, checks its assertions and runs its children. Loops, conditions and quotes of other
  cases run further steps.

  Theories, in import order; paths are under \<^verbatim>\<open>src/applications/autotest/services\<close> unless said otherwise.

  \<^item> \<^verbatim>\<open>Prelude\<close>: fact collections, Python strings, dictionaries as association lists, stable sorting.
  \<^item> \<^verbatim>\<open>PyFloat\<close>, \<^verbatim>\<open>PyValue\<close>: binary64 numbers with rounding and printing, and the values of JSON with
    Python's equality, truth and \<^verbatim>\<open>str\<close>.
  \<^item> \<^verbatim>\<open>VarPool\<close>: \<^verbatim>\<open>autotest_runtime/util_kv.py\<close>, \<^verbatim>\<open>context.py\<close> and the pool of
    \<^verbatim>\<open>StepVariablesBase\<close>. A lookup reads the last entry of a key, an update replaces or appends.
  \<^item> \<^verbatim>\<open>AssertCompare\<close>: \<^verbatim>\<open>exchange/assert_compare.py\<close>, the comparison operators.
  \<^item> \<^verbatim>\<open>Placeholder\<close>: \<^verbatim>\<open>placeholders/\<close>, resolution of \<^verbatim>\<open>${...}\<close> and merging of numeric expressions.
  \<^item> \<^verbatim>\<open>StepTree\<close>, \<^verbatim>\<open>ExecFields\<close>: the step schema, the tree and field checks made before a run
    (\<^verbatim>\<open>validation/\<close>, \<^verbatim>\<open>schemas/autotest_step_schema.py\<close>).
  \<^item> \<^verbatim>\<open>XmlTree\<close>: \<^verbatim>\<open>src/common/xml_utils.py\<close> and \<^verbatim>\<open>xpath_utils.py\<close>, documents with their
    declaration, queries and updates in place.
  \<^item> \<^verbatim>\<open>Exchange\<close>: \<^verbatim>\<open>exchange/\<close>, extraction from responses and the assertion pipeline.
  \<^item> \<^verbatim>\<open>Difflib\<close>, \<^verbatim>\<open>DatagramDiff\<close>: \<^verbatim>\<open>datagram/datagram_diff.py\<close> over Python's sequence matcher, the
    comparison of two messages line by line or field by field.
  \<^item> \<^verbatim>\<open>PyCode\<close>: the code of Python steps, from its placeholders to the check of its syntax tree and the
    import policy (\<^verbatim>\<open>sandbox.py\<close>).
  \<^item> \<^verbatim>\<open>Datagram\<close>, \<^verbatim>\<open>XmlMessage\<close>: \<^verbatim>\<open>datagram/json_replace.py\<close> and \<^verbatim>\<open>xml_replace.py\<close>, the injection
    of a data set into a message, and the placeholders within XML documents.
  \<^item> \<^verbatim>\<open>Protocol\<close>, \<^verbatim>\<open>TcpFrame\<close>: \<^verbatim>\<open>protocol_http.py\<close>, \<^verbatim>\<open>protocol_tcp.py\<close> and
    \<^verbatim>\<open>src/common/request/tcp_async_utils.py\<close>, the parts of a request and the framing of a stream.
  \<^item> \<^verbatim>\<open>EngineState\<close>, \<^verbatim>\<open>Requests\<close>, \<^verbatim>\<open>Network\<close>, \<^verbatim>\<open>Executors\<close>, \<^verbatim>\<open>Engine\<close>:
    \<^verbatim>\<open>autotest_step_engine.py\<close>; the context record and its effects as an outcome type (\<^verbatim>\<open>Done\<close>,
    \<^verbatim>\<open>Fail\<close> with an exception, \<^verbatim>\<open>Stuck\<close> out of levels), the executors of database, Redis, Python,
    comparison, HTTP and TCP steps, the executors that run children, and the recursion that ties them.
  \<^item> \<^verbatim>\<open>EngineFrame\<close>, \<^verbatim>\<open>RequestFrame\<close>, \<^verbatim>\<open>NetworkFrame\<close>, \<^verbatim>\<open>Runner\<close>, \<^verbatim>\<open>Levels\<close>, \<^verbatim>\<open>Control\<close>,
    \<^verbatim>\<open>CaseRun\<close>, \<^verbatim>\<open>Checked\<close>: what running a step may change, the interface \<^verbatim>\<open>step_runner\<close> between
    executors and engine, nesting levels, control flow, whole cases, and the agreement of the field checks
    with the executors.
  \<^item> \<^verbatim>\<open>StepSamples\<close>, \<^verbatim>\<open>Samples\<close>, \<^verbatim>\<open>Traffic\<close>: concrete steps and contexts on which theorems are applied, and
    what HTTP and TCP steps promise.
  \<^item> \<^verbatim>\<open>StepStore\<close>, \<^verbatim>\<open>StepSave\<close>, \<^verbatim>\<open>StepLoad\<close>: \<^verbatim>\<open>autotest_step_crud.py\<close>, the view that saves a tree
    (\<^verbatim>\<open>views/autotest_step_view.py\<close>) and \<^verbatim>\<open>autotest_data_source_crud.py\<close>; the tables of cases, steps and data
    sources, saving a submitted tree with its checks, and loading the tree of a case.
  \<^item> \<^verbatim>\<open>StoreSamples\<close>, \<^verbatim>\<open>SavedTree\<close>, \<^verbatim>\<open>StoreRules\<close>, \<^verbatim>\<open>CaseContents\<close>: a tree that is saved loads back, what
    saving keeps of the tables and where its checks fail, and the steps a case has after its tree is saved.
  \<^item> \<^verbatim>\<open>Batch\<close>, \<^verbatim>\<open>BatchRules\<close>: runs of stored cases by rounds and data sets and the summaries of a batch; the
    interface \<^verbatim>\<open>case_runner\<close> states what the loops use of one run.
  \<^item> \<^verbatim>\<open>Calendar\<close>, \<^verbatim>\<open>Schedule\<close>, \<^verbatim>\<open>ScheduleRules\<close>, \<^verbatim>\<open>ScheduleText\<close>: Python's calendar and
    \<^verbatim>\<open>autotest_task_schedule.py\<close>, the check of a schedule, the last moment it fired, and its preview. The search
    looks back 62 days for months, which suffices because no two neighbouring months lack the same day.
  \<^item> \<^verbatim>\<open>Tasks\<close>, \<^verbatim>\<open>TaskRules\<close>: \<^verbatim>\<open>autotest_task_crud.py\<close> and
    \<^verbatim>\<open>src/celery_scheduler/tasks/task_autotest_case.py\<close>, the right to run a task, its run with the batch, the
    scan, and the steps of workers, users and time on the tables as a relation.
  \<^item> \<^verbatim>\<open>DataMatrix\<close>, \<^verbatim>\<open>DataMatrixRules\<close>: \<^verbatim>\<open>autotest_data_source_parser.py\<close>, tables of scenarios with
    what pandas does to their cells, and the agreement of a table with its transpose.
  \<^item> \<^verbatim>\<open>DataFields\<close>, \<^verbatim>\<open>DataFieldsRules\<close>: \<^verbatim>\<open>autotest_data_source_service.py\<close>, the paths of a message and
    the table that follows it.

  State. The context record \<^verbatim>\<open>ctx\<close> holds the fields of \<^verbatim>\<open>StepExecutionContext\<close>. Pools are kept in a
  store of numbered pool objects, because a quote step exchanges the session pool object while callers
  keep the old one: which object a later merge reads is part of the behaviour.

  Levels. \<^verbatim>\<open>exec_step env n\<close> runs a step with \<^verbatim>\<open>n\<close> levels of nesting left; \<^verbatim>\<open>fits env n s\<close> says that the
  tree of \<^verbatim>\<open>s\<close>, quoted cases included, is at most that deep, and that no code of a Python step has a
  placeholder within quotes: the resolution of such a code may run for ever, as \<^verbatim>\<open>PyCode\<close> shows.
  \<^verbatim>\<open>Stuck\<close> means too few levels; a tree that fits is never stuck, and more levels do not change an
  answer. A step without quotes fits its own depth.

  Parameters. The environment record \<^verbatim>\<open>engine_env\<close> stands for what the engine calls and the repository
  does not define: the clock, JSON parsing and printing, the search of JSONPath, XPath and regular
  expressions (\<^verbatim>\<open>en_xch\<close>, \<^verbatim>\<open>en_find\<close>, \<^verbatim>\<open>en_query\<close>), text encodings (\<^verbatim>\<open>en_codec\<close>), URL quoting
  (\<^verbatim>\<open>en_quote\<close>, \<^verbatim>\<open>en_unquote\<close>), the HTTP client and the TCP streams (\<^verbatim>\<open>en_http\<close>, \<^verbatim>\<open>en_tcp\<close>), the
  database queries for cases, step trees, data sets and projects, the statements run on databases and Redis
  (\<^verbatim>\<open>en_operate\<close>), and the parser and the interpreter of Python code (\<^verbatim>\<open>en_parse\<close>, \<^verbatim>\<open>en_run_code\<close>).
  The message comparison takes the labels of step types, the texts of errors and the tests for well-formed
  JSON and XML from it. Clients, servers and the clock also get the current clock index, so that two equal
  requests may have different answers.

  The tables of \<^verbatim>\<open>StepStore\<close> are lists of rows in the order of insertion. An operation returns an error or the
  new tables, because an exception rolls the transaction back. \<^verbatim>\<open>get_case_tree n\<close> loads with \<^verbatim>\<open>n\<close> levels of
  nesting; the code has no bound, and \<^verbatim>\<open>TooDeep\<close> says that the levels did not suffice.

  A moment is a number of microseconds on the local calendar. \<^verbatim>\<open>service_step\<close> takes from Celery that no run
  outlives its hard time limit and that a message may be delivered again. An edit of a task is one of its steps when
  it is saved at once; an edit that reads the row before a claim and saves it afterwards is not, nor is the restoring
  of a deleted task: \<^verbatim>\<open>edit_takes_claim_back\<close> and \<^verbatim>\<open>restored_task_runs_twice\<close> show that both let a second run start.

  Not modelled: the web layer, the CRUD of cases, reports, projects and environments, the checks of a new task and its copy,
  the constraints of the database and the data scopes of users, the parallel mode of a batch, the reading
  and writing of Excel files, the records of Celery and the AI data generator; the time limits of requests, measured durations, and the
  in-place change of the body of a step that is run again. Times are kept as clock readings. Floats print through
  their shortest decimal form as Python's \<^verbatim>\<open>repr\<close>; Unicode is restricted to code points below 256, the type
  \<^verbatim>\<open>char\<close>.

  Properties are numbered. This theory states those of whole runs; those of the parts stand in the
  theories of the parts.
\<close>


section \<open>Runs of the samples\<close>

text \<open>What the examples below use of the runs of sample steps, evaluated together.\<close>

lemma sample_runs:
  "is_done (exec_step sample_env 5 (quote_step 1 ''q'' 1 []) sample_ctx) \<and>
   final_state (execute_quote sample_env (exec_step sample_env 4) quote_script (quote_step 1 ''q'' 3 [])
     (sample_ctx, new_result (sdata (quote_step 1 ''q'' 3 [])) True None)) \<noteq> None \<and>
   c_next_pool sample_ctx = 1 \<and> get_item_from_list (session sample_ctx) ''a'' = Some (mk_var ''a'' (PInt 1)) \<and>
   is_done (execute_count_loop sample_env (exec_step sample_env 1) LS_CONTINUE (count_loop 1 ''L'' ''2'' LS_CONTINUE [bad_wait 1 ''b''])
     (sample_ctx, new_result blank_data True None)) \<and>
   (case resolve_loop_maximums sample_env (sdata (count_loop 1 ''L'' ''2'' LS_CONTINUE [bad_wait 1 ''b''])) sample_ctx of
     Done c1 k \<Rightarrow> k = 2 | _ \<Rightarrow> False) \<and>
   final_state (execute_loop sample_env (exec_step sample_env 1) (count_loop 1 ''L'' ''3'' LS_BREAK [bad_wait 1 ''b''])
     (sample_ctx, new_result blank_data True None)) \<noteq> None \<and>
   is_done (execute_condition sample_env (exec_step sample_env 1) (else_branch 1 ''E'' [bad_wait 2 ''b''])
     (sample_ctx, new_result blank_data True None)) \<and>
   map_option (\<lambda>c. get_item_from_list (session c) ''z'') (done_state (exec_step sample_env 5 (quote_step 1 ''q'' 1 []) sample_ctx)) = Some None \<and>
   map_option (\<lambda>c. get_item_from_list (session c) ''z'') (done_state (exec_step sample_env 5 (quote_step 1 ''q'' 3 []) sample_ctx)) =
     Some (Some (mk_var ''z'' (PInt 7))) \<and>
   (case execute_body sample_env (exec_step sample_env 1) (copy_step 1 ''c'' ''none'' ''z'') (sample_ctx, new_result blank_data True None) of
     Fail st e \<Rightarrow> True | _ \<Rightarrow> False) \<and>
   validate_executor_fields [else_branch 1 ''E'' [wait_step 2 ''w'']] = [] \<and> validate_executor_fields [copy_step 1 ''c'' ''none'' ''z''] = [] \<and>
   is_done (run_operates sample_env SqlOperate two_statements 0 (database_operates (sdata two_statements))
     (database_ctx, new_result (sdata two_statements) True None)) \<and>
   \<not> stops_when_found SqlOperate (sdata two_statements) \<and> length (database_operates (sdata two_statements)) = 2 \<and>
   res_success (new_result (sdata two_statements) True None)"
  by code_simp

section \<open>Running a case\<close>

text \<open>
  C1. A case whose root steps have a type, whose nesting fits the levels and whose Python codes have no
  placeholder within quotes always runs to its end:
  no step's failure stops it. It returns exactly one result for every root step that is not marked as
  skipped, in the order of the step numbers.
\<close>

theorem case_runs_every_root:
  assumes "\<forall>s \<in> set steps. step_type (sdata s) \<noteq> None" and "\<forall>s \<in> set steps. fits env n s"
  shows "\<exists>c out. execute_case env n cid cfg rc vars ds steps = Done c out \<and>
    map result_ident (co_results out) =
      map step_ident (filter (\<lambda>s. \<not> step_is_skipped (sdata s)) (sort_steps (map prepare_step steps)))"
proof -
  obtain c rs where m: "run_roots (exec_step env n) (sort_steps (map prepare_step steps)) (init_ctx env cid cfg rc vars ds) = Done c rs"
    using roots_end[OF assms] by blast
  from describes_idents[OF engine.run_roots_results[OF m]] m show ?thesis
    by (simp add: execute_case_def finish_case_def Let_def)
qed

theorem case_runs_every_root_witness:
  "\<exists>c out. execute_case sample_env 2 1 [] (Some ''rep'') [] None
      [wait_step 2 ''w'', count_loop 1 ''L'' ''3'' LS_STOP [bad_wait 1 ''b'']] = Done c out \<and>
    map result_ident (co_results out) = map step_ident (filter (\<lambda>s. \<not> step_is_skipped (sdata s))
      (sort_steps (map prepare_step [wait_step 2 ''w'', count_loop 1 ''L'' ''3'' LS_STOP [bad_wait 1 ''b'']])))"
  by (rule case_runs_every_root; code_simp)

text \<open>
  C2. Running a step with a type, with enough levels and no placeholder within quotes in a Python code, never
  raises: it returns a result unless the step is
  skipped, the result carries the step's identity, and no result of its tree is a success with an error.
\<close>

theorem step_returns_result:
  assumes "step_type (sdata s) \<noteq> None" "\<not> step_is_skipped (sdata s)" "fits env n s"
  shows "\<exists>c' r. exec_step env n s c = Done c' (Some r) \<and> describes (sdata s) r \<and> sound r"
proof (cases "exec_step env n s c")
  case (Done c' q)
  with engine.run_skips[OF Done] assms(2) obtain r where "q = Some r" by (cases q) auto
  with Done engine.run_result show ?thesis by blast
next
  case (Fail c' e)
  with engine.run_typed[OF assms(1)] show ?thesis by blast
next
  case Stuck
  with settled.settled[OF assms(3)] show ?thesis by blast
qed

theorem step_returns_result_witness:
  "\<exists>c' r. exec_step sample_env 1 (bad_wait 1 ''b'') sample_ctx = Done c' (Some r) \<and>
     describes (sdata (bad_wait 1 ''b'')) r \<and> sound r"
  by (rule step_returns_result; code_simp)

text \<open>
  C3. The report of a case agrees with its results: the case has passed exactly when every counted result
  is a success (the shell of a quote step with results below it is not counted), a step code counts as
  failed when one of its counted results failed, and passed and failed codes add up to all of them.
\<close>

theorem report_matches_results:
  assumes "execute_case env n cid cfg (Some code) vars ds steps = Done c out" "code \<noteq> []"
  shows "\<exists>rp. co_report out = Some rp \<and> rp_code rp = code \<and>
    rp_state rp = (\<forall>i \<in> set (counted_results (co_results out)). r_success i) \<and>
    total_steps (rp_statistics rp) = card (codes_of (counted_results (co_results out))) \<and>
    failed_steps (rp_statistics rp) = card (failed_codes (counted_results (co_results out))) \<and>
    success_steps (rp_statistics rp) + failed_steps (rp_statistics rp) = total_steps (rp_statistics rp)"
proof -
  let ?c0 = "init_ctx env cid cfg (Some code) vars ds"
  let ?m = "run_roots (exec_step env n) (sort_steps (map prepare_step steps)) ?c0"
  from assms(1) obtain rs where m: "?m = Done c rs" "out = finish_case rs c"
    by (cases ?m) (auto simp: execute_case_def)
  have "step_frame ?c0 c" using engine.run_roots_stays[of ?c0 env n] m(1) by (metis stays_simps(1))
  then have "c_report_code c = Some code"
    by (simp add: step_frame_def frame_def same_case_def init_ctx_def split: prod.splits)
  with m(2) assms(2) show ?thesis
    using statistics_counts[of rs] failed_codes_empty[of "counted_results rs"]
    by (auto simp: finish_case_def Let_def make_report_def truthy_text_def)
qed

theorem report_matches_results_witness:
  "\<exists>c out rp. execute_case sample_env 1 1 [] (Some ''rep'') [] None [wait_step 2 ''w'', bad_wait 1 ''b''] = Done c out \<and>
     co_report out = Some rp \<and> rp_state rp = (\<forall>i \<in> set (counted_results (co_results out)). r_success i)"
proof -
  let ?ss = "[wait_step 2 ''w'', bad_wait 1 ''b'']"
  have "\<forall>s \<in> set ?ss. step_type (sdata s) \<noteq> None" "\<forall>s \<in> set ?ss. fits sample_env 1 s" by code_simp+
  from case_ends[OF this] obtain c out where
    o: "execute_case sample_env 1 1 [] (Some ''rep'') [] None ?ss = Done c out" by blast
  from report_matches_results[OF o] o show ?thesis by auto
qed

section \<open>Effects of a step on the context\<close>



text \<open>
  C24. Take a quote step whose script exists and has root steps, in a case whose pools have distinct keys. However
  the quote ends, with a result or with an exception, a variable of the host case then has the value the script's
  own pool ended with when that pool has the variable, and its old value otherwise: no variable of the host is lost.
\<close>

theorem quote_script_lookup:
  assumes "truthy_id (quote_case_id (sdata s))"
    and "en_find_case env (the (quote_case_id (sdata s))) PUBLIC_SCRIPT = CaseFound stored"
    and "en_case_tree env (the (quote_case_id (sdata s))) = Some roots" "roots \<noteq> []"
    and "final_state (execute_quote env (exec_step env n) quote_script s (c, r)) = Some (c', r')"
    and "pool_ok c"
  shows "get_item_from_list (session c') k = (case get_item_from_list (c_pools c' (c_next_pool c)) k of
      Some v \<Rightarrow> Some v | None \<Rightarrow> get_item_from_list (session c) k)"
  using engine.quote_script_pool[OF assms(1-5)] assms(6)
  by (simp add: pool_ok_def merge_back_session_pool_def get_merge_by_key get_append)

theorem quote_script_lookup_witness:
  "\<exists>c' r'. final_state (execute_quote sample_env (exec_step sample_env 4) quote_script (quote_step 1 ''q'' 3 [])
       (sample_ctx, new_result (sdata (quote_step 1 ''q'' 3 [])) True None)) = Some (c', r') \<and>
     get_item_from_list (session c') ''a'' = (case get_item_from_list (c_pools c' 1) ''a'' of
       Some v \<Rightarrow> Some v | None \<Rightarrow> Some (mk_var ''a'' (PInt 1)))"
proof -
  let ?s = "quote_step 1 ''q'' 3 []"
  let ?m = "execute_quote sample_env (exec_step sample_env 4) quote_script ?s (sample_ctx, new_result (sdata ?s) True None)"
  have "final_state ?m \<noteq> None" using sample_runs by blast
  then obtain c' r' where o: "final_state ?m = Some (c', r')" by auto
  have "pool_ok sample_ctx"
    by (simp add: pool_ok_def sample_ctx_def init_ctx_def mk_var_def split: prod.splits)
  from quote_script_lookup[OF _ _ _ _ o this, of "[mk_var ''y'' (PInt 7)]" "[copy_step 1 ''c'' ''y'' ''z'']" "''a''"]
  have "get_item_from_list (session c') ''a'' = (case get_item_from_list (c_pools c' (c_next_pool sample_ctx)) ''a'' of
      Some v \<Rightarrow> Some v | None \<Rightarrow> get_item_from_list (session sample_ctx) ''a'')"
    by (simp add: sample_defs truthy_id_def)
  moreover have n: "c_next_pool sample_ctx = 1" by (simp only: sample_runs)
  moreover have a: "get_item_from_list (session sample_ctx) ''a'' = Some (mk_var ''a'' (PInt 1))" by (simp only: sample_runs)
  ultimately show ?thesis using o unfolding n a by blast
qed

text \<open>
  Around a step the markers of the running step and of the quote chain are put back, the log lines of
  every step are only extended, and saved details are only appended.
\<close>

theorem step_keeps_records:
  assumes "exec_step env n s c = Done c' r"
  shows "c_current c' = c_current c \<and> c_quote_case c' = c_quote_case c \<and> c_quote_parent c' = c_quote_parent c \<and>
    c_quote_dataset_name c' = c_quote_dataset_name c \<and> c_quote_dataset c' = c_quote_dataset c \<and>
    (\<forall>k. \<exists>l. logs_of (c_logs c') k = logs_of (c_logs c) k @ l) \<and>
    (\<exists>ds. c_pending c' = map_option (\<lambda>x. x @ ds) (c_pending c))"
  using engine.run_stays[of c env n s] assms
  by (auto simp: step_frame_def frame_def same_marks_def logs_grow_def details_grow_def)

theorem step_keeps_records_witness:
  "\<exists>c' r. exec_step sample_env 5 (quote_step 1 ''q'' 1 []) sample_ctx = Done c' r \<and>
     c_quote_case c' = c_quote_case sample_ctx \<and> (\<exists>ds. c_pending c' = map_option (\<lambda>x. x @ ds) (c_pending sample_ctx))"
proof -
  have "is_done (exec_step sample_env 5 (quote_step 1 ''q'' 1 []) sample_ctx)" by (simp only: sample_runs)
  then obtain c' r where o: "exec_step sample_env 5 (quote_step 1 ''q'' 1 []) sample_ctx = Done c' r"
    by (rule is_doneE)
  from step_keeps_records[OF o] o show ?thesis by blast
qed

section \<open>Loops and branches\<close>

text \<open>A round of a loop that goes on after failures never breaks it off, and so all rounds are run.\<close>

lemma round_goes_on:
  assumes "\<forall>x \<in> set (executor_children s). fits env n x"
  shows "\<exists>st'. execute_loop_round (exec_step env n) mode LS_CONTINUE s no vs st = Done st' True"
proof -
  have "execute_loop_round (exec_step env n) mode LS_CONTINUE s no vs st \<noteq> Stuck"
    using assms by (rule settled.settled_round)
  moreover have "\<exists>st'. attach_children mode LS_CONTINUE s rs st1 = Done st' True"
    if "attach_children mode LS_CONTINUE s rs st1 \<noteq> Stuck" for rs st1
  proof (cases "attach_children mode LS_CONTINUE s rs st1")
    case (Done st' b)
    with attach_continue(1)[OF this] show ?thesis by simp
  qed (use that attach_continue(2) in auto)
  ultimately show ?thesis
    by (auto simp: execute_loop_round_def Let_def split: outcome.splits exn.splits)
qed

lemma short_sleep_done:
  assumes "\<forall>t. loop_interval (sdata s) = Some t \<longrightarrow> t \<le> 300"
  shows "\<exists>st'. loop_sleep s st = Done st' ()"
  using assms by (cases st) (auto simp: loop_sleep_def ctx_sleep_def on_ctx_def split: option.splits)

lemma rounds_go_on:
  assumes "\<forall>x \<in> set (executor_children s). fits env n x" "\<forall>t. loop_interval (sdata s) = Some t \<longrightarrow> t \<le> 300"
  shows "\<forall>p \<in> set rounds. all_some (map loop_var (snd p)) \<noteq> None \<Longrightarrow>
    \<exists>st'. run_rounds (exec_step env n) mode LS_CONTINUE s k rounds st = Done st' True"
proof (induction rounds arbitrary: st)
  case (Cons p rounds)
  obtain no kvs where p: "p = (no, kvs)" by fastforce
  with Cons.prems obtain vars where v: "all_some (map loop_var kvs) = Some vars" by auto
  obtain st1 where r1: "execute_loop_round (exec_step env n) mode LS_CONTINUE s no vars st = Done st1 True"
    using round_goes_on[OF assms(1)] by blast
  obtain st2 where r2: "(if no < k then loop_sleep s st1 else Done st1 ()) = Done st2 ()"
    using short_sleep_done[OF assms(2), of st1] by (cases "no < k") auto
  from Cons obtain st3 where "run_rounds (exec_step env n) mode LS_CONTINUE s k rounds st2 = Done st3 True" by fastforce
  with p v r1 r2 show ?case by simp
qed simp





text \<open>
  Of the results of a round a loop that continues keeps all; one that breaks or stops keeps those up to
  and including the first failure and drops the results of the children that ran after it. The loop step
  succeeds exactly when it did before and every result of the round does.
\<close>

theorem round_attaches_by_strategy:
  "\<exists>c' r'. final_state (attach_children mode on_error s rs (c, r)) = Some (c', r') \<and>
     rchildren r' = rchildren r @ (if on_error = LS_CONTINUE then rs
       else takeWhile res_success rs @ take 1 (dropWhile res_success rs)) \<and>
     res_success r' = (res_success r \<and> list_all res_success rs)"
  using attach_children_state[of mode on_error s rs "(c, r)"] by (simp add: kept_def)

text \<open>
  The children of a taken branch are run in order and attached; the condition step is then a success,
  however they ended.
\<close>

theorem branch_children_do_not_fail_step:
  assumes "find_branch env 0 (branch_items s) c = Done c1 (Some (i, b))" "branch_items s \<noteq> []"
    and "execute_condition env (exec_step env n) s (c, r) = Done (c', r') ()"
    and "\<forall>x \<in> set (br_children b). step_type (sdata x) \<noteq> None"
  shows "res_success r' \<and> (\<exists>xs. rchildren r' = rchildren r @ xs \<and>
    map result_ident xs = map step_ident (filter (\<lambda>x. \<not> step_is_skipped (sdata x)) (sort_steps (br_children b))))"
  by (rule engine.branch_results[OF assms])

theorem branch_children_do_not_fail_step_witness:
  "\<exists>st. done_state (execute_condition sample_env (exec_step sample_env 1) (else_branch 1 ''E'' [bad_wait 2 ''b''])
       (sample_ctx, new_result blank_data True None)) = Some st \<and> res_success (snd st)"
proof -
  let ?s = "else_branch 1 ''E'' [bad_wait 2 ''b'']"
  let ?b = "Branch BR_ELSE None None [bad_wait 2 ''b'']"
  let ?m = "execute_condition sample_env (exec_step sample_env 1) ?s (sample_ctx, new_result blank_data True None)"
  have "is_done ?m" by (simp only: sample_runs)
  then obtain c' r' where o: "?m = Done (c', r') ()" by (rule is_doneE) auto
  have f: "find_branch sample_env 0 (branch_items ?s) sample_ctx = Done sample_ctx (Some (0, ?b))"
    by (simp add: else_branch_def)
  have "res_success r' \<and> (\<exists>xs. rchildren r' = rchildren (new_result blank_data True None) @ xs \<and>
    map result_ident xs = map step_ident (filter (\<lambda>x. \<not> step_is_skipped (sdata x)) (sort_steps (br_children ?b))))"
    by (rule branch_children_do_not_fail_step[OF f _ o]) (simp_all add: sample_defs)
  with o show ?thesis by (simp add: done_state_def)
qed

text \<open>
  The branch taken is one of the branches, and every branch before it has a condition and is not an
  else branch: nothing after an else branch is reached.
\<close>

theorem branch_taken_is_first:
  assumes "find_branch env 0 bs c = Done c' (Some (i, b))"
  shows "i < length bs \<and> bs ! i = b \<and> (\<forall>k < i. br_type (bs ! k) \<noteq> BR_ELSE \<and> br_conditions (bs ! k) \<noteq> None)"
  using find_branch_first[OF assms] by simp

theorem branch_taken_is_first_witness:
  "(0::nat) < length [Branch BR_ELSE None None [], Branch BR_IF None None []] \<and>
   [Branch BR_ELSE None None [], Branch BR_IF None None []] ! 0 = Branch BR_ELSE None None []"
  using branch_taken_is_first[of sample_env "[Branch BR_ELSE None None [], Branch BR_IF None None []]" sample_ctx
      sample_ctx 0 "Branch BR_ELSE None None []"] by simp

section \<open>Nesting\<close>

text \<open>
  Once the levels cover the nesting of a step, quoted cases included, and no Python code in it has a
  placeholder within quotes, the step is run to its end and more levels give the very same outcome.
\<close>

theorem levels_suffice:
  assumes "fits env n s"
  shows "exec_step env n s c \<noteq> Stuck \<and> exec_step env (n + m) s c = exec_step env n s c"
  using settled.settled[OF assms] exec_step_more_levels by blast

theorem levels_suffice_witness:
  "exec_step sample_env 3 (quote_step 1 ''q'' 1 []) sample_ctx \<noteq> Stuck \<and>
   exec_step sample_env (3 + 7) (quote_step 1 ''q'' 1 []) sample_ctx = exec_step sample_env 3 (quote_step 1 ''q'' 1 []) sample_ctx"
  by (rule levels_suffice) code_simp

section \<open>Logs and statistics\<close>

text \<open>
  The log of a root step gains, for every result below it, all the lines logged for that result's step:
  the lines of a child that ran several times in a loop are added that many times.
\<close>

theorem root_log_gains:
  "mset (logs_of (c_logs (aggregate_root_step_logs r code c)) (Some code)) =
     mset (logs_of (c_logs c) (Some code)) +
     sum_mset (image_mset (\<lambda>k. mset (logs_of (c_logs c) (Some k))) (mset (child_step_codes r)))"
proof -
  have "logs_of (c_logs (aggregate_root_step_logs r code c)) (Some code) =
      logs_of (c_logs c) (Some code) @ aggregated_logs (c_logs c) r"
    by (simp add: aggregate_root_step_logs_def logs_of_def map_of_update)
  then show ?thesis by (simp add: aggregated_logs_mset)
qed

text \<open>
  A failed quote step whose inner results all succeed leaves the case passed: its own failure is not
  counted.
\<close>

theorem quote_shell_failure_uncounted:
  assumes "is_quote (r_step_type i)" "cs \<noteq> []" "\<forall>x \<in> set (counted_results cs). r_success x"
  shows "failed_steps (statistics_of (states_of [Result i cs])) = 0"
proof -
  have "counted_results [Result i cs] = counted_results cs"
    using assms(1,2) by (simp add: counted_results_def collect_all_results_def counted_def)
  with assms(3) statistics_counts(2)[of "[Result i cs]"] show ?thesis by (simp add: failed_codes_empty)
qed

theorem quote_shell_failure_uncounted_witness:
  "failed_steps (statistics_of (states_of [Result (rinfo (new_result (named 1 ''q'' QUOTE_PUBLIC_SCRIPT) False None))
     [new_result (named 1 ''w'' WAIT) True None]])) = 0"
  by (rule quote_shell_failure_uncounted; code_simp)

section \<open>Nested quotes\<close>

text \<open>
  A script that quotes another script and then extracts a variable loses it: the inner quote gives the
  context a new pool object, and the outer one merges back the object it started with. Without the
  inner quote the host case receives the variable.
\<close>

theorem nested_quote_loses_variables:
  "map_option (\<lambda>c. get_item_from_list (session c) ''z'') (done_state (exec_step sample_env 5 (quote_step 1 ''q'' 1 []) sample_ctx))
     = Some None \<and>
   map_option (\<lambda>c. get_item_from_list (session c) ''z'') (done_state (exec_step sample_env 5 (quote_step 1 ''q'' 3 []) sample_ctx))
     = Some (Some (mk_var ''z'' (PInt 7)))"
  by (simp only: sample_runs)

section \<open>Checks before a run\<close>

text \<open>
  The check of a step tree reports nothing exactly when every step of the tree, in children, branches
  and quoted steps alike, has a type and all the fields its type requires.
\<close>

theorem fields_check_is_complete:
  "validate_executor_fields steps = [] \<longleftrightarrow> (\<forall>s \<in> set steps. \<forall>x \<in> set (nodes s). complete x)"
  by (auto simp: validate_executor_fields_def check_fields_complete)

theorem fields_check_is_complete_witness:
  "complete (else_branch 1 ''E'' [wait_step 2 ''w'']) \<and> complete (wait_step 2 ''w'')"
proof -
  have "validate_executor_fields [else_branch 1 ''E'' [wait_step 2 ''w'']] = []" by (simp only: sample_runs)
  with fields_check_is_complete[of "[else_branch 1 ''E'' [wait_step 2 ''w'']]"] show ?thesis
    by (simp add: sample_defs)
qed



section \<open>Operations of database and Redis steps\<close>

text \<open>
  C29. When the operations of a database or Redis step run to the end and do not stop at the first result,
  every one of them has an entry in the response, whatever became of those before it. The step stays a
  success exactly when each left its two variables, its data and its count.
\<close>

theorem operations_all_answer:
  assumes "run_operates env cls s 0 ops st = Done st' (ms, rs)" "\<not> stops_when_found cls (sdata s)"
  shows "length rs = length ops \<and> (res_success (snd st') \<longleftrightarrow> res_success (snd st) \<and> length ms = 2 * length ops)"
  using run_operates_counts[OF assms] by simp

theorem operations_all_answer_witness:
  "\<exists>st' ms rs. run_operates sample_env SqlOperate two_statements 0 (database_operates (sdata two_statements))
     (database_ctx, new_result (sdata two_statements) True None) = Done st' (ms, rs) \<and>
     length rs = 2 \<and> (res_success (snd st') \<longleftrightarrow> True \<and> length ms = 2 * 2)"
proof -
  let ?st = "(database_ctx, new_result (sdata two_statements) True None)"
  let ?ops = "database_operates (sdata two_statements)"
  have "is_done (run_operates sample_env SqlOperate two_statements 0 ?ops ?st)" by (simp only: sample_runs)
  then obtain st' ms rs where d: "run_operates sample_env SqlOperate two_statements 0 ?ops ?st = Done st' (ms, rs)"
    by (metis is_doneE surj_pair)
  have "\<not> stops_when_found SqlOperate (sdata two_statements)" "length ?ops = 2" "res_success (snd ?st)"
    using sample_runs by simp_all
  with operations_all_answer[OF d] d show ?thesis by auto
qed

end
